(* ===== verification/Prelude.thy ===== *)
theory Prelude
  imports Complex_Main "HOL-Library.AList" "HOL-Library.List_Lexorder" "HOL-Library.Char_ord"
    "HOL-Library.Product_Lexorder" "HOL-Library.Multiset"
begin

text \<open>
  The vocabulary every other theory of the development uses: Python values and dicts,
  exceptions as values, string helpers, slicing, stable sorting and the JSON files of the
  file-backed stores.

  Conventions.  A Python \<^verbatim>\<open>str\<close> is a \<open>string\<close> holding its UTF-8 bytes, so code points
  outside ASCII are several characters.  A \<^verbatim>\<open>dict\<close> with string keys is an association list
  with distinct keys in insertion order: \<open>AList.update\<close> overwrites in place or appends,
  exactly as Python does.  Python's unbounded integers are \<open>int\<close>; floats are exact
  rationals (\<open>rat\<close>), so rounding is not modelled, except that a power beyond the largest
  double raises \<^verbatim>\<open>OverflowError\<close>.  Timestamps are integers (microseconds).
\<close>

named_theorems frame_simps "what an operation leaves unchanged"
named_theorems step_simps "the effect of one operation on the fields it writes"

section \<open>Python values\<close>

datatype pyval =
    PNone
  | PBool bool
  | PInt int
  | PFloat rat
  | PStr string
  | PTime int
  | PList "pyval list"
  | PDict "(string \<times> pyval) list"

type_synonym 'v dict = "(string \<times> 'v) list"
type_synonym pydict = "pyval dict"

definition dict_ok :: "'v dict \<Rightarrow> bool" where
  "dict_ok d \<longleftrightarrow> distinct (map fst d)"

text \<open>\<^verbatim>\<open>d.get(k)\<close> and \<^verbatim>\<open>d.setdefault(k, v)\<close> and \<^verbatim>\<open>d.update(e)\<close>.\<close>

definition dget :: "'v dict \<Rightarrow> string \<Rightarrow> 'v option" where
  "dget d k = map_of d k"

definition dset :: "string \<Rightarrow> 'v \<Rightarrow> 'v dict \<Rightarrow> 'v dict" where
  "dset k v d = AList.update k v d"

definition dsetdefault :: "string \<Rightarrow> 'v \<Rightarrow> 'v dict \<Rightarrow> 'v dict" where
  "dsetdefault k v d = (if dget d k = None then dset k v d else d)"

definition ddel :: "string \<Rightarrow> 'v dict \<Rightarrow> 'v dict" where
  "ddel k d = AList.delete k d"

fun dupdate :: "'v dict \<Rightarrow> 'v dict \<Rightarrow> 'v dict" where
  "dupdate d [] = d"
| "dupdate d ((k, v) # e) = dupdate (dset k v d) e"

definition dkeys :: "'v dict \<Rightarrow> string list" where
  "dkeys d = map fst d"

definition dvalues :: "'v dict \<Rightarrow> 'v list" where
  "dvalues d = map snd d"

lemma dget_Nil [simp]: "dget [] k = None"
  by (simp add: dget_def)

lemma dget_dset [simp]: "dget (dset k v d) k' = (if k' = k then Some v else dget d k')"
  by (simp add: dget_def dset_def update_conv')

lemma dget_ddel [simp]: "dget (ddel k d) k' = (if k' = k then None else dget d k')"
  by (simp add: dget_def ddel_def delete_conv')

lemma dict_ok_Nil [simp]: "dict_ok []"
  by (simp add: dict_ok_def)

lemma dict_ok_dset [simp]: "dict_ok d \<Longrightarrow> dict_ok (dset k v d)"
  by (simp add: dict_ok_def dset_def distinct_update)

lemma dict_ok_ddel [simp]: "dict_ok d \<Longrightarrow> dict_ok (ddel k d)"
  by (simp add: dict_ok_def ddel_def distinct_delete)

lemma dkeys_dset_set: "set (dkeys (dset k v d)) = insert k (set (dkeys d))"
  by (simp add: dkeys_def dset_def dom_update)

lemma dget_Some_iff: "dict_ok d \<Longrightarrow> dget d k = Some v \<longleftrightarrow> (k, v) \<in> set d"
  by (simp add: dict_ok_def dget_def)

lemma dget_None_iff: "dget d k = None \<longleftrightarrow> k \<notin> set (dkeys d)"
  by (simp add: dget_def dkeys_def map_of_eq_None_iff)

text \<open>Keys of merged dicts: the later one wins.\<close>

lemma dget_dupdate: "dict_ok e \<Longrightarrow> dget (dupdate d e) k = (case dget e k of Some v \<Rightarrow> Some v | None \<Rightarrow> dget d k)"
proof (induction e arbitrary: d)
  case (Cons p e)
  obtain k' v where p: "p = (k', v)" by fastforce
  with Cons.prems have "dict_ok e" "k' \<notin> fst ` set e" by (auto simp: dict_ok_def)
  moreover from this have "dget e k' = None" by (simp add: dget_def map_of_eq_None_iff)
  moreover have "dget ((k', v) # e) k = (if k = k' then Some v else dget e k)" by (simp add: dget_def)
  ultimately show ?case using Cons.IH [of "dset k' v d"] p by (auto split: option.splits)
qed simp

lemma dict_ok_dupdate [simp]: "dict_ok d \<Longrightarrow> dict_ok (dupdate d e)"
  by (induction d e rule: dupdate.induct) auto

lemma dkeys_dupdate: "set (dkeys (dupdate d e)) = set (dkeys d) \<union> set (dkeys e)"
  by (induction d e rule: dupdate.induct) (auto simp: dkeys_dset_set dkeys_def dset_def dom_update)

lemma dset_length:
  "length (dset k v d) = (if dget d k = None then Suc (length d) else length d)"
  by (induction d) (auto simp: dset_def dget_def)

lemma dset_same: "dget d k = Some v \<Longrightarrow> dset k v d = d"
  by (induction d) (auto simp: dset_def dget_def split: if_splits)

lemma dset_in_set: "dict_ok d \<Longrightarrow>
    (k', v') \<in> set (dset k v d) \<longleftrightarrow> (k' = k \<and> v' = v) \<or> (k' \<noteq> k \<and> (k', v') \<in> set d)"
  by (induction d) (auto simp: dset_def dict_ok_def rev_image_eqI)

lemma ddel_length:
  assumes "dict_ok d" and "dget d k \<noteq> None"
  shows "Suc (length (ddel k d)) = length d"
  using assms
proof (induction d)
  case Nil
  then show ?case by simp
next
  case (Cons p d)
  show ?case
  proof (cases "fst p = k")
    case True
    with Cons.prems have "k \<notin> fst ` set d" by (auto simp: dict_ok_def)
    then have "filter (\<lambda>(k', _). k \<noteq> k') d = d" by (force intro!: filter_True)
    with True show ?thesis by (cases p) (simp add: ddel_def AList.delete_eq)
  next
    case False
    with Cons show ?thesis
      by (cases p) (auto simp: ddel_def dict_ok_def dget_def)
  qed
qed

section \<open>Exceptions\<close>

text \<open>
  The exception classes the code raises or catches.  \<open>Other_Exception c m\<close> is any other
  subclass of \<^verbatim>\<open>Exception\<close> named \<open>c\<close> (outside the \<^verbatim>\<open>ValueError\<close> and \<^verbatim>\<open>KeyError\<close>
  families); \<open>Base_Exception c m\<close> is a \<^verbatim>\<open>BaseException\<close> that \<^verbatim>\<open>except Exception\<close> lets
  through, such as \<^verbatim>\<open>SystemExit\<close>.
\<close>

datatype exc =
    Value_Error string
  | Key_Error string
  | Timeout_Error string
  | Queue_Full string
  | JSON_Decode_Error string
  | Validation_Error string
  | Overflow_Error string
  | Runtime_Error string
  | OS_Error string
  | Other_Exception string string
  | Base_Exception string string

fun exc_type :: "exc \<Rightarrow> string" where
  "exc_type (Value_Error m) = ''ValueError''"
| "exc_type (Key_Error m) = ''KeyError''"
| "exc_type (Timeout_Error m) = ''TimeoutError''"
| "exc_type (Queue_Full m) = ''QueueFull''"
| "exc_type (JSON_Decode_Error m) = ''JSONDecodeError''"
| "exc_type (Validation_Error m) = ''ValidationError''"
| "exc_type (Overflow_Error m) = ''OverflowError''"
| "exc_type (Runtime_Error m) = ''RuntimeError''"
| "exc_type (OS_Error m) = ''OSError''"
| "exc_type (Other_Exception c m) = c"
| "exc_type (Base_Exception c m) = c"

fun is_exception :: "exc \<Rightarrow> bool" where
  "is_exception (Base_Exception c m) = False"
| "is_exception e = True"

text \<open>\<^verbatim>\<open>json.JSONDecodeError\<close> and pydantic's \<^verbatim>\<open>ValidationError\<close> are subclasses of \<^verbatim>\<open>ValueError\<close>.\<close>

fun is_value_error :: "exc \<Rightarrow> bool" where
  "is_value_error (Value_Error m) = True"
| "is_value_error (JSON_Decode_Error m) = True"
| "is_value_error (Validation_Error m) = True"
| "is_value_error e = False"

fun is_key_error :: "exc \<Rightarrow> bool" where
  "is_key_error (Key_Error m) = True"
| "is_key_error e = False"

section \<open>Strings\<close>

definition quote1 :: string where "quote1 = [CHR 0x27]"
definition quote2 :: string where "quote2 = [CHR 0x22]"
definition em_dash :: string where "em_dash = [CHR 0xE2, CHR 0x80, CHR 0x94]"

definition is_ws :: "char \<Rightarrow> bool" where
  "is_ws c \<longleftrightarrow> (let n = (of_char c :: nat) in n = 32 \<or> (9 \<le> n \<and> n \<le> 13) \<or> (28 \<le> n \<and> n \<le> 31))"

definition py_strip :: "string \<Rightarrow> string" where
  "py_strip s = rev (dropWhile is_ws (rev (dropWhile is_ws s)))"

definition is_digit :: "char \<Rightarrow> bool" where
  "is_digit c \<longleftrightarrow> (let n = (of_char c :: nat) in 48 \<le> n \<and> n \<le> 57)"

definition py_isdigit :: "string \<Rightarrow> bool" where
  "py_isdigit s \<longleftrightarrow> s \<noteq> [] \<and> list_all is_digit s"

definition digit_value :: "char \<Rightarrow> int" where
  "digit_value c = int (of_char c) - 48"

definition py_int :: "string \<Rightarrow> int" where
  "py_int s = foldl (\<lambda>n c. 10 * n + digit_value c) 0 s"

fun prefix_of :: "string \<Rightarrow> string \<Rightarrow> bool" where
  "prefix_of [] s = True"
| "prefix_of (c # p) [] = False"
| "prefix_of (c # p) (d # s) = (c = d \<and> prefix_of p s)"

fun contains :: "string \<Rightarrow> string \<Rightarrow> bool" where
  "contains p [] = prefix_of p []"
| "contains p (c # s) = (prefix_of p (c # s) \<or> contains p s)"

definition to_lower :: "string \<Rightarrow> string" where
  "to_lower s = map (\<lambda>c. let n = (of_char c :: nat) in
      if 65 \<le> n \<and> n \<le> 90 then char_of (n + 32) else c) s"

text \<open>\<^verbatim>\<open>s.split(sep)\<close> for a one-character separator: always at least one piece.\<close>

fun split_on :: "char \<Rightarrow> string \<Rightarrow> string list" where
  "split_on sep [] = [[]]"
| "split_on sep (c # s) =
     (if c = sep then [] # split_on sep s
      else (case split_on sep s of [] \<Rightarrow> [[c]] | p # ps \<Rightarrow> (c # p) # ps))"

text \<open>\<^verbatim>\<open>sep.join(parts)\<close>.\<close>

fun join_with :: "string \<Rightarrow> string list \<Rightarrow> string" where
  "join_with sep [] = []"
| "join_with sep [x] = x"
| "join_with sep (x # y # xs) = x @ sep @ join_with sep (y # xs)"

definition digit_char :: "nat \<Rightarrow> char" where
  "digit_char d = char_of (48 + d)"

fun show_nat :: "nat \<Rightarrow> string" where
  "show_nat n = (if n < 10 then [digit_char n] else show_nat (n div 10) @ [digit_char (n mod 10)])"

declare show_nat.simps [simp del]

definition show_int :: "int \<Rightarrow> string" where
  "show_int i = (if i < 0 then ''-'' @ show_nat (nat (- i)) else show_nat (nat i))"

text \<open>
  \<^verbatim>\<open>repr(s)\<close>: double quotes when the text has a single quote and no double quote, single
  quotes otherwise; control characters as escapes, other characters as they are.
\<close>

definition hex_digit :: "nat \<Rightarrow> char" where
  "hex_digit d = (if d < 10 then char_of (48 + d) else char_of (87 + d))"

definition repr_char :: "char \<Rightarrow> char \<Rightarrow> string" where
  "repr_char q c = (let n = (of_char c :: nat) in
     if c = q then [CHR 0x5C, c]
     else if n = 92 then [CHR 0x5C, CHR 0x5C]
     else if n = 10 then [CHR 0x5C, CHR ''n'']
     else if n = 13 then [CHR 0x5C, CHR ''r'']
     else if n = 9 then [CHR 0x5C, CHR ''t'']
     else if n < 32 \<or> n = 127 then [CHR 0x5C, CHR ''x'', hex_digit (n div 16), hex_digit (n mod 16)]
     else [c])"

definition py_repr :: "string \<Rightarrow> string" where
  "py_repr s = (let q = (if CHR 0x27 \<in> set s \<and> CHR 0x22 \<notin> set s then CHR 0x22 else CHR 0x27) in
     [q] @ concat (map (repr_char q) s) @ [q])"

text \<open>\<^verbatim>\<open>str(exc)\<close>: the message, except that \<^verbatim>\<open>KeyError\<close> shows the \<^verbatim>\<open>repr\<close> of its argument.\<close>

fun exc_str :: "exc \<Rightarrow> string" where
  "exc_str (Value_Error m) = m"
| "exc_str (Key_Error m) = py_repr m"
| "exc_str (Timeout_Error m) = m"
| "exc_str (Queue_Full m) = m"
| "exc_str (JSON_Decode_Error m) = m"
| "exc_str (Validation_Error m) = m"
| "exc_str (Overflow_Error m) = m"
| "exc_str (Runtime_Error m) = m"
| "exc_str (OS_Error m) = m"
| "exc_str (Other_Exception c m) = m"
| "exc_str (Base_Exception c m) = m"

text \<open>\<^verbatim>\<open>f"{x:.kf}"\<close>: round half to even, \<open>k\<close> decimals.\<close>

definition round_half_even :: "rat \<Rightarrow> int" where
  "round_half_even x = (let f = \<lfloor>x\<rfloor>; d = x - of_int f in
     if d < 1 / 2 then f else if 1 / 2 < d then f + 1 else if even f then f else f + 1)"

definition pad_zero :: "nat \<Rightarrow> string \<Rightarrow> string" where
  "pad_zero k s = replicate (k - length s) (CHR ''0'') @ s"

definition fmt_fixed :: "nat \<Rightarrow> rat \<Rightarrow> string" where
  "fmt_fixed k x = (let n = round_half_even (\<bar>x\<bar> * 10 ^ k) in
     (if x < 0 then ''-'' else []) @ show_int (n div 10 ^ k) @
     (if k = 0 then [] else ''.'' @ pad_zero k (show_int (n mod 10 ^ k))))"

definition opt_or :: "string option \<Rightarrow> string \<Rightarrow> string" where
  "opt_or x y = (case x of None \<Rightarrow> y | Some s \<Rightarrow> if s = [] then y else s)"

lemma map_sum_id_Inr_iff [simp]: "map_sum id f x = Inr y \<longleftrightarrow> (\<exists>z. x = Inr z \<and> y = f z)"
  by (cases x) auto

lemma map_sum_id_Inl_iff [simp]: "map_sum id f x = Inl e \<longleftrightarrow> x = Inl e"
  by (cases x) auto

lemma prefix_of_append: "prefix_of p s \<longleftrightarrow> (\<exists>t. s = p @ t)"
  by (induction p s rule: prefix_of.induct) auto

lemma contains_iff: "contains p s \<longleftrightarrow> (\<exists>u t. s = u @ p @ t)"
proof (induction s)
  case Nil
  then show ?case by (cases p) auto
next
  case (Cons c s)
  have "(\<exists>u t. c # s = u @ p @ t) \<longleftrightarrow> (\<exists>t. c # s = p @ t) \<or> (\<exists>u t. s = u @ p @ t)"
    by (metis Cons_eq_append_conv append_Nil)
  with Cons show ?case by (simp add: prefix_of_append)
qed

lemma split_on_not_Nil [simp]: "split_on sep s \<noteq> []"
  by (induction s) (auto split: list.splits)

section \<open>Slices\<close>

text \<open>\<^verbatim>\<open>xs[i:]\<close> and \<^verbatim>\<open>xs[:j]\<close>, where a negative bound counts from the end.\<close>

definition py_from :: "int \<Rightarrow> 'a list \<Rightarrow> 'a list" where
  "py_from i xs = drop (if i < 0 then nat (int (length xs) + i) else nat i) xs"

definition py_upto :: "int \<Rightarrow> 'a list \<Rightarrow> 'a list" where
  "py_upto j xs = take (if j < 0 then nat (int (length xs) + j) else nat j) xs"

lemma set_py_from: "set (py_from i xs) \<subseteq> set xs"
  by (simp add: py_from_def set_drop_subset)

lemma set_py_upto: "set (py_upto j xs) \<subseteq> set xs"
  by (simp add: py_upto_def set_take_subset)

lemma py_from_0 [simp]: "py_from 0 xs = xs"
  by (simp add: py_from_def)

lemma py_upto_length: "0 \<le> j \<Longrightarrow> length (py_upto j xs) \<le> nat j"
  by (simp add: py_upto_def)

section \<open>Stable sorting\<close>

text \<open>
  \<^verbatim>\<open>sorted(xs, key=f)\<close> is \<open>sort_key f xs\<close>.  With \<^verbatim>\<open>reverse=True\<close> Python keeps equal
  elements in their original order.
\<close>

definition sort_key_desc :: "('a \<Rightarrow> 'b::linorder) \<Rightarrow> 'a list \<Rightarrow> 'a list" where
  "sort_key_desc f xs = rev (sort_key f (rev xs))"

lemma set_sort_key_desc [simp]: "set (sort_key_desc f xs) = set xs"
  by (simp add: sort_key_desc_def)

lemma mset_sort_key_desc [simp]: "mset (sort_key_desc f xs) = mset xs"
  by (simp add: sort_key_desc_def)

lemma length_sort_key_desc [simp]: "length (sort_key_desc f xs) = length xs"
  by (simp add: sort_key_desc_def)

lemma sort_key_desc_Nil_iff [simp]: "sort_key_desc f xs = [] \<longleftrightarrow> xs = []"
  by (metis length_0_conv length_sort_key_desc)

lemma sorted_sort_key_desc: "sorted_wrt (\<lambda>x y. f y \<le> f x) (sort_key_desc f xs)"
proof -
  have "sorted (map f (sort_key f (rev xs)))" by simp
  then have "sorted_wrt (\<lambda>x y. f x \<le> f y) (sort_key f (rev xs))"
    by (simp add: sorted_map)
  then show ?thesis
    by (simp add: sort_key_desc_def sorted_wrt_rev)
qed

lemma sort_key_desc_first_max:
  assumes "sort_key_desc f xs = y # ys" and "x \<in> set xs"
  shows "f x \<le> f y"
proof -
  from assms(2) have "x \<in> set (y # ys)" using assms(1) by (metis set_sort_key_desc)
  with sorted_sort_key_desc [of f xs] assms(1) show ?thesis by auto
qed

section \<open>JSON files\<close>

text \<open>
  The text of a file-backed store, seen through \<^verbatim>\<open>json.loads\<close>: the file is missing, blank,
  not decodable (with the decoder's message), or a JSON object.  \<^verbatim>\<open>json.dump(payload,
  sort_keys=True)\<close> writes the entries in key order.
\<close>

datatype 'r jfile = Absent | Blank | Corrupt string | Stored "'r dict"

fun jread :: "'r jfile \<Rightarrow> exc + 'r dict" where
  "jread Absent = Inr []"
| "jread Blank = Inr []"
| "jread (Corrupt m) = Inl (JSON_Decode_Error m)"
| "jread (Stored d) = Inr d"

definition jwrite :: "'r dict \<Rightarrow> 'r jfile" where
  "jwrite d = Stored (sort_key fst d)"

fun jfile_ok :: "'r jfile \<Rightarrow> bool" where
  "jfile_ok (Corrupt m) = False"
| "jfile_ok (Stored d) = dict_ok d"
| "jfile_ok f = True"

lemma dict_ok_sort_key [simp]: "dict_ok (sort_key fst d) = dict_ok d"
proof -
  have "mset (map fst (sort_key fst d)) = mset (map fst d)" by simp
  then show ?thesis unfolding dict_ok_def by (metis mset_eq_imp_distinct_iff)
qed

lemma dget_sort_key [simp]: "dict_ok d \<Longrightarrow> dget (sort_key fst d) k = dget d k"
proof -
  assume ok: "dict_ok d"
  then have "dget (sort_key fst d) k = Some v \<longleftrightarrow> dget d k = Some v" for v
    by (simp add: dget_Some_iff)
  then show ?thesis by (metis option.exhaust)
qed

lemma jfile_ok_jwrite [simp]: "jfile_ok (jwrite d) = dict_ok d"
  by (simp add: jwrite_def)

lemma jread_jwrite [simp]: "jread (jwrite d) = Inr (sort_key fst d)"
  by (simp add: jwrite_def)

lemma jfile_ok_jread: "jfile_ok f \<longleftrightarrow> (\<exists>d. jread f = Inr d \<and> dict_ok d)"
  by (cases f) auto

section \<open>Numerals are read back\<close>

lemma digit_char_facts: "d < 10 \<Longrightarrow> (of_char (digit_char d) :: nat) = 48 + d"
  by (simp add: digit_char_def)

lemma is_digit_digit_char: "d < 10 \<Longrightarrow> is_digit (digit_char d)"
  by (simp add: is_digit_def digit_char_facts)

lemma show_nat_digits: "list_all is_digit (show_nat n) \<and> show_nat n \<noteq> []"
proof (induction n rule: show_nat.induct)
  case (1 n)
  then show ?case
    by (subst (1 2) show_nat.simps) (auto simp: is_digit_digit_char simp del: digit_char_def)
qed

lemma py_int_snoc: "py_int (s @ [c]) = 10 * py_int s + digit_value c"
  by (simp add: py_int_def)

lemma py_int_show_nat: "py_int (show_nat n) = int n"
proof (induction n rule: show_nat.induct)
  case (1 n)
  show ?case
  proof (cases "n < 10")
    case True
    then show ?thesis
      by (subst show_nat.simps) (simp add: py_int_def digit_value_def digit_char_facts)
  next
    case False
    then have "py_int (show_nat (n div 10) @ [digit_char (n mod 10)]) = 10 * int (n div 10) + int (n mod 10)"
      using 1 by (simp add: py_int_snoc digit_value_def digit_char_facts)
    also have "\<dots> = int n"
      by (metis mult_div_mod_eq of_nat_add of_nat_mult of_nat_numeral)
    finally show ?thesis
      using False by (subst show_nat.simps) simp
  qed
qed

lemma digit_not_ws: "is_digit c \<Longrightarrow> \<not> is_ws c"
  by (auto simp: is_digit_def is_ws_def Let_def)

lemma dropWhile_none: "\<forall>x\<in>set xs. \<not> P x \<Longrightarrow> dropWhile P xs = xs"
  by (cases xs) auto

lemma strip_id: "\<forall>c\<in>set s. \<not> is_ws c \<Longrightarrow> py_strip s = s"
  by (simp add: py_strip_def dropWhile_none)

end
