(* ===== verification/Queues.thy ===== *)
theory Queues
  imports Prelude
begin

text \<open>
  \<^verbatim>\<open>engine/runtime/queue.py\<close>: the two task queues of the runtime, the contract they share
  (locale \<open>fifo_queue\<close>: what an enqueue and a dequeue do to the list of waiting ids) and the
  first-in-first-out theorem proved once from the contract and interpreted for both.
\<close>

section \<open>InMemoryTaskQueue\<close>

record mem_queue =
  mq_items :: "string list"

definition mq_init :: mem_queue where
  "mq_init = \<lparr>mq_items = []\<rparr>"

definition mq_enqueue :: "string \<Rightarrow> mem_queue \<Rightarrow> exc + mem_queue" where
  "mq_enqueue task_id q = Inr (q\<lparr>mq_items := mq_items q @ [task_id]\<rparr>)"

definition mq_dequeue :: "mem_queue \<Rightarrow> string option \<times> mem_queue" where
  "mq_dequeue q = (case mq_items q of [] \<Rightarrow> (None, q) | x # xs \<Rightarrow> (Some x, q\<lparr>mq_items := xs\<rparr>))"

definition mq_list :: "mem_queue \<Rightarrow> string list" where
  "mq_list q = mq_items q"

definition mq_size :: "mem_queue \<Rightarrow> int" where
  "mq_size q = int (length (mq_items q))"

definition mq_health_check :: "mem_queue \<Rightarrow> string list" where
  "mq_health_check q = []"

section \<open>BoundedTaskQueue\<close>

record bounded_queue =
  bq_items :: "string list"
  bq_max_size :: int

definition bq_init :: "int \<Rightarrow> bounded_queue" where
  "bq_init max_size = \<lparr>bq_items = [], bq_max_size = max_size\<rparr>"

definition queue_full_message :: "int \<Rightarrow> string" where
  "queue_full_message n = ''Queue is full ('' @ show_int n @
     '' tasks). Wait for tasks to complete before submitting more.''"

definition bq_enqueue :: "string \<Rightarrow> bounded_queue \<Rightarrow> exc + bounded_queue" where
  "bq_enqueue task_id q =
     (if int (length (bq_items q)) \<ge> bq_max_size q
      then Inl (Queue_Full (queue_full_message (bq_max_size q)))
      else Inr (q\<lparr>bq_items := bq_items q @ [task_id]\<rparr>))"

definition bq_dequeue :: "bounded_queue \<Rightarrow> string option \<times> bounded_queue" where
  "bq_dequeue q = (case bq_items q of [] \<Rightarrow> (None, q) | x # xs \<Rightarrow> (Some x, q\<lparr>bq_items := xs\<rparr>))"

definition bq_list :: "bounded_queue \<Rightarrow> string list" where
  "bq_list q = bq_items q"

definition bq_size :: "bounded_queue \<Rightarrow> int" where
  "bq_size q = int (length (bq_items q))"

definition bq_available :: "bounded_queue \<Rightarrow> int" where
  "bq_available q = bq_max_size q - int (length (bq_items q))"

definition bq_utilization :: "bounded_queue \<Rightarrow> rat" where
  "bq_utilization q = (if bq_max_size q = 0 then 1
     else of_nat (length (bq_items q)) / of_int (bq_max_size q))"

definition fmt_percent :: "rat \<Rightarrow> string" where
  "fmt_percent x = fmt_fixed 0 (x * 100) @ ''%''"

definition bq_health_check :: "bounded_queue \<Rightarrow> string list" where
  "bq_health_check q =
     (if bq_utilization q > 9 / 10
      then [''queue: '' @ fmt_percent (bq_utilization q) @ '' full ('' @
            show_int (bq_size q) @ ''/'' @ show_int (bq_max_size q) @ '')'']
      else [])"

definition bq_within_capacity :: "bounded_queue \<Rightarrow> bool" where
  "bq_within_capacity q \<longleftrightarrow> int (length (bq_items q)) \<le> max 0 (bq_max_size q)"

section \<open>The contract of a task queue\<close>

text \<open>Operations on a queue, run in sequence: what was accepted, what was handed out.\<close>

datatype queue_op = Enq string | Deq

fun run_queue_ops ::
  "(string \<Rightarrow> 'q \<Rightarrow> exc + 'q) \<Rightarrow> ('q \<Rightarrow> string option \<times> 'q) \<Rightarrow> queue_op list \<Rightarrow> 'q
   \<Rightarrow> string list \<times> string list \<times> 'q" where
  "run_queue_ops enq deq [] q = ([], [], q)"
| "run_queue_ops enq deq (Enq x # ops) q =
     (case enq x q of
        Inl e \<Rightarrow> run_queue_ops enq deq ops q
      | Inr q' \<Rightarrow> (let (acc, srv, q'') = run_queue_ops enq deq ops q' in (x # acc, srv, q'')))"
| "run_queue_ops enq deq (Deq # ops) q =
     (case deq q of
        (None, q') \<Rightarrow> run_queue_ops enq deq ops q'
      | (Some x, q') \<Rightarrow> (let (acc, srv, q'') = run_queue_ops enq deq ops q' in (acc, x # srv, q'')))"

locale fifo_queue =
  fixes enq :: "string \<Rightarrow> 'q \<Rightarrow> exc + 'q"
    and deq :: "'q \<Rightarrow> string option \<times> 'q"
    and items :: "'q \<Rightarrow> string list"
    and invar :: "'q \<Rightarrow> bool"
  assumes enq_items: "invar q \<Longrightarrow> enq x q = Inr q' \<Longrightarrow> items q' = items q @ [x]"
    and enq_invar: "invar q \<Longrightarrow> enq x q = Inr q' \<Longrightarrow> invar q'"
    and deq_empty: "invar q \<Longrightarrow> items q = [] \<Longrightarrow> deq q = (None, q)"
    and deq_items: "invar q \<Longrightarrow> items q = x # xs \<Longrightarrow> \<exists>q'. deq q = (Some x, q') \<and> items q' = xs \<and> invar q'"
begin

lemma deq_cases:
  assumes "invar q"
  obtains (empty) "items q = []" "deq q = (None, q)"
  | (first) x xs q' where "items q = x # xs" "deq q = (Some x, q')" "items q' = xs" "invar q'"
  using assms deq_empty deq_items by (cases "items q") blast+

lemma run_invar:
  "invar q \<Longrightarrow> run_queue_ops enq deq ops q = (acc, srv, q') \<Longrightarrow> invar q'"
proof (induction ops arbitrary: q acc srv)
  case Nil
  then show ?case by simp
next
  case (Cons a ops)
  show ?case
  proof (cases a)
    case (Enq x)
    show ?thesis
    proof (cases "enq x q")
      case (Inl e)
      with Enq Cons show ?thesis by simp
    next
      case (Inr r)
      with Enq Cons enq_invar [OF Cons.prems(1) Inr] show ?thesis
        by (auto split: prod.splits)
    qed
  next
    case Deq
    from Cons.prems(1) show ?thesis
    proof (cases rule: deq_cases)
      case empty
      with Deq Cons show ?thesis by simp
    next
      case (first x xs r)
      with Deq Cons show ?thesis by (auto split: prod.splits)
    qed
  qed
qed

text \<open>First in, first out: what was handed out, then what still waits, is what was there and
  what was accepted, in that order.\<close>

lemma run_fifo:
  "invar q \<Longrightarrow> run_queue_ops enq deq ops q = (acc, srv, q') \<Longrightarrow> srv @ items q' = items q @ acc"
proof (induction ops arbitrary: q acc srv)
  case Nil
  then show ?case by simp
next
  case (Cons a ops)
  show ?case
  proof (cases a)
    case (Enq x)
    show ?thesis
    proof (cases "enq x q")
      case (Inl e)
      with Enq Cons show ?thesis by simp
    next
      case (Inr r)
      with Enq Cons enq_invar [OF Cons.prems(1) Inr] enq_items [OF Cons.prems(1) Inr]
      show ?thesis by (auto split: prod.splits)
    qed
  next
    case Deq
    from Cons.prems(1) show ?thesis
    proof (cases rule: deq_cases)
      case empty
      with Deq Cons show ?thesis by simp
    next
      case (first x xs r)
      with Deq Cons show ?thesis by (auto split: prod.splits)
    qed
  qed
qed

end

interpretation mq: fifo_queue mq_enqueue mq_dequeue mq_list "\<lambda>q. True"
  by unfold_locales (auto simp: mq_enqueue_def mq_dequeue_def mq_list_def split: list.splits)

interpretation bq: fifo_queue bq_enqueue bq_dequeue bq_list bq_within_capacity
  by unfold_locales (auto simp: bq_enqueue_def bq_dequeue_def bq_list_def bq_within_capacity_def
      split: list.splits if_splits)

lemma bq_enqueue_max: "bq_enqueue x q = Inr q' \<Longrightarrow> bq_max_size q' = bq_max_size q"
  by (auto simp: bq_enqueue_def split: if_splits)

lemma bq_dequeue_max: "bq_dequeue q = (r, q') \<Longrightarrow> bq_max_size q' = bq_max_size q"
  by (auto simp: bq_dequeue_def split: list.splits)

lemma bq_run_max:
  "run_queue_ops bq_enqueue bq_dequeue ops q = (acc, srv, q') \<Longrightarrow> bq_max_size q' = bq_max_size q"
proof (induction ops arbitrary: q acc srv)
  case (Cons a ops)
  then show ?case
    by (cases a) (auto split: sum.splits prod.splits option.splits
        dest: bq_enqueue_max bq_dequeue_max)
qed simp

section \<open>Either queue\<close>

text \<open>The supervisor is given one of the two queues.\<close>

datatype task_queue = Mem_Queue mem_queue | Bounded_Queue bounded_queue

fun tq_enqueue :: "string \<Rightarrow> task_queue \<Rightarrow> exc + task_queue" where
  "tq_enqueue x (Mem_Queue q) = map_sum id Mem_Queue (mq_enqueue x q)"
| "tq_enqueue x (Bounded_Queue q) = map_sum id Bounded_Queue (bq_enqueue x q)"

fun tq_dequeue :: "task_queue \<Rightarrow> string option \<times> task_queue" where
  "tq_dequeue (Mem_Queue q) = map_prod id Mem_Queue (mq_dequeue q)"
| "tq_dequeue (Bounded_Queue q) = map_prod id Bounded_Queue (bq_dequeue q)"

fun tq_list :: "task_queue \<Rightarrow> string list" where
  "tq_list (Mem_Queue q) = mq_list q"
| "tq_list (Bounded_Queue q) = bq_list q"

fun tq_health_check :: "task_queue \<Rightarrow> string list" where
  "tq_health_check (Mem_Queue q) = mq_health_check q"
| "tq_health_check (Bounded_Queue q) = bq_health_check q"

fun tq_invar :: "task_queue \<Rightarrow> bool" where
  "tq_invar (Mem_Queue q) = True"
| "tq_invar (Bounded_Queue q) = bq_within_capacity q"

lemma tq_dequeue_Some:
  "tq_dequeue q = (Some x, q') \<Longrightarrow> tq_list q = x # tq_list q'"
  by (cases q) (auto simp: mq_dequeue_def bq_dequeue_def mq_list_def bq_list_def map_prod_def
      split: list.splits prod.splits)

lemma tq_dequeue_None: "tq_dequeue q = (None, q') \<Longrightarrow> q' = q \<and> tq_list q = []"
  by (cases q) (auto simp: mq_dequeue_def bq_dequeue_def mq_list_def bq_list_def map_prod_def
      split: list.splits prod.splits)

lemma tq_enqueue_list: "tq_enqueue x q = Inr q' \<Longrightarrow> tq_list q' = tq_list q @ [x]"
  by (cases q) (auto simp: mq_enqueue_def bq_enqueue_def mq_list_def bq_list_def
      split: if_splits)

lemma tq_enqueue_invar: "tq_invar q \<Longrightarrow> tq_enqueue x q = Inr q' \<Longrightarrow> tq_invar q'"
  by (cases q) (auto simp: mq_enqueue_def bq_enqueue_def bq_within_capacity_def split: if_splits)

lemma tq_dequeue_invar: "tq_invar q \<Longrightarrow> tq_dequeue q = (r, q') \<Longrightarrow> tq_invar q'"
  by (cases q) (auto simp: mq_dequeue_def bq_dequeue_def bq_within_capacity_def map_prod_def
      split: list.splits prod.splits)

interpretation tq: fifo_queue tq_enqueue tq_dequeue tq_list tq_invar
proof unfold_locales
  show "\<exists>q'. tq_dequeue q = (Some x, q') \<and> tq_list q' = xs \<and> tq_invar q'"
    if "tq_invar q" and "tq_list q = x # xs" for q x xs
  proof -
    obtain r q' where "tq_dequeue q = (r, q')" by fastforce
    with that show ?thesis
      by (cases r) (auto dest: tq_dequeue_None tq_dequeue_Some tq_dequeue_invar)
  qed
  show "tq_dequeue q = (None, q)" if "tq_invar q" and "tq_list q = []" for q
  proof -
    obtain r q' where "tq_dequeue q = (r, q')" by fastforce
    with that show ?thesis
      by (cases r) (auto dest: tq_dequeue_None tq_dequeue_Some)
  qed
qed (auto dest: tq_enqueue_list tq_enqueue_invar)

text \<open>
  C11. The bounded queue keeps tasks in order and never exceeds its capacity: over any
  sequence of enqueues and dequeues from an empty queue of capacity \<open>n\<close>, the ids handed out
  followed by the ids still waiting are exactly the ids accepted, in order, and at most
  \<open>max 0 n\<close> ids wait.
\<close>

theorem bounded_queue_fifo:
  "case run_queue_ops bq_enqueue bq_dequeue ops (bq_init n) of (acc, srv, q) \<Rightarrow>
     srv @ bq_list q = acc \<and> bq_size q \<le> max 0 n"
proof -
  obtain acc srv q where run: "run_queue_ops bq_enqueue bq_dequeue ops (bq_init n) = (acc, srv, q)"
    by (cases "run_queue_ops bq_enqueue bq_dequeue ops (bq_init n)") auto
  have init: "bq_within_capacity (bq_init n)"
    by (simp add: bq_within_capacity_def bq_init_def)
  have "srv @ bq_list q = bq_list (bq_init n) @ acc"
    by (rule bq.run_fifo [OF init run])
  moreover have "bq_within_capacity q"
    by (rule bq.run_invar [OF init run])
  moreover have "bq_max_size q = n"
    using bq_run_max [OF run] by (simp add: bq_init_def)
  ultimately show ?thesis
    using run by (simp add: bq_list_def bq_init_def bq_size_def bq_within_capacity_def)
qed

end
