(* ===== verification/Contracts.thy ===== *)
theory Contracts
  imports Prelude
begin

text \<open>
  The data model of \<^verbatim>\<open>engine/interfaces/\<close>: tasks, results, audit entries, capabilities,
  execution controls, events, policy decisions, failure contexts, retry decisions and
  escalation records.  Each pydantic model is a record with the model's fields (prefixed, since
  Isabelle's selectors are global), each \<^verbatim>\<open>StrEnum\<close> a datatype with a function to its value.
  Defaults of the models are the \<open>new_*\<close> definitions.
\<close>

section \<open>interfaces/task.py\<close>

datatype task_status =
    PENDING | RUNNING | COMPLETED | FAILED | AWAITING_APPROVAL | APPROVED
  | POLICY_DENIED | CANCELLED | ESCALATED

fun status_value :: "task_status \<Rightarrow> string" where
  "status_value PENDING = ''pending''"
| "status_value RUNNING = ''running''"
| "status_value COMPLETED = ''completed''"
| "status_value FAILED = ''failed''"
| "status_value AWAITING_APPROVAL = ''awaiting_approval''"
| "status_value APPROVED = ''approved''"
| "status_value POLICY_DENIED = ''policy_denied''"
| "status_value CANCELLED = ''cancelled''"
| "status_value ESCALATED = ''escalated''"

definition all_statuses :: "task_status list" where
  "all_statuses = [PENDING, RUNNING, COMPLETED, FAILED, AWAITING_APPROVAL, APPROVED,
     POLICY_DENIED, CANCELLED, ESCALATED]"

lemma all_statuses_complete [simp]: "s \<in> set all_statuses"
  by (cases s) (simp_all add: all_statuses_def)

lemma status_value_inject [simp]: "status_value s = status_value t \<longleftrightarrow> s = t"
  by (cases s; cases t) simp_all

datatype risk_level = LOW | MEDIUM | HIGH | CRITICAL

fun risk_value :: "risk_level \<Rightarrow> string" where
  "risk_value LOW = ''low''"
| "risk_value MEDIUM = ''medium''"
| "risk_value HIGH = ''high''"
| "risk_value CRITICAL = ''critical''"

record task_submission =
  sub_name :: string
  sub_capability :: string
  sub_input :: pydict
  sub_metadata :: pydict
  sub_max_retries :: int
  sub_workflow_id :: "string option"

record task_result =
  res_success :: bool
  res_output :: pyval
  res_error :: "string option"
  res_metadata :: pydict
  res_started_at :: "int option"
  res_completed_at :: "int option"

record audit_entry =
  au_timestamp :: int
  au_actor :: string
  au_action :: string
  au_from :: "task_status option"
  au_to :: "task_status option"
  au_metadata :: pydict

record task_record =
  task_id :: string
  task_name :: string
  task_capability :: string
  task_input :: pydict
  task_metadata :: pydict
  task_status :: task_status
  task_result :: "task_result option"
  task_attempt :: int
  task_max_retries :: int
  task_workflow_id :: "string option"
  task_archived_at :: "int option"
  task_audit_trail :: "audit_entry list"
  task_created_at :: int
  task_updated_at :: int

text \<open>\<^verbatim>\<open>TaskRecord(name=..., capability=...)\<close> with every other field at its default; the id and
  the creation time are drawn by the model's factories.\<close>

definition new_task_record :: "string \<Rightarrow> string \<Rightarrow> string \<Rightarrow> int \<Rightarrow> task_record" where
  "new_task_record tid name capability created_at =
     \<lparr>task_id = tid, task_name = name, task_capability = capability, task_input = [],
      task_metadata = [], task_status = PENDING, task_result = None, task_attempt = 0,
      task_max_retries = 0, task_workflow_id = None, task_archived_at = None,
      task_audit_trail = [], task_created_at = created_at, task_updated_at = created_at\<rparr>"

section \<open>interfaces/capability.py\<close>

record cap_descriptor =
  cd_name :: string
  cd_description :: string
  cd_risk_level :: risk_level
  cd_tags :: "string list"
  cd_require_approval :: bool

record cap_context =
  cc_task_id :: string
  cc_task_name :: string
  cc_workdir :: string

record cap_result =
  cr_output :: pyval
  cr_metadata :: pydict

record exec_controls =
  ec_timeout_seconds :: "rat option"
  ec_min_interval_seconds :: "rat option"

definition new_exec_controls :: exec_controls where
  "new_exec_controls = \<lparr>ec_timeout_seconds = None, ec_min_interval_seconds = None\<rparr>"

text \<open>
  A capability object is what the code calls on it: its descriptor, \<^verbatim>\<open>validate_input\<close> and
  \<^verbatim>\<open>execute\<close>.  Subclasses live mostly outside the engine, and what an execution does may
  change from one call to the next, so \<open>cap_execute n\<close> is the \<open>n\<close>-th call of the run: the time
  it takes in seconds and its result or exception.
\<close>

record capability =
  cap_descriptor :: cap_descriptor
  cap_validate_input :: "pydict \<Rightarrow> exc + pyval"
  cap_execute :: "nat \<Rightarrow> pyval \<Rightarrow> cap_context \<Rightarrow> rat \<times> (exc + cap_result)"

text \<open>\<^verbatim>\<open>Capability.validate_input\<close>: the payload as it is when there is no input model.\<close>

definition base_validate_input :: "(pydict \<Rightarrow> exc + pyval) option \<Rightarrow> pydict \<Rightarrow> exc + pyval" where
  "base_validate_input input_model payload =
     (case input_model of None \<Rightarrow> Inr (PDict payload) | Some model_validate \<Rightarrow> model_validate payload)"

section \<open>interfaces/event.py\<close>

datatype event_type =
    TASK_STARTED | TASK_COMPLETED | TASK_FAILED | TASK_RETRY | TASK_POLICY_DENIED
  | TASK_AWAITING_APPROVAL | TASK_APPROVED | TASK_CANCELLED | TASK_ESCALATED
  | GUILD_MEETING_COMPLETED

fun event_value :: "event_type \<Rightarrow> string" where
  "event_value TASK_STARTED = ''task_started''"
| "event_value TASK_COMPLETED = ''task_completed''"
| "event_value TASK_FAILED = ''task_failed''"
| "event_value TASK_RETRY = ''task_retry''"
| "event_value TASK_POLICY_DENIED = ''task_policy_denied''"
| "event_value TASK_AWAITING_APPROVAL = ''task_awaiting_approval''"
| "event_value TASK_APPROVED = ''task_approved''"
| "event_value TASK_CANCELLED = ''task_cancelled''"
| "event_value TASK_ESCALATED = ''task_escalated''"
| "event_value GUILD_MEETING_COMPLETED = ''guild_meeting_completed''"

record task_event =
  ev_event_type :: event_type
  ev_task_id :: string
  ev_task_name :: string
  ev_capability :: string
  ev_status :: task_status
  ev_attempt :: int
  ev_timestamp :: int
  ev_workflow_id :: "string option"
  ev_error :: "string option"
  ev_metadata :: pydict

section \<open>interfaces/policy.py\<close>

datatype policy_decision_type = ALLOW | DENY | REQUIRE_APPROVAL

fun decision_value :: "policy_decision_type \<Rightarrow> string" where
  "decision_value ALLOW = ''allow''"
| "decision_value DENY = ''deny''"
| "decision_value REQUIRE_APPROVAL = ''require_approval''"

record policy_context =
  pc_capability :: cap_descriptor
  pc_workdir :: string

record policy_decision =
  pd_decision :: policy_decision_type
  pd_reason :: "string option"
  pd_metadata :: pydict

definition opt_str :: "string option \<Rightarrow> pyval" where
  "opt_str s = (case s of None \<Rightarrow> PNone | Some x \<Rightarrow> PStr x)"

definition descriptor_dump :: "cap_descriptor \<Rightarrow> pydict" where
  "descriptor_dump d =
     [(''name'', PStr (cd_name d)), (''description'', PStr (cd_description d)),
      (''risk_level'', PStr (risk_value (cd_risk_level d))),
      (''tags'', PList (map PStr (cd_tags d))),
      (''require_approval'', PBool (cd_require_approval d))]"

record opa_input =
  oi_task :: pydict
  oi_capability :: pydict
  oi_workdir :: string

definition opa_from_context :: "task_record \<Rightarrow> policy_context \<Rightarrow> opa_input" where
  "opa_from_context task context =
     \<lparr>oi_task =
        [(''id'', PStr (task_id task)), (''name'', PStr (task_name task)),
         (''capability'', PStr (task_capability task)), (''input'', PDict (task_input task)),
         (''max_retries'', PInt (task_max_retries task)),
         (''workflow_id'', opt_str (task_workflow_id task))],
      oi_capability = descriptor_dump (pc_capability context),
      oi_workdir = pc_workdir context\<rparr>"

section \<open>interfaces/retry.py\<close>

record failure_context =
  fc_task_id :: string
  fc_capability :: string
  fc_attempt :: int
  fc_max_retries :: int
  fc_error_type :: string
  fc_error_message :: string
  fc_input_fingerprint :: "string option"
  fc_metadata :: pydict

definition failure_dump :: "failure_context \<Rightarrow> pydict" where
  "failure_dump f =
     [(''task_id'', PStr (fc_task_id f)), (''capability'', PStr (fc_capability f)),
      (''attempt'', PInt (fc_attempt f)), (''max_retries'', PInt (fc_max_retries f)),
      (''error_type'', PStr (fc_error_type f)), (''error_message'', PStr (fc_error_message f)),
      (''input_fingerprint'', opt_str (fc_input_fingerprint f)),
      (''metadata'', PDict (fc_metadata f))]"

record retry_decision =
  rd_should_retry :: bool
  rd_delay_seconds :: "rat option"
  rd_adjusted_input :: "pydict option"
  rd_reason :: "string option"
  rd_escalate :: bool

section \<open>interfaces/escalation.py\<close>

record escalation_config =
  esc_max_retries_before_escalate :: int
  esc_reason :: "string option"
  esc_metadata :: pydict

record escalation_record =
  er_task_id :: string
  er_capability :: string
  er_total_attempts :: int
  er_failure_history :: "failure_context list"
  er_escalated_at :: int
  er_reason :: "string option"

definition escalation_dump :: "escalation_record \<Rightarrow> pydict" where
  "escalation_dump r =
     [(''task_id'', PStr (er_task_id r)), (''capability'', PStr (er_capability r)),
      (''total_attempts'', PInt (er_total_attempts r)),
      (''failure_history'', PList (map (\<lambda>f. PDict (failure_dump f)) (er_failure_history r))),
      (''escalated_at'', PTime (er_escalated_at r)), (''reason'', opt_str (er_reason r))]"

end
