(* ===== verification/Registry.thy ===== *)
theory Registry
  imports Contracts
begin

text \<open>
  \<^verbatim>\<open>engine/registry/capabilities.py\<close> and \<^verbatim>\<open>engine/guardrails/validation.py\<close>: the capability
  registry (two dicts keyed by capability name) and the validation of a submission against it.
  Its invariant \<open>registry_ok\<close> is what \<^verbatim>\<open>health_check\<close> reports on; every operation keeps it.
\<close>

section \<open>CapabilityRegistry\<close>

record registry =
  reg_capabilities :: "capability dict"
  reg_execution_controls :: "exec_controls dict"

definition reg_init :: registry where
  "reg_init = \<lparr>reg_capabilities = [], reg_execution_controls = []\<rparr>"

definition reg_register :: "capability \<Rightarrow> exec_controls option \<Rightarrow> registry \<Rightarrow> exc + registry" where
  "reg_register capability execution_controls r =
     (let name = cd_name (cap_descriptor capability) in
      if dget (reg_capabilities r) name \<noteq> None
      then Inl (Value_Error (''Capability '' @ quote1 @ name @ quote1 @ '' is already registered''))
      else
        let r = r\<lparr>reg_capabilities := dset name capability (reg_capabilities r)\<rparr> in
        case execution_controls of
          None \<Rightarrow> Inr r
        | Some controls \<Rightarrow>
            Inr (r\<lparr>reg_execution_controls := dset name controls (reg_execution_controls r)\<rparr>))"

definition not_registered_message :: "string \<Rightarrow> string" where
  "not_registered_message name = ''Capability '' @ quote1 @ name @ quote1 @ '' is not registered''"

definition reg_get :: "registry \<Rightarrow> string \<Rightarrow> exc + capability" where
  "reg_get r name = (case dget (reg_capabilities r) name of
       None \<Rightarrow> Inl (Key_Error (not_registered_message name))
     | Some capability \<Rightarrow> Inr capability)"

definition reg_list :: "registry \<Rightarrow> cap_descriptor list" where
  "reg_list r = map (\<lambda>(name, cap). cap_descriptor cap) (sort_key fst (reg_capabilities r))"

definition reg_names :: "registry \<Rightarrow> string list" where
  "reg_names r = map cd_name (reg_list r)"

definition reg_set_execution_controls :: "string \<Rightarrow> exec_controls \<Rightarrow> registry \<Rightarrow> exc + registry" where
  "reg_set_execution_controls name controls r =
     (if dget (reg_capabilities r) name = None
      then Inl (Value_Error (not_registered_message name))
      else Inr (r\<lparr>reg_execution_controls := dset name controls (reg_execution_controls r)\<rparr>))"

definition reg_execution_controls_of :: "registry \<Rightarrow> string \<Rightarrow> exc + exec_controls" where
  "reg_execution_controls_of r name =
     (if dget (reg_capabilities r) name = None
      then Inl (Key_Error (not_registered_message name))
      else case dget (reg_execution_controls r) name of
             None \<Rightarrow> Inr new_exec_controls
           | Some controls \<Rightarrow> Inr controls)"

definition reg_health_check :: "registry \<Rightarrow> string list" where
  "reg_health_check r =
     (if reg_capabilities r = [] then [''capability registry has no registered capabilities''] else []) @
     concat (map (\<lambda>(name, cap).
        (let descriptor_name = cd_name (cap_descriptor cap) in
         if descriptor_name \<noteq> name
         then [''capability registry key mismatch: stored as '' @ quote1 @ name @ quote1 @
               '' but descriptor reports '' @ quote1 @ descriptor_name @ quote1]
         else [])) (sort_key fst (reg_capabilities r))) @
     concat (map (\<lambda>name.
        if dget (reg_capabilities r) name = None
        then [''execution controls configured for unknown capability '' @ quote1 @ name @ quote1]
        else []) (sort (dkeys (reg_execution_controls r))))"

section \<open>Guardrails\<close>

text \<open>\<^verbatim>\<open>validate_task_submission\<close>: a \<^verbatim>\<open>KeyError\<close> of the registry becomes a \<^verbatim>\<open>ValueError\<close>.\<close>

definition validate_task_submission :: "task_submission \<Rightarrow> registry \<Rightarrow> exc + capability" where
  "validate_task_submission submission r =
     (if py_strip (sub_name submission) = []
      then Inl (Value_Error ''Task name must not be empty'')
      else if py_strip (sub_capability submission) = []
      then Inl (Value_Error ''Task capability must not be empty'')
      else case reg_get r (sub_capability submission) of
             Inl e \<Rightarrow> Inl (Value_Error (exc_str e))
           | Inr capability \<Rightarrow>
               (case cap_validate_input capability (sub_input submission) of
                  Inl e \<Rightarrow> Inl e
                | Inr payload \<Rightarrow> Inr capability))"

lemma validate_task_submission_Inr:
  assumes "validate_task_submission s r = Inr c"
  shows "reg_get r (sub_capability s) = Inr c"
    and "\<exists>p. cap_validate_input c (sub_input s) = Inr p"
  using assms by (auto simp: validate_task_submission_def split: if_splits sum.splits)

section \<open>Invariant\<close>

definition registry_ok :: "registry \<Rightarrow> bool" where
  "registry_ok r \<longleftrightarrow>
     dict_ok (reg_capabilities r) \<and> dict_ok (reg_execution_controls r) \<and>
     list_all (\<lambda>(name, cap). cd_name (cap_descriptor cap) = name) (reg_capabilities r) \<and>
     list_all (\<lambda>name. dget (reg_capabilities r) name \<noteq> None) (dkeys (reg_execution_controls r))"

lemma registry_ok_init: "registry_ok reg_init"
  by (simp add: registry_ok_def reg_init_def dkeys_def)

lemma registry_ok_register:
  "registry_ok r \<Longrightarrow> reg_register c ec r = Inr r' \<Longrightarrow> registry_ok r'"
  by (cases ec) (auto simp: registry_ok_def reg_register_def Let_def list_all_iff dset_in_set
      dkeys_dset_set split: if_splits)

lemma reg_register_keeps:
  "reg_register c' ec r = Inr r' \<Longrightarrow> dget (reg_capabilities r) n = Some c \<Longrightarrow>
   dget (reg_capabilities r') n = Some c"
  by (cases ec) (auto simp: reg_register_def Let_def split: if_splits)

lemma registry_ok_set_controls:
  "registry_ok r \<Longrightarrow> reg_set_execution_controls n ec r = Inr r' \<Longrightarrow> registry_ok r'"
  by (auto simp: registry_ok_def reg_set_execution_controls_def list_all_iff dkeys_dset_set
      split: if_splits)

lemma registry_ok_name:
  "registry_ok r \<Longrightarrow> reg_get r n = Inr c \<Longrightarrow> cd_name (cap_descriptor c) = n"
  by (auto simp: registry_ok_def reg_get_def list_all_iff dget_Some_iff split: option.splits)

lemma reg_get_controls:
  "reg_get r n = Inr c \<Longrightarrow> \<exists>ec. reg_execution_controls_of r n = Inr ec"
  by (auto simp: reg_get_def reg_execution_controls_of_def split: option.splits)

text \<open>Registering capabilities in sequence, as the loader does; a duplicate name stops it.\<close>

fun reg_register_all :: "(capability \<times> exec_controls option) list \<Rightarrow> registry \<Rightarrow> exc + registry" where
  "reg_register_all [] r = Inr r"
| "reg_register_all ((c, ec) # cs) r =
     (case reg_register c ec r of Inl e \<Rightarrow> Inl e | Inr r' \<Rightarrow> reg_register_all cs r')"

lemma registry_ok_register_all:
  "registry_ok r \<Longrightarrow> reg_register_all cs r = Inr r' \<Longrightarrow> registry_ok r'"
  by (induction cs r rule: reg_register_all.induct)
    (auto split: sum.splits dest: registry_ok_register)

lemma register_all_keeps:
  "reg_register_all cs r = Inr r' \<Longrightarrow> dget (reg_capabilities r) n = Some c \<Longrightarrow>
   dget (reg_capabilities r') n = Some c"
  by (induction cs r rule: reg_register_all.induct)
    (auto split: sum.splits dest: reg_register_keeps)

lemma registry_ok_healthy:
  assumes "registry_ok r" and "reg_capabilities r \<noteq> []"
  shows "reg_health_check r = []"
proof -
  have "cd_name (cap_descriptor c) = n" if "(n, c) \<in> set (reg_capabilities r)" for n c
    using assms(1) that by (auto simp: registry_ok_def list_all_iff)
  moreover have "dget (reg_capabilities r) n \<noteq> None" if "n \<in> set (dkeys (reg_execution_controls r))" for n
    using assms(1) that by (auto simp: registry_ok_def list_all_iff)
  ultimately show ?thesis
    using assms(2) by (fastforce simp: reg_health_check_def)
qed

text \<open>
  However capabilities are registered, starting from the empty registry, a registration that
  succeeds leaves a healthy registry (no key mismatch, no controls for an unknown capability) in
  which every registered capability is found under its own name with its own controls.
\<close>

theorem register_all_lookup:
  assumes "reg_register_all cs reg_init = Inr r" and "(c, ec) \<in> set cs"
  shows "reg_get r (cd_name (cap_descriptor c)) = Inr c \<and> reg_health_check r = []"
proof -
  have got: "dget (reg_capabilities r) (cd_name (cap_descriptor c)) = Some c"
    if "reg_register_all cs r0 = Inr r" and "(c, ec) \<in> set cs" for cs r0
    using that
  proof (induction cs r0 rule: reg_register_all.induct)
    case (2 c' ec' cs r0)
    then obtain r1 where r1: "reg_register c' ec' r0 = Inr r1" and rest: "reg_register_all cs r1 = Inr r"
      by (auto split: sum.splits)
    show ?case
    proof (cases "c' = c \<and> ec' = ec")
      case True
      with r1 have "dget (reg_capabilities r1) (cd_name (cap_descriptor c)) = Some c"
        by (auto simp: reg_register_def Let_def split: if_splits option.splits)
      then show ?thesis by (rule register_all_keeps [OF rest])
    next
      case False
      with 2 r1 rest show ?thesis by auto
    qed
  qed simp
  from got [OF assms] have found: "dget (reg_capabilities r) (cd_name (cap_descriptor c)) = Some c" .
  moreover have "reg_health_check r = []"
    by (rule registry_ok_healthy) (use registry_ok_register_all [OF registry_ok_init assms(1)] found in auto)
  ultimately show ?thesis by (simp add: reg_get_def)
qed

definition sample_capability :: capability where
  "sample_capability =
     \<lparr>cap_descriptor = \<lparr>cd_name = ''echo'', cd_description = ''Echo'', cd_risk_level = LOW, cd_tags = [],
        cd_require_approval = False\<rparr>,
      cap_validate_input = (\<lambda>d. Inr (PDict d)),
      cap_execute = (\<lambda>n p ctx. (0, Inr \<lparr>cr_output = p, cr_metadata = []\<rparr>))\<rparr>"

theorem register_all_lookup_witness:
  "\<exists>r. reg_register_all [(sample_capability, Some new_exec_controls)] reg_init = Inr r \<and>
     reg_get r ''echo'' = Inr sample_capability \<and> reg_health_check r = []"
proof -
  obtain r where r: "reg_register_all [(sample_capability, Some new_exec_controls)] reg_init = Inr r"
    by (simp add: reg_register_def reg_init_def Let_def)
  have "cd_name (cap_descriptor sample_capability) = ''echo''" by (simp add: sample_capability_def)
  with register_all_lookup [OF r, of sample_capability "Some new_exec_controls"] r show ?thesis by simp
qed

end
