(* ===== verification/Stores.thy ===== *)
theory Stores
  imports Contracts
begin

text \<open>
  \<^verbatim>\<open>engine/runtime/store.py\<close>: the in-memory, the JSON-file and the SQLite task stores, the
  contract they share (locale \<open>task_store\<close>) and their observational equivalence, proved once for
  any two stores that satisfy the contract.

  Pydantic's \<^verbatim>\<open>model_dump\<close>/\<^verbatim>\<open>model_validate\<close> and \<^verbatim>\<open>datetime.isoformat\<close> are not the engine's code:
  the file-backed stores take them as a \<open>codec\<close>, whose only assumed law is that validating a dump
  gives the record back.  An operation of the JSON store is
  atomic here; its lock and its temporary file are the subject of \<open>Locking\<close>.
\<close>

section \<open>Filtering and pagination\<close>

text \<open>\<^verbatim>\<open>_filter_records\<close>; a status filter is compared as text.\<close>

definition filter_records ::
  "task_record list \<Rightarrow> int option \<Rightarrow> int \<Rightarrow> string option \<Rightarrow> task_record list" where
  "filter_records records limit offset status =
     (let records = (case status of None \<Rightarrow> records
                     | Some v \<Rightarrow> filter (\<lambda>r. status_value (task_status r) = v) records);
          records = py_from offset records
      in case limit of None \<Rightarrow> records | Some n \<Rightarrow> py_upto n records)"

section \<open>MemoryTaskStore\<close>

record mem_store =
  ms_tasks :: "task_record dict"

definition ms_init :: mem_store where
  "ms_init = \<lparr>ms_tasks = []\<rparr>"

definition ms_save :: "task_record \<Rightarrow> mem_store \<Rightarrow> mem_store" where
  "ms_save task s = s\<lparr>ms_tasks := dset (task_id task) task (ms_tasks s)\<rparr>"

definition ms_get :: "mem_store \<Rightarrow> string \<Rightarrow> task_record option" where
  "ms_get s tid = dget (ms_tasks s) tid"

definition ms_list :: "mem_store \<Rightarrow> int option \<Rightarrow> int \<Rightarrow> string option \<Rightarrow> task_record list" where
  "ms_list s limit offset status =
     filter_records (map snd (sort_key fst (ms_tasks s))) limit offset status"

definition ms_health_check :: "mem_store \<Rightarrow> string list" where
  "ms_health_check s = []"

definition ms_ok :: "mem_store \<Rightarrow> bool" where
  "ms_ok s \<longleftrightarrow> dict_ok (ms_tasks s) \<and> list_all (\<lambda>(k, t). k = task_id t) (ms_tasks s)"

lemma ms_get_save [simp]: "ms_get (ms_save t s) k = (if k = task_id t then Some t else ms_get s k)"
  by (simp add: ms_get_def ms_save_def)

lemma ms_ok_init [simp]: "ms_ok ms_init"
  by (simp add: ms_ok_def ms_init_def)

lemma ms_ok_save [simp]: "ms_ok s \<Longrightarrow> ms_ok (ms_save t s)"
  by (auto simp: ms_ok_def ms_save_def list_all_iff dset_in_set)

lemma ms_get_id: "ms_ok s \<Longrightarrow> ms_get s k = Some t \<Longrightarrow> task_id t = k"
  by (auto simp: ms_ok_def ms_get_def list_all_iff dget_Some_iff)

section \<open>LocalTaskStore\<close>

record 'j codec =
  model_dump :: "task_record \<Rightarrow> 'j"
  model_validate :: "'j \<Rightarrow> exc + task_record"

definition codec_ok :: "'j codec \<Rightarrow> bool" where
  "codec_ok c \<longleftrightarrow> (\<forall>t. model_validate c (model_dump c t) = Inr t)"

text \<open>The state of a \<^verbatim>\<open>LocalTaskStore\<close> is its path and the file it names.\<close>

record 'j local_store =
  ls_path :: string
  ls_file :: "'j jfile"

definition ls_read_unlocked :: "'j local_store \<Rightarrow> exc + 'j dict" where
  "ls_read_unlocked s = jread (ls_file s)"

definition ls_write_unlocked :: "'j dict \<Rightarrow> 'j local_store \<Rightarrow> 'j local_store" where
  "ls_write_unlocked payload s = s\<lparr>ls_file := jwrite payload\<rparr>"

definition ls_save :: "'j codec \<Rightarrow> task_record \<Rightarrow> 'j local_store \<Rightarrow> exc + 'j local_store" where
  "ls_save c task s = (case ls_read_unlocked s of
       Inl e \<Rightarrow> Inl e
     | Inr payload \<Rightarrow> Inr (ls_write_unlocked (dset (task_id task) (model_dump c task) payload) s))"

definition ls_get :: "'j codec \<Rightarrow> 'j local_store \<Rightarrow> string \<Rightarrow> exc + task_record option" where
  "ls_get c s tid = (case ls_read_unlocked s of
       Inl e \<Rightarrow> Inl e
     | Inr payload \<Rightarrow> (case dget payload tid of
           None \<Rightarrow> Inr None
         | Some raw \<Rightarrow> map_sum id Some (model_validate c raw)))"

fun validate_all :: "'j codec \<Rightarrow> 'j list \<Rightarrow> exc + task_record list" where
  "validate_all c [] = Inr []"
| "validate_all c (j # js) = (case model_validate c j of
       Inl e \<Rightarrow> Inl e
     | Inr t \<Rightarrow> (case validate_all c js of Inl e \<Rightarrow> Inl e | Inr ts \<Rightarrow> Inr (t # ts)))"

definition ls_list :: "'j codec \<Rightarrow> 'j local_store \<Rightarrow> int option \<Rightarrow> int \<Rightarrow> string option \<Rightarrow>
    exc + task_record list" where
  "ls_list c s limit offset status = (case ls_read_unlocked s of
       Inl e \<Rightarrow> Inl e
     | Inr payload \<Rightarrow> (case validate_all c (map snd (sort_key fst payload)) of
           Inl e \<Rightarrow> Inl e
         | Inr records \<Rightarrow> Inr (filter_records records limit offset status)))"

definition ls_health_check :: "'j local_store \<Rightarrow> string list" where
  "ls_health_check s = (case ls_read_unlocked s of
       Inl (JSON_Decode_Error m) \<Rightarrow>
         [''task store '' @ quote1 @ ls_path s @ quote1 @ '' is not valid JSON: '' @ m]
     | Inl (OS_Error m) \<Rightarrow>
         [''task store '' @ quote1 @ ls_path s @ quote1 @ '' is not readable: '' @ m]
     | _ \<Rightarrow> [])"

text \<open>A readable file holds dumps of tasks under their own ids.\<close>

definition ls_ok :: "'j codec \<Rightarrow> 'j local_store \<Rightarrow> bool" where
  "ls_ok c s \<longleftrightarrow> jfile_ok (ls_file s) \<and>
     (\<forall>d. jread (ls_file s) = Inr d \<longrightarrow>
        (\<forall>(k, j) \<in> set d. \<exists>t. model_validate c j = Inr t \<and> task_id t = k))"

section \<open>SQLiteTaskStore\<close>

definition is_ident_start :: "char \<Rightarrow> bool" where
  "is_ident_start ch \<longleftrightarrow> (let n = (of_char ch :: nat) in
     (65 \<le> n \<and> n \<le> 90) \<or> (97 \<le> n \<and> n \<le> 122) \<or> n = 95)"

text \<open>\<^verbatim>\<open>_validate_identifier\<close>: the regular expression \<^verbatim>\<open>[A-Za-z_][A-Za-z0-9_]*\<close>.\<close>

definition validate_identifier :: "string \<Rightarrow> string \<Rightarrow> exc + string" where
  "validate_identifier v label =
     (case v of
        [] \<Rightarrow> Inl (Value_Error (''Invalid '' @ label @ '': '' @ py_repr v))
      | ch # rest \<Rightarrow>
          if is_ident_start ch \<and> list_all (\<lambda>x. is_ident_start x \<or> is_digit x) rest then Inr v
          else Inl (Value_Error (''Invalid '' @ label @ '': '' @ py_repr v)))"

record 'j sql_row =
  row_task_id :: string
  row_status :: string
  row_workflow_id :: "string option"
  row_created_at :: string
  row_updated_at :: string
  row_payload :: 'j

text \<open>The table, keyed by its primary key; \<open>isofmt\<close> renders a timestamp as \<^verbatim>\<open>isoformat()\<close> does.\<close>

record 'j sqlite_store =
  sq_rows :: "'j sql_row dict"

definition sq_init :: "'j sqlite_store" where
  "sq_init = \<lparr>sq_rows = []\<rparr>"

definition sq_row :: "'j codec \<Rightarrow> (int \<Rightarrow> string) \<Rightarrow> task_record \<Rightarrow> 'j sql_row" where
  "sq_row c isofmt task =
     \<lparr>row_task_id = task_id task, row_status = status_value (task_status task),
      row_workflow_id = task_workflow_id task, row_created_at = isofmt (task_created_at task),
      row_updated_at = isofmt (task_updated_at task), row_payload = model_dump c task\<rparr>"

text \<open>\<^verbatim>\<open>INSERT ... ON CONFLICT(task_id) DO UPDATE\<close> of every other column.\<close>

definition sq_save :: "'j codec \<Rightarrow> (int \<Rightarrow> string) \<Rightarrow> task_record \<Rightarrow> 'j sqlite_store \<Rightarrow> exc + 'j sqlite_store" where
  "sq_save c isofmt task s = Inr (s\<lparr>sq_rows := dset (task_id task) (sq_row c isofmt task) (sq_rows s)\<rparr>)"

definition sq_get :: "'j codec \<Rightarrow> 'j sqlite_store \<Rightarrow> string \<Rightarrow> exc + task_record option" where
  "sq_get c s tid = (case dget (sq_rows s) tid of
       None \<Rightarrow> Inr None
     | Some row \<Rightarrow> map_sum id Some (model_validate c (row_payload row)))"

text \<open>SQL's \<^verbatim>\<open>LIMIT\<close>/\<^verbatim>\<open>OFFSET\<close>: a negative limit is no limit, a negative offset is zero.\<close>

definition sql_page :: "int option \<Rightarrow> int \<Rightarrow> 'a list \<Rightarrow> 'a list" where
  "sql_page limit offset rows =
     (let rows = (if offset = 0 then rows else drop (nat offset) rows) in
      case limit of None \<Rightarrow> rows | Some n \<Rightarrow> if n < 0 then rows else take (nat n) rows)"

definition sq_list :: "'j codec \<Rightarrow> 'j sqlite_store \<Rightarrow> int option \<Rightarrow> int \<Rightarrow> string option \<Rightarrow>
    exc + task_record list" where
  "sq_list c s limit offset status =
     (let rows = dvalues (sq_rows s);
          rows = (case status of None \<Rightarrow> rows | Some v \<Rightarrow> filter (\<lambda>r. row_status r = v) rows);
          rows = sort_key (\<lambda>r. (row_created_at r, row_task_id r)) rows
      in validate_all c (map row_payload (sql_page limit offset rows)))"

definition sq_ok :: "'j codec \<Rightarrow> 'j sqlite_store \<Rightarrow> bool" where
  "sq_ok c s \<longleftrightarrow> dict_ok (sq_rows s) \<and>
     (\<forall>(k, row) \<in> set (sq_rows s). row_task_id row = k \<and>
        (\<exists>t. model_validate c (row_payload row) = Inr t \<and> task_id t = k))"

section \<open>The contract of a task store\<close>

locale task_store =
  fixes save :: "task_record \<Rightarrow> 's \<Rightarrow> exc + 's"
    and get :: "'s \<Rightarrow> string \<Rightarrow> exc + task_record option"
    and listed :: "'s \<Rightarrow> exc + task_record list"
    and invar :: "'s \<Rightarrow> bool"
    and storable :: "task_record \<Rightarrow> bool"
  assumes save_ok: "invar s \<Longrightarrow> storable t \<Longrightarrow> \<exists>s'. save t s = Inr s' \<and> invar s'"
    and get_save: "invar s \<Longrightarrow> storable t \<Longrightarrow> save t s = Inr s' \<Longrightarrow>
      get s' k = (if k = task_id t then Inr (Some t) else get s k)"
    and get_ok: "invar s \<Longrightarrow> \<exists>r. get s k = Inr r"
    and listed_ok: "invar s \<Longrightarrow> \<exists>ts. listed s = Inr ts \<and> distinct (map task_id ts) \<and>
      (\<forall>t. t \<in> set ts \<longleftrightarrow> get s (task_id t) = Inr (Some t))"
begin

fun save_all :: "task_record list \<Rightarrow> 's \<Rightarrow> exc + 's" where
  "save_all [] s = Inr s"
| "save_all (t # ts) s = (case save t s of Inl e \<Rightarrow> Inl e | Inr s' \<Rightarrow> save_all ts s')"

lemma save_all_ok: "invar s \<Longrightarrow> list_all storable ts \<Longrightarrow> \<exists>s'. save_all ts s = Inr s' \<and> invar s'"
proof (induction ts arbitrary: s)
  case (Cons t ts)
  from Cons.prems have t: "storable t" and ts: "list_all storable ts" by simp_all
  obtain s1 where "save t s = Inr s1" "invar s1" using save_ok [OF Cons.prems(1) t] by blast
  with Cons.IH [OF _ ts] show ?case by simp
qed simp

text \<open>Last write wins: after a sequence of saves, each id holds the last task saved under it.\<close>

lemma save_all_get:
  "invar s \<Longrightarrow> list_all storable ts \<Longrightarrow> save_all ts s = Inr s' \<Longrightarrow>
   get s' k = (case find (\<lambda>t. task_id t = k) (rev ts) of None \<Rightarrow> get s k | Some t \<Rightarrow> Inr (Some t))"
proof (induction ts arbitrary: s)
  case (Cons t ts)
  from Cons.prems have t: "storable t" and ts: "list_all storable ts" by simp_all
  obtain s1 where s1: "save t s = Inr s1" "invar s1" using save_ok [OF Cons.prems(1) t] by blast
  with Cons.prems have rest: "save_all ts s1 = Inr s'" by simp
  have find_snoc: "find P (xs @ [x]) = (case find P xs of None \<Rightarrow> if P x then Some x else None | r \<Rightarrow> r)"
    for P and xs :: "task_record list" and x
    by (induction xs) auto
  show ?case
    using Cons.IH [OF s1(2) ts rest] get_save [OF Cons.prems(1) t s1(1)]
    by (auto simp: find_snoc split: option.splits)
qed simp

lemma listed_mset:
  assumes "invar s" and "listed s = Inr ts"
  shows "mset ts = mset_set {t. get s (task_id t) = Inr (Some t)}"
proof -
  from listed_ok [OF assms(1)] assms(2)
  have "distinct (map task_id ts)" and "set ts = {t. get s (task_id t) = Inr (Some t)}"
    by auto
  then show ?thesis by (metis distinct_map mset_set_set)
qed

end

text \<open>Two stores that were given the same saves answer every question alike.\<close>

locale two_task_stores = a: task_store save1 get1 listed1 invar1 storable1 +
    b: task_store save2 get2 listed2 invar2 storable2
  for save1 :: "task_record \<Rightarrow> 's \<Rightarrow> exc + 's" and get1 listed1 invar1 storable1
  and save2 :: "task_record \<Rightarrow> 't \<Rightarrow> exc + 't" and get2 listed2 invar2 storable2
begin

lemma same_answers:
  assumes "invar1 s" and "invar2 s'" and start: "\<And>k. get1 s k = get2 s' k"
    and st1: "list_all storable1 xs" and st2: "list_all storable2 xs"
  shows "\<exists>u u' ts ts'. a.save_all xs s = Inr u \<and> b.save_all xs s' = Inr u' \<and> invar1 u \<and> invar2 u' \<and>
     (\<forall>k. get1 u k = get2 u' k) \<and> listed1 u = Inr ts \<and> listed2 u' = Inr ts' \<and> mset ts = mset ts'"
proof -
  obtain u where u: "a.save_all xs s = Inr u" "invar1 u" using a.save_all_ok [OF assms(1) st1] by blast
  obtain u' where u': "b.save_all xs s' = Inr u'" "invar2 u'" using b.save_all_ok [OF assms(2) st2] by blast
  have same: "get1 u k = get2 u' k" for k
    by (simp add: a.save_all_get [OF assms(1) st1 u(1)] b.save_all_get [OF assms(2) st2 u'(1)] start
        split: option.split)
  obtain ts where ts: "listed1 u = Inr ts" using a.listed_ok u(2) by blast
  obtain ts' where ts': "listed2 u' = Inr ts'" using b.listed_ok u'(2) by blast
  have "mset ts = mset ts'"
    using a.listed_mset [OF u(2) ts] b.listed_mset [OF u'(2) ts'] same by simp
  with u u' ts ts' same show ?thesis by blast
qed

end

section \<open>The three stores keep the contract\<close>

lemma validate_all_ok:
  "(\<And>j. j \<in> set js \<Longrightarrow> \<exists>t. model_validate c j = Inr t) \<Longrightarrow>
   validate_all c js = Inr (map (\<lambda>j. projr (model_validate c j)) js)"
  by (induction js) (fastforce split: sum.splits)+

text \<open>What a listing of a keyed collection contains, whatever its order.\<close>

lemma dict_listing:
  assumes ok: "dict_ok d"
    and val: "\<And>k x. (k, x) \<in> set d \<Longrightarrow> \<exists>t. V x = Inr t \<and> task_id t = k"
    and perm: "mset xs = mset (map snd d)"
  defines "ts \<equiv> map (\<lambda>x. projr (V x)) xs"
  shows "distinct (map task_id ts)"
    and "t \<in> set ts \<longleftrightarrow> (\<exists>x. dget d (task_id t) = Some x \<and> V x = Inr t)"
proof -
  have key: "task_id (projr (V x)) = k" if "(k, x) \<in> set d" for k x
    using val [OF that] by auto
  have "mset (map task_id ts) = image_mset (\<lambda>x. task_id (projr (V x))) (mset xs)"
    by (simp add: ts_def multiset.map_comp comp_def)
  also have "\<dots> = image_mset (\<lambda>x. task_id (projr (V x))) (mset (map snd d))"
    by (simp only: perm)
  also have "\<dots> = mset (map (\<lambda>p. task_id (projr (V (snd p)))) d)"
    by (simp add: multiset.map_comp comp_def)
  also have "map (\<lambda>p. task_id (projr (V (snd p)))) d = map fst d"
    using key by auto
  finally show "distinct (map task_id ts)"
    using ok by (metis dict_ok_def mset_eq_imp_distinct_iff)
  have "set xs = snd ` set d" using perm by (metis list.set_map mset_eq_setD)
  then have "t \<in> set ts \<longleftrightarrow> (\<exists>k x. (k, x) \<in> set d \<and> t = projr (V x))"
    by (force simp: ts_def)
  also have "\<dots> \<longleftrightarrow> (\<exists>x. dget d (task_id t) = Some x \<and> V x = Inr t)"
    using val by (fastforce simp: dget_Some_iff [OF ok])
  finally show "t \<in> set ts \<longleftrightarrow> (\<exists>x. dget d (task_id t) = Some x \<and> V x = Inr t)" .
qed

lemma filter_records_all [simp]: "filter_records rs None 0 None = rs"
  by (simp add: filter_records_def)

interpretation mts: task_store "\<lambda>t s. Inr (ms_save t s)" "\<lambda>s k. Inr (ms_get s k)"
    "\<lambda>s. Inr (ms_list s None 0 None)" ms_ok "\<lambda>_. True"
proof unfold_locales
  fix s assume ok: "ms_ok s"
  then have d: "dict_ok (ms_tasks s)"
    and v: "\<And>k x. (k, x) \<in> set (ms_tasks s) \<Longrightarrow> \<exists>t. (Inr x :: exc + task_record) = Inr t \<and> task_id t = k"
    by (auto simp: ms_ok_def list_all_iff)
  have p: "mset (map snd (sort_key fst (ms_tasks s))) = mset (map snd (ms_tasks s))" by simp
  note l = dict_listing [where V = "Inr :: task_record \<Rightarrow> exc + task_record", OF d v p]
  show "\<exists>ts. Inr (ms_list s None 0 None) = (Inr ts :: exc + _) \<and> distinct (map task_id ts) \<and>
      (\<forall>t. (t \<in> set ts) = ((Inr (ms_get s (task_id t)) :: exc + _) = Inr (Some t)))"
    using l by (auto simp: ms_list_def ms_get_def)
qed auto

lemma ls_task_store:
  assumes c: "codec_ok c"
  shows "task_store (ls_save c) (ls_get c) (\<lambda>s. ls_list c s None 0 None) (ls_ok c) (\<lambda>_. True)"
proof
  fix s t
  assume ok: "ls_ok c s"
  then obtain d where d: "jread (ls_file s) = Inr d" "dict_ok d"
    by (auto simp: ls_ok_def jfile_ok_jread)
  show "\<exists>s'. ls_save c t s = Inr s' \<and> ls_ok c s'"
    using ok d c by (auto simp: ls_save_def ls_read_unlocked_def ls_write_unlocked_def ls_ok_def
        dset_in_set codec_ok_def)
  show "ls_get c s' k = (if k = task_id t then Inr (Some t) else ls_get c s k)"
    if "ls_save c t s = Inr s'" for s' k
    using that d c by (auto simp: ls_save_def ls_get_def ls_read_unlocked_def ls_write_unlocked_def
        codec_ok_def)
  have val: "\<exists>t. model_validate c j = Inr t \<and> task_id t = k" if "(k, j) \<in> set d" for k j
    using ok d that by (auto simp: ls_ok_def)
  show "\<exists>r. ls_get c s k = Inr r" for k
  proof (cases "dget d k")
    case None
    with d show ?thesis by (simp add: ls_get_def ls_read_unlocked_def)
  next
    case (Some j)
    then have "(k, j) \<in> set d" using d by (simp add: dget_Some_iff)
    from val [OF this] Some d show ?thesis by (auto simp: ls_get_def ls_read_unlocked_def)
  qed
  have p: "mset (map snd (sort_key fst d)) = mset (map snd d)" by simp
  note l = dict_listing [where V = "model_validate c", OF d(2) val p]
  have "validate_all c (map snd (sort_key fst d)) =
      Inr (map (\<lambda>j. projr (model_validate c j)) (map snd (sort_key fst d)))"
    by (rule validate_all_ok) (auto dest!: val)
  then show "\<exists>ts. ls_list c s None 0 None = Inr ts \<and> distinct (map task_id ts) \<and>
      (\<forall>t. (t \<in> set ts) = (ls_get c s (task_id t) = Inr (Some t)))"
    using l d by (auto simp: ls_list_def ls_get_def ls_read_unlocked_def split: option.splits sum.splits)
qed

lemma sql_page_all [simp]: "sql_page None 0 rows = rows"
  by (simp add: sql_page_def)

lemma sq_task_store:
  assumes c: "codec_ok c"
  shows "task_store (sq_save c isofmt) (sq_get c) (\<lambda>s. sq_list c s None 0 None) (sq_ok c) (\<lambda>_. True)"
proof
  fix s t
  assume ok: "sq_ok c s"
  show "\<exists>s'. sq_save c isofmt t s = Inr s' \<and> sq_ok c s'"
    using ok c by (auto simp: sq_save_def sq_ok_def dset_in_set codec_ok_def sq_row_def)
  show "sq_get c s' k = (if k = task_id t then Inr (Some t) else sq_get c s k)"
    if "sq_save c isofmt t s = Inr s'" for s' k
    using that c by (auto simp: sq_save_def sq_get_def codec_ok_def sq_row_def)
  have d: "dict_ok (sq_rows s)" using ok by (simp add: sq_ok_def)
  have val: "\<exists>t. model_validate c (row_payload x) = Inr t \<and> task_id t = k"
    if "(k, x) \<in> set (sq_rows s)" for k x
    using ok that by (auto simp: sq_ok_def)
  show "\<exists>r. sq_get c s k = Inr r" for k
  proof (cases "dget (sq_rows s) k")
    case (Some x)
    then have "(k, x) \<in> set (sq_rows s)" using d by (simp add: dget_Some_iff)
    from val [OF this] Some show ?thesis by (auto simp: sq_get_def)
  qed (simp add: sq_get_def)
  let ?rows = "sort_key (\<lambda>r. (row_created_at r, row_task_id r)) (dvalues (sq_rows s))"
  have p: "mset ?rows = mset (map snd (sq_rows s))" by (simp add: dvalues_def)
  note l = dict_listing [where V = "\<lambda>x. model_validate c (row_payload x)", OF d val p]
  have "validate_all c (map row_payload ?rows) =
      Inr (map (\<lambda>j. projr (model_validate c j)) (map row_payload ?rows))"
    by (rule validate_all_ok) (auto simp: dvalues_def dest!: val)
  then show "\<exists>ts. sq_list c s None 0 None = Inr ts \<and> distinct (map task_id ts) \<and>
      (\<forall>t. (t \<in> set ts) = (sq_get c s (task_id t) = Inr (Some t)))"
    using l by (auto simp: sq_list_def sq_get_def comp_def split: option.splits sum.splits)
qed

text \<open>The codec that keeps the record itself: the instance the interpretations are given.\<close>

definition record_codec :: "task_record codec" where
  "record_codec = \<lparr>model_dump = id, model_validate = Inr\<rparr>"

lemma record_codec_ok [simp]: "codec_ok record_codec"
  by (simp add: codec_ok_def record_codec_def)

interpretation lts: task_store "ls_save record_codec" "ls_get record_codec"
    "\<lambda>s. ls_list record_codec s None 0 None" "ls_ok record_codec" "\<lambda>_. True"
  by (rule ls_task_store) simp

interpretation sts: task_store "sq_save record_codec isofmt" "sq_get record_codec"
    "\<lambda>s. sq_list record_codec s None 0 None" "sq_ok record_codec" "\<lambda>_. True" for isofmt
  by (rule sq_task_store) simp

interpretation mem_json: two_task_stores "\<lambda>t s. Inr (ms_save t s)" "\<lambda>s k. Inr (ms_get s k)"
    "\<lambda>s. Inr (ms_list s None 0 None)" ms_ok "\<lambda>_. True" "ls_save record_codec" "ls_get record_codec"
    "\<lambda>s. ls_list record_codec s None 0 None" "ls_ok record_codec" "\<lambda>_. True"
  by unfold_locales

lemma concat_pages:
  "concat (map (\<lambda>i. take n (drop (i * n) xs)) [0..<k]) = take (k * n) xs"
  by (induction k) (simp_all add: take_add [symmetric] add.commute)

text \<open>
  Paging through a listing loses and repeats nothing: the pages of size \<open>n\<close> at offsets
  \<open>0, n, 2n, ...\<close> put together are the first \<open>k * n\<close> tasks of the unpaged listing, under any
  status filter.
\<close>

theorem memory_list_pages:
  "concat (map (\<lambda>i. ms_list s (Some (int n)) (int (i * n)) st) [0..<k]) =
   take (k * n) (ms_list s None 0 st)"
proof -
  have "ms_list s (Some (int n)) (int (i * n)) st = take n (drop (i * n) (ms_list s None 0 st))" for i
    by (simp add: ms_list_def filter_records_def py_from_def py_upto_def Let_def
        del: of_nat_mult)
  then show ?thesis by (simp add: concat_pages)
qed

text \<open>
  The in-memory store, the JSON-file store (on a file that does not exist yet) and the SQLite
  store (on an empty table), given the same sequence of saves, all accept every save, then hold the
  same task under every id and list the same tasks; only the order differs (by id in the first two,
  by creation time in SQLite).  The only fact used of pydantic is that validating a dump gives the
  record back.
\<close>

theorem stores_agree:
  assumes c: "codec_ok c"
  shows "\<exists>m l q mt lt qt.
     task_store.save_all (\<lambda>t s. Inr (ms_save t s)) ts ms_init = Inr m \<and>
     task_store.save_all (ls_save c) ts \<lparr>ls_path = p, ls_file = Absent\<rparr> = Inr l \<and>
     task_store.save_all (sq_save c isofmt) ts sq_init = Inr q \<and>
     (\<forall>k. ls_get c l k = Inr (ms_get m k) \<and> sq_get c q k = Inr (ms_get m k)) \<and>
     ms_list m None 0 None = mt \<and> ls_list c l None 0 None = Inr lt \<and>
     sq_list c q None 0 None = Inr qt \<and> mset mt = mset lt \<and> mset lt = mset qt"
proof -
  have l0: "ls_ok c \<lparr>ls_path = p, ls_file = Absent\<rparr>" by (simp add: ls_ok_def)
  have q0: "sq_ok c sq_init" by (simp add: sq_ok_def sq_init_def)
  have gl: "Inr (ms_get ms_init k) = ls_get c \<lparr>ls_path = p, ls_file = Absent\<rparr> k" for k
    by (simp add: ms_get_def ms_init_def ls_get_def ls_read_unlocked_def)
  have gq: "Inr (ms_get ms_init k) = sq_get c sq_init k" for k
    by (simp add: ms_get_def ms_init_def sq_get_def sq_init_def)
  have all_ok: "list_all (\<lambda>_. True) ts" by (simp add: list_all_iff)
  note ml = two_task_stores.same_answers [OF two_task_stores.intro
      [OF mts.task_store_axioms ls_task_store [OF c]] ms_ok_init l0 gl all_ok all_ok]
  note mq = two_task_stores.same_answers [OF two_task_stores.intro
      [OF mts.task_store_axioms sq_task_store [OF c, of isofmt]] ms_ok_init q0 gq all_ok all_ok]
  from ml mq show ?thesis by force
qed

theorem stores_agree_witness:
  "codec_ok record_codec \<and>
   (\<exists>m l q. task_store.save_all (\<lambda>t s. Inr (ms_save t s)) [new_task_record ''a'' ''n'' ''echo'' 1] ms_init = Inr m \<and>
     task_store.save_all (ls_save record_codec) [new_task_record ''a'' ''n'' ''echo'' 1]
       \<lparr>ls_path = ''t.json'', ls_file = Absent\<rparr> = Inr l \<and>
     task_store.save_all (sq_save record_codec (\<lambda>_. [])) [new_task_record ''a'' ''n'' ''echo'' 1] sq_init = Inr q \<and>
     (\<forall>k. ls_get record_codec l k = Inr (ms_get m k)))"
  using stores_agree [OF record_codec_ok, of "[new_task_record ''a'' ''n'' ''echo'' 1]" "''t.json''" "\<lambda>_. []"] record_codec_ok by blast

end
