(* ===== verification/Store_Backends.thy ===== *)
theory Store_Backends
  imports Stores
begin

text \<open>
  \<^verbatim>\<open>engine/runtime/store.py\<close>: the constructors and health checks of the database-backed task
  stores, the Postgres store and the Redis store, and the proof that they keep the contract
  \<open>task_store\<close> of theory \<open>Stores\<close>.

  The drivers \<^verbatim>\<open>psycopg\<close> and \<^verbatim>\<open>redis\<close> are not in the repository.  Of Postgres the model takes the
  meaning of the SQL the store sends (one table, an upsert, a select with \<^verbatim>\<open>ORDER BY\<close>, \<^verbatim>\<open>LIMIT\<close> and
  \<^verbatim>\<open>OFFSET\<close>), and as parameters what casting a payload to \<^verbatim>\<open>JSONB\<close> does with it and how the
  database collates text.  A Redis client is a record of the five operations the store calls;
  \<open>redis_ok\<close> states what their documentation says of string and set keys.
\<close>

section \<open>Opening a SQL store\<close>

text \<open>
  \<^verbatim>\<open>SQLiteTaskStore.__init__\<close>: the table name is checked before anything touches the disk;
  \<open>opened\<close> is what creating the table if it is not there yet leads to.
\<close>

definition sq_new :: "string \<Rightarrow> (string \<Rightarrow> exc + 'j sqlite_store) \<Rightarrow> exc + 'j sqlite_store" where
  "sq_new table opened = (case validate_identifier table ''SQLite table name'' of
       Inl e \<Rightarrow> Inl e
     | Inr name \<Rightarrow> opened name)"

definition sq_health_check :: "string \<Rightarrow> (exc + unit) \<Rightarrow> string list" where
  "sq_health_check path select1 = (case select1 of
       Inl e \<Rightarrow> [''SQLite health check failed for '' @ path @ '': '' @ exc_str e]
     | Inr _ \<Rightarrow> [])"

section \<open>PostgresTaskStore\<close>

record 'j pg_row =
  pr_task_id :: string
  pr_status :: string
  pr_workflow_id :: "string option"
  pr_created_at :: int
  pr_updated_at :: int
  pr_payload :: 'j

record 'j pg_store =
  pg_dsn :: string
  pg_table_name :: string
  pg_rows :: "'j pg_row dict"

text \<open>
  \<open>opened\<close> is the table after \<^verbatim>\<open>CREATE TABLE IF NOT EXISTS\<close>, or what connecting raises.
\<close>

definition pg_new :: "bool \<Rightarrow> (string \<Rightarrow> string \<Rightarrow> exc + 'j pg_row dict) \<Rightarrow> string \<Rightarrow> string \<Rightarrow>
    exc + 'j pg_store" where
  "pg_new psycopg_installed opened dsn table =
     (case validate_identifier table ''Postgres table name'' of
        Inl e \<Rightarrow> Inl e
      | Inr name \<Rightarrow>
          if \<not> psycopg_installed then
            Inl (Runtime_Error (''PostgresTaskStore requires the '' @ quote1 @ ''psycopg'' @ quote1 @
              '' package. Install conductor-engine[postgres].''))
          else (case opened dsn name of
              Inl e \<Rightarrow> Inl e
            | Inr rows \<Rightarrow> Inr \<lparr>pg_dsn = dsn, pg_table_name = name, pg_rows = rows\<rparr>))"

definition pg_row_of :: "task_record \<Rightarrow> 'j \<Rightarrow> 'j pg_row" where
  "pg_row_of task payload =
     \<lparr>pr_task_id = task_id task, pr_status = status_value (task_status task),
      pr_workflow_id = task_workflow_id task, pr_created_at = task_created_at task,
      pr_updated_at = task_updated_at task, pr_payload = payload\<rparr>"

text \<open>
  \<open>jsonb\<close> is the cast \<^verbatim>\<open>%s::jsonb\<close>: it stores an equivalent document, or raises, for instance on a
  text that has a NUL character.
\<close>

definition pg_save :: "'j codec \<Rightarrow> ('j \<Rightarrow> exc + 'j) \<Rightarrow> task_record \<Rightarrow> 'j pg_store \<Rightarrow> exc + 'j pg_store" where
  "pg_save c jsonb task s = (case jsonb (model_dump c task) of
       Inl e \<Rightarrow> Inl e
     | Inr payload \<Rightarrow> Inr (s\<lparr>pg_rows := dset (task_id task) (pg_row_of task payload) (pg_rows s)\<rparr>))"

definition pg_get :: "'j codec \<Rightarrow> 'j pg_store \<Rightarrow> string \<Rightarrow> exc + task_record option" where
  "pg_get c s tid = (case dget (pg_rows s) tid of
       None \<Rightarrow> Inr None
     | Some row \<Rightarrow> map_sum id Some (model_validate c (pr_payload row)))"

text \<open>
  Postgres refuses a negative \<^verbatim>\<open>OFFSET\<close> or \<^verbatim>\<open>LIMIT\<close>; the query has an \<^verbatim>\<open>OFFSET\<close> only when the
  offset is not zero.
\<close>

definition pg_page :: "int option \<Rightarrow> int \<Rightarrow> 'a list \<Rightarrow> exc + 'a list" where
  "pg_page limit offset rows =
     (if offset < 0 then
        Inl (Other_Exception ''InvalidRowCountInResultOffsetClause'' ''OFFSET must not be negative'')
      else (case limit of
          None \<Rightarrow> Inr (drop (nat offset) rows)
        | Some n \<Rightarrow>
            if n < 0 then
              Inl (Other_Exception ''InvalidRowCountInLimitClause'' ''LIMIT must not be negative'')
            else Inr (take (nat n) (drop (nat offset) rows))))"

text \<open>\<open>collate\<close> is the sort key of the database's collation for \<^verbatim>\<open>task_id\<close>.\<close>

definition pg_list :: "'j codec \<Rightarrow> (string \<Rightarrow> 'k::linorder) \<Rightarrow> 'j pg_store \<Rightarrow> int option \<Rightarrow> int \<Rightarrow>
    string option \<Rightarrow> exc + task_record list" where
  "pg_list c collate s limit offset status =
     (let rows = dvalues (pg_rows s);
          rows = (case status of None \<Rightarrow> rows | Some v \<Rightarrow> filter (\<lambda>r. pr_status r = v) rows);
          rows = sort_key (\<lambda>r. (pr_created_at r, collate (pr_task_id r))) rows
      in (case pg_page limit offset rows of
            Inl e \<Rightarrow> Inl e
          | Inr page \<Rightarrow> validate_all c (map pr_payload page)))"

definition pg_health_check :: "(exc + unit) \<Rightarrow> string list" where
  "pg_health_check select1 = (case select1 of
       Inl e \<Rightarrow> [''Postgres health check failed: '' @ exc_str e]
     | Inr _ \<Rightarrow> [])"

definition pg_ok :: "'j codec \<Rightarrow> 'j pg_store \<Rightarrow> bool" where
  "pg_ok c s \<longleftrightarrow> dict_ok (pg_rows s) \<and>
     (\<forall>(k, row) \<in> set (pg_rows s). pr_task_id row = k \<and>
        (\<exists>t. model_validate c (pr_payload row) = Inr t \<and> task_id t = k))"

text \<open>A task Postgres can hold: the cast accepts its dump and keeps what the dump says.\<close>

definition pg_storable :: "'j codec \<Rightarrow> ('j \<Rightarrow> exc + 'j) \<Rightarrow> task_record \<Rightarrow> bool" where
  "pg_storable c jsonb t \<longleftrightarrow> (case jsonb (model_dump c t) of
       Inl _ \<Rightarrow> False
     | Inr p \<Rightarrow> model_validate c p = Inr t)"

lemma pg_task_store:
  "task_store (pg_save c jsonb) (pg_get c) (\<lambda>s. pg_list c collate s None 0 None) (pg_ok c)
     (pg_storable c jsonb)"
proof
  fix s t
  assume ok: "pg_ok c s"
  show "\<exists>s'. pg_save c jsonb t s = Inr s' \<and> pg_ok c s'" if "pg_storable c jsonb t"
    using ok that by (auto simp: pg_save_def pg_ok_def pg_storable_def dset_in_set pg_row_of_def
        split: sum.splits)
  show "pg_get c s' k = (if k = task_id t then Inr (Some t) else pg_get c s k)"
    if "pg_storable c jsonb t" and "pg_save c jsonb t s = Inr s'" for s' k
    using that by (auto simp: pg_save_def pg_get_def pg_storable_def pg_row_of_def split: sum.splits)
  have d: "dict_ok (pg_rows s)" using ok by (simp add: pg_ok_def)
  have val: "\<exists>t. model_validate c (pr_payload x) = Inr t \<and> task_id t = k"
    if "(k, x) \<in> set (pg_rows s)" for k x
    using ok that by (auto simp: pg_ok_def)
  show "\<exists>r. pg_get c s k = Inr r" for k
  proof (cases "dget (pg_rows s) k")
    case (Some x)
    then have "(k, x) \<in> set (pg_rows s)" using d by (simp add: dget_Some_iff)
    from val [OF this] Some show ?thesis by (auto simp: pg_get_def)
  qed (simp add: pg_get_def)
  let ?rows = "sort_key (\<lambda>r. (pr_created_at r, collate (pr_task_id r))) (dvalues (pg_rows s))"
  have p: "mset ?rows = mset (map snd (pg_rows s))" by (simp add: dvalues_def)
  note l = dict_listing [where V = "\<lambda>x. model_validate c (pr_payload x)", OF d val p]
  have "validate_all c (map pr_payload ?rows) =
      Inr (map (\<lambda>j. projr (model_validate c j)) (map pr_payload ?rows))"
    by (rule validate_all_ok) (auto simp: dvalues_def dest!: val)
  then show "\<exists>ts. pg_list c collate s None 0 None = Inr ts \<and> distinct (map task_id ts) \<and>
      (\<forall>t. (t \<in> set ts) = (pg_get c s (task_id t) = Inr (Some t)))"
    using l by (auto simp: pg_list_def pg_page_def pg_get_def comp_def split: option.splits sum.splits)
qed

interpretation pts: task_store "pg_save record_codec Inr" "pg_get record_codec"
    "\<lambda>s. pg_list record_codec collate s None 0 None" "pg_ok record_codec"
    "pg_storable record_codec Inr" for collate :: "string \<Rightarrow> 'k::linorder"
  by (rule pg_task_store)

section \<open>RedisTaskStore\<close>

text \<open>
  Redis answers with text, or with bytes when the injected client does not decode responses.
  \<^verbatim>\<open>bytes.decode("utf-8")\<close> changes nothing on the representation, which is the UTF-8 bytes.
\<close>

datatype 't redis_reply = Reply_Text 't | Reply_Bytes 't

fun reply_text :: "'t redis_reply \<Rightarrow> 't" where
  "reply_text (Reply_Text s) = s"
| "reply_text (Reply_Bytes s) = s"

record ('c, 'j) redis_client =
  rc_set :: "string \<Rightarrow> 'j \<Rightarrow> 'c \<Rightarrow> (exc + unit) \<times> 'c"
  rc_get :: "'c \<Rightarrow> string \<Rightarrow> exc + 'j redis_reply option"
  rc_sadd :: "string \<Rightarrow> string \<Rightarrow> 'c \<Rightarrow> (exc + unit) \<times> 'c"
  rc_smembers :: "'c \<Rightarrow> string \<Rightarrow> exc + string redis_reply list"
  rc_ping :: "'c \<Rightarrow> exc + unit"

text \<open>
  \<^verbatim>\<open>RedisTaskStore.__init__\<close>: an injected client is used as it is, otherwise \<open>from_url\<close> makes one,
  if the package is installed.
\<close>

definition rd_new :: "('c, 'j) redis_client option \<Rightarrow> bool \<Rightarrow> (string \<Rightarrow> exc + ('c, 'j) redis_client) \<Rightarrow> string \<Rightarrow>
    exc + ('c, 'j) redis_client" where
  "rd_new client redis_installed from_url url = (case client of
       Some cl \<Rightarrow> Inr cl
     | None \<Rightarrow>
         if \<not> redis_installed then
           Inl (Runtime_Error (''RedisTaskStore requires the '' @ quote1 @ ''redis'' @ quote1 @
             '' package. Install conductor-engine[redis].''))
         else from_url url)"

definition index_key :: "string \<Rightarrow> string" where
  "index_key namespace = namespace @ '':ids''"

definition record_key :: "string \<Rightarrow> string \<Rightarrow> string" where
  "record_key namespace tid = namespace @ '':record:'' @ tid"

text \<open>
  As in the other stores the payload is left open: its codec is \<^verbatim>\<open>_serialize_task\<close> and
  \<^verbatim>\<open>_deserialize_task\<close>, which go through JSON text.
\<close>

definition rd_save :: "('c, 'j) redis_client \<Rightarrow> 'j codec \<Rightarrow> string \<Rightarrow> task_record \<Rightarrow> 'c \<Rightarrow>
    (exc + task_record) \<times> 'c" where
  "rd_save cl c namespace task s =
     (case rc_set cl (record_key namespace (task_id task)) (model_dump c task) s of
        (Inl e, s) \<Rightarrow> (Inl e, s)
      | (Inr _, s) \<Rightarrow> (case rc_sadd cl (index_key namespace) (task_id task) s of
            (Inl e, s) \<Rightarrow> (Inl e, s)
          | (Inr _, s) \<Rightarrow> (Inr task, s)))"

definition rd_get :: "('c, 'j) redis_client \<Rightarrow> 'j codec \<Rightarrow> string \<Rightarrow> 'c \<Rightarrow> string \<Rightarrow>
    exc + task_record option" where
  "rd_get cl c namespace s tid = (case rc_get cl s (record_key namespace tid) of
       Inl e \<Rightarrow> Inl e
     | Inr None \<Rightarrow> Inr None
     | Inr (Some r) \<Rightarrow> map_sum id Some (model_validate c (reply_text r)))"

text \<open>The loop of \<^verbatim>\<open>list\<close>: ids whose record is gone are skipped.\<close>

fun rd_collect :: "('c, 'j) redis_client \<Rightarrow> 'j codec \<Rightarrow> string \<Rightarrow> 'c \<Rightarrow> string redis_reply list \<Rightarrow>
    exc + task_record list" where
  "rd_collect cl c namespace s [] = Inr []"
| "rd_collect cl c namespace s (r # rs) =
     (case rd_get cl c namespace s (reply_text r) of
        Inl e \<Rightarrow> Inl e
      | Inr x \<Rightarrow> (case rd_collect cl c namespace s rs of
            Inl e \<Rightarrow> Inl e
          | Inr ts \<Rightarrow> Inr (case x of None \<Rightarrow> ts | Some t \<Rightarrow> t # ts)))"

definition rd_list :: "('c, 'j) redis_client \<Rightarrow> 'j codec \<Rightarrow> string \<Rightarrow> 'c \<Rightarrow> int option \<Rightarrow> int \<Rightarrow>
    string option \<Rightarrow> exc + task_record list" where
  "rd_list cl c namespace s limit offset status =
     (case rc_smembers cl s (index_key namespace) of
        Inl e \<Rightarrow> Inl e
      | Inr ids \<Rightarrow> (case rd_collect cl c namespace s (sort_key reply_text ids) of
            Inl e \<Rightarrow> Inl e
          | Inr records \<Rightarrow> Inr (filter_records records limit offset status)))"

definition rd_health_check :: "('c, 'j) redis_client \<Rightarrow> 'c \<Rightarrow> string list" where
  "rd_health_check cl s = (case rc_ping cl s of
       Inl e \<Rightarrow> [''Redis health check failed: '' @ exc_str e]
     | Inr _ \<Rightarrow> [])"

text \<open>The two kinds of key of one namespace never clash.\<close>

lemma record_key_not_index [simp]: "record_key ns tid \<noteq> index_key ns'"
  if "ns = ns'"
  using that by (simp add: record_key_def index_key_def)

lemma record_key_inj [simp]: "record_key ns t = record_key ns t' \<longleftrightarrow> t = t'"
  by (simp add: record_key_def)

text \<open>
  What the Redis documentation says of the commands: a key holds nothing, a string or a set of
  strings; \<^verbatim>\<open>SET\<close> stores a string, \<^verbatim>\<open>GET\<close> reads it back, \<^verbatim>\<open>SADD\<close> adds to a set, making it when the key
  holds nothing, \<^verbatim>\<open>SMEMBERS\<close> answers each member once, in no particular order.  Of a key of the
  wrong kind it says nothing here.  \<open>up\<close> is a server that answers, \<open>view\<close> what it holds.
\<close>

datatype 'j redis_value = Redis_String 'j | Redis_Set "string list"

definition redis_ok :: "('c, 'j) redis_client \<Rightarrow> ('c \<Rightarrow> string \<Rightarrow> 'j redis_value option) \<Rightarrow> ('c \<Rightarrow> bool) \<Rightarrow> bool" where
  "redis_ok cl view up \<longleftrightarrow> (\<forall>s. up s \<longrightarrow>
     (\<forall>k v. \<exists>s'. rc_set cl k v s = (Inr (), s') \<and> up s' \<and> view s' = (view s)(k \<mapsto> Redis_String v)) \<and>
     (\<forall>k. view s k = None \<longrightarrow> rc_get cl s k = Inr None) \<and>
     (\<forall>k v. view s k = Some (Redis_String v) \<longrightarrow>
        (\<exists>r. rc_get cl s k = Inr (Some r) \<and> reply_text r = v)) \<and>
     (\<forall>k m. view s k = None \<longrightarrow>
        (\<exists>s'. rc_sadd cl k m s = (Inr (), s') \<and> up s' \<and> view s' = (view s)(k \<mapsto> Redis_Set [m]))) \<and>
     (\<forall>k m ms. view s k = Some (Redis_Set ms) \<longrightarrow>
        (\<exists>s'. rc_sadd cl k m s = (Inr (), s') \<and> up s' \<and>
           view s' = (view s)(k \<mapsto> Redis_Set (List.insert m ms)))) \<and>
     (\<forall>k. view s k = None \<longrightarrow> rc_smembers cl s k = Inr []) \<and>
     (\<forall>k ms. view s k = Some (Redis_Set ms) \<longrightarrow>
        (\<exists>rs. rc_smembers cl s k = Inr rs \<and> distinct (map reply_text rs) \<and>
           set (map reply_text rs) = set ms)))"

definition set_members :: "'j redis_value option \<Rightarrow> string list option" where
  "set_members x = (case x of
       None \<Rightarrow> Some []
     | Some (Redis_Set ms) \<Rightarrow> Some ms
     | Some (Redis_String _) \<Rightarrow> None)"

text \<open>The namespace is well formed: the index names exactly the ids that have a record of theirs.\<close>

definition rd_record_ok :: "'j codec \<Rightarrow> string list \<Rightarrow> string \<Rightarrow> 'j redis_value option \<Rightarrow> bool" where
  "rd_record_ok c ms tid x = (case x of
       None \<Rightarrow> tid \<notin> set ms
     | Some (Redis_String v) \<Rightarrow> tid \<in> set ms \<and> (\<exists>t. model_validate c v = Inr t \<and> task_id t = tid)
     | Some (Redis_Set _) \<Rightarrow> False)"

lemma rd_record_ok_simps [simp]:
  "rd_record_ok c ms tid None \<longleftrightarrow> tid \<notin> set ms"
  "rd_record_ok c ms tid (Some (Redis_String v)) \<longleftrightarrow>
     tid \<in> set ms \<and> (\<exists>t. model_validate c v = Inr t \<and> task_id t = tid)"
  "\<not> rd_record_ok c ms tid (Some (Redis_Set xs))"
  by (simp_all add: rd_record_ok_def)

definition rd_ok :: "'j codec \<Rightarrow> string \<Rightarrow> ('c \<Rightarrow> string \<Rightarrow> 'j redis_value option) \<Rightarrow> ('c \<Rightarrow> bool) \<Rightarrow>
    'c \<Rightarrow> bool" where
  "rd_ok c ns view up s \<longleftrightarrow> up s \<and> (\<exists>ms. set_members (view s (index_key ns)) = Some ms \<and>
     (\<forall>tid. rd_record_ok c ms tid (view s (record_key ns tid))))"

lemma redis_okD:
  assumes "redis_ok cl view up" and "up s"
  shows "\<exists>s'. rc_set cl k v s = (Inr (), s') \<and> up s' \<and> view s' = (view s)(k \<mapsto> Redis_String v)"
    and "view s k = None \<Longrightarrow> rc_get cl s k = Inr None"
    and "view s k = Some (Redis_String v) \<Longrightarrow> \<exists>r. rc_get cl s k = Inr (Some r) \<and> reply_text r = v"
    and "view s k = None \<Longrightarrow>
      \<exists>s'. rc_sadd cl k m s = (Inr (), s') \<and> up s' \<and> view s' = (view s)(k \<mapsto> Redis_Set [m])"
    and "view s k = Some (Redis_Set ms) \<Longrightarrow>
      \<exists>s'. rc_sadd cl k m s = (Inr (), s') \<and> up s' \<and>
        view s' = (view s)(k \<mapsto> Redis_Set (List.insert m ms))"
    and "view s k = None \<Longrightarrow> rc_smembers cl s k = Inr []"
    and "view s k = Some (Redis_Set ms) \<Longrightarrow>
      \<exists>rs. rc_smembers cl s k = Inr rs \<and> distinct (map reply_text rs) \<and> set (map reply_text rs) = set ms"
  using assms unfolding redis_ok_def by blast+

lemma set_members_cases:
  assumes "set_members x = Some ms"
  obtains "x = None" "ms = []" | "x = Some (Redis_Set ms)"
  using assms by (auto simp: set_members_def split: option.splits redis_value.splits)

lemma redis_sadd:
  assumes ok: "redis_ok cl view up" and u: "up s" and ms: "set_members (view s k) = Some ms"
  shows "\<exists>s' ms'. rc_sadd cl k m s = (Inr (), s') \<and> up s' \<and> view s' = (view s)(k \<mapsto> Redis_Set ms') \<and>
    set ms' = insert m (set ms)"
  using ms
proof (cases rule: set_members_cases)
  case 1
  with redis_okD(4) [OF ok u, of k m] show ?thesis by (metis list.set)
next
  case 2
  with redis_okD(5) [OF ok u, of k ms m] show ?thesis by (metis set_insert)
qed

lemma redis_smembers:
  assumes ok: "redis_ok cl view up" and u: "up s" and ms: "set_members (view s k) = Some ms"
  shows "\<exists>rs. rc_smembers cl s k = Inr rs \<and> distinct (map reply_text rs) \<and>
    set (map reply_text rs) = set ms"
  using ms
proof (cases rule: set_members_cases)
  case 1
  with redis_okD(6) [OF ok u, of k] show ?thesis by simp
next
  case 2
  with redis_okD(7) [OF ok u, of k ms] show ?thesis by simp
qed

lemma rd_get_None:
  "redis_ok cl view up \<Longrightarrow> up s \<Longrightarrow> view s (record_key ns tid) = None \<Longrightarrow>
   rd_get cl c ns s tid = Inr None"
  by (simp add: redis_okD(2) rd_get_def)

lemma rd_get_Some:
  assumes "redis_ok cl view up" and "up s" and "view s (record_key ns tid) = Some (Redis_String v)"
  shows "rd_get cl c ns s tid = map_sum id Some (model_validate c v)"
proof -
  obtain r where "rc_get cl s (record_key ns tid) = Inr (Some r)" "reply_text r = v"
    using redis_okD(3) [OF assms] by blast
  then show ?thesis by (simp add: rd_get_def)
qed

lemma rd_collect_ok:
  "(\<And>r. r \<in> set rs \<Longrightarrow> rd_get cl c ns s (reply_text r) = Inr (Some (f (reply_text r)))) \<Longrightarrow>
   rd_collect cl c ns s rs = Inr (map (\<lambda>r. f (reply_text r)) rs)"
  by (induction rs) auto

lemma rd_okD:
  assumes "rd_ok c ns view up s" and "set_members (view s (index_key ns)) = Some ms"
  shows "rd_record_ok c ms tid (view s (record_key ns tid))"
  using assms by (auto simp: rd_ok_def)

lemma rd_get_iff:
  assumes r: "redis_ok cl view up" and ok: "rd_ok c ns view up s"
    and ms: "set_members (view s (index_key ns)) = Some ms"
  shows "if k \<in> set ms then \<exists>t. rd_get cl c ns s k = Inr (Some t) \<and> task_id t = k
    else rd_get cl c ns s k = Inr None"
proof -
  have u: "up s" using ok by (simp add: rd_ok_def)
  note d = rd_okD [OF ok ms, of k]
  show ?thesis
  proof (cases "view s (record_key ns k)")
    case None
    with d rd_get_None [OF r u] show ?thesis by simp
  next
    case (Some x)
    with d obtain v where x: "x = Redis_String v" by (cases x) auto
    from d Some x rd_get_Some [OF r u] show ?thesis by auto
  qed
qed

lemma rd_listing:
  assumes r: "redis_ok cl view up" and ok: "rd_ok c ns view up s"
  shows "\<exists>ts. rd_list cl c ns s None 0 None = Inr ts \<and> sorted (map task_id ts) \<and>
    distinct (map task_id ts) \<and> (\<forall>t. t \<in> set ts \<longleftrightarrow> rd_get cl c ns s (task_id t) = Inr (Some t))"
proof -
  obtain ms where u: "up s" and ms: "set_members (view s (index_key ns)) = Some ms"
    using ok by (auto simp: rd_ok_def)
  define f where "f tid = (case rd_get cl c ns s tid of Inr (Some t) \<Rightarrow> t | _ \<Rightarrow> undefined)" for tid
  have f: "rd_get cl c ns s tid = Inr (Some (f tid)) \<and> task_id (f tid) = tid" if "tid \<in> set ms" for tid
    using rd_get_iff [OF r ok ms, of tid] that by (auto simp: f_def)
  obtain rs where rs: "rc_smembers cl s (index_key ns) = Inr rs" "distinct (map reply_text rs)"
      "set (map reply_text rs) = set ms"
    using redis_smembers [OF r u ms] by blast
  have mem: "reply_text x \<in> set ms" if "x \<in> set rs" for x using rs(3) that by auto
  have "rd_list cl c ns s None 0 None = Inr (map (\<lambda>x. f (reply_text x)) (sort_key reply_text rs))"
    using rd_collect_ok [of "sort_key reply_text rs" cl c ns s f] f mem by (simp add: rd_list_def rs(1))
  moreover have ids: "map task_id (map (\<lambda>x. f (reply_text x)) (sort_key reply_text rs)) =
      map reply_text (sort_key reply_text rs)"
    using f mem by auto
  have "sorted (map task_id (map (\<lambda>x. f (reply_text x)) (sort_key reply_text rs)))"
    unfolding ids by (rule sorted_sort_key)
  moreover have "distinct (map task_id (map (\<lambda>x. f (reply_text x)) (sort_key reply_text rs)))"
    unfolding ids using rs(2) by (metis mset_eq_imp_distinct_iff mset_map mset_sort)
  moreover have "t \<in> set (map (\<lambda>x. f (reply_text x)) (sort_key reply_text rs)) \<longleftrightarrow>
      rd_get cl c ns s (task_id t) = Inr (Some t)" for t
  proof -
    have "t \<in> set (map (\<lambda>x. f (reply_text x)) (sort_key reply_text rs)) \<longleftrightarrow> t \<in> f ` set ms"
      by (simp add: rs(3) [symmetric] image_image)
    also have "\<dots> \<longleftrightarrow> rd_get cl c ns s (task_id t) = Inr (Some t)"
      using f rd_get_iff [OF r ok ms, of "task_id t"] by (force split: if_splits)
    finally show ?thesis .
  qed
  ultimately show ?thesis by blast
qed

lemma rd_task_store:
  assumes c: "codec_ok c" and r: "redis_ok cl view up"
  shows "task_store (\<lambda>t s. case rd_save cl c ns t s of (Inl e, _) \<Rightarrow> Inl e | (Inr _, s') \<Rightarrow> Inr s')
     (rd_get cl c ns) (\<lambda>s. rd_list cl c ns s None 0 None) (rd_ok c ns view up) (\<lambda>_. True)"
    (is "task_store ?save _ _ _ _")
proof
  fix s t
  assume ok: "rd_ok c ns view up s"
  then obtain ms where u: "up s" and ms: "set_members (view s (index_key ns)) = Some ms"
    by (auto simp: rd_ok_def)
  obtain s1 where s1: "rc_set cl (record_key ns (task_id t)) (model_dump c t) s = (Inr (), s1)" "up s1"
      "view s1 = (view s)(record_key ns (task_id t) \<mapsto> Redis_String (model_dump c t))"
    using redis_okD(1) [OF r u] by blast
  have "set_members (view s1 (index_key ns)) = Some ms"
    using ms s1(3) record_key_not_index [of ns ns "task_id t"] by (simp add: not_sym)
  from redis_sadd [OF r s1(2) this, of "task_id t"] obtain s2 ms2 where
    s2: "rc_sadd cl (index_key ns) (task_id t) s1 = (Inr (), s2)" "up s2"
      "view s2 = (view s1)(index_key ns \<mapsto> Redis_Set ms2)" "set ms2 = insert (task_id t) (set ms)"
    by blast
  have save: "?save t s = Inr s2" using s1(1) s2(1) by (simp add: rd_save_def)
  have rec: "view s2 (record_key ns k) =
      (if k = task_id t then Some (Redis_String (model_dump c t)) else view s (record_key ns k))" for k
    by (simp add: s2(3) s1(3))
  have dump: "model_validate c (model_dump c t) = Inr t" using c by (simp add: codec_ok_def)
  have ms2: "set_members (view s2 (index_key ns)) = Some ms2" by (simp add: s2(3) set_members_def)
  have "rd_record_ok c ms2 tid (view s2 (record_key ns tid))" for tid
    using rd_okD [OF ok ms, of tid] dump by (cases "view s (record_key ns tid)") (auto simp: rec s2(4) rd_record_ok_def split: redis_value.splits)
  with s2(2) ms2 have ok2: "rd_ok c ns view up s2" unfolding rd_ok_def by blast
  with save show "\<exists>s'. ?save t s = Inr s' \<and> rd_ok c ns view up s'" by blast
  show "rd_get cl c ns s' k = (if k = task_id t then Inr (Some t) else rd_get cl c ns s k)"
    if "?save t s = Inr s'" for s' k
  proof -
    have s': "s' = s2" using that save by simp
    show ?thesis
    proof (cases "k = task_id t")
      case True
      with rd_get_Some [OF r s2(2), of ns k "model_dump c t"] dump show ?thesis by (simp add: s' rec)
    next
      case False
      then have same: "view s2 (record_key ns k) = view s (record_key ns k)" by (simp add: rec)
      from rd_okD [OF ok ms, of k] consider "view s (record_key ns k) = None"
        | v where "view s (record_key ns k) = Some (Redis_String v)"
        by (auto simp: rd_record_ok_def split: option.splits redis_value.splits)
      then have "rd_get cl c ns s2 k = rd_get cl c ns s k"
        by cases (simp_all add: same rd_get_None [OF r] rd_get_Some [OF r] u s2(2))
      with False show ?thesis by (simp add: s')
    qed
  qed
  show "\<exists>x. rd_get cl c ns s k = Inr x" for k
    using rd_get_iff [OF r ok ms, of k] by (auto split: if_splits)
  show "\<exists>ts. rd_list cl c ns s None 0 None = Inr ts \<and> distinct (map task_id ts) \<and>
      (\<forall>t. (t \<in> set ts) = (rd_get cl c ns s (task_id t) = Inr (Some t)))"
    using rd_listing [OF r ok] by blast
qed

text \<open>A Redis server that holds its keys in a dict: the instance the interpretation is given.\<close>

definition dict_client :: "('j redis_value dict, 'j) redis_client" where
  "dict_client =
     \<lparr>rc_set = (\<lambda>k v s. (Inr (), dset k (Redis_String v) s)),
      rc_get = (\<lambda>s k. case dget s k of
          None \<Rightarrow> Inr None
        | Some (Redis_String v) \<Rightarrow> Inr (Some (Reply_Text v))
        | Some (Redis_Set _) \<Rightarrow> Inl (Other_Exception ''ResponseError'' ''WRONGTYPE'')),
      rc_sadd = (\<lambda>k m s. case dget s k of
          None \<Rightarrow> (Inr (), dset k (Redis_Set [m]) s)
        | Some (Redis_Set ms) \<Rightarrow> (Inr (), dset k (Redis_Set (List.insert m ms)) s)
        | Some (Redis_String _) \<Rightarrow> (Inl (Other_Exception ''ResponseError'' ''WRONGTYPE''), s)),
      rc_smembers = (\<lambda>s k. case dget s k of
          None \<Rightarrow> Inr []
        | Some (Redis_Set ms) \<Rightarrow> Inr (map Reply_Text (remdups ms))
        | Some (Redis_String _) \<Rightarrow> Inl (Other_Exception ''ResponseError'' ''WRONGTYPE'')),
      rc_ping = (\<lambda>s. Inr ())\<rparr>"

lemma dict_client_ok [simp]: "redis_ok dict_client dget (\<lambda>_. True)"
  unfolding redis_ok_def dict_client_def
  by (auto simp: fun_eq_iff comp_def image_image)

interpretation rts: task_store
    "\<lambda>t s. case rd_save dict_client record_codec ns t s of (Inl e, _) \<Rightarrow> Inl e | (Inr _, s') \<Rightarrow> Inr s'"
    "rd_get dict_client record_codec ns" "\<lambda>s. rd_list dict_client record_codec ns s None 0 None"
    "rd_ok record_codec ns dget (\<lambda>_. True)" "\<lambda>_. True" for ns
  by (rule rd_task_store) simp_all

interpretation pg_redis: two_task_stores "pg_save record_codec Inr" "pg_get record_codec"
    "\<lambda>s. pg_list record_codec collate s None 0 None" "pg_ok record_codec"
    "pg_storable record_codec Inr"
    "\<lambda>t s. case rd_save dict_client record_codec ns t s of (Inl e, _) \<Rightarrow> Inl e | (Inr _, s') \<Rightarrow> Inr s'"
    "rd_get dict_client record_codec ns" "\<lambda>s. rd_list dict_client record_codec ns s None 0 None"
    "rd_ok record_codec ns dget (\<lambda>_. True)" "\<lambda>_. True"
    for collate :: "string \<Rightarrow> 'k::linorder" and ns
  by unfold_locales

section \<open>The order of a listing\<close>

text \<open>A listing by id is determined by the tasks it holds.\<close>

lemma id_order_unique:
  assumes m: "mset xs = mset ys" and "sorted (map task_id xs)" and s: "sorted (map task_id ys)"
    and d: "distinct (map task_id xs)"
  shows "xs = ys"
proof -
  have "mset (map task_id xs) = mset (map task_id ys)" using m by simp
  then have "map task_id xs = map task_id ys" using assms(2) s by (metis properties_for_sort)
  moreover have "set xs = set ys" using m by (rule mset_eq_setD)
  then have "inj_on task_id (set xs \<union> set ys)" using d by (simp add: distinct_map)
  ultimately show ?thesis by (rule map_inj_on)
qed

lemma ms_list_paged: "ms_list s limit offset st = filter_records (ms_list s None 0 None) limit offset st"
  by (simp add: ms_list_def)

lemma ms_list_sorted:
  assumes "ms_ok s"
  shows "sorted (map task_id (ms_list s None 0 None))"
proof -
  have "map task_id (map snd (sort_key fst (ms_tasks s))) = map fst (sort_key fst (ms_tasks s))"
    using assms by (auto simp: ms_ok_def list_all_iff)
  then show ?thesis unfolding ms_list_def filter_records_all by (simp only: sorted_sort_key)
qed

lemma ls_list_paged:
  "ls_list c s None 0 None = Inr ts \<Longrightarrow> ls_list c s limit offset st = Inr (filter_records ts limit offset st)"
  by (auto simp: ls_list_def split: sum.splits)

lemma ls_list_sorted:
  assumes ok: "ls_ok c s" and ts: "ls_list c s None 0 None = Inr ts"
  shows "sorted (map task_id ts)"
proof -
  obtain d where d: "jread (ls_file s) = Inr d" "dict_ok d"
    using ok by (auto simp: ls_ok_def jfile_ok_jread)
  have val: "\<exists>t. model_validate c j = Inr t \<and> task_id t = k" if "(k, j) \<in> set d" for k j
    using ok d that by (auto simp: ls_ok_def)
  have "validate_all c (map snd (sort_key fst d)) =
      Inr (map (\<lambda>j. projr (model_validate c j)) (map snd (sort_key fst d)))"
    by (rule validate_all_ok) (auto dest!: val)
  with ts d have "ts = map (\<lambda>j. projr (model_validate c j)) (map snd (sort_key fst d))"
    by (simp add: ls_list_def ls_read_unlocked_def)
  then have "map task_id ts = map fst (sort_key fst d)" by (auto dest!: val)
  then show ?thesis by simp
qed

lemma rd_list_paged:
  "rd_list cl c ns s None 0 None = Inr ts \<Longrightarrow>
   rd_list cl c ns s limit offset st = Inr (filter_records ts limit offset st)"
  by (auto simp: rd_list_def split: sum.splits)

lemma rd_list_sorted:
  "redis_ok cl view up \<Longrightarrow> rd_ok c ns view up s \<Longrightarrow> rd_list cl c ns s None 0 None = Inr ts \<Longrightarrow>
   sorted (map task_id ts)"
  using rd_listing by fastforce

section \<open>Five stores, one behaviour\<close>

text \<open>Any store that keeps the contract and starts without tasks agrees with the in-memory one.\<close>

lemma agrees_with_memory:
  assumes store: "task_store save get listed invar storable" and inv: "invar s0"
    and start: "\<And>k. get s0 k = Inr (ms_get ms_init k)" and st: "list_all storable ts"
    and m: "task_store.save_all (\<lambda>t s. Inr (ms_save t s)) ts ms_init = Inr m"
  shows "\<exists>u us. task_store.save_all save ts s0 = Inr u \<and> invar u \<and> (\<forall>k. get u k = Inr (ms_get m k)) \<and>
     listed u = Inr us \<and> mset us = mset (ms_list m None 0 None)"
proof -
  have "list_all (\<lambda>_. True) ts" by (simp add: list_all_iff)
  from two_task_stores.same_answers [OF two_task_stores.intro [OF mts.task_store_axioms store]
      ms_ok_init inv start [symmetric] this st] m
  show ?thesis by force
qed



section \<open>Where the stores differ\<close>

text \<open>
  Pages of the SQL stores cut the listing that is in the order of creation; a negative limit or
  offset, which the other stores take as Python slices or as no bound at all, makes Postgres raise.
\<close>

lemma validate_all_take:
  "validate_all c js = Inr ts \<Longrightarrow> validate_all c (take n js) = Inr (take n ts)"
proof (induction js arbitrary: n ts)
  case (Cons j js)
  then show ?case by (cases n) (auto split: sum.splits)
qed simp

lemma validate_all_drop:
  "validate_all c js = Inr ts \<Longrightarrow> validate_all c (drop n js) = Inr (drop n ts)"
proof (induction js arbitrary: n ts)
  case (Cons j js)
  then show ?case by (cases n) (auto split: sum.splits)
qed simp

lemma validate_all_page:
  "validate_all c (map g rows) = Inr ts \<Longrightarrow>
   validate_all c (map g (take n (drop m rows))) = Inr (take n (drop m ts))"
  using validate_all_take [OF validate_all_drop, of c "map g rows" ts n m] by (simp add: take_map drop_map)

lemma sq_list_page:
  assumes "sq_list c s None 0 st = Inr ts" and "0 \<le> n" and "0 \<le> off"
  shows "sq_list c s (Some n) off st = Inr (take (nat n) (drop (nat off) ts))"
  using assms validate_all_page [where n = "nat n" and m = "nat off"]
  by (auto simp: sq_list_def sql_page_def Let_def dest: validate_all_page [where n = "nat n" and m = 0])

lemma pg_list_page:
  assumes "pg_list c collate s None 0 st = Inr ts" and "0 \<le> n" and "0 \<le> off"
  shows "pg_list c collate s (Some n) off st = Inr (take (nat n) (drop (nat off) ts))"
  using assms validate_all_page [where n = "nat n" and m = "nat off"]
  by (auto simp: pg_list_def pg_page_def Let_def)

theorem negative_limit_three_ways:
  assumes "n < 0"
  shows "ms_list m (Some n) 0 st = take (nat (int (length (ms_list m None 0 st)) + n)) (ms_list m None 0 st)"
    and "sq_list c q (Some n) 0 st = sq_list c q None 0 st"
    and "\<exists>e. pg_list c collate p (Some n) 0 st = Inl e \<and> \<not> is_value_error e"
  using assms
  by (simp_all add: ms_list_def filter_records_def py_upto_def sq_list_def sql_page_def pg_list_def
      pg_page_def Let_def)

text \<open>
  A save of the Redis store is two commands.  When \<^verbatim>\<open>SET\<close> succeeds and \<^verbatim>\<open>SADD\<close> raises, the caller gets
  the exception although the record is stored: \<^verbatim>\<open>get\<close> finds it, and no listing shows it.
\<close>

lemma rd_collect_read:
  "rd_collect cl c ns s rs = Inr ts \<Longrightarrow> t \<in> set ts \<Longrightarrow>
   \<exists>x \<in> set rs. rd_get cl c ns s (reply_text x) = Inr (Some t)"
  by (induction rs arbitrary: ts) (auto split: sum.splits option.splits)

theorem redis_save_is_not_atomic:
  assumes c: "codec_ok c"
    and set: "rc_set cl (record_key ns (task_id t)) (model_dump c t) s = (Inr (), s1)"
    and sadd: "rc_sadd cl (index_key ns) (task_id t) s1 = (Inl e, s2)"
    and read: "rc_get cl s2 (record_key ns (task_id t)) = Inr (Some x)" "reply_text x = model_dump c t"
    and index: "rc_smembers cl s2 (index_key ns) = Inr ids" "task_id t \<notin> reply_text ` set ids"
    and own: "\<And>k u. rd_get cl c ns s2 k = Inr (Some u) \<Longrightarrow> task_id u = k"
  shows "rd_save cl c ns t s = (Inl e, s2)" and "rd_get cl c ns s2 (task_id t) = Inr (Some t)"
    and "rd_list cl c ns s2 None 0 None = Inr ts \<Longrightarrow> t \<notin> set ts"
proof -
  show "rd_save cl c ns t s = (Inl e, s2)" by (simp add: rd_save_def set sadd)
  show "rd_get cl c ns s2 (task_id t) = Inr (Some t)"
    using c by (simp add: rd_get_def read codec_ok_def)
  show "t \<notin> set ts" if l: "rd_list cl c ns s2 None 0 None = Inr ts"
  proof
    assume "t \<in> set ts"
    with l obtain y where "y \<in> set ids" "rd_get cl c ns s2 (reply_text y) = Inr (Some t)"
      by (auto simp: rd_list_def index(1) split: sum.splits dest!: rd_collect_read)
    with own index(2) show False by blast
  qed
qed

text \<open>
  Opening a store: a table name that is not an identifier is refused before the driver is looked
  for; a missing driver is reported as \<^verbatim>\<open>RuntimeError\<close> with the extra to install; an injected Redis
  client needs no driver.
\<close>

theorem opening_a_store:
  shows "pg_new inst opened dsn table = Inr s \<longleftrightarrow> inst \<and> validate_identifier table ''Postgres table name'' = Inr table \<and>
      (\<exists>rows. opened dsn table = Inr rows \<and> s = \<lparr>pg_dsn = dsn, pg_table_name = table, pg_rows = rows\<rparr>)"
    and "validate_identifier table ''Postgres table name'' = Inl e \<Longrightarrow> pg_new inst opened dsn table = Inl e"
    and "rd_new (Some cl) inst' from_url url = Inr cl"
    and "\<exists>m. rd_new None False from_url url = Inl (Runtime_Error m)"
proof -
  have id: "validate_identifier table l = Inr v \<Longrightarrow> v = table" for l v
    by (auto simp: validate_identifier_def split: list.splits if_splits)
  show "pg_new inst opened dsn table = Inr s \<longleftrightarrow> inst \<and> validate_identifier table ''Postgres table name'' = Inr table \<and>
      (\<exists>rows. opened dsn table = Inr rows \<and> s = \<lparr>pg_dsn = dsn, pg_table_name = table, pg_rows = rows\<rparr>)"
    by (auto simp: pg_new_def split: sum.splits dest: id)
qed (simp_all add: pg_new_def rd_new_def)

end
