(* ===== verification/Policies.thy ===== *)
theory Policies
  imports Contracts
begin

text \<open>
  \<^verbatim>\<open>engine/runtime/policy.py\<close>: the four policy engines, as a datatype with one \<open>evaluate\<close>.  What
  an OPA server replies is external: an OPA engine carries the function from the request payload to
  the decoded JSON reply, or to the exception \<^verbatim>\<open>httpx\<close> raises.
\<close>

section \<open>Risk order\<close>

text \<open>\<^verbatim>\<open>_RISK_ORDER\<close>, which makes the risk levels a linear order.\<close>

fun risk_order :: "risk_level \<Rightarrow> int" where
  "risk_order LOW = 0"
| "risk_order MEDIUM = 1"
| "risk_order HIGH = 2"
| "risk_order CRITICAL = 3"

instantiation risk_level :: linorder
begin

definition less_eq_risk_level :: "risk_level \<Rightarrow> risk_level \<Rightarrow> bool" where
  "less_eq_risk_level a b \<longleftrightarrow> risk_order a \<le> risk_order b"

definition less_risk_level :: "risk_level \<Rightarrow> risk_level \<Rightarrow> bool" where
  "less_risk_level a b \<longleftrightarrow> risk_order a < risk_order b"

instance
proof
  fix a b c :: risk_level
  show "a \<le> a" by (simp add: less_eq_risk_level_def)
  show "a \<le> b \<Longrightarrow> b \<le> c \<Longrightarrow> a \<le> c" by (simp add: less_eq_risk_level_def)
  show "a < b \<longleftrightarrow> a \<le> b \<and> \<not> b \<le> a" by (auto simp: less_eq_risk_level_def less_risk_level_def)
  show "a \<le> b \<or> b \<le> a" by (auto simp: less_eq_risk_level_def)
  show "a \<le> b \<Longrightarrow> b \<le> a \<Longrightarrow> a = b"
    by (cases a; cases b) (simp_all add: less_eq_risk_level_def)
qed

end

lemma risk_order_le: "risk_order a \<le> risk_order b \<longleftrightarrow> a \<le> b"
  by (simp add: less_eq_risk_level_def)

lemma risk_order_less: "risk_order a < risk_order b \<longleftrightarrow> a < b"
  by (simp add: less_risk_level_def)

section \<open>DenyByDefaultPolicy\<close>

text \<open>A frozenset of names is a duplicate-free list; \<^verbatim>\<open>None\<close> becomes the empty set.\<close>

record deny_policy =
  dp_allowed :: "string list"

definition dp_init :: "string list option \<Rightarrow> deny_policy" where
  "dp_init allowed_capabilities = \<lparr>dp_allowed = (case allowed_capabilities of None \<Rightarrow> [] | Some xs \<Rightarrow> remdups xs)\<rparr>"

definition dp_evaluate :: "deny_policy \<Rightarrow> policy_context \<Rightarrow> policy_decision" where
  "dp_evaluate p context =
     (let name = cd_name (pc_capability context) in
      if name \<in> set (dp_allowed p)
      then \<lparr>pd_decision = ALLOW,
            pd_reason = Some (''Capability '' @ quote1 @ name @ quote1 @ '' is in the allowed set''),
            pd_metadata = []\<rparr>
      else \<lparr>pd_decision = DENY,
            pd_reason = Some (''Capability '' @ quote1 @ name @ quote1 @ '' is not in the allowed set. Allowed: '' @
              (let names = join_with '', '' (sort (dp_allowed p)) in if names = [] then ''(none)'' else names)),
            pd_metadata = []\<rparr>)"

definition dp_health_check :: "deny_policy \<Rightarrow> string list" where
  "dp_health_check p = (if dp_allowed p = []
     then [''deny-default: no capabilities are allowed '' @ em_dash @ '' every task will be denied'']
     else [])"

definition dp_add_capability :: "string \<Rightarrow> deny_policy \<Rightarrow> deny_policy" where
  "dp_add_capability name p = p\<lparr>dp_allowed := remdups (dp_allowed p @ [name])\<rparr>"

definition dp_remove_capability :: "string \<Rightarrow> deny_policy \<Rightarrow> deny_policy" where
  "dp_remove_capability name p = p\<lparr>dp_allowed := filter (\<lambda>n. n \<noteq> name) (dp_allowed p)\<rparr>"

section \<open>NullPolicyEngine and RiskLevelPolicyEngine\<close>

definition null_evaluate :: "policy_context \<Rightarrow> policy_decision" where
  "null_evaluate context = \<lparr>pd_decision = ALLOW, pd_reason = None, pd_metadata = []\<rparr>"

record risk_policy =
  rp_deny_above :: risk_level
  rp_require_approval_at :: "risk_level option"
  rp_allowed :: "string list option"

definition rp_default :: risk_policy where
  "rp_default = \<lparr>rp_deny_above = CRITICAL, rp_require_approval_at = None, rp_allowed = None\<rparr>"

definition rp_evaluate :: "risk_policy \<Rightarrow> policy_context \<Rightarrow> policy_decision" where
  "rp_evaluate p context =
     (let capability = pc_capability context;
          name = cd_name capability;
          cap_risk = cd_risk_level capability
      in
      if (case rp_allowed p of None \<Rightarrow> False | Some names \<Rightarrow> name \<notin> set names)
      then \<lparr>pd_decision = DENY,
            pd_reason = Some (''Capability '' @ quote1 @ name @ quote1 @ '' is not in the allowed set''),
            pd_metadata = [(''capability'', PStr name), (''policy'', PStr ''allowlist'')]\<rparr>
      else if rp_require_approval_at p = Some cap_risk
      then \<lparr>pd_decision = REQUIRE_APPROVAL,
            pd_reason = Some (''Capability '' @ quote1 @ name @ quote1 @ '' requires approval at risk level '' @
              quote1 @ risk_value cap_risk @ quote1),
            pd_metadata = [(''risk_level'', PStr (risk_value cap_risk)), (''policy'', PStr ''risk_threshold'')]\<rparr>
      else if risk_order cap_risk > risk_order (rp_deny_above p)
      then \<lparr>pd_decision = DENY,
            pd_reason = Some (''Capability '' @ quote1 @ name @ quote1 @ '' risk level '' @ quote1 @
              risk_value cap_risk @ quote1 @ '' exceeds permitted maximum '' @ quote1 @
              risk_value (rp_deny_above p) @ quote1),
            pd_metadata = [(''risk_level'', PStr (risk_value cap_risk)),
              (''deny_above'', PStr (risk_value (rp_deny_above p))), (''policy'', PStr ''risk_threshold'')]\<rparr>
      else \<lparr>pd_decision = ALLOW, pd_reason = None, pd_metadata = []\<rparr>)"

section \<open>OPAPolicyEngine\<close>

text \<open>Truth of a JSON value, as Python's \<^verbatim>\<open>if\<close> and \<^verbatim>\<open>or\<close> read it.\<close>

fun truthy :: "pyval \<Rightarrow> bool" where
  "truthy PNone = False"
| "truthy (PBool b) = b"
| "truthy (PInt i) = (i \<noteq> 0)"
| "truthy (PFloat x) = (x \<noteq> 0)"
| "truthy (PStr s) = (s \<noteq> [])"
| "truthy (PTime t) = True"
| "truthy (PList xs) = (xs \<noteq> [])"
| "truthy (PDict d) = (d \<noteq> [])"

definition truthy_opt :: "pyval option \<Rightarrow> bool" where
  "truthy_opt v = (case v of None \<Rightarrow> False | Some x \<Rightarrow> truthy x)"

record opa_policy =
  op_url :: string
  op_policy_path :: string
  op_fail_open :: bool
  op_reply :: "string \<Rightarrow> pydict \<Rightarrow> exc + pydict"

definition rstrip_char :: "char \<Rightarrow> string \<Rightarrow> string" where
  "rstrip_char c s = rev (dropWhile (\<lambda>x. x = c) (rev s))"

definition op_init :: "string \<Rightarrow> string \<Rightarrow> bool \<Rightarrow> (string \<Rightarrow> pydict \<Rightarrow> exc + pydict) \<Rightarrow> opa_policy" where
  "op_init url policy_path fail_open reply =
     \<lparr>op_url = rstrip_char CHR ''/'' url,
      op_policy_path = rstrip_char CHR ''/'' (dropWhile (\<lambda>x. x = CHR ''/'') policy_path),
      op_fail_open = fail_open, op_reply = reply\<rparr>"

definition op_query_url :: "opa_policy \<Rightarrow> string" where
  "op_query_url p = op_url p @ ''/v1/data/'' @ op_policy_path p"

definition op_build_payload :: "task_record \<Rightarrow> policy_context \<Rightarrow> pydict" where
  "op_build_payload task context =
     (let i = opa_from_context task context in
      [(''input'', PDict [(''task'', PDict (oi_task i)), (''capability'', PDict (oi_capability i)),
                          (''workdir'', PStr (oi_workdir i))])])"

text \<open>
  \<^verbatim>\<open>_map_response\<close>.  A reply whose \<^verbatim>\<open>result\<close> is not an object makes \<^verbatim>\<open>result.get\<close> raise
  \<^verbatim>\<open>AttributeError\<close>, and a \<^verbatim>\<open>reason\<close> that is not text makes the decision model reject it; both
  reach the \<^verbatim>\<open>except\<close> of \<^verbatim>\<open>evaluate\<close>.
\<close>

definition op_map_response :: "pydict \<Rightarrow> exc + policy_decision" where
  "op_map_response data =
     (let v = (case dget data ''result'' of None \<Rightarrow> PNone | Some x \<Rightarrow> x);
          v = (if truthy v then v else PDict [])
      in case v of
        PDict result \<Rightarrow>
          (case (case dget result ''reason'' of None \<Rightarrow> Inr None | Some PNone \<Rightarrow> Inr None
                   | Some (PStr s) \<Rightarrow> Inr (Some s) | Some x \<Rightarrow> Inl (Validation_Error ''reason'')) of
             Inl e \<Rightarrow>
               \<comment> \<open>the \<^verbatim>\<open>DENY\<close> branch replaces a falsy reason before building the decision\<close>
               if \<not> truthy_opt (dget result ''require_approval'') \<and> \<not> truthy_opt (dget result ''allow'') \<and>
                  \<not> truthy_opt (dget result ''reason'')
               then Inr \<lparr>pd_decision = DENY, pd_reason = Some ''OPA policy denied the request'',
                         pd_metadata = [(''opa_result'', PDict result)]\<rparr>
               else Inl e
           | Inr reason \<Rightarrow>
               if truthy_opt (dget result ''require_approval'')
               then Inr \<lparr>pd_decision = REQUIRE_APPROVAL, pd_reason = reason,
                         pd_metadata = [(''opa_result'', PDict result)]\<rparr>
               else if truthy_opt (dget result ''allow'')
               then Inr \<lparr>pd_decision = ALLOW, pd_reason = reason,
                         pd_metadata = [(''opa_result'', PDict result)]\<rparr>
               else Inr \<lparr>pd_decision = DENY,
                         pd_reason = Some (opt_or reason ''OPA policy denied the request''),
                         pd_metadata = [(''opa_result'', PDict result)]\<rparr>)
      | _ \<Rightarrow> Inl (Other_Exception ''AttributeError'' ''result has no attribute get''))"

definition op_failure_decision :: "opa_policy \<Rightarrow> exc \<Rightarrow> policy_decision" where
  "op_failure_decision p e =
     (if op_fail_open p
      then \<lparr>pd_decision = ALLOW,
            pd_reason = Some (''OPA unreachable (fail-open): '' @ exc_str e),
            pd_metadata = [(''opa_error'', PStr (exc_str e)), (''fail_open'', PBool True)]\<rparr>
      else \<lparr>pd_decision = DENY,
            pd_reason = Some (''OPA unreachable (fail-closed): '' @ exc_str e),
            pd_metadata = [(''opa_error'', PStr (exc_str e)), (''fail_open'', PBool False)]\<rparr>)"

definition op_evaluate :: "opa_policy \<Rightarrow> task_record \<Rightarrow> policy_context \<Rightarrow> exc + policy_decision" where
  "op_evaluate p task context =
     (case (case op_reply p (op_query_url p) (op_build_payload task context) of
              Inl e \<Rightarrow> Inl e | Inr data \<Rightarrow> op_map_response data) of
        Inr d \<Rightarrow> Inr d
      | Inl e \<Rightarrow> if is_exception e then Inr (op_failure_decision p e) else Inl e)"

section \<open>Any policy engine\<close>

datatype policy_engine =
    Null_Policy
  | Deny_By_Default deny_policy
  | Risk_Level risk_policy
  | OPA opa_policy

fun policy_evaluate :: "policy_engine \<Rightarrow> task_record \<Rightarrow> policy_context \<Rightarrow> exc + policy_decision" where
  "policy_evaluate Null_Policy task context = Inr (null_evaluate context)"
| "policy_evaluate (Deny_By_Default p) task context = Inr (dp_evaluate p context)"
| "policy_evaluate (Risk_Level p) task context = Inr (rp_evaluate p context)"
| "policy_evaluate (OPA p) task context = op_evaluate p task context"

text \<open>\<^verbatim>\<open>type(policy).__name__\<close>\<close>

fun policy_type_name :: "policy_engine \<Rightarrow> string" where
  "policy_type_name Null_Policy = ''NullPolicyEngine''"
| "policy_type_name (Deny_By_Default p) = ''DenyByDefaultPolicy''"
| "policy_type_name (Risk_Level p) = ''RiskLevelPolicyEngine''"
| "policy_type_name (OPA p) = ''OPAPolicyEngine''"

end
