(* ===== verification/Policy_Properties.thy ===== *)
theory Policy_Properties
  imports Policies
begin

text \<open>
  What the policy engines promise: the OPA engine fails closed, the risk engine is stricter for
  riskier capabilities exactly for the right thresholds, and the allowlist follows its edits.
\<close>

section \<open>OPAPolicyEngine\<close>

definition opa_result :: "opa_policy \<Rightarrow> task_record \<Rightarrow> policy_context \<Rightarrow> pydict option" where
  "opa_result p task context =
     (case op_reply p (op_query_url p) (op_build_payload task context) of
        Inl e \<Rightarrow> None
      | Inr data \<Rightarrow> (case dget data ''result'' of Some (PDict result) \<Rightarrow> Some result | _ \<Rightarrow> None))"

lemma map_response_allow:
  assumes "op_map_response data = Inr d" and "pd_decision d \<noteq> DENY"
  shows "\<exists>result. dget data ''result'' = Some (PDict result) \<and>
    (if pd_decision d = ALLOW
     then truthy_opt (dget result ''allow'') \<and> \<not> truthy_opt (dget result ''require_approval'')
     else truthy_opt (dget result ''require_approval''))"
proof -
  define v where "v = (case dget data ''result'' of None \<Rightarrow> PNone | Some x \<Rightarrow> x)"
  define u where "u = (if truthy v then v else PDict [])"
  note response = op_map_response_def Let_def v_def [symmetric] u_def [symmetric]
  from assms(1) obtain result where r: "u = PDict result"
    by (auto simp: response split: pyval.splits)
  have "truthy v"
  proof (rule ccontr)
    assume "\<not> truthy v"
    then have "u = PDict []" by (simp add: u_def)
    with assms show False by (auto simp: response truthy_opt_def)
  qed
  with r have "v = PDict result" by (simp add: u_def)
  then have res: "dget data ''result'' = Some (PDict result)"
    by (auto simp: v_def split: option.splits)
  with r assms show ?thesis
    by (auto simp: response split: option.splits pyval.splits if_splits)
qed

text \<open>
  C30. The OPA engine fails closed: unless it was told to fail open, it lets a task through only when
  the server answered with a result object that allows it and does not ask for approval, and asks for
  approval only when the answer does; whatever else happens (no server, an error status, a reply of
  another shape) is a denial, and it never raises an ordinary exception.
\<close>

theorem opa_fails_closed:
  assumes "\<not> op_fail_open p" and "op_evaluate p task context = r"
    and "\<forall>e. op_reply p (op_query_url p) (op_build_payload task context) = Inl e \<longrightarrow> is_exception e"
  shows "\<exists>d. r = Inr d \<and>
    (pd_decision d = ALLOW \<longrightarrow> (\<exists>result. opa_result p task context = Some result \<and>
       truthy_opt (dget result ''allow'') \<and> \<not> truthy_opt (dget result ''require_approval''))) \<and>
    (pd_decision d = REQUIRE_APPROVAL \<longrightarrow> (\<exists>result. opa_result p task context = Some result \<and>
       truthy_opt (dget result ''require_approval'')))"
proof (cases "op_reply p (op_query_url p) (op_build_payload task context)")
  case (Inl e)
  with assms show ?thesis by (auto simp: op_evaluate_def op_failure_decision_def)
next
  case (Inr data)
  show ?thesis
  proof (cases "op_map_response data")
    case (Inl e)
    then have "is_exception e"
      by (auto simp: op_map_response_def Let_def split: option.splits pyval.splits if_splits)
    with Inl Inr assms show ?thesis by (auto simp: op_evaluate_def op_failure_decision_def)
  next
    case r: (Inr d)
    with Inr assms(2) have "r = Inr d" by (simp add: op_evaluate_def)
    moreover have "pd_decision d \<noteq> DENY \<longrightarrow> (\<exists>result. opa_result p task context = Some result \<and>
      (if pd_decision d = ALLOW
       then truthy_opt (dget result ''allow'') \<and> \<not> truthy_opt (dget result ''require_approval'')
       else truthy_opt (dget result ''require_approval'')))"
    proof
      assume "pd_decision d \<noteq> DENY"
      from map_response_allow [OF r this] obtain result where
        "dget data ''result'' = Some (PDict result)"
        "if pd_decision d = ALLOW
         then truthy_opt (dget result ''allow'') \<and> \<not> truthy_opt (dget result ''require_approval'')
         else truthy_opt (dget result ''require_approval'')" by blast
      with Inr show "\<exists>result. opa_result p task context = Some result \<and>
          (if pd_decision d = ALLOW
           then truthy_opt (dget result ''allow'') \<and> \<not> truthy_opt (dget result ''require_approval'')
           else truthy_opt (dget result ''require_approval''))"
        by (intro exI [of _ result]) (simp add: opa_result_def)
    qed
    ultimately show ?thesis by auto
  qed
qed

definition opa_sample :: "(string \<Rightarrow> pydict \<Rightarrow> exc + pydict) \<Rightarrow> opa_policy" where
  "opa_sample reply = op_init ''http://opa/'' ''conductor/authz'' False reply"

definition sample_context :: "risk_level \<Rightarrow> policy_context" where
  "sample_context risk = \<lparr>pc_capability = \<lparr>cd_name = ''echo'', cd_description = ''Echo'', cd_risk_level = risk,
     cd_tags = [], cd_require_approval = False\<rparr>, pc_workdir = ''/w''\<rparr>"

theorem opa_fails_closed_witness:
  "\<exists>d. op_evaluate (opa_sample (\<lambda>u p. Inl (OS_Error ''refused''))) (new_task_record ''t'' ''n'' ''echo'' 0)
         (sample_context LOW) = Inr d \<and> pd_decision d \<noteq> ALLOW"
proof -
  let ?p = "opa_sample (\<lambda>u p. Inl (OS_Error ''refused''))"
  have "\<not> op_fail_open ?p" by (simp add: opa_sample_def op_init_def)
  moreover have reply: "op_reply ?p u x = Inl (OS_Error ''refused'')" for u x
    by (simp add: opa_sample_def op_init_def)
  ultimately show ?thesis
    using opa_fails_closed [of ?p "new_task_record ''t'' ''n'' ''echo'' 0" "sample_context LOW"]
    by (fastforce simp: opa_result_def reply)
qed

section \<open>RiskLevelPolicyEngine\<close>

fun permissiveness :: "policy_decision_type \<Rightarrow> nat" where
  "permissiveness DENY = 0"
| "permissiveness REQUIRE_APPROVAL = 1"
| "permissiveness ALLOW = 2"

definition risk_decision :: "risk_policy \<Rightarrow> cap_descriptor \<Rightarrow> string \<Rightarrow> risk_level \<Rightarrow> policy_decision_type" where
  "risk_decision p capability workdir risk =
     pd_decision (rp_evaluate p \<lparr>pc_capability = capability\<lparr>cd_risk_level := risk\<rparr>, pc_workdir = workdir\<rparr>)"

text \<open>
  When the risk policy is stricter for riskier capabilities: for a capability the allowlist admits,
  raising its risk never makes the decision more permissive if and only if no approval level is set,
  or it is the highest permitted level or the level right above it.  In particular an approval level
  below the permitted maximum lets riskier capabilities through without approval.
\<close>

theorem risk_policy_monotone_iff:
  assumes "rp_allowed p = None \<or> (\<exists>names. rp_allowed p = Some names \<and> cd_name capability \<in> set names)"
  shows "antimono (\<lambda>risk. permissiveness (risk_decision p capability workdir risk)) \<longleftrightarrow>
    (case rp_require_approval_at p of
       None \<Rightarrow> True
     | Some r \<Rightarrow> risk_order r = risk_order (rp_deny_above p) \<or> risk_order r = risk_order (rp_deny_above p) + 1)"
proof -
  have dec: "risk_decision p capability workdir risk =
      (if rp_require_approval_at p = Some risk then REQUIRE_APPROVAL
       else if rp_deny_above p < risk then DENY else ALLOW)" for risk
    using assms by (auto simp: risk_decision_def rp_evaluate_def risk_order_less)
  have all: "(\<forall>x. P x) \<longleftrightarrow> P LOW \<and> P MEDIUM \<and> P HIGH \<and> P CRITICAL" for P :: "risk_level \<Rightarrow> bool"
    by (metis risk_level.exhaust)
  show ?thesis
    unfolding antimono_def dec all
    by (cases "rp_require_approval_at p"; cases "the (rp_require_approval_at p)"; cases "rp_deny_above p")
       (simp_all add: less_eq_risk_level_def less_risk_level_def)
qed

theorem risk_policy_monotone_iff_witness:
  "\<not> antimono (\<lambda>risk. permissiveness (risk_decision (rp_default\<lparr>rp_require_approval_at := Some MEDIUM\<rparr>)
       (pc_capability (sample_context LOW)) ''/w'' risk))"
  using risk_policy_monotone_iff [of "rp_default\<lparr>rp_require_approval_at := Some MEDIUM\<rparr>"
      "pc_capability (sample_context LOW)" "''/w''"]
  by (simp add: rp_default_def)

section \<open>DenyByDefaultPolicy\<close>

datatype allow_edit = Add string | Remove string

fun edit_name :: "allow_edit \<Rightarrow> string" where
  "edit_name (Add n) = n"
| "edit_name (Remove n) = n"

fun apply_edit :: "allow_edit \<Rightarrow> deny_policy \<Rightarrow> deny_policy" where
  "apply_edit (Add n) p = dp_add_capability n p"
| "apply_edit (Remove n) p = dp_remove_capability n p"

lemma allowed_after_edits:
  "n \<in> set (dp_allowed (fold apply_edit es p)) \<longleftrightarrow>
     (case find (\<lambda>e. edit_name e = n) (rev es) of
        None \<Rightarrow> n \<in> set (dp_allowed p) | Some e \<Rightarrow> e = Add n)"
proof (induction es rule: rev_induct)
  case (snoc e es)
  then show ?case
    by (cases e) (auto simp: dp_add_capability_def dp_remove_capability_def split: option.splits)
qed simp

text \<open>
  The allowlist follows its edits: after any sequence of additions and removals, a capability is
  allowed exactly when the last edit that names it added it, or none names it and it was allowed at
  the start; everything else is denied, and the health check warns exactly when nothing is allowed.
\<close>

theorem allowlist_follows_edits:
  "(pd_decision (dp_evaluate (fold apply_edit es (dp_init allowed)) context) =
      (if (case find (\<lambda>e. edit_name e = cd_name (pc_capability context)) (rev es) of
             None \<Rightarrow> cd_name (pc_capability context) \<in> set (case allowed of None \<Rightarrow> [] | Some xs \<Rightarrow> xs)
           | Some e \<Rightarrow> e = Add (cd_name (pc_capability context)))
       then ALLOW else DENY)) \<and>
   (dp_health_check (fold apply_edit es (dp_init allowed)) = [] \<longleftrightarrow>
      (\<exists>n. n \<in> set (dp_allowed (fold apply_edit es (dp_init allowed)))))"
  using allowed_after_edits [of "cd_name (pc_capability context)" es "dp_init allowed"]
  by (auto simp: dp_evaluate_def dp_init_def dp_health_check_def Let_def ex_in_conv split: option.splits)

end
