(* ===== verification/Retries.thy ===== *)
theory Retries
  imports Contracts
begin

text \<open>
  \<^verbatim>\<open>engine/runtime/retry.py\<close> and \<^verbatim>\<open>engine/runtime/escalation.py\<close>: the four retry strategies as a
  datatype with one \<^verbatim>\<open>decide\<close>, their constructors with the validation of the arguments, and the
  threshold escalation policy.

  \<^verbatim>\<open>multiplier ** (attempt - 1)\<close> is a power of floats: it raises \<^verbatim>\<open>OverflowError\<close> once the exact
  power rounds past the largest double.  The other float operations are exact here.  The random
  numbers of the jittered strategy and the caller's input adjuster are functions of the number of
  the decision, since each call may give another value.
\<close>

section \<open>Powers of floats\<close>

definition float_overflow_bound :: rat where
  "float_overflow_bound = 2 ^ 1024 - 2 ^ 970"

definition float_pow :: "rat \<Rightarrow> int \<Rightarrow> exc + rat" where
  "float_pow x n =
     (let p = (if n < 0 then 1 / x ^ nat (- n) else x ^ nat n) in
      if p \<ge> float_overflow_bound
      then Inl (Overflow_Error (''(34, '' @ quote1 @ ''Numerical result out of range'' @ quote1 @ '')''))
      else Inr p)"

section \<open>The strategies\<close>

record escalation_flags =
  ef_enable_escalation :: bool
  ef_escalation_threshold :: "int option"

record backoff =
  bo_base_delay :: rat
  bo_multiplier :: rat
  bo_max_delay :: rat
  bo_flags :: escalation_flags

datatype retry_strategy =
    Default_Retry escalation_flags
  | Exponential_Backoff backoff
  | Jittered_Backoff backoff "nat \<Rightarrow> rat"
  | Input_Adjusting "nat \<Rightarrow> failure_context \<Rightarrow> exc + pydict option" "retry_strategy option" escalation_flags

definition default_flags :: escalation_flags where
  "default_flags = \<lparr>ef_enable_escalation = False, ef_escalation_threshold = None\<rparr>"

definition default_retry :: retry_strategy where
  "default_retry = Default_Retry default_flags"

text \<open>The argument checks of the two backoff constructors.\<close>

definition backoff_init :: "rat \<Rightarrow> rat \<Rightarrow> rat \<Rightarrow> escalation_flags \<Rightarrow> exc + backoff" where
  "backoff_init base_delay multiplier max_delay flags =
     (if base_delay \<le> 0 then Inl (Value_Error ''base_delay must be > 0'')
      else if multiplier < 1 then Inl (Value_Error ''multiplier must be >= 1.0'')
      else if max_delay < base_delay then Inl (Value_Error ''max_delay must be >= base_delay'')
      else Inr \<lparr>bo_base_delay = base_delay, bo_multiplier = multiplier, bo_max_delay = max_delay,
                bo_flags = flags\<rparr>)"

definition exponential_init :: "rat \<Rightarrow> rat \<Rightarrow> rat \<Rightarrow> escalation_flags \<Rightarrow> exc + retry_strategy" where
  "exponential_init base_delay multiplier max_delay flags =
     map_sum id Exponential_Backoff (backoff_init base_delay multiplier max_delay flags)"

definition jittered_init ::
  "rat \<Rightarrow> rat \<Rightarrow> rat \<Rightarrow> escalation_flags \<Rightarrow> (nat \<Rightarrow> rat) \<Rightarrow> exc + retry_strategy" where
  "jittered_init base_delay multiplier max_delay flags random_fn =
     map_sum id (\<lambda>b. Jittered_Backoff b random_fn) (backoff_init base_delay multiplier max_delay flags)"

section \<open>Decisions\<close>

definition exhausted_decision :: "escalation_flags \<Rightarrow> failure_context \<Rightarrow> retry_decision" where
  "exhausted_decision flags failure =
     \<lparr>rd_should_retry = False, rd_delay_seconds = None, rd_adjusted_input = None,
      rd_reason = Some ''Retry attempts exhausted'',
      rd_escalate = ef_enable_escalation flags \<and>
        (case ef_escalation_threshold flags of None \<Rightarrow> True | Some n \<Rightarrow> fc_attempt failure \<ge> n)\<rparr>"

definition retry_label :: "failure_context \<Rightarrow> string" where
  "retry_label failure = ''Retry '' @ show_int (fc_attempt failure) @ '' of '' @ show_int (fc_max_retries failure)"

definition retry_after :: "rat option \<Rightarrow> string \<Rightarrow> retry_decision" where
  "retry_after delay reason =
     \<lparr>rd_should_retry = True, rd_delay_seconds = delay, rd_adjusted_input = None,
      rd_reason = Some reason, rd_escalate = False\<rparr>"

definition default_decide :: "escalation_flags \<Rightarrow> failure_context \<Rightarrow> retry_decision" where
  "default_decide flags failure =
     (if fc_attempt failure > fc_max_retries failure then exhausted_decision flags failure
      else retry_after None (retry_label failure))"

definition exponential_delay :: "backoff \<Rightarrow> int \<Rightarrow> exc + rat" where
  "exponential_delay b attempt =
     (case float_pow (bo_multiplier b) (attempt - 1) of
        Inl e \<Rightarrow> Inl e
      | Inr p \<Rightarrow> Inr (min (bo_base_delay b * p) (bo_max_delay b)))"

definition exponential_decide :: "backoff \<Rightarrow> failure_context \<Rightarrow> exc + retry_decision" where
  "exponential_decide b failure =
     (if fc_attempt failure > fc_max_retries failure then Inr (exhausted_decision (bo_flags b) failure)
      else case exponential_delay b (fc_attempt failure) of
             Inl e \<Rightarrow> Inl e
           | Inr delay \<Rightarrow>
               Inr (retry_after (Some delay) (retry_label failure @ '' after '' @ fmt_fixed 2 delay @ ''s'')))"

definition jittered_delay :: "backoff \<Rightarrow> rat \<Rightarrow> int \<Rightarrow> exc + rat" where
  "jittered_delay b random attempt =
     (case float_pow (bo_multiplier b) (attempt - 1) of
        Inl e \<Rightarrow> Inl e
      | Inr p \<Rightarrow> (let cap = min (bo_base_delay b * p) (bo_max_delay b) in Inr (random * cap)))"

definition jittered_decide :: "backoff \<Rightarrow> rat \<Rightarrow> failure_context \<Rightarrow> exc + retry_decision" where
  "jittered_decide b random failure =
     (if fc_attempt failure > fc_max_retries failure then Inr (exhausted_decision (bo_flags b) failure)
      else case jittered_delay b random (fc_attempt failure) of
             Inl e \<Rightarrow> Inl e
           | Inr delay \<Rightarrow>
               Inr (retry_after (Some delay)
                 (retry_label failure @ '' after '' @ fmt_fixed 3 delay @ ''s (jittered)'')))"

text \<open>\<open>retry_decide s n failure\<close> is the \<open>n\<close>-th call of \<^verbatim>\<open>decide\<close> on the strategy object.\<close>

fun retry_decide :: "retry_strategy \<Rightarrow> nat \<Rightarrow> failure_context \<Rightarrow> exc + retry_decision" where
  "retry_decide (Default_Retry flags) n failure = Inr (default_decide flags failure)"
| "retry_decide (Exponential_Backoff b) n failure = exponential_decide b failure"
| "retry_decide (Jittered_Backoff b random_fn) n failure = jittered_decide b (random_fn n) failure"
| "retry_decide (Input_Adjusting adjuster base flags) n failure =
     (if fc_attempt failure > fc_max_retries failure then Inr (exhausted_decision flags failure)
      else
        case (case base of
                Some s \<Rightarrow> (case retry_decide s n failure of
                    Inl e \<Rightarrow> Inl e
                  | Inr base_decision \<Rightarrow> Inr (rd_delay_seconds base_decision, rd_reason base_decision))
              | None \<Rightarrow> Inr (None, Some (retry_label failure @ '' (adjusted input)''))) of
          Inl e \<Rightarrow> Inl e
        | Inr (delay, reason) \<Rightarrow>
            (case adjuster n failure of
               Inl e \<Rightarrow> Inl e
             | Inr adjusted \<Rightarrow>
                 Inr \<lparr>rd_should_retry = True, rd_delay_seconds = delay, rd_adjusted_input = adjusted,
                      rd_reason = reason, rd_escalate = False\<rparr>))"

section \<open>ThresholdEscalationPolicy\<close>

definition tp_should_escalate :: "escalation_config \<Rightarrow> failure_context list \<Rightarrow> bool" where
  "tp_should_escalate config history \<longleftrightarrow> int (length history) \<ge> esc_max_retries_before_escalate config"

definition tp_build_record ::
  "escalation_config \<Rightarrow> int \<Rightarrow> task_record \<Rightarrow> failure_context list \<Rightarrow> escalation_record" where
  "tp_build_record config now task history =
     \<lparr>er_task_id = task_id task, er_capability = task_capability task,
      er_total_attempts = task_attempt task, er_failure_history = history, er_escalated_at = now,
      er_reason = Some (opt_or (esc_reason config)
        (''Escalation threshold reached after '' @ show_nat (length history) @ '' failure(s)''))\<rparr>"

section \<open>Facts about decisions\<close>

lemma retry_decide_retry_iff:
  "retry_decide s n failure = Inr d \<Longrightarrow> rd_should_retry d \<longleftrightarrow> fc_attempt failure \<le> fc_max_retries failure"
  by (cases s) (auto simp: default_decide_def exponential_decide_def jittered_decide_def
      exhausted_decision_def retry_after_def split: if_splits sum.splits option.splits prod.splits)

lemma retry_decide_escalate_stop:
  "retry_decide s n failure = Inr d \<Longrightarrow> rd_escalate d \<Longrightarrow> \<not> rd_should_retry d"
  by (cases s) (auto simp: default_decide_def exponential_decide_def jittered_decide_def
      exhausted_decision_def retry_after_def split: if_splits sum.splits option.splits prod.splits)

definition backoff_ok :: "backoff \<Rightarrow> bool" where
  "backoff_ok b \<longleftrightarrow> 0 < bo_base_delay b \<and> 1 \<le> bo_multiplier b \<and> bo_base_delay b \<le> bo_max_delay b"

lemma backoff_init_ok: "backoff_init base factor maxd flags = Inr b \<Longrightarrow> backoff_ok b"
  by (auto simp: backoff_init_def backoff_ok_def split: if_splits)

lemma float_pow_Inr: "float_pow x n = Inr p \<Longrightarrow> p = (if n < 0 then 1 / x ^ nat (- n) else x ^ nat n)"
  by (auto simp: float_pow_def Let_def split: if_splits)

lemma exponential_delay_bounds:
  assumes "backoff_ok b" and "1 \<le> n" and "exponential_delay b n = Inr d"
  shows "bo_base_delay b \<le> d" and "d \<le> bo_max_delay b"
proof -
  from assms obtain p where p: "float_pow (bo_multiplier b) (n - 1) = Inr p"
    and d: "d = min (bo_base_delay b * p) (bo_max_delay b)"
    by (auto simp: exponential_delay_def split: sum.splits)
  from float_pow_Inr [OF p] assms have "1 \<le> p"
    by (auto simp: backoff_ok_def)
  then have "bo_base_delay b \<le> bo_base_delay b * p"
    using assms(1) by (simp add: backoff_ok_def)
  with d assms(1) show "bo_base_delay b \<le> d" and "d \<le> bo_max_delay b"
    by (auto simp: backoff_ok_def)
qed

lemma exponential_delay_mono:
  assumes "backoff_ok b" and "1 \<le> m" and "m \<le> n"
    and "exponential_delay b m = Inr x" and "exponential_delay b n = Inr y"
  shows "x \<le> y"
proof -
  from assms obtain p q where
    p: "float_pow (bo_multiplier b) (m - 1) = Inr p" "x = min (bo_base_delay b * p) (bo_max_delay b)" and
    q: "float_pow (bo_multiplier b) (n - 1) = Inr q" "y = min (bo_base_delay b * q) (bo_max_delay b)"
    by (auto simp: exponential_delay_def split: sum.splits)
  have "p \<le> q"
    using float_pow_Inr [OF p(1)] float_pow_Inr [OF q(1)] assms(1-3)
    by (auto simp: backoff_ok_def intro!: power_increasing)
  then have "bo_base_delay b * p \<le> bo_base_delay b * q"
    using assms(1) by (simp add: backoff_ok_def)
  with p(2) q(2) show ?thesis by (auto simp: min_def)
qed

text \<open>
  Backoff delays are right: for arguments the constructor accepts, the wait before the first
  retry is the base delay, a later retry never waits less than an earlier one, and every wait lies
  between the base delay and the maximum.
\<close>

theorem backoff_delay_schedule:
  assumes "backoff_init base factor maxd flags = Inr b" and "1 \<le> m" and "m \<le> n"
    and "exponential_delay b m = Inr x" and "exponential_delay b n = Inr y"
  shows "base \<le> x \<and> x \<le> y \<and> y \<le> maxd \<and> exponential_delay b 1 = Inr base"
proof -
  have ok: "backoff_ok b" and b: "bo_base_delay b = base" "bo_max_delay b = maxd"
    using backoff_init_ok [OF assms(1)] assms(1) by (auto simp: backoff_init_def split: if_splits)
  have "exponential_delay b 1 = Inr base"
    using ok b by (simp add: exponential_delay_def float_pow_def float_overflow_bound_def backoff_ok_def)
  with exponential_delay_bounds(1) [OF ok assms(2,4)] exponential_delay_mono [OF ok assms(2-5)]
    exponential_delay_bounds(2) [OF ok _ assms(5)] assms(2,3) b
  show ?thesis by simp
qed

theorem backoff_delay_schedule_witness:
  "\<exists>b. backoff_init 1 2 30 default_flags = Inr b \<and> exponential_delay b 3 = Inr 4 \<and>
     exponential_delay b 7 = Inr 30 \<and> (1::rat) \<le> 4 \<and> (4::rat) \<le> 30 \<and> (30::rat) \<le> 30 \<and>
     exponential_delay b 1 = Inr 1"
proof -
  obtain b where b: "backoff_init 1 2 30 default_flags = Inr b"
    by (simp add: backoff_init_def)
  then have "bo_multiplier b = 2" "bo_base_delay b = 1" "bo_max_delay b = 30"
    by (auto simp: backoff_init_def)
  then have "exponential_delay b 3 = Inr 4" "exponential_delay b 7 = Inr 30"
    by (simp_all add: exponential_delay_def float_pow_def float_overflow_bound_def)
  with b backoff_delay_schedule [OF b, of 3 7 4 30] show ?thesis by auto
qed

text \<open>
  The backoff strategies raise instead of waiting: with the default multiplier the delay of
  attempt 1025 overflows a float before the cap applies, so a task with enough retries gets an
  \<^verbatim>\<open>OverflowError\<close> out of \<^verbatim>\<open>decide\<close>, and attempt 1024 is the last with a delay.
\<close>

theorem backoff_overflows_past_1024:
  "\<exists>b. backoff_init 1 2 60 default_flags = Inr b \<and>
     exponential_delay b 1024 = Inr 60 \<and>
     (\<exists>e. exponential_delay b 1025 = Inl e \<and> exc_type e = ''OverflowError'')"
  by (simp add: backoff_init_def exponential_delay_def float_pow_def float_overflow_bound_def Let_def)

end
