(* ===== verification/Guild.thy ===== *)
theory Guild
  imports Contracts
begin

text \<open>
  \<^verbatim>\<open>engine/guild/\<close>: fingerprints and records (\<^verbatim>\<open>interface.py\<close>), the in-memory and the JSON-file
  guild stores (\<^verbatim>\<open>store.py\<close>) with the contract they share (locale \<open>guild_backend\<close>), the failure
  knowledge base (\<^verbatim>\<open>knowledge.py\<close>) and the peer suggestions (\<^verbatim>\<open>peer.py\<close>).

  SHA-256 over the key-sorted JSON text is a parameter \<open>digest\<close> applied to the key-sorted value;
  a value \<^verbatim>\<open>json.dumps\<close> cannot serialise raises \<^verbatim>\<open>TypeError\<close>.  An entry of the JSON file is
  represented by what \<^verbatim>\<open>GuildRecord.model_validate\<close> makes of it, so a dumped record reads back as
  itself.  The wall clock is a function of the number of times it was read; operations that read
  it take that number and return the next one.
\<close>

section \<open>interface.py\<close>

record fingerprint =
  fp_capability :: string
  fp_error_type :: string
  fp_input :: string

definition fp_to_key :: "fingerprint \<Rightarrow> string" where
  "fp_to_key f = fp_capability f @ '':'' @ fp_error_type f @ '':'' @ fp_input f"

record guild_record =
  gr_fingerprint :: fingerprint
  gr_resolution_hint :: "string option"
  gr_approach_adjustment :: pydict
  gr_role :: "string option"
  gr_project :: "string option"
  gr_success_count :: int
  gr_failure_count :: int
  gr_created_at :: int
  gr_updated_at :: int
  gr_metadata :: pydict

record guild_suggestion =
  gsu_fingerprint :: fingerprint
  gsu_resolution_hint :: "string option"
  gsu_approach_adjustment :: pydict
  gsu_source_role :: "string option"
  gsu_source_project :: "string option"
  gsu_confidence :: rat

record guild_config =
  gc_enabled :: bool
  gc_store_path :: "string option"
  gc_project_name :: "string option"
  gc_max_records :: int

definition guild_config_default :: guild_config where
  "guild_config_default =
     \<lparr>gc_enabled = False, gc_store_path = None, gc_project_name = None, gc_max_records = 1000\<rparr>"

abbreviation gr_key :: "guild_record \<Rightarrow> string" where
  "gr_key r \<equiv> fp_to_key (gr_fingerprint r)"

section \<open>store.py\<close>

subsection \<open>Fingerprints of inputs\<close>

primrec json_able :: "pyval \<Rightarrow> bool" where
  "json_able PNone = True"
| "json_able (PBool b) = True"
| "json_able (PInt i) = True"
| "json_able (PFloat x) = True"
| "json_able (PStr s) = True"
| "json_able (PTime t) = False"
| "json_able (PList xs) = list_all id (map json_able xs)"
| "json_able (PDict d) = list_all snd (map (map_prod id json_able) d)"

primrec json_sorted :: "pyval \<Rightarrow> pyval" where
  "json_sorted PNone = PNone"
| "json_sorted (PBool b) = PBool b"
| "json_sorted (PInt i) = PInt i"
| "json_sorted (PFloat x) = PFloat x"
| "json_sorted (PStr s) = PStr s"
| "json_sorted (PTime t) = PTime t"
| "json_sorted (PList xs) = PList (map json_sorted xs)"
| "json_sorted (PDict d) = PDict (sort_key fst (map (map_prod id json_sorted) d))"

definition compute_input_fingerprint :: "(pyval \<Rightarrow> string) \<Rightarrow> pydict \<Rightarrow> exc + string" where
  "compute_input_fingerprint digest input_data =
     (if json_able (PDict input_data) then Inr (take 16 (digest (json_sorted (PDict input_data))))
      else Inl (Other_Exception ''TypeError'' ''Object of type datetime is not JSON serializable''))"

subsection \<open>Filtering\<close>

definition filter_guild_records ::
  "guild_record list \<Rightarrow> string option \<Rightarrow> string option \<Rightarrow> string option \<Rightarrow> int option \<Rightarrow> int \<Rightarrow>
   guild_record list" where
  "filter_guild_records records capability error_type role limit offset =
     (let records = (case capability of None \<Rightarrow> records
                     | Some c \<Rightarrow> filter (\<lambda>r. fp_capability (gr_fingerprint r) = c) records);
          records = (case error_type of None \<Rightarrow> records
                     | Some e \<Rightarrow> filter (\<lambda>r. fp_error_type (gr_fingerprint r) = e) records);
          records = (case role of None \<Rightarrow> records | Some x \<Rightarrow> filter (\<lambda>r. gr_role r = Some x) records);
          records = py_from offset records
      in case limit of None \<Rightarrow> records | Some n \<Rightarrow> py_upto n records)"

lemma filter_guild_records_all [simp]: "filter_guild_records rs None None None None 0 = rs"
  by (simp add: filter_guild_records_def)

lemma filter_guild_records_capability [simp]:
  "filter_guild_records rs (Some c) None None None 0 =
     filter (\<lambda>r. fp_capability (gr_fingerprint r) = c) rs"
  by (simp add: filter_guild_records_def)

subsection \<open>MemoryGuildStore\<close>

record mem_guild =
  mg_records :: "guild_record dict"

definition mg_init :: mem_guild where
  "mg_init = \<lparr>mg_records = []\<rparr>"

definition mg_save :: "guild_record \<Rightarrow> mem_guild \<Rightarrow> mem_guild" where
  "mg_save record s = s\<lparr>mg_records := dset (gr_key record) record (mg_records s)\<rparr>"

definition mg_get :: "mem_guild \<Rightarrow> fingerprint \<Rightarrow> guild_record option" where
  "mg_get s fingerprint = dget (mg_records s) (fp_to_key fingerprint)"

definition mg_list :: "mem_guild \<Rightarrow> string option \<Rightarrow> string option \<Rightarrow> string option \<Rightarrow> int option \<Rightarrow> int \<Rightarrow>
    guild_record list" where
  "mg_list s capability error_type role limit offset =
     filter_guild_records (dvalues (mg_records s)) capability error_type role limit offset"

definition mg_delete :: "fingerprint \<Rightarrow> mem_guild \<Rightarrow> bool \<times> mem_guild" where
  "mg_delete fingerprint s =
     (let key = fp_to_key fingerprint in
      if dget (mg_records s) key \<noteq> None then (True, s\<lparr>mg_records := ddel key (mg_records s)\<rparr>)
      else (False, s))"

definition mg_clear :: "mem_guild \<Rightarrow> mem_guild" where
  "mg_clear s = s\<lparr>mg_records := []\<rparr>"

subsection \<open>LocalGuildStore\<close>

record local_guild =
  lg_path :: string
  lg_file :: "(exc + guild_record) jfile"

definition lg_read_all :: "local_guild \<Rightarrow> exc + (exc + guild_record) dict" where
  "lg_read_all s = jread (lg_file s)"

definition lg_write_all :: "(exc + guild_record) dict \<Rightarrow> local_guild \<Rightarrow> local_guild" where
  "lg_write_all payload s = s\<lparr>lg_file := jwrite payload\<rparr>"

definition lg_save :: "guild_record \<Rightarrow> local_guild \<Rightarrow> exc + local_guild" where
  "lg_save record s = (case lg_read_all s of
       Inl e \<Rightarrow> Inl e
     | Inr payload \<Rightarrow> Inr (lg_write_all (dset (gr_key record) (Inr record) payload) s))"

definition lg_get :: "local_guild \<Rightarrow> fingerprint \<Rightarrow> exc + guild_record option" where
  "lg_get s fingerprint = (case lg_read_all s of
       Inl e \<Rightarrow> Inl e
     | Inr payload \<Rightarrow> (case dget payload (fp_to_key fingerprint) of
           None \<Rightarrow> Inr None
         | Some raw \<Rightarrow> map_sum id Some raw))"

fun all_valid :: "(exc + 'a) list \<Rightarrow> exc + 'a list" where
  "all_valid [] = Inr []"
| "all_valid (Inl e # xs) = Inl e"
| "all_valid (Inr x # xs) = (case all_valid xs of Inl e \<Rightarrow> Inl e | Inr ys \<Rightarrow> Inr (x # ys))"

definition lg_list :: "local_guild \<Rightarrow> string option \<Rightarrow> string option \<Rightarrow> string option \<Rightarrow> int option \<Rightarrow> int \<Rightarrow>
    exc + guild_record list" where
  "lg_list s capability error_type role limit offset = (case lg_read_all s of
       Inl e \<Rightarrow> Inl e
     | Inr payload \<Rightarrow> (case all_valid (dvalues payload) of
           Inl e \<Rightarrow> Inl e
         | Inr records \<Rightarrow> Inr (filter_guild_records records capability error_type role limit offset)))"

definition lg_delete :: "fingerprint \<Rightarrow> local_guild \<Rightarrow> exc + bool \<times> local_guild" where
  "lg_delete fingerprint s = (case lg_read_all s of
       Inl e \<Rightarrow> Inl e
     | Inr payload \<Rightarrow>
         (let key = fp_to_key fingerprint in
          if dget payload key \<noteq> None then Inr (True, lg_write_all (ddel key payload) s)
          else Inr (False, s)))"

definition lg_clear :: "local_guild \<Rightarrow> local_guild" where
  "lg_clear s = s\<lparr>lg_file := Absent\<rparr>"

subsection \<open>Either store\<close>

datatype guild_store = Mem_Guild mem_guild | Local_Guild local_guild

fun gs_save :: "guild_record \<Rightarrow> guild_store \<Rightarrow> exc + guild_store" where
  "gs_save r (Mem_Guild s) = Inr (Mem_Guild (mg_save r s))"
| "gs_save r (Local_Guild s) = map_sum id Local_Guild (lg_save r s)"

fun gs_get :: "guild_store \<Rightarrow> fingerprint \<Rightarrow> exc + guild_record option" where
  "gs_get (Mem_Guild s) f = Inr (mg_get s f)"
| "gs_get (Local_Guild s) f = lg_get s f"

fun gs_list :: "guild_store \<Rightarrow> string option \<Rightarrow> string option \<Rightarrow> exc + guild_record list" where
  "gs_list (Mem_Guild s) capability error_type = Inr (mg_list s capability error_type None None 0)"
| "gs_list (Local_Guild s) capability error_type = lg_list s capability error_type None None 0"

fun gs_delete :: "fingerprint \<Rightarrow> guild_store \<Rightarrow> exc + bool \<times> guild_store" where
  "gs_delete f (Mem_Guild s) = Inr (map_prod id Mem_Guild (mg_delete f s))"
| "gs_delete f (Local_Guild s) = map_sum id (map_prod id Local_Guild) (lg_delete f s)"

section \<open>knowledge.py\<close>

text \<open>\<^verbatim>\<open>_enforce_limit\<close> deletes the oldest records beyond the limit.\<close>

fun delete_all :: "(fingerprint \<Rightarrow> 's \<Rightarrow> exc + bool \<times> 's) \<Rightarrow> fingerprint list \<Rightarrow> 's \<Rightarrow> (exc + unit) \<times> 's" where
  "delete_all del [] s = (Inr (), s)"
| "delete_all del (f # fs) s = (case del f s of
       Inl e \<Rightarrow> (Inl e, s)
     | Inr (found, s') \<Rightarrow> delete_all del fs s')"

definition kb_enforce_limit :: "guild_config \<Rightarrow> guild_store \<Rightarrow> (exc + unit) \<times> guild_store" where
  "kb_enforce_limit config s =
     (if gc_max_records config \<le> 0 then (Inr (), s)
      else case gs_list s None None of
        Inl e \<Rightarrow> (Inl e, s)
      | Inr all_records \<Rightarrow>
          if int (length all_records) \<le> gc_max_records config then (Inr (), s)
          else
            let sorted_records = sort_key gr_created_at all_records;
                to_remove = int (length sorted_records) - gc_max_records config
            in delete_all gs_delete (map gr_fingerprint (py_upto to_remove sorted_records)) s)"

record publish_args =
  pa_capability :: string
  pa_role :: "string option"
  pa_resolution_hint :: "string option"
  pa_approach_adjustment :: "pydict option"
  pa_metadata :: "pydict option"

definition empty_if_none :: "pydict option \<Rightarrow> pydict" where
  "empty_if_none d = (case d of None \<Rightarrow> [] | Some x \<Rightarrow> x)"

text \<open>The inner loop of \<^verbatim>\<open>publish\<close>: bump the record already published under the key.\<close>

fun bump_published ::
  "(nat \<Rightarrow> int) \<Rightarrow> string \<Rightarrow> guild_record list \<Rightarrow> nat \<Rightarrow> guild_store \<Rightarrow>
   (exc + guild_record list) \<times> nat \<times> guild_store" where
  "bump_published clock key [] n s = (Inr [], n, s)"
| "bump_published clock key (r # rs) n s =
     (if gr_key r = key
      then
        let r = r\<lparr>gr_failure_count := gr_failure_count r + 1, gr_updated_at := clock n\<rparr> in
        case gs_save r s of
          Inl e \<Rightarrow> (Inl e, Suc n, s)
        | Inr s \<Rightarrow> (case bump_published clock key rs (Suc n) s of
            (Inl e, n, s) \<Rightarrow> (Inl e, n, s) | (Inr rs, n, s) \<Rightarrow> (Inr (r # rs), n, s))
      else case bump_published clock key rs n s of
            (Inl e, n, s) \<Rightarrow> (Inl e, n, s) | (Inr rs, n, s) \<Rightarrow> (Inr (r # rs), n, s))"

definition kb_update_existing ::
  "guild_config \<Rightarrow> publish_args \<Rightarrow> int \<Rightarrow> guild_record \<Rightarrow> guild_record" where
  "kb_update_existing config args now existing =
     (let r = existing\<lparr>gr_failure_count := gr_failure_count existing + 1, gr_updated_at := now\<rparr>;
          r = (if pa_resolution_hint args \<noteq> None
               then r\<lparr>gr_resolution_hint := pa_resolution_hint args\<rparr> else r);
          r = (case pa_approach_adjustment args of None \<Rightarrow> r
               | Some a \<Rightarrow> r\<lparr>gr_approach_adjustment := dupdate (gr_approach_adjustment r) a\<rparr>);
          r = (if pa_role args \<noteq> None then r\<lparr>gr_role := pa_role args\<rparr> else r);
          r = (if gc_project_name config \<noteq> None then r\<lparr>gr_project := gc_project_name config\<rparr> else r)
      in r)"

definition kb_new_failure_record ::
  "guild_config \<Rightarrow> publish_args \<Rightarrow> int \<Rightarrow> int \<Rightarrow> fingerprint \<Rightarrow> guild_record" where
  "kb_new_failure_record config args created updated fingerprint =
     \<lparr>gr_fingerprint = fingerprint, gr_resolution_hint = pa_resolution_hint args,
      gr_approach_adjustment = empty_if_none (pa_approach_adjustment args), gr_role = pa_role args,
      gr_project = gc_project_name config, gr_success_count = 0, gr_failure_count = 1,
      gr_created_at = created, gr_updated_at = updated, gr_metadata = empty_if_none (pa_metadata args)\<rparr>"

definition context_fingerprint :: "(pyval \<Rightarrow> string) \<Rightarrow> string \<Rightarrow> failure_context \<Rightarrow> fingerprint" where
  "context_fingerprint digest capability ctx =
     \<lparr>fp_capability = (if capability \<noteq> [] then capability else fc_capability ctx),
      fp_error_type = fc_error_type ctx,
      fp_input = opt_or (fc_input_fingerprint ctx) (take 16 (digest (json_sorted (PDict []))))\<rparr>"

fun publish_loop ::
  "(nat \<Rightarrow> int) \<Rightarrow> (pyval \<Rightarrow> string) \<Rightarrow> guild_config \<Rightarrow> publish_args \<Rightarrow> failure_context list \<Rightarrow>
   string list \<Rightarrow> guild_record list \<Rightarrow> nat \<Rightarrow> guild_store \<Rightarrow>
   (exc + guild_record list) \<times> nat \<times> guild_store" where
  "publish_loop clock digest config args [] seen published n s = (Inr published, n, s)"
| "publish_loop clock digest config args (ctx # ctxs) seen published n s =
     (let fingerprint = context_fingerprint digest (pa_capability args) ctx;
          key = fp_to_key fingerprint
      in
      if key \<in> set seen
      then case bump_published clock key published n s of
             (Inl e, n, s) \<Rightarrow> (Inl e, n, s)
           | (Inr published, n, s) \<Rightarrow>
               publish_loop clock digest config args ctxs seen published n s
      else
        let seen = key # seen in
        case gs_get s fingerprint of
          Inl e \<Rightarrow> (Inl e, n, s)
        | Inr (Some existing) \<Rightarrow>
            (let existing = kb_update_existing config args (clock n) existing in
             case gs_save existing s of
               Inl e \<Rightarrow> (Inl e, Suc n, s)
             | Inr s \<Rightarrow> publish_loop clock digest config args ctxs seen (published @ [existing]) (Suc n) s)
        | Inr None \<Rightarrow>
            (let record = kb_new_failure_record config args (clock n) (clock (Suc n)) fingerprint in
             case gs_save record s of
               Inl e \<Rightarrow> (Inl e, n + 2, s)
             | Inr s \<Rightarrow> publish_loop clock digest config args ctxs seen (published @ [record]) (n + 2) s))"

definition kb_publish ::
  "(nat \<Rightarrow> int) \<Rightarrow> (pyval \<Rightarrow> string) \<Rightarrow> guild_config \<Rightarrow> publish_args \<Rightarrow> failure_context list \<Rightarrow> nat \<Rightarrow>
   guild_store \<Rightarrow> (exc + guild_record list) \<times> nat \<times> guild_store" where
  "kb_publish clock digest config args failure_contexts n s =
     (if \<not> gc_enabled config then (Inr [], n, s)
      else case publish_loop clock digest config args failure_contexts [] [] n s of
        (Inl e, n, s) \<Rightarrow> (Inl e, n, s)
      | (Inr published, n, s) \<Rightarrow> (case kb_enforce_limit config s of
          (Inl e, s) \<Rightarrow> (Inl e, n, s)
        | (Inr u, s) \<Rightarrow> (Inr published, n, s)))"

definition success_error_type :: string where
  "success_error_type = ''_success''"

definition kb_publish_success ::
  "(nat \<Rightarrow> int) \<Rightarrow> (pyval \<Rightarrow> string) \<Rightarrow> guild_config \<Rightarrow> string \<Rightarrow> pydict \<Rightarrow> string option \<Rightarrow> pydict option \<Rightarrow>
   nat \<Rightarrow> guild_store \<Rightarrow> (exc + guild_record option) \<times> nat \<times> guild_store" where
  "kb_publish_success clock digest config capability input_data role metadata n s =
     (if \<not> gc_enabled config then (Inr None, n, s)
      else case compute_input_fingerprint digest input_data of
        Inl e \<Rightarrow> (Inl e, n, s)
      | Inr input_fingerprint \<Rightarrow>
          let fingerprint = \<lparr>fp_capability = capability, fp_error_type = success_error_type,
                             fp_input = input_fingerprint\<rparr> in
          case gs_get s fingerprint of
            Inl e \<Rightarrow> (Inl e, n, s)
          | Inr found \<Rightarrow>
              let (record, n) = (case found of
                  Some existing \<Rightarrow>
                    (let r = existing\<lparr>gr_success_count := gr_success_count existing + 1, gr_updated_at := clock n\<rparr>;
                         r = (if role \<noteq> None then r\<lparr>gr_role := role\<rparr> else r);
                         r = (if gc_project_name config \<noteq> None
                              then r\<lparr>gr_project := gc_project_name config\<rparr> else r)
                     in (r, Suc n))
                | None \<Rightarrow>
                    (\<lparr>gr_fingerprint = fingerprint, gr_resolution_hint = None, gr_approach_adjustment = [],
                      gr_role = role, gr_project = gc_project_name config, gr_success_count = 1,
                      gr_failure_count = 0, gr_created_at = clock n, gr_updated_at = clock (Suc n),
                      gr_metadata = empty_if_none metadata\<rparr>, n + 2))
              in case gs_save record s of
                   Inl e \<Rightarrow> (Inl e, n, s)
                 | Inr s \<Rightarrow> (case kb_enforce_limit config s of
                     (Inl e, s) \<Rightarrow> (Inl e, n, s)
                   | (Inr u, s) \<Rightarrow> (Inr (Some record), n, s)))"

definition kb_publish_failure ::
  "(nat \<Rightarrow> int) \<Rightarrow> (pyval \<Rightarrow> string) \<Rightarrow> guild_config \<Rightarrow> publish_args \<Rightarrow> failure_context \<Rightarrow> nat \<Rightarrow>
   guild_store \<Rightarrow> (exc + guild_record option) \<times> nat \<times> guild_store" where
  "kb_publish_failure clock digest config args failure n s =
     (case kb_publish clock digest config (args\<lparr>pa_metadata := None\<rparr>) [failure] n s of
        (Inl e, n, s) \<Rightarrow> (Inl e, n, s)
      | (Inr [], n, s) \<Rightarrow> (Inr None, n, s)
      | (Inr (r # rs), n, s) \<Rightarrow> (Inr (Some r), n, s))"

definition kb_lookup :: "guild_config \<Rightarrow> guild_store \<Rightarrow> string \<Rightarrow> string option \<Rightarrow> exc + guild_record list" where
  "kb_lookup config s capability error_type =
     (if \<not> gc_enabled config then Inr [] else gs_list s (Some capability) error_type)"

section \<open>peer.py\<close>

definition record_confidence :: "string \<Rightarrow> string option \<Rightarrow> guild_record \<Rightarrow> rat" where
  "record_confidence input_fp role record =
     (let confidence = 1 / 2;
          confidence = (if fp_input (gr_fingerprint record) = input_fp then confidence + 3 / 10 else confidence);
          confidence = (if role \<noteq> None \<and> gr_role record = role then confidence + 1 / 5 else confidence)
      in min confidence 1)"

definition record_suggestion :: "string \<Rightarrow> string option \<Rightarrow> guild_record \<Rightarrow> guild_suggestion" where
  "record_suggestion input_fp role record =
     \<lparr>gsu_fingerprint = gr_fingerprint record, gsu_resolution_hint = gr_resolution_hint record,
      gsu_approach_adjustment = gr_approach_adjustment record, gsu_source_role = gr_role record,
      gsu_source_project = gr_project record, gsu_confidence = record_confidence input_fp role record\<rparr>"

definition peer_suggest ::
  "(pyval \<Rightarrow> string) \<Rightarrow> guild_config \<Rightarrow> guild_store \<Rightarrow> string \<Rightarrow> pydict \<Rightarrow> string option \<Rightarrow>
   exc + guild_suggestion list" where
  "peer_suggest digest config s capability input_data role =
     (if \<not> gc_enabled config then Inr []
      else case gs_list s (Some capability) None of
        Inl e \<Rightarrow> Inl e
      | Inr records \<Rightarrow>
          if records = [] then Inr []
          else case compute_input_fingerprint digest input_data of
            Inl e \<Rightarrow> Inl e
          | Inr input_fp \<Rightarrow>
              Inr (sort_key_desc gsu_confidence (map (record_suggestion input_fp role) records)))"

section \<open>The contract of a guild store\<close>

text \<open>
  What the knowledge base relies on: on a store in a good state no operation raises, a save and a
  delete change what \<open>get\<close> returns for the fingerprints with that key and for no other, and
  \<open>list\<close> returns each stored record once.
\<close>

locale guild_backend =
  fixes save :: "guild_record \<Rightarrow> 's \<Rightarrow> exc + 's"
    and get :: "'s \<Rightarrow> fingerprint \<Rightarrow> exc + guild_record option"
    and records :: "'s \<Rightarrow> exc + guild_record list"
    and del :: "fingerprint \<Rightarrow> 's \<Rightarrow> exc + bool \<times> 's"
    and invar :: "'s \<Rightarrow> bool"
  assumes save_total: "invar s \<Longrightarrow> \<exists>s'. save r s = Inr s' \<and> invar s'"
    and get_save: "invar s \<Longrightarrow> save r s = Inr s' \<Longrightarrow>
      get s' f = (if fp_to_key f = gr_key r then Inr (Some r) else get s f)"
    and get_total: "invar s \<Longrightarrow> \<exists>x. get s f = Inr x"
    and get_key: "invar s \<Longrightarrow> get s f = Inr (Some r) \<Longrightarrow> gr_key r = fp_to_key f"
    and del_total: "invar s \<Longrightarrow> \<exists>b s'. del f s = Inr (b, s') \<and> invar s' \<and>
      (\<forall>g. get s' g = (if fp_to_key g = fp_to_key f then Inr None else get s g))"
    and records_total: "invar s \<Longrightarrow> \<exists>rs. records s = Inr rs \<and> distinct (map gr_key rs) \<and>
      (\<forall>r. r \<in> set rs \<longleftrightarrow> get s (gr_fingerprint r) = Inr (Some r))"
begin

lemma delete_all_total:
  "invar s \<Longrightarrow> \<exists>s'. delete_all del fs s = (Inr (), s') \<and> invar s' \<and>
     (\<forall>g. get s' g = (if fp_to_key g \<in> fp_to_key ` set fs then Inr None else get s g))"
proof (induction fs arbitrary: s)
  case Nil
  then show ?case by simp
next
  case (Cons f fs)
  from del_total [OF Cons.prems, of f] obtain b s1 where s1: "del f s = Inr (b, s1)" "invar s1"
    "\<forall>g. get s1 g = (if fp_to_key g = fp_to_key f then Inr None else get s g)" by blast
  from Cons.IH [OF s1(2)] obtain s2 where s2: "delete_all del fs s1 = (Inr (), s2)" "invar s2"
    "\<forall>g. get s2 g = (if fp_to_key g \<in> fp_to_key ` set fs then Inr None else get s1 g)" by blast
  from s1 s2 show ?case by auto
qed

text \<open>Deleting some of the listed records leaves exactly the others.\<close>

lemma delete_listed:
  assumes inv: "invar s" and rs: "records s = Inr rs" and split: "mset (ys @ zs) = mset rs"
  shows "\<exists>s' rs'. delete_all del (map gr_fingerprint ys) s = (Inr (), s') \<and> invar s' \<and>
    records s' = Inr rs' \<and> mset rs' = mset zs"
proof -
  from delete_all_total [OF inv] obtain s' where s': "delete_all del (map gr_fingerprint ys) s = (Inr (), s')"
    "invar s'" "\<And>g. get s' g = (if fp_to_key g \<in> fp_to_key ` set (map gr_fingerprint ys) then Inr None else get s g)"
    by blast
  from records_total [OF s'(2)] obtain rs' where rs': "records s' = Inr rs'" "distinct (map gr_key rs')"
    "\<And>r. r \<in> set rs' \<longleftrightarrow> get s' (gr_fingerprint r) = Inr (Some r)" by blast
  from records_total [OF inv] rs have d: "distinct (map gr_key rs)"
    and m: "\<And>r. r \<in> set rs \<longleftrightarrow> get s (gr_fingerprint r) = Inr (Some r)" by auto
  have "mset (map gr_key (ys @ zs)) = mset (map gr_key rs)" using split by (metis mset_map)
  with d have dyz: "distinct (map gr_key (ys @ zs))" by (metis mset_eq_imp_distinct_iff)
  have sets: "set rs = set ys \<union> set zs" using split by (metis set_append set_mset_mset)
  have "set rs' = set zs"
  proof (rule set_eqI)
    fix r
    have "r \<in> set rs' \<longleftrightarrow> gr_key r \<notin> gr_key ` set ys \<and> r \<in> set rs"
      using m by (auto simp: rs'(3) s'(3) image_image)
    also have "\<dots> \<longleftrightarrow> r \<in> set zs"
      using dyz sets by (auto dest: imageI)
    finally show "r \<in> set rs' \<longleftrightarrow> r \<in> set zs" .
  qed
  moreover have "distinct rs'" "distinct zs"
    using rs'(2) dyz by (auto simp: distinct_map)
  ultimately have "mset rs' = mset zs" by (metis set_eq_iff_mset_eq_distinct)
  with s' rs' show ?thesis by blast
qed

end

subsection \<open>Both stores satisfy it\<close>

definition mg_ok :: "mem_guild \<Rightarrow> bool" where
  "mg_ok s \<longleftrightarrow> dict_ok (mg_records s) \<and> list_all (\<lambda>(k, r). gr_key r = k) (mg_records s)"

definition lg_ok :: "local_guild \<Rightarrow> bool" where
  "lg_ok s \<longleftrightarrow> (\<exists>d. lg_read_all s = Inr d \<and> dict_ok d \<and>
     list_all (\<lambda>(k, x). \<exists>r. x = Inr r \<and> gr_key r = k) d)"

fun gs_ok :: "guild_store \<Rightarrow> bool" where
  "gs_ok (Mem_Guild s) = mg_ok s"
| "gs_ok (Local_Guild s) = lg_ok s"

definition gs_all :: "guild_store \<Rightarrow> exc + guild_record list" where
  "gs_all s = gs_list s None None"

lemma dvalues_in: "dict_ok d \<Longrightarrow> v \<in> set (dvalues d) \<longleftrightarrow> (\<exists>k. dget d k = Some v)"
  by (force simp: dvalues_def dget_Some_iff)

lemma keyed_distinct:
  "dict_ok d \<Longrightarrow> list_all (\<lambda>(k, r). f r = k) d \<Longrightarrow> distinct (map f (dvalues d))"
proof -
  assume ok: "dict_ok d" "list_all (\<lambda>(k, r). f r = k) d"
  then have "map f (dvalues d) = map fst d"
    by (auto simp: dvalues_def list_all_iff)
  with ok(1) show ?thesis by (simp add: dict_ok_def)
qed

lemma all_valid_map_Inr [simp]: "all_valid (map Inr rs) = Inr rs"
  by (induction rs) auto

lemma all_valid_Inr_comp [simp]: "all_valid (map (\<lambda>x. Inr (h x)) xs) = Inr (map h xs)"
  by (induction xs) auto

lemma projr_Inr_map [simp]: "map (map_prod id projr) (map (map_prod id Inr) d) = d"
  by (induction d) auto

lemma Inr_projr_map:
  "\<forall>(k, x) \<in> set d. \<exists>r. x = Inr r \<and> P k r \<Longrightarrow>
   map (map_prod id Inr) (map (map_prod id projr) d) = d"
  by (induction d) auto

lemma lg_ok_alt: "lg_ok s \<longleftrightarrow> (\<exists>m. mg_ok m \<and> lg_read_all s = Inr (map (map_prod id Inr) (mg_records m)))"
proof
  assume "lg_ok s"
  then obtain d where d: "lg_read_all s = Inr d" "dict_ok d"
    "\<forall>(k, x) \<in> set d. \<exists>r. x = Inr r \<and> gr_key r = k"
    by (auto simp: lg_ok_def list_all_iff)
  let ?m = "\<lparr>mg_records = map (map_prod id projr) d\<rparr>"
  have "map (map_prod id Inr) (mg_records ?m) = d"
    using Inr_projr_map [OF d(3)] by simp
  moreover have "mg_ok ?m"
    using d(2,3) by (auto simp: mg_ok_def dict_ok_def list_all_iff comp_def)
  ultimately show "\<exists>m. mg_ok m \<and> lg_read_all s = Inr (map (map_prod id Inr) (mg_records m))"
    using d(1) by metis
next
  assume "\<exists>m. mg_ok m \<and> lg_read_all s = Inr (map (map_prod id Inr) (mg_records m))"
  then show "lg_ok s"
    by (fastforce simp: lg_ok_def mg_ok_def dict_ok_def list_all_iff comp_def)
qed

lemma dget_map_Inr [simp]: "dget (map (map_prod id Inr) d) k = map_option Inr (dget d k)"
  by (induction d) (auto simp: dget_def)

lemma dset_map_Inr: "dset k (Inr r) (map (map_prod id Inr) d) = map (map_prod id Inr) (dset k r d)"
  by (induction d) (auto simp: dset_def)

lemma ddel_map_Inr: "ddel k (map (map_prod id Inr) d) = map (map_prod id Inr) (ddel k d)"
  by (induction d) (auto simp: ddel_def)

lemma mg_ok_save: "mg_ok s \<Longrightarrow> mg_ok (mg_save r s)"
  by (auto simp: mg_ok_def mg_save_def list_all_iff dset_in_set)

lemma mg_ok_delete: "mg_ok s \<Longrightarrow> mg_ok (snd (mg_delete f s))"
  using dict_ok_ddel [of "mg_records s" "fp_to_key f"]
  by (auto simp: mg_ok_def mg_delete_def Let_def list_all_iff ddel_def AList.delete_eq)

lemma mg_ok_sorted: "mg_ok \<lparr>mg_records = sort_key fst d\<rparr> = mg_ok \<lparr>mg_records = d\<rparr>"
  by (simp add: mg_ok_def list_all_iff)

lemma mg_get_save: "mg_get (mg_save r s) f = (if fp_to_key f = gr_key r then Some r else mg_get s f)"
  by (simp add: mg_get_def mg_save_def)

lemma mg_get_key: "mg_ok s \<Longrightarrow> mg_get s f = Some r \<Longrightarrow> gr_key r = fp_to_key f"
  by (auto simp: mg_ok_def mg_get_def list_all_iff dget_Some_iff)

lemma mg_get_delete: "mg_get (snd (mg_delete f s)) g = (if fp_to_key g = fp_to_key f then None else mg_get s g)"
  by (auto simp: mg_get_def mg_delete_def Let_def)

lemma mg_values:
  assumes "mg_ok s"
  shows "distinct (map gr_key (dvalues (mg_records s)))"
    and "r \<in> set (dvalues (mg_records s)) \<longleftrightarrow> mg_get s (gr_fingerprint r) = Some r"
proof -
  show "distinct (map gr_key (dvalues (mg_records s)))"
    using assms by (intro keyed_distinct) (auto simp: mg_ok_def)
  show "r \<in> set (dvalues (mg_records s)) \<longleftrightarrow> mg_get s (gr_fingerprint r) = Some r"
    using assms by (auto simp: mg_ok_def mg_get_def dvalues_in list_all_iff dget_Some_iff)
qed

interpretation mgb: guild_backend "\<lambda>r s. Inr (mg_save r s)" "\<lambda>s f. Inr (mg_get s f)"
  "\<lambda>s. Inr (mg_list s None None None None 0)" "\<lambda>f s. Inr (mg_delete f s)" mg_ok
proof unfold_locales
  fix s f assume "mg_ok s"
  then show "\<exists>b s'. Inr (mg_delete f s) = Inr (b, s') \<and> mg_ok s' \<and>
      (\<forall>g. Inr (mg_get s' g) = (if fp_to_key g = fp_to_key f then Inr None else Inr (mg_get s g)))"
    using mg_ok_delete [of s f] mg_get_delete [of f s] by (cases "mg_delete f s") auto
qed (auto simp: mg_ok_save mg_get_save mg_list_def mg_values dest: mg_get_key)

text \<open>A healthy file is a memory store written down: \<open>lg_view\<close> is that store.\<close>

definition lg_view :: "local_guild \<Rightarrow> mem_guild" where
  "lg_view s = \<lparr>mg_records = (case lg_read_all s of Inl e \<Rightarrow> [] | Inr d \<Rightarrow> map (map_prod id projr) d)\<rparr>"

lemma lg_view_read:
  assumes "lg_ok s"
  shows "mg_ok (lg_view s)" and "lg_read_all s = Inr (map (map_prod id Inr) (mg_records (lg_view s)))"
proof -
  from assms obtain m where m: "mg_ok m" "lg_read_all s = Inr (map (map_prod id Inr) (mg_records m))"
    by (auto simp: lg_ok_alt)
  then have "lg_view s = m" by (cases m) (simp add: lg_view_def del: map_map)
  with m show "mg_ok (lg_view s)" and "lg_read_all s = Inr (map (map_prod id Inr) (mg_records (lg_view s)))"
    by auto
qed

lemma insort_key_map: "insort_key f (g x) (map g xs) = map g (insort_key (\<lambda>x. f (g x)) x xs)"
  by (induction xs) auto

lemma sort_key_map: "sort_key f (map g xs) = map g (sort_key (\<lambda>x. f (g x)) xs)"
  by (induction xs) (auto simp: insort_key_map)

lemma lg_write_view:
  assumes "mg_ok \<lparr>mg_records = d\<rparr>"
  shows "lg_ok (lg_write_all (map (map_prod id Inr) d) s)"
    and "mg_records (lg_view (lg_write_all (map (map_prod id Inr) d) s)) = sort_key fst d"
proof -
  have r: "lg_read_all (lg_write_all (map (map_prod id Inr) d) s) = Inr (map (map_prod id Inr) (sort_key fst d))"
    by (simp add: lg_read_all_def lg_write_all_def sort_key_map comp_def)
  then show "lg_ok (lg_write_all (map (map_prod id Inr) d) s)"
    using assms by (metis lg_ok_alt mg_ok_sorted mem_guild.select_convs(1))
  show "mg_records (lg_view (lg_write_all (map (map_prod id Inr) d) s)) = sort_key fst d"
    by (simp add: lg_view_def r del: map_map)
qed

lemma lg_get_view: "lg_ok s \<Longrightarrow> lg_get s f = Inr (mg_get (lg_view s) f)"
  by (auto simp: lg_get_def lg_view_read mg_get_def split: option.splits)

lemma mg_ok_eta: "mg_ok m \<longleftrightarrow> mg_ok \<lparr>mg_records = mg_records m\<rparr>"
  by (simp add: mg_ok_def)

lemma mg_get_sorted:
  "dict_ok d \<Longrightarrow> mg_records m = sort_key fst d \<Longrightarrow> mg_get m f = dget d (fp_to_key f)"
  by (simp add: mg_get_def)

lemma lg_save_view:
  assumes "lg_ok s"
  shows "\<exists>s'. lg_save r s = Inr s' \<and> lg_ok s' \<and>
    (\<forall>f. mg_get (lg_view s') f = (if fp_to_key f = gr_key r then Some r else mg_get (lg_view s) f))"
proof -
  let ?d = "mg_records (mg_save r (lg_view s))"
  have ok: "mg_ok \<lparr>mg_records = ?d\<rparr>"
    using lg_view_read(1) [OF assms] mg_ok_save mg_ok_eta by blast
  have "lg_save r s = Inr (lg_write_all (map (map_prod id Inr) ?d) s)"
    by (simp add: lg_save_def lg_view_read(2) [OF assms] dset_map_Inr mg_save_def)
  moreover have "mg_get (lg_view (lg_write_all (map (map_prod id Inr) ?d) s)) f =
      (if fp_to_key f = gr_key r then Some r else mg_get (lg_view s) f)" for f
    using mg_get_sorted [OF _ lg_write_view(2) [OF ok]] ok
    by (simp add: mg_ok_def mg_save_def mg_get_def)
  ultimately show ?thesis using lg_write_view(1) [OF ok] by blast
qed

lemma lg_delete_view:
  assumes "lg_ok s"
  shows "\<exists>b s'. lg_delete f s = Inr (b, s') \<and> lg_ok s' \<and>
    (\<forall>g. mg_get (lg_view s') g = (if fp_to_key g = fp_to_key f then None else mg_get (lg_view s) g))"
proof (cases "mg_get (lg_view s) f")
  case None
  then show ?thesis using assms
    by (auto simp: lg_delete_def lg_view_read Let_def mg_get_def)
next
  case (Some x)
  let ?d = "mg_records (snd (mg_delete f (lg_view s)))"
  have ok: "mg_ok \<lparr>mg_records = ?d\<rparr>"
    using lg_view_read(1) [OF assms] mg_ok_delete mg_ok_eta by blast
  have "lg_delete f s = Inr (True, lg_write_all (map (map_prod id Inr) ?d) s)"
    using Some by (simp add: lg_delete_def lg_view_read(2) [OF assms] ddel_map_Inr mg_delete_def Let_def mg_get_def)
  moreover have "mg_get (lg_view (lg_write_all (map (map_prod id Inr) ?d) s)) g =
      (if fp_to_key g = fp_to_key f then None else mg_get (lg_view s) g)" for g
    using mg_get_sorted [OF _ lg_write_view(2) [OF ok]] ok mg_get_delete [of f "lg_view s" g]
    by (simp add: mg_ok_def mg_get_def)
  ultimately show ?thesis using lg_write_view(1) [OF ok] by blast
qed

lemma lg_list_view: "lg_ok s \<Longrightarrow> lg_list s c e r l n = Inr (mg_list (lg_view s) c e r l n)"
  by (simp add: lg_list_def lg_view_read mg_list_def dvalues_def comp_def)

interpretation gsb: guild_backend gs_save gs_get gs_all gs_delete gs_ok
proof unfold_locales
  fix s :: guild_store and r :: guild_record and f :: fingerprint
  assume ok: "gs_ok s"
  show "\<exists>s'. gs_save r s = Inr s' \<and> gs_ok s'"
    using ok by (cases s) (auto simp: mg_ok_save dest: lg_save_view [of _ r])
  show "\<exists>x. gs_get s f = Inr x"
    using ok by (cases s) (auto simp: lg_get_view)
  show "\<exists>b s'. gs_delete f s = Inr (b, s') \<and> gs_ok s' \<and>
      (\<forall>g. gs_get s' g = (if fp_to_key g = fp_to_key f then Inr None else gs_get s g))"
  proof (cases s)
    case (Mem_Guild m)
    with ok mg_ok_delete [of m f] mg_get_delete [of f m] show ?thesis
      by (cases "mg_delete f m") auto
  next
    case (Local_Guild l)
    with ok lg_delete_view [of l f] show ?thesis by (auto simp: lg_get_view)
  qed
  show "\<exists>rs. gs_all s = Inr rs \<and> distinct (map gr_key rs) \<and>
      (\<forall>r. (r \<in> set rs) = (gs_get s (gr_fingerprint r) = Inr (Some r)))"
    using ok by (cases s) (auto simp: gs_all_def lg_list_view lg_get_view mg_list_def
        mg_values lg_view_read(1) mg_values(1) [OF lg_view_read(1)] mg_values(2) [OF lg_view_read(1)])
  show "gr_key r = fp_to_key f" if "gs_get s f = Inr (Some r)"
    using ok that by (cases s) (auto simp: lg_get_view dest: mg_get_key lg_view_read(1))
next
  fix s s' :: guild_store and r :: guild_record and f :: fingerprint
  assume "gs_ok s" and "gs_save r s = Inr s'"
  then show "gs_get s' f = (if fp_to_key f = gr_key r then Inr (Some r) else gs_get s f)"
    by (cases s) (auto simp: mg_get_save lg_get_view dest: lg_save_view [of _ r])
qed

end
