(* ===== verification/Guild_Proofs.thy ===== *)
theory Guild_Proofs
  imports Guild
begin

text \<open>
  What the guild promises, on a healthy store of either kind: the size limit, the accumulation of
  failure and success counts, and the ranking of suggestions.
\<close>

section \<open>The size limit\<close>

lemma enforce_limit_spec:
  assumes ok: "gs_ok s" and rs: "gs_all s = Inr rs"
  shows "\<exists>s' rs' out. kb_enforce_limit config s = (Inr (), s') \<and> gs_ok s' \<and> gs_all s' = Inr rs' \<and>
    mset rs = mset out + mset rs' \<and> (0 < gc_max_records config \<longrightarrow> int (length rs') \<le> gc_max_records config) \<and>
    (\<forall>x \<in> set out. \<forall>y \<in> set rs'. gr_created_at x \<le> gr_created_at y) \<and>
    (gc_max_records config \<le> 0 \<or> int (length rs) \<le> gc_max_records config \<longrightarrow> s' = s)"
proof (cases "gc_max_records config \<le> 0 \<or> int (length rs) \<le> gc_max_records config")
  case True
  with ok rs show ?thesis
    by (auto simp: kb_enforce_limit_def gs_all_def)
next
  case False
  let ?xs = "sort_key gr_created_at rs"
  let ?k = "nat (int (length rs) - gc_max_records config)"
  have "mset (take ?k ?xs @ drop ?k ?xs) = mset rs" by (metis append_take_drop_id mset_sort)
  from gsb.delete_listed [OF ok rs this] obtain s' rs' where s':
    "delete_all gs_delete (map gr_fingerprint (take ?k ?xs)) s = (Inr (), s')" "gs_ok s'"
    "gs_all s' = Inr rs'" "mset rs' = mset (drop ?k ?xs)" by blast
  have run: "kb_enforce_limit config s = (Inr (), s')"
    using False rs s'(1) by (auto simp: kb_enforce_limit_def gs_all_def Let_def py_upto_def)
  have "mset rs = mset (take ?k ?xs) + mset rs'"
    using s'(4) by (metis append_take_drop_id mset_append mset_sort)
  moreover have "int (length rs') = gc_max_records config"
  proof -
    have "length rs' = length (drop ?k ?xs)" using s'(4) by (metis size_mset)
    then have "length rs' = length rs - nat (int (length rs) - gc_max_records config)" by simp
    with False show ?thesis by arith
  qed
  moreover have "gr_created_at x \<le> gr_created_at y" if "x \<in> set (take ?k ?xs)" "y \<in> set rs'" for x y
  proof -
    have "sorted (map gr_created_at (take ?k ?xs @ drop ?k ?xs))" by (metis append_take_drop_id sorted_sort_key)
    moreover have "y \<in> set (drop ?k ?xs)" using s'(4) that(2) by (metis set_mset_mset)
    ultimately show ?thesis using that(1) by (auto simp: sorted_append simp del: append_take_drop_id)
  qed
  ultimately show ?thesis using run s'(2,3) False by fastforce
qed

section \<open>Counts\<close>

definition failures_of :: "guild_store \<Rightarrow> fingerprint \<Rightarrow> int" where
  "failures_of s f = (case gs_get s f of Inr (Some r) \<Rightarrow> gr_failure_count r | _ \<Rightarrow> 0)"

definition successes_of :: "guild_store \<Rightarrow> fingerprint \<Rightarrow> int" where
  "successes_of s f = (case gs_get s f of Inr (Some r) \<Rightarrow> gr_success_count r | _ \<Rightarrow> 0)"

text \<open>The records published so far are exactly what the store holds under their keys.\<close>

definition published_ok :: "guild_record list \<Rightarrow> guild_store \<Rightarrow> bool" where
  "published_ok pub s \<longleftrightarrow> distinct (map gr_key pub) \<and>
     (\<forall>r \<in> set pub. gs_get s (gr_fingerprint r) = Inr (Some r))"

lemma gs_get_same_key:
  assumes "gs_ok s" and "fp_to_key f = fp_to_key g"
  shows "gs_get s f = gs_get s g"
  using assms by (cases s) (simp_all add: mg_get_def lg_get_view)

lemma bump_absent: "key \<notin> gr_key ` set pub \<Longrightarrow> bump_published clock key pub n s = (Inr pub, n, s)"
  by (induction pub arbitrary: n s) auto

lemma bump_spec:
  "gs_ok s \<Longrightarrow> published_ok pub s \<Longrightarrow> key \<in> gr_key ` set pub \<Longrightarrow>
   \<exists>pub' n' s'. bump_published clock key pub n s = (Inr pub', n', s') \<and> gs_ok s' \<and> published_ok pub' s' \<and>
     map gr_key pub' = map gr_key pub \<and>
     (\<forall>f. failures_of s' f = failures_of s f + (if fp_to_key f = key then 1 else 0)) \<and>
     (\<forall>f. fp_to_key f \<noteq> key \<longrightarrow> gs_get s' f = gs_get s f)"
proof (induction pub)
  case Nil
  then show ?case by simp
next
  case (Cons r pub)
  show ?case
  proof (cases "gr_key r = key")
    case True
    let ?r = "r\<lparr>gr_failure_count := gr_failure_count r + 1, gr_updated_at := clock n\<rparr>"
    obtain s' where s': "gs_save ?r s = Inr s'" "gs_ok s'"
      using gsb.save_total [OF Cons.prems(1)] by blast
    have get: "gs_get s' f = (if fp_to_key f = key then Inr (Some ?r) else gs_get s f)" for f
      using gsb.get_save [OF Cons.prems(1) s'(1)] True by simp
    have r: "gs_get s (gr_fingerprint r) = Inr (Some r)" and other: "key \<notin> gr_key ` set pub"
      using Cons.prems(2) True by (auto simp: published_ok_def)
    have "published_ok (?r # pub) s'"
      using Cons.prems(2) True other get by (force simp: published_ok_def image_iff)
    moreover have "failures_of s' f = failures_of s f + (if fp_to_key f = key then 1 else 0)" for f
      using get r gs_get_same_key [OF Cons.prems(1), of f "gr_fingerprint r"] True
      by (auto simp: failures_of_def)
    ultimately show ?thesis
      using True s' get by (simp add: Let_def bump_absent [OF other])
  next
    case False
    have "published_ok pub s" "key \<in> gr_key ` set pub"
      using Cons.prems False by (auto simp: published_ok_def)
    from Cons.IH [OF Cons.prems(1) this] obtain pub' n' s' where IH:
      "bump_published clock key pub n s = (Inr pub', n', s')" "gs_ok s'" "published_ok pub' s'"
      "map gr_key pub' = map gr_key pub"
      "\<forall>f. failures_of s' f = failures_of s f + (if fp_to_key f = key then 1 else 0)"
      "\<forall>f. fp_to_key f \<noteq> key \<longrightarrow> gs_get s' f = gs_get s f" by blast
    have "published_ok (r # pub') s'"
    proof -
      have "gr_key r \<notin> set (map gr_key pub')"
        using Cons.prems(2) IH(4) by (simp add: published_ok_def)
      with Cons.prems(2) IH(3,6) False show ?thesis by (auto simp: published_ok_def)
    qed
    with IH False show ?thesis by simp
  qed
qed

definition key_count :: "(pyval \<Rightarrow> string) \<Rightarrow> string \<Rightarrow> failure_context list \<Rightarrow> string \<Rightarrow> int" where
  "key_count digest capability ctxs key =
     int (length (filter (\<lambda>c. fp_to_key (context_fingerprint digest capability c) = key) ctxs))"

lemma publish_loop_spec:
  "gs_ok s \<Longrightarrow> published_ok pub s \<Longrightarrow> set seen = gr_key ` set pub \<Longrightarrow>
   \<exists>pub' n' s'. publish_loop clock digest config args ctxs seen pub n s = (Inr pub', n', s') \<and>
     gs_ok s' \<and>
     (\<forall>f. failures_of s' f = failures_of s f + key_count digest (pa_capability args) ctxs (fp_to_key f))"
proof (induction ctxs arbitrary: seen pub n s)
  case Nil
  then show ?case by (simp add: key_count_def)
next
  case (Cons c ctxs)
  let ?f = "context_fingerprint digest (pa_capability args) c"
  have step: ?case
    if run: "publish_loop clock digest config args (c # ctxs) seen pub n s =
              publish_loop clock digest config args ctxs seen1 pub1 n1 s1"
      and ok1: "gs_ok s1" "published_ok pub1 s1" "set seen1 = gr_key ` set pub1"
      and cnt: "\<And>f. failures_of s1 f = failures_of s f + (if fp_to_key f = fp_to_key ?f then 1 else 0)"
    for seen1 pub1 n1 s1
    using Cons.IH [OF ok1, of n1] cnt unfolding run
    by (fastforce simp: key_count_def)
  show ?case
  proof (cases "fp_to_key ?f \<in> set seen")
    case True
    with bump_spec [OF Cons.prems(1,2), of "fp_to_key ?f" clock n] Cons.prems(3) obtain pub1 n1 s1 where b:
      "bump_published clock (fp_to_key ?f) pub n s = (Inr pub1, n1, s1)" "gs_ok s1" "published_ok pub1 s1"
      "map gr_key pub1 = map gr_key pub"
      "\<And>f. failures_of s1 f = failures_of s f + (if fp_to_key f = fp_to_key ?f then 1 else 0)" by auto
    from b(4) have keys: "gr_key ` set pub1 = gr_key ` set pub" by (metis set_map)
    show ?thesis
      by (rule step [of seen pub1 n1 s1]) (use True b keys Cons.prems(3) in \<open>simp_all add: Let_def\<close>)
  next
    case False
    obtain found where found: "gs_get s ?f = Inr found" using gsb.get_total [OF Cons.prems(1)] by blast
    define r where "r = (case found of Some e \<Rightarrow> kb_update_existing config args (clock n) e
      | None \<Rightarrow> kb_new_failure_record config args (clock n) (clock (Suc n)) ?f)"
    have key: "gr_key r = fp_to_key ?f"
    proof (cases found)
      case None
      then show ?thesis by (simp add: r_def kb_new_failure_record_def)
    next
      case (Some e)
      with gsb.get_key [OF Cons.prems(1)] found have "gr_key e = fp_to_key ?f" by simp
      with Some show ?thesis by (simp add: r_def kb_update_existing_def Let_def split: option.splits)
    qed
    have count: "gr_failure_count r = (case found of Some e \<Rightarrow> gr_failure_count e | None \<Rightarrow> 0) + 1"
      by (simp add: r_def kb_new_failure_record_def kb_update_existing_def Let_def split: option.splits)
    obtain s1 where s1: "gs_save r s = Inr s1" "gs_ok s1"
      using gsb.save_total [OF Cons.prems(1)] by blast
    have get: "gs_get s1 f = (if fp_to_key f = fp_to_key ?f then Inr (Some r) else gs_get s f)" for f
      using gsb.get_save [OF Cons.prems(1) s1(1)] key by simp
    show ?thesis
    proof (rule step [of "fp_to_key ?f # seen" "pub @ [r]" "if found = None then n + 2 else Suc n" s1])
      show "publish_loop clock digest config args (c # ctxs) seen pub n s =
          publish_loop clock digest config args ctxs (fp_to_key ?f # seen) (pub @ [r])
            (if found = None then n + 2 else Suc n) s1"
        using False found s1(1) by (simp add: Let_def r_def split: option.splits)
      show "published_ok (pub @ [r]) s1"
        using Cons.prems(2,3) False key get by (force simp: published_ok_def image_iff)
      show "failures_of s1 f = failures_of s f + (if fp_to_key f = fp_to_key ?f then 1 else 0)" for f
        using get found count gs_get_same_key [OF Cons.prems(1), of f ?f]
        by (auto simp: failures_of_def split: option.splits)
    qed (use s1 key Cons.prems(3) in auto)
  qed
qed

text \<open>
  Publishing a task's failures accumulates knowledge: on a healthy store of either kind, with
  no size limit, \<^verbatim>\<open>publish\<close> never raises and adds to the failure count of every fingerprint exactly
  the number of failure contexts with that fingerprint key, however often a key repeats in the
  list and whether or not the store already knew it.
\<close>

theorem publish_accumulates_failures:
  assumes "gs_ok s" and "gc_enabled config" and "gc_max_records config \<le> 0"
  shows "\<exists>pub n' s'. kb_publish clock digest config args ctxs n s = (Inr pub, n', s') \<and> gs_ok s' \<and>
    (\<forall>f. failures_of s' f = failures_of s f + key_count digest (pa_capability args) ctxs (fp_to_key f))"
proof -
  from publish_loop_spec [OF assms(1), of "[]" "[]" clock digest config args ctxs n]
  obtain pub n' s' where l: "publish_loop clock digest config args ctxs [] [] n s = (Inr pub, n', s')"
    "gs_ok s'"
    "\<forall>f. failures_of s' f = failures_of s f + key_count digest (pa_capability args) ctxs (fp_to_key f)"
    by (auto simp: published_ok_def)
  with assms(2,3) show ?thesis by (simp add: kb_publish_def kb_enforce_limit_def)
qed

definition demo_failure :: "string \<Rightarrow> failure_context" where
  "demo_failure err = \<lparr>fc_task_id = ''t'', fc_capability = ''http'', fc_attempt = 1, fc_max_retries = 2,
     fc_error_type = err, fc_error_message = ''m'', fc_input_fingerprint = Some ''ab'', fc_metadata = []\<rparr>"

theorem publish_accumulates_failures_witness:
  "\<exists>pub n' s'. kb_publish (\<lambda>n. int n) (\<lambda>v. ''d'') (guild_config_default\<lparr>gc_enabled := True, gc_max_records := 0\<rparr>)
      \<lparr>pa_capability = ''http'', pa_role = None, pa_resolution_hint = None, pa_approach_adjustment = None,
       pa_metadata = None\<rparr>
      [demo_failure ''E'', demo_failure ''F'', demo_failure ''E''] 0
      (Local_Guild \<lparr>lg_path = ''g.json'', lg_file = Absent\<rparr>) = (Inr pub, n', s') \<and>
    failures_of s' \<lparr>fp_capability = ''http'', fp_error_type = ''E'', fp_input = ''ab''\<rparr> = 2"
proof -
  have ok: "gs_ok (Local_Guild \<lparr>lg_path = ''g.json'', lg_file = Absent\<rparr>)"
    by (simp add: lg_ok_def lg_read_all_def)
  have zero: "failures_of (Local_Guild \<lparr>lg_path = ''g.json'', lg_file = Absent\<rparr>) f = 0" for f
    by (simp add: failures_of_def lg_get_def lg_read_all_def)
  have two: "key_count (\<lambda>v. ''d'') ''http'' [demo_failure ''E'', demo_failure ''F'', demo_failure ''E'']
      (fp_to_key \<lparr>fp_capability = ''http'', fp_error_type = ''E'', fp_input = ''ab''\<rparr>) = 2"
    by (simp add: key_count_def context_fingerprint_def demo_failure_def fp_to_key_def opt_or_def)
  from publish_accumulates_failures [OF ok, of "guild_config_default\<lparr>gc_enabled := True, gc_max_records := 0\<rparr>"
      "\<lambda>n. int n" "\<lambda>v. ''d''" "\<lparr>pa_capability = ''http'', pa_role = None, pa_resolution_hint = None,
        pa_approach_adjustment = None, pa_metadata = None\<rparr>"
      "[demo_failure ''E'', demo_failure ''F'', demo_failure ''E'']" 0] zero two
  show ?thesis by (force simp: guild_config_default_def)
qed


text \<open>
  C25. The guild store stays within its limit and forgets the oldest first: with a positive
  \<^verbatim>\<open>max_records\<close>, publishing failures to a healthy store of either kind never raises and leaves at
  most that many records, and a record that was there before trimming and is gone afterwards was
  created no later than every record that stays.
\<close>

theorem publish_respects_limit:
  assumes "gs_ok s" and "gc_enabled config" and "0 < gc_max_records config"
  shows "\<exists>pub n' s1 s' rs.
    publish_loop clock digest config args ctxs [] [] n s = (Inr pub, n', s1) \<and>
    kb_publish clock digest config args ctxs n s = (Inr pub, n', s') \<and>
    gs_ok s' \<and> gs_all s' = Inr rs \<and> int (length rs) \<le> gc_max_records config \<and>
    (\<forall>f r. gs_get s1 f = Inr (Some r) \<and> gs_get s' f \<noteq> Inr (Some r) \<longrightarrow>
       (\<forall>y \<in> set rs. gr_created_at r \<le> gr_created_at y))"
proof -
  from publish_loop_spec [OF assms(1), of "[]" "[]" clock digest config args ctxs n]
  obtain pub n' s1 where l: "publish_loop clock digest config args ctxs [] [] n s = (Inr pub, n', s1)"
    and ok1: "gs_ok s1" by (auto simp: published_ok_def)
  from gsb.records_total [OF ok1] obtain rs1 where rs1: "gs_all s1 = Inr rs1"
    "\<And>r. r \<in> set rs1 \<longleftrightarrow> gs_get s1 (gr_fingerprint r) = Inr (Some r)" by auto
  from enforce_limit_spec [OF ok1 rs1(1), of config] obtain s' rs out where e:
    "kb_enforce_limit config s1 = (Inr (), s')" "gs_ok s'" "gs_all s' = Inr rs"
    "mset rs1 = mset out + mset rs" "int (length rs) \<le> gc_max_records config"
    "\<forall>x \<in> set out. \<forall>y \<in> set rs. gr_created_at x \<le> gr_created_at y"
    using assms(3) by blast
  have "\<forall>y \<in> set rs. gr_created_at r \<le> gr_created_at y"
    if "gs_get s1 f = Inr (Some r)" "gs_get s' f \<noteq> Inr (Some r)" for f r
  proof -
    have same: "fp_to_key (gr_fingerprint r) = fp_to_key f" using gsb.get_key [OF ok1 that(1)] .
    have "r \<in> set rs1" using that(1) gs_get_same_key [OF ok1 same] rs1(2) by simp
    moreover have "r \<notin> set rs"
      using that(2) gs_get_same_key [OF e(2) same] gsb.records_total [OF e(2)] e(3) by auto
    ultimately have "r \<in> set out" using e(4) by (metis mset_append set_append set_mset_mset UnE)
    with e(6) show ?thesis by blast
  qed
  moreover have "kb_publish clock digest config args ctxs n s = (Inr pub, n', s')"
    using l e(1) assms(2) by (simp add: kb_publish_def)
  ultimately show ?thesis using l e by blast
qed

theorem publish_respects_limit_witness:
  "\<exists>pub n' s' rs. kb_publish (\<lambda>n. int n) (\<lambda>v. ''d'') (guild_config_default\<lparr>gc_enabled := True, gc_max_records := 1\<rparr>)
      \<lparr>pa_capability = ''http'', pa_role = None, pa_resolution_hint = None, pa_approach_adjustment = None,
       pa_metadata = None\<rparr>
      [demo_failure ''E'', demo_failure ''F''] 0 (Mem_Guild mg_init) = (Inr pub, n', s') \<and>
    gs_all s' = Inr rs \<and> int (length rs) \<le> 1"
  using publish_respects_limit [of "Mem_Guild mg_init" "guild_config_default\<lparr>gc_enabled := True, gc_max_records := 1\<rparr>"
      "\<lambda>n. int n" "\<lambda>v. ''d''" "\<lparr>pa_capability = ''http'', pa_role = None, pa_resolution_hint = None,
        pa_approach_adjustment = None, pa_metadata = None\<rparr>" "[demo_failure ''E'', demo_failure ''F'']" 0]
  by (force simp: guild_config_default_def mg_ok_def mg_init_def)

section \<open>Suggestions\<close>

lemma peer_suggest_cases:
  assumes "gs_ok s" and "gc_enabled config" and "compute_input_fingerprint digest input_data = Inr fp"
  obtains rs where "gs_list s (Some capability) None = Inr rs"
    and "peer_suggest digest config s capability input_data role =
      Inr (sort_key_desc gsu_confidence (map (record_suggestion fp role) rs))"
    and "\<And>r. r \<in> set rs \<longleftrightarrow> gs_get s (gr_fingerprint r) = Inr (Some r) \<and> fp_capability (gr_fingerprint r) = capability"
proof -
  obtain all where all: "gs_all s = Inr all" "\<And>r. r \<in> set all \<longleftrightarrow> gs_get s (gr_fingerprint r) = Inr (Some r)"
    using gsb.records_total [OF assms(1)] by auto
  have l: "gs_list s (Some capability) None = Inr (filter (\<lambda>r. fp_capability (gr_fingerprint r) = capability) all)"
    using all(1) assms(1) by (cases s) (auto simp: gs_all_def mg_list_def lg_list_view)
  show thesis
    by (rule that [OF l]) (use assms l all(2) in \<open>auto simp: peer_suggest_def sort_key_desc_def\<close>)
qed

text \<open>
  Peer suggestions put exact matches first: on a healthy, enabled guild, \<^verbatim>\<open>suggest\<close> returns one
  suggestion for every stored record of the capability, in descending order of confidence, every
  confidence is between 0.5 and 1, and when any record of the capability has the fingerprint of
  this very input, the suggestion the supervisor applies (the first) is one with that fingerprint.
\<close>

theorem suggest_ranks_exact_match_first:
  assumes "gs_ok s" and "gc_enabled config" and "compute_input_fingerprint digest input_data = Inr fp"
  shows "\<exists>sugs. peer_suggest digest config s capability input_data role = Inr sugs \<and>
    sorted_wrt (\<lambda>x y. gsu_confidence y \<le> gsu_confidence x) sugs \<and>
    (\<forall>x \<in> set sugs. 1 / 2 \<le> gsu_confidence x \<and> gsu_confidence x \<le> 1 \<and>
       fp_capability (gsu_fingerprint x) = capability) \<and>
    (\<forall>r. gs_get s (gr_fingerprint r) = Inr (Some r) \<and> fp_capability (gr_fingerprint r) = capability \<longrightarrow>
       gr_fingerprint r \<in> gsu_fingerprint ` set sugs \<and>
       (fp_input (gr_fingerprint r) = fp \<longrightarrow> fp_input (gsu_fingerprint (hd sugs)) = fp))"
proof -
  from peer_suggest_cases [OF assms, of capability role] obtain rs where rs:
    "peer_suggest digest config s capability input_data role =
      Inr (sort_key_desc gsu_confidence (map (record_suggestion fp role) rs))" (is "_ = Inr ?sugs")
    "\<And>r. r \<in> set rs \<longleftrightarrow> gs_get s (gr_fingerprint r) = Inr (Some r) \<and> fp_capability (gr_fingerprint r) = capability"
    by metis
  have exact: "8 / 10 \<le> record_confidence fp role r \<longleftrightarrow> fp_input (gr_fingerprint r) = fp" for r
    by (simp add: record_confidence_def Let_def)
  have hd: "fp_input (gsu_fingerprint (hd ?sugs)) = fp"
    if "r \<in> set rs" "fp_input (gr_fingerprint r) = fp" for r
  proof -
    have "?sugs \<noteq> []" using that(1) by (cases rs) auto
    then obtain y ys where y: "?sugs = y # ys" by (cases ?sugs) blast+
    then have "y \<in> set ?sugs" by simp
    then obtain q where q: "q \<in> set rs" "y = record_suggestion fp role q" by auto
    have "gsu_confidence (record_suggestion fp role r) \<le> gsu_confidence y"
      by (rule sort_key_desc_first_max [OF y]) (use that(1) in simp)
    then have "record_confidence fp role r \<le> record_confidence fp role q"
      unfolding q(2) by (simp add: record_suggestion_def)
    with exact [of r] that(2) have "8 / 10 \<le> record_confidence fp role q" by linarith
    then have "fp_input (gr_fingerprint q) = fp" using exact [of q] by blast
    moreover have "hd ?sugs = record_suggestion fp role q" using y q(2) by simp
    ultimately show ?thesis by (simp add: record_suggestion_def)
  qed
  show ?thesis
  proof (intro exI conjI)
    show "peer_suggest digest config s capability input_data role = Inr ?sugs" by (rule rs(1))
    show "sorted_wrt (\<lambda>x y. gsu_confidence y \<le> gsu_confidence x) ?sugs" by (rule sorted_sort_key_desc)
    show "\<forall>x \<in> set ?sugs. 1 / 2 \<le> gsu_confidence x \<and> gsu_confidence x \<le> 1 \<and>
       fp_capability (gsu_fingerprint x) = capability"
      using rs(2) by (auto simp: record_suggestion_def record_confidence_def Let_def)
    show "\<forall>r. gs_get s (gr_fingerprint r) = Inr (Some r) \<and> fp_capability (gr_fingerprint r) = capability \<longrightarrow>
       gr_fingerprint r \<in> gsu_fingerprint ` set ?sugs \<and>
       (fp_input (gr_fingerprint r) = fp \<longrightarrow> fp_input (gsu_fingerprint (hd ?sugs)) = fp)"
      using rs(2) hd by (auto simp: image_image record_suggestion_def)
  qed
qed

definition demo_record :: "string \<Rightarrow> string \<Rightarrow> guild_record" where
  "demo_record err fp = kb_new_failure_record guild_config_default
     \<lparr>pa_capability = ''http'', pa_role = None, pa_resolution_hint = None, pa_approach_adjustment = None,
      pa_metadata = None\<rparr> 1 1 \<lparr>fp_capability = ''http'', fp_error_type = err, fp_input = fp\<rparr>"

theorem suggest_ranks_exact_match_first_witness:
  "\<exists>sugs. peer_suggest (\<lambda>v. ''d'') (guild_config_default\<lparr>gc_enabled := True\<rparr>)
      (Mem_Guild (mg_save (demo_record ''E'' ''d'') (mg_save (demo_record ''E'' ''c'') mg_init))) ''http'' [] None = Inr sugs \<and>
     fp_input (gsu_fingerprint (hd sugs)) = ''d''"
proof -
  let ?s = "Mem_Guild (mg_save (demo_record ''E'' ''d'') (mg_save (demo_record ''E'' ''c'') mg_init))"
  have "mg_ok mg_init" by (simp add: mg_ok_def mg_init_def)
  then have "gs_ok ?s" by (simp add: mg_ok_save)
  moreover have "gs_get ?s (gr_fingerprint (demo_record ''E'' ''d'')) = Inr (Some (demo_record ''E'' ''d''))"
    by (simp add: mg_get_save)
  moreover have "fp_capability (gr_fingerprint (demo_record ''E'' ''d'')) = ''http''"
    "fp_input (gr_fingerprint (demo_record ''E'' ''d'')) = ''d''"
    by (simp_all add: demo_record_def kb_new_failure_record_def)
  ultimately show ?thesis
    using suggest_ranks_exact_match_first [of ?s "guild_config_default\<lparr>gc_enabled := True\<rparr>"
        "\<lambda>v. ''d''" "[]" "''d''" "''http''" None]
    by (force simp: guild_config_default_def compute_input_fingerprint_def)
qed

section \<open>Fingerprint keys\<close>

lemma split_first: "a @ x # b = a' @ x # b' \<Longrightarrow> x \<notin> set a \<Longrightarrow> x \<notin> set a' \<Longrightarrow> a = a' \<and> b = b'"
  by (induction a arbitrary: a') (case_tac a'; auto)+

text \<open>
  The key of a fingerprint identifies it as long as the capability name and the error type hold
  no colon; with a colon in a capability name two different fingerprints share a key, so their
  records overwrite each other.
\<close>

theorem fingerprint_key_injective:
  "(CHR '':'' \<notin> set (fp_capability f) \<and> CHR '':'' \<notin> set (fp_error_type f) \<and>
    CHR '':'' \<notin> set (fp_capability g) \<and> CHR '':'' \<notin> set (fp_error_type g) \<longrightarrow>
      (fp_to_key f = fp_to_key g) = (f = g)) \<and>
   fp_to_key \<lparr>fp_capability = ''mcp:fs'', fp_error_type = ''E'', fp_input = i\<rparr> =
   fp_to_key \<lparr>fp_capability = ''mcp'', fp_error_type = ''fs'', fp_input = ''E:'' @ i\<rparr>"
proof -
  have "f = g" if "CHR '':'' \<notin> set (fp_capability f)" "CHR '':'' \<notin> set (fp_error_type f)"
    "CHR '':'' \<notin> set (fp_capability g)" "CHR '':'' \<notin> set (fp_error_type g)" "fp_to_key f = fp_to_key g"
  proof -
    have "fp_capability f @ CHR '':'' # (fp_error_type f @ CHR '':'' # fp_input f) =
        fp_capability g @ CHR '':'' # (fp_error_type g @ CHR '':'' # fp_input g)"
      using that(5) by (simp add: fp_to_key_def)
    from split_first [OF this that(1,3)] have c: "fp_capability f = fp_capability g"
      and r: "fp_error_type f @ CHR '':'' # fp_input f = fp_error_type g @ CHR '':'' # fp_input g" by auto
    from split_first [OF r that(2,4)] c show ?thesis by simp
  qed
  then show ?thesis by (auto simp: fp_to_key_def)
qed

theorem fingerprint_key_injective_witness:
  "fp_to_key \<lparr>fp_capability = ''a'', fp_error_type = ''E'', fp_input = ''x''\<rparr> \<noteq>
   fp_to_key \<lparr>fp_capability = ''b'', fp_error_type = ''E'', fp_input = ''x''\<rparr>"
  using fingerprint_key_injective [of "\<lparr>fp_capability = ''a'', fp_error_type = ''E'', fp_input = ''x''\<rparr>"
      "\<lparr>fp_capability = ''b'', fp_error_type = ''E'', fp_input = ''x''\<rparr>" "[]"] by simp

end
