(* ===== verification/Supervisor.thy ===== *)
theory Supervisor
  imports Queues Registry Stores Policies Retries Guild
begin

text \<open>
  \<^verbatim>\<open>engine/supervisor/service.py\<close>: the task supervisor.  What a \<^verbatim>\<open>TaskSupervisor\<close> is built from and
  never changes is the record \<open>supervisor\<close>, together with the outside world it reads (wall clock,
  task ids, the speed of the monotonic clock, whether the event bus raises), each a function of the
  number of the reading.  What its methods change is the record \<open>world\<close>.

  Inside a method the code holds one mutable \<^verbatim>\<open>TaskRecord\<close>; the helpers that mutate it take and
  return the pair of the task and the world.  A method returns \<open>Inl e\<close> when it raises \<open>e\<close>, with the
  world as the exception leaves it: what was saved before stays saved.

  \<open>w_executions\<close> is a log the code does not keep: the task, the capability and the monotonic time of
  every call of a capability's \<^verbatim>\<open>execute\<close>.  \<open>w_events\<close> are the events the bus accepted, \<open>w_sleeps\<close> the
  arguments of \<^verbatim>\<open>time.sleep\<close>.
\<close>

record supervisor =
  sv_registry :: registry
  sv_workdir :: string
  sv_policy :: policy_engine
  sv_retry_strategy :: retry_strategy
  sv_escalation_policy :: "escalation_config option"
  sv_guild_knowledge :: "guild_config option"
  sv_peer_suggestions :: "guild_config option"
  sv_digest :: "pyval \<Rightarrow> string"
  sv_clock :: "nat \<Rightarrow> int"
  sv_uuid :: "nat \<Rightarrow> string"
  sv_drift :: "nat \<Rightarrow> rat"
  sv_bus_raises :: "nat \<Rightarrow> task_event \<Rightarrow> bool"

record world =
  w_store :: mem_store
  w_queue :: task_queue
  w_last_start :: "rat dict"
  w_guild :: guild_store
  w_events :: "task_event list"
  w_emits :: nat
  w_tick :: nat
  w_uuids :: nat
  w_decides :: nat
  w_mono :: rat
  w_mono_reads :: nat
  w_sleeps :: "rat list"
  w_executions :: "(string \<times> string \<times> rat) list"

definition world_init :: "task_queue \<Rightarrow> guild_store \<Rightarrow> world" where
  "world_init queue guild =
     \<lparr>w_store = ms_init, w_queue = queue, w_last_start = [], w_guild = guild, w_events = [], w_emits = 0,
      w_tick = 0, w_uuids = 0, w_decides = 0, w_mono = 0, w_mono_reads = 0, w_sleeps = [],
      w_executions = []\<rparr>"

type_synonym tw = "task_record \<times> world"

section \<open>Clocks\<close>

definition now_utc :: "supervisor \<Rightarrow> world \<Rightarrow> int \<times> world" where
  "now_utc sv w = (sv_clock sv (w_tick w), w\<lparr>w_tick := Suc (w_tick w)\<rparr>)"

text \<open>\<^verbatim>\<open>timestamp or _now()\<close>\<close>

definition or_now :: "supervisor \<Rightarrow> int option \<Rightarrow> world \<Rightarrow> int \<times> world" where
  "or_now sv timestamp w = (case timestamp of Some t \<Rightarrow> (t, w) | None \<Rightarrow> now_utc sv w)"

text \<open>\<^verbatim>\<open>time.monotonic()\<close>: some time may have passed since the last reading.\<close>

definition monotonic :: "supervisor \<Rightarrow> world \<Rightarrow> rat \<times> world" where
  "monotonic sv w =
     (let t = w_mono w + max 0 (sv_drift sv (w_mono_reads w)) in
      (t, w\<lparr>w_mono := t, w_mono_reads := Suc (w_mono_reads w)\<rparr>))"

definition time_sleep :: "rat \<Rightarrow> world \<Rightarrow> world" where
  "time_sleep seconds w = w\<lparr>w_mono := w_mono w + seconds, w_sleeps := w_sleeps w @ [seconds]\<rparr>"

section \<open>Audit, persistence, events\<close>

definition append_audit ::
  "supervisor \<Rightarrow> string \<Rightarrow> string \<Rightarrow> task_status option \<Rightarrow> task_status option \<Rightarrow> pydict \<Rightarrow> int option \<Rightarrow>
   tw \<Rightarrow> tw" where
  "append_audit sv actor action from_status to_status metadata timestamp tw =
     (let (task, w) = tw; (t, w) = or_now sv timestamp w in
      (task\<lparr>task_audit_trail := task_audit_trail task @
         [\<lparr>au_timestamp = t, au_actor = actor, au_action = action, au_from = from_status,
           au_to = to_status, au_metadata = metadata\<rparr>]\<rparr>, w))"

definition save_task :: "supervisor \<Rightarrow> int option \<Rightarrow> tw \<Rightarrow> tw" where
  "save_task sv timestamp tw =
     (let (task, w) = tw; (t, w) = or_now sv timestamp w; task = task\<lparr>task_updated_at := t\<rparr> in
      (task, w\<lparr>w_store := ms_save task (w_store w)\<rparr>))"

definition emit_event ::
  "supervisor \<Rightarrow> event_type \<Rightarrow> string option \<Rightarrow> pydict \<Rightarrow> tw \<Rightarrow> tw" where
  "emit_event sv et err metadata tw =
     (let (task, w) = tw; (t, w) = now_utc sv w;
          event = \<lparr>ev_event_type = et, ev_task_id = task_id task, ev_task_name = task_name task,
                   ev_capability = task_capability task, ev_status = task_status task,
                   ev_attempt = task_attempt task, ev_timestamp = t,
                   ev_workflow_id = task_workflow_id task, ev_error = err, ev_metadata = metadata\<rparr>;
          n = w_emits w; w = w\<lparr>w_emits := Suc n\<rparr>
      in if sv_bus_raises sv n event then (task, w)
         else (task, w\<lparr>w_events := w_events w @ [event]\<rparr>))"

definition transition_status ::
  "supervisor \<Rightarrow> task_status \<Rightarrow> string \<Rightarrow> string \<Rightarrow> event_type \<Rightarrow> pydict \<Rightarrow> string option \<Rightarrow> int option \<Rightarrow>
   tw \<Rightarrow> tw" where
  "transition_status sv to_status actor action et metadata err timestamp tw =
     (let (task, w) = tw;
          (transition_time, w) = or_now sv timestamp w;
          previous_status = task_status task;
          task = task\<lparr>task_status := to_status\<rparr>
      in emit_event sv et err metadata
           (save_task sv (Some transition_time)
             (append_audit sv actor action (Some previous_status) (Some to_status) metadata
               (Some transition_time) (task, w))))"

section \<open>Submission\<close>

definition build_submission :: "task_record \<Rightarrow> task_submission" where
  "build_submission task =
     \<lparr>sub_name = task_name task, sub_capability = task_capability task, sub_input = task_input task,
      sub_metadata = task_metadata task, sub_max_retries = task_max_retries task,
      sub_workflow_id = task_workflow_id task\<rparr>"

definition create_task_record ::
  "supervisor \<Rightarrow> task_submission \<Rightarrow> bool \<Rightarrow> world \<Rightarrow> (exc + task_record) \<times> world" where
  "create_task_record sv submission enqueue w =
     (case validate_task_submission submission (sv_registry sv) of
        Inl e \<Rightarrow> (Inl e, w)
      | Inr capability \<Rightarrow>
          let tid = sv_uuid sv (w_uuids w);
              w = w\<lparr>w_uuids := Suc (w_uuids w)\<rparr>;
              (created_at, w) = now_utc sv w;
              (updated_at, w) = now_utc sv w;
              task = (new_task_record tid (sub_name submission) (sub_capability submission) created_at)
                \<lparr>task_input := sub_input submission, task_metadata := sub_metadata submission,
                 task_max_retries := sub_max_retries submission,
                 task_workflow_id := sub_workflow_id submission, task_updated_at := updated_at\<rparr>;
              (task, w) = append_audit sv ''supervisor'' ''submitted'' None (Some PENDING)
                [(''max_retries'', PInt (task_max_retries task))] (Some (task_created_at task)) (task, w);
              w = w\<lparr>w_store := ms_save task (w_store w)\<rparr>
          in if enqueue
             then (case tq_enqueue (task_id task) (w_queue w) of
                     Inl e \<Rightarrow> (Inl e, w)
                   | Inr q \<Rightarrow> (Inr task, w\<lparr>w_queue := q\<rparr>))
             else (Inr task, w))"

definition get_task :: "world \<Rightarrow> string \<Rightarrow> exc + task_record" where
  "get_task w tid = (case ms_get (w_store w) tid of
       None \<Rightarrow> Inl (Value_Error (''Task '' @ quote1 @ tid @ quote1 @ '' was not found''))
     | Some task \<Rightarrow> Inr task)"

definition submit :: "supervisor \<Rightarrow> task_submission \<Rightarrow> world \<Rightarrow> (exc + task_record) \<times> world" where
  "submit sv submission w = create_task_record sv submission True w"

section \<open>Policy\<close>

definition apply_policy :: "supervisor \<Rightarrow> policy_decision \<Rightarrow> tw \<Rightarrow> tw" where
  "apply_policy sv decision tw =
     (let policy_metadata = pd_metadata decision;
          policy_metadata = (case pd_reason decision of None \<Rightarrow> policy_metadata
            | Some reason \<Rightarrow> dsetdefault ''reason'' (PStr reason) policy_metadata);
          policy_metadata = dset ''policy_engine'' (PStr (policy_type_name (sv_policy sv))) policy_metadata;
          policy_metadata = dset ''decision_type'' (PStr (decision_value (pd_decision decision))) policy_metadata
      in case pd_decision decision of
        DENY \<Rightarrow>
          (let (task, w) = tw; (denied_at, w) = now_utc sv w;
               err = opt_or (pd_reason decision) ''Task denied by policy'';
               task = task\<lparr>task_result := Some
                 \<lparr>res_success = False, res_output = PNone, res_error = Some err, res_metadata = policy_metadata,
                  res_started_at = None, res_completed_at = Some denied_at\<rparr>\<rparr>
           in transition_status sv POLICY_DENIED ''policy'' ''denied'' TASK_POLICY_DENIED policy_metadata
                (Some err) (Some denied_at) (task, w))
      | REQUIRE_APPROVAL \<Rightarrow>
          transition_status sv AWAITING_APPROVAL ''policy'' ''awaiting_approval'' TASK_AWAITING_APPROVAL
            policy_metadata None None tw
      | ALLOW \<Rightarrow>
          save_task sv None
            (append_audit sv ''policy'' ''allowed'' (Some PENDING) (Some PENDING) policy_metadata None tw))"

section \<open>Escalation\<close>

definition guild_enabled :: "guild_config option \<Rightarrow> bool" where
  "guild_enabled config \<longleftrightarrow> (case config of None \<Rightarrow> False | Some c \<Rightarrow> gc_enabled c)"

definition hint_escalated :: string where
  "hint_escalated = ''Escalated '' @ em_dash @ '' no further retries attempted''"

definition hint_failed :: string where
  "hint_failed = ''All retries exhausted '' @ em_dash @ '' task failed''"

text \<open>\<^verbatim>\<open>self._guild_knowledge.publish(...)\<close> when the guild is there and enabled.\<close>

definition guild_publish ::
  "supervisor \<Rightarrow> string \<Rightarrow> failure_context list \<Rightarrow> string \<Rightarrow> world \<Rightarrow> (exc + unit) \<times> world" where
  "guild_publish sv capability history hint w =
     (case sv_guild_knowledge sv of
        None \<Rightarrow> (Inr (), w)
      | Some config \<Rightarrow>
          if \<not> gc_enabled config then (Inr (), w)
          else case kb_publish (sv_clock sv) (sv_digest sv) config
              \<lparr>pa_capability = capability, pa_role = None, pa_resolution_hint = Some hint,
               pa_approach_adjustment = None, pa_metadata = None\<rparr> history (w_tick w) (w_guild w) of
            (r, n, g) \<Rightarrow> (map_sum id (\<lambda>_. ()) r, w\<lparr>w_tick := n, w_guild := g\<rparr>))"

definition guild_publish_success ::
  "supervisor \<Rightarrow> string \<Rightarrow> pydict \<Rightarrow> world \<Rightarrow> (exc + unit) \<times> world" where
  "guild_publish_success sv capability input_data w =
     (case sv_guild_knowledge sv of
        None \<Rightarrow> (Inr (), w)
      | Some config \<Rightarrow>
          if \<not> gc_enabled config then (Inr (), w)
          else case kb_publish_success (sv_clock sv) (sv_digest sv) config capability input_data None None
              (w_tick w) (w_guild w) of
            (r, n, g) \<Rightarrow> (map_sum id (\<lambda>_. ()) r, w\<lparr>w_tick := n, w_guild := g\<rparr>))"

text \<open>\<^verbatim>\<open>_do_escalate\<close>: the task as the call leaves it, and whether publishing raised.\<close>

definition do_escalate ::
  "supervisor \<Rightarrow> failure_context list \<Rightarrow> int \<Rightarrow> exc \<Rightarrow> string option \<Rightarrow> tw \<Rightarrow> (exc + unit) \<times> tw" where
  "do_escalate sv history started_at e reason tw =
     (let (task, w) = tw;
          (escalated_at, w) = now_utc sv w;
          (result_metadata, w) = (case sv_escalation_policy sv of
              Some config \<Rightarrow>
                (let (t, w) = now_utc sv w in
                 ([(''escalation_record'', PDict (escalation_dump (tp_build_record config t task history)))], w))
            | None \<Rightarrow> (case reason of None \<Rightarrow> ([], w) | Some r \<Rightarrow> ([(''escalation_reason'', PStr r)], w)));
          task = task\<lparr>task_result := Some
            \<lparr>res_success = False, res_output = PNone, res_error = Some (exc_str e),
             res_metadata = result_metadata, res_started_at = Some started_at,
             res_completed_at = Some escalated_at\<rparr>\<rparr>;
          (task, w) = transition_status sv ESCALATED ''supervisor'' ''escalated'' TASK_ESCALATED
            [(''attempt'', PInt (task_attempt task)), (''total_failures'', PInt (int (length history)))]
            (Some (exc_str e)) (Some escalated_at) (task, w);
          (r, w) = guild_publish sv (task_capability task) history hint_escalated w
      in (r, task, w))"

section \<open>Execution\<close>

definition timeout_message :: "rat \<Rightarrow> string" where
  "timeout_message t = ''Capability execution exceeded '' @ fmt_fixed 2 t @
     ''s soft timeout; work may continue in the background''"

text \<open>\<^verbatim>\<open>_execute_with_timeout\<close> around \<^verbatim>\<open>capability.execute\<close>: without a timeout the call takes its
  time; with one, a call that is not back in time is abandoned.\<close>

definition execute_with_timeout ::
  "capability \<Rightarrow> pyval \<Rightarrow> cap_context \<Rightarrow> rat option \<Rightarrow> world \<Rightarrow> (exc + cap_result) \<times> world" where
  "execute_with_timeout capability payload context timeout_seconds w =
     (let (elapsed, outcome) = cap_execute capability (length (w_executions w)) payload context;
          w = w\<lparr>w_executions := w_executions w @
            [(cc_task_id context, cd_name (cap_descriptor capability), w_mono w)]\<rparr>
      in case timeout_seconds of
        None \<Rightarrow> (outcome, w\<lparr>w_mono := w_mono w + max 0 elapsed\<rparr>)
      | Some t \<Rightarrow>
          if elapsed > max 0 t
          then (Inl (Timeout_Error (timeout_message t)), w\<lparr>w_mono := w_mono w + max 0 t\<rparr>)
          else (outcome, w\<lparr>w_mono := w_mono w + max 0 elapsed\<rparr>))"

definition wait_for_execution_window :: "supervisor \<Rightarrow> string \<Rightarrow> world \<Rightarrow> (exc + unit) \<times> world" where
  "wait_for_execution_window sv name w =
     (case reg_execution_controls_of (sv_registry sv) name of
        Inl e \<Rightarrow> (Inl e, w)
      | Inr controls \<Rightarrow> (case ec_min_interval_seconds controls of
          None \<Rightarrow> (Inr (), w)
        | Some min_interval_seconds \<Rightarrow>
            let (now, w) = monotonic sv w;
                (now, w) = (case dget (w_last_start w) name of
                    None \<Rightarrow> (now, w)
                  | Some previous_start \<Rightarrow>
                      (let sleep_for = min_interval_seconds - (now - previous_start) in
                       if sleep_for > 0 then monotonic sv (time_sleep sleep_for w) else (now, w)))
            in (Inr (), w\<lparr>w_last_start := dset name now (w_last_start w)\<rparr>)))"

text \<open>The body of the \<^verbatim>\<open>try\<close>: one attempt.  \<open>None\<close> is the \<^verbatim>\<open>break\<close>, \<open>Some e\<close> what was raised; the
  task is returned in both cases, since the handler sees what the body changed.\<close>

definition run_attempt ::
  "supervisor \<Rightarrow> capability \<Rightarrow> exec_controls \<Rightarrow> int \<Rightarrow> tw \<Rightarrow> exc option \<times> tw" where
  "run_attempt sv capability controls started_at tw =
     (let (task, w) = tw in
      case cap_validate_input capability (task_input task) of
        Inl e \<Rightarrow> (Some e, task, w)
      | Inr payload \<Rightarrow>
          (case execute_with_timeout capability payload
              \<lparr>cc_task_id = task_id task, cc_task_name = task_name task, cc_workdir = sv_workdir sv\<rparr>
              (ec_timeout_seconds controls) w of
            (Inl e, w) \<Rightarrow> (Some e, task, w)
          | (Inr result, w) \<Rightarrow>
              let (completed_at, w) = now_utc sv w;
                  task = task\<lparr>task_result := Some
                    \<lparr>res_success = True, res_output = cr_output result, res_error = None,
                     res_metadata = cr_metadata result, res_started_at = Some started_at,
                     res_completed_at = Some completed_at\<rparr>\<rparr>;
                  (task, w) = transition_status sv COMPLETED ''supervisor'' ''completed'' TASK_COMPLETED
                    [(''attempt'', PInt (task_attempt task))] None (Some completed_at) (task, w);
                  (r, w) = guild_publish_success sv (task_capability task) (task_input task) w
              in (case r of Inl e \<Rightarrow> Some e | Inr _ \<Rightarrow> None, task, w)))"

section \<open>Failure handling\<close>

definition should_escalate :: "supervisor \<Rightarrow> failure_context list \<Rightarrow> bool" where
  "should_escalate sv history \<longleftrightarrow> (case sv_escalation_policy sv of
       None \<Rightarrow> False | Some config \<Rightarrow> tp_should_escalate config history)"

definition failure_of :: "task_record \<Rightarrow> exc \<Rightarrow> string \<Rightarrow> failure_context" where
  "failure_of task e input_fingerprint =
     \<lparr>fc_task_id = task_id task, fc_capability = task_capability task, fc_attempt = task_attempt task,
      fc_max_retries = task_max_retries task, fc_error_type = exc_type e, fc_error_message = exc_str e,
      fc_input_fingerprint = Some input_fingerprint, fc_metadata = []\<rparr>"

text \<open>The handler of the loop: it raises, leaves the loop (with \<^verbatim>\<open>last_exc\<close>), or goes round again.\<close>

datatype loop_next = Raised exc | Leave "exc option" | Again

definition retry_metadata_of :: "task_record \<Rightarrow> exc \<Rightarrow> retry_decision \<Rightarrow> pydict" where
  "retry_metadata_of task e decision =
     [(''attempt'', PInt (task_attempt task)), (''previous_attempt'', PInt (task_attempt task - 1)),
      (''max_retries'', PInt (task_max_retries task)), (''error'', PStr (exc_str e)),
      (''retry_reason'', opt_str (rd_reason decision))] @
     (if rd_adjusted_input decision \<noteq> None then [(''input_adjusted'', PBool True)] else [])"

definition retry_or_escalate ::
  "supervisor \<Rightarrow> int \<Rightarrow> failure_context list \<Rightarrow> exc \<Rightarrow> retry_decision \<Rightarrow> tw \<Rightarrow> loop_next \<times> tw" where
  "retry_or_escalate sv started_at history e decision tw =
     (if \<not> rd_should_retry decision
      then
        if rd_escalate decision \<or> should_escalate sv history
        then (case do_escalate sv history started_at e
                  (if rd_escalate decision then rd_reason decision else None) tw of
                (Inl e', tw) \<Rightarrow> (Raised e', tw) | (Inr _, tw) \<Rightarrow> (Leave None, tw))
        else (Leave (Some e), tw)
      else
        let (task, w) = tw;
            task = task\<lparr>task_attempt := task_attempt task + 1\<rparr>;
            task = (case rd_adjusted_input decision of None \<Rightarrow> task | Some i \<Rightarrow> task\<lparr>task_input := i\<rparr>)
        in
        if should_escalate sv history
        then (case do_escalate sv history started_at e None (task, w) of
                (Inl e', tw) \<Rightarrow> (Raised e', tw) | (Inr _, tw) \<Rightarrow> (Leave None, tw))
        else
          let retry_metadata = retry_metadata_of task e decision;
              (task, w) = emit_event sv TASK_RETRY (Some (exc_str e)) retry_metadata
                (save_task sv None
                  (append_audit sv ''supervisor'' ''retry'' (Some RUNNING) (Some RUNNING) retry_metadata None
                    (task, w)));
              w = (case rd_delay_seconds decision of
                     None \<Rightarrow> w | Some delay \<Rightarrow> if delay > 0 then time_sleep delay w else w)
          in (Again, task, w))"

definition handle_failure ::
  "supervisor \<Rightarrow> int \<Rightarrow> failure_context list \<Rightarrow> exc \<Rightarrow> tw \<Rightarrow> loop_next \<times> failure_context list \<times> tw" where
  "handle_failure sv started_at history e tw =
     (let (task, w) = tw in
      case compute_input_fingerprint (sv_digest sv) (task_input task) of
        Inl e' \<Rightarrow> (Raised e', history, tw)
      | Inr input_fingerprint \<Rightarrow>
          let failure = failure_of task e input_fingerprint;
              history = history @ [failure];
              (task, w) = save_task sv None
                (append_audit sv ''supervisor'' ''failure_recorded'' None None (failure_dump failure) None (task, w));
              n = w_decides w;
              w = w\<lparr>w_decides := Suc n\<rparr>
          in case retry_decide (sv_retry_strategy sv) n failure of
               Inl e' \<Rightarrow> (Raised e', history, task, w)
             | Inr decision \<Rightarrow>
                 (let (next, tw) = retry_or_escalate sv started_at history e decision (task, w) in
                  (next, history, tw)))"

section \<open>The execution loop\<close>

text \<open>The fields the helpers never touch, which the loop's termination rests on.\<close>

lemma append_audit_task [simp]:
  "task_attempt (fst (append_audit sv a b f t m ts tw)) = task_attempt (fst tw)"
  "task_max_retries (fst (append_audit sv a b f t m ts tw)) = task_max_retries (fst tw)"
  by (auto simp: append_audit_def or_now_def now_utc_def Let_def split: prod.splits option.splits)

lemma save_task_task [simp]:
  "task_attempt (fst (save_task sv ts tw)) = task_attempt (fst tw)"
  "task_max_retries (fst (save_task sv ts tw)) = task_max_retries (fst tw)"
  by (auto simp: save_task_def or_now_def now_utc_def Let_def split: prod.splits option.splits)

lemma emit_event_task [simp]: "fst (emit_event sv et err m tw) = fst tw"
  by (auto simp: emit_event_def now_utc_def Let_def split: prod.splits)

lemma transition_task [simp]:
  "task_attempt (fst (transition_status sv st a b et m err ts tw)) = task_attempt (fst tw)"
  "task_max_retries (fst (transition_status sv st a b et m err ts tw)) = task_max_retries (fst tw)"
  by (auto simp: transition_status_def Let_def split: prod.splits)

lemma run_attempt_task:
  "run_attempt sv c ec t tw = (r, tw') \<Longrightarrow>
   task_attempt (fst tw') = task_attempt (fst tw) \<and> task_max_retries (fst tw') = task_max_retries (fst tw)"
  by (auto simp: run_attempt_def now_utc_def Let_def split: prod.splits sum.splits
      dest!: arg_cong [where f = fst])

lemma do_escalate_task:
  "do_escalate sv h t e rs tw = (r, tw') \<Longrightarrow>
   task_attempt (fst tw') = task_attempt (fst tw) \<and> task_max_retries (fst tw') = task_max_retries (fst tw)"
  by (auto simp: do_escalate_def now_utc_def Let_def split: prod.splits option.splits
      dest!: arg_cong [where f = fst])

lemma retry_or_escalate_again:
  "retry_or_escalate sv t h e d tw = (Again, tw') \<Longrightarrow>
   rd_should_retry d \<and> task_attempt (fst tw') = task_attempt (fst tw) + 1 \<and>
   task_max_retries (fst tw') = task_max_retries (fst tw)"
  by (auto simp: retry_or_escalate_def Let_def split: prod.splits option.splits if_splits sum.splits
      dest!: arg_cong [where f = fst])

lemma handle_failure_again:
  assumes "handle_failure sv t h e tw = (Again, h', tw')"
  shows "task_attempt (fst tw') = task_attempt (fst tw) + 1"
    and "task_max_retries (fst tw') = task_max_retries (fst tw)"
    and "task_attempt (fst tw) \<le> task_max_retries (fst tw)"
proof -
  obtain task w where tw: "tw = (task, w)" by fastforce
  obtain fp where fp: "compute_input_fingerprint (sv_digest sv) (task_input task) = Inr fp"
    using assms by (auto simp: handle_failure_def tw split: sum.splits)
  let ?f = "failure_of task e fp"
  obtain task1 w1 where s: "save_task sv None (append_audit sv ''supervisor'' ''failure_recorded'' None None
      (failure_dump ?f) None (task, w)) = (task1, w1)" by fastforce
  obtain d where d: "retry_decide (sv_retry_strategy sv) (w_decides w1) ?f = Inr d"
    and step: "retry_or_escalate sv t h' e d (task1, w1\<lparr>w_decides := Suc (w_decides w1)\<rparr>) = (Again, tw')"
    using assms by (auto simp: handle_failure_def tw fp s Let_def split: sum.splits prod.splits)
  have same: "task_attempt task1 = task_attempt task" "task_max_retries task1 = task_max_retries task"
    using arg_cong [OF s, of fst]
    by (simp_all flip: save_task_task append_audit_task) (metis append_audit_task fst_conv save_task_task)+
  from retry_or_escalate_again [OF step] same
  show "task_attempt (fst tw') = task_attempt (fst tw) + 1"
    and "task_max_retries (fst tw') = task_max_retries (fst tw)"
    by (simp_all add: tw)
  from retry_decide_retry_iff [OF d] retry_or_escalate_again [OF step]
  show "task_attempt (fst tw) \<le> task_max_retries (fst tw)"
    by (simp add: tw failure_of_def)
qed

function run_loop ::
  "supervisor \<Rightarrow> capability \<Rightarrow> exec_controls \<Rightarrow> int \<Rightarrow> failure_context list \<Rightarrow> tw \<Rightarrow>
   (exc + exc option) \<times> failure_context list \<times> tw" where
  "run_loop sv capability controls started_at history tw =
     (case run_attempt sv capability controls started_at tw of
        (None, tw) \<Rightarrow> (Inr None, history, tw)
      | (Some e, tw) \<Rightarrow>
          if \<not> is_exception e then (Inl e, history, tw)
          else (case handle_failure sv started_at history e tw of
              (Raised e', history, tw) \<Rightarrow> (Inl e', history, tw)
            | (Leave last_exc, history, tw) \<Rightarrow> (Inr last_exc, history, tw)
            | (Again, history, tw) \<Rightarrow> run_loop sv capability controls started_at history tw))"
  by pat_completeness auto

termination
proof (relation "measure (\<lambda>(sv, c, ec, t, h, tw). nat (task_max_retries (fst tw) + 1 - task_attempt (fst tw)))")
  show "wf (measure (\<lambda>(sv, c, ec, t, h, tw). nat (task_max_retries (fst tw) + 1 - task_attempt (fst tw))))"
    by simp
next
  fix sv capability controls started_at history and tw tw1 tw2 :: tw and p q :: "exc option \<times> tw"
    and r e n h2 q2
  assume a: "(r, tw1) = run_attempt sv capability controls started_at tw" "r = Some e"
    "(n, q2) = handle_failure sv started_at history e tw1" "n = Again" "(h2, tw2) = q2"
  have h: "handle_failure sv started_at history e tw1 = (Again, h2, tw2)"
    using a(3-5) by simp
  from run_attempt_task [OF a(1) [symmetric]] handle_failure_again [OF h]
  show "((sv, capability, controls, started_at, h2, tw2), sv, capability, controls, started_at, history, tw)
      \<in> measure (\<lambda>(sv, c, ec, t, h, tw). nat (task_max_retries (fst tw) + 1 - task_attempt (fst tw)))"
    by simp
qed

declare run_loop.simps [simp del]

section \<open>Running a task\<close>

text \<open>After the loop: publish what failed and mark the task \<^verbatim>\<open>FAILED\<close>.\<close>

definition finish_run ::
  "supervisor \<Rightarrow> int \<Rightarrow> exc option \<Rightarrow> failure_context list \<Rightarrow> tw \<Rightarrow> (exc + task_record) \<times> world" where
  "finish_run sv started_at last_exc history tw =
     (let (task, w) = tw in
      case last_exc of
        None \<Rightarrow> (Inr task, w)
      | Some e \<Rightarrow> (case guild_publish sv (task_capability task) history hint_failed w of
          (Inl e', w) \<Rightarrow> (Inl e', w)
        | (Inr _, w) \<Rightarrow>
            let (failed_at, w) = now_utc sv w;
                task = task\<lparr>task_result := Some
                  \<lparr>res_success = False, res_output = PNone, res_error = Some (exc_str e), res_metadata = [],
                   res_started_at = Some started_at, res_completed_at = Some failed_at\<rparr>\<rparr>;
                (task, w) = transition_status sv FAILED ''supervisor'' ''failed'' TASK_FAILED
                  [(''attempt'', PInt (task_attempt task))] (Some (exc_str e)) (Some failed_at) (task, w)
            in (Inr task, w)))"

definition suggestion_metadata :: "guild_suggestion \<Rightarrow> pydict" where
  "suggestion_metadata best =
     [(''fingerprint'', PStr (fp_to_key (gsu_fingerprint best))), (''confidence'', PFloat (gsu_confidence best)),
      (''resolution_hint'', opt_str (gsu_resolution_hint best)),
      (''source_role'', opt_str (gsu_source_role best)), (''source_project'', opt_str (gsu_source_project best))]"

definition apply_suggestion :: "supervisor \<Rightarrow> tw \<Rightarrow> (exc + unit) \<times> tw" where
  "apply_suggestion sv tw =
     (let (task, w) = tw in
      case sv_peer_suggestions sv of
        None \<Rightarrow> (Inr (), tw)
      | Some config \<Rightarrow>
          if \<not> gc_enabled config then (Inr (), tw)
          else case peer_suggest (sv_digest sv) config (w_guild w) (task_capability task) (task_input task) None of
            Inl e \<Rightarrow> (Inl e, tw)
          | Inr [] \<Rightarrow> (Inr (), tw)
          | Inr (best # rest) \<Rightarrow>
              let task = (if gsu_approach_adjustment best \<noteq> []
                          then task\<lparr>task_input := dupdate (task_input task) (gsu_approach_adjustment best)\<rparr>
                          else task)
              in (Inr (), save_task sv None
                   (append_audit sv ''guild'' ''peer_suggestion_applied'' None None (suggestion_metadata best) None
                     (task, w))))"

text \<open>From the suggestions on: wait for the window, mark the task \<^verbatim>\<open>RUNNING\<close>, loop, finish.\<close>

definition execute_task :: "supervisor \<Rightarrow> capability \<Rightarrow> tw \<Rightarrow> (exc + task_record) \<times> world" where
  "execute_task sv capability tw =
     (case apply_suggestion sv tw of
        (Inl e, tw) \<Rightarrow> (Inl e, snd tw)
      | (Inr _, task, w) \<Rightarrow>
         (case reg_execution_controls_of (sv_registry sv) (task_capability task) of
            Inl e \<Rightarrow> (Inl e, w)
          | Inr controls \<Rightarrow>
             (case wait_for_execution_window sv (task_capability task) w of
                (Inl e, w) \<Rightarrow> (Inl e, w)
              | (Inr _, w) \<Rightarrow>
                  let (started_at, w) = now_utc sv w;
                      task = task\<lparr>task_attempt := task_attempt task + 1\<rparr>;
                      (task, w) = transition_status sv RUNNING ''supervisor'' ''started'' TASK_STARTED
                        [(''attempt'', PInt (task_attempt task)), (''max_retries'', PInt (task_max_retries task))]
                        None (Some started_at) (task, w)
                  in (case run_loop sv capability controls started_at [] (task, w) of
                        (Inl e, history, task, w) \<Rightarrow> (Inl e, w)
                      | (Inr last_exc, history, task, w) \<Rightarrow>
                          finish_run sv started_at last_exc history (task, w)))))"

definition executable_status :: "task_status \<Rightarrow> bool" where
  "executable_status s \<longleftrightarrow> s = PENDING \<or> s = APPROVED"

definition run_task :: "supervisor \<Rightarrow> string \<Rightarrow> world \<Rightarrow> (exc + task_record) \<times> world" where
  "run_task sv tid w =
     (case get_task w tid of
        Inl e \<Rightarrow> (Inl e, w)
      | Inr task \<Rightarrow>
          if \<not> executable_status (task_status task) then (Inr task, w)
          else case validate_task_submission (build_submission task) (sv_registry sv) of
            Inl e \<Rightarrow> (Inl e, w)
          | Inr capability \<Rightarrow>
              if task_status task = PENDING
              then
                if cd_require_approval (cap_descriptor capability)
                then (let (task, w) = transition_status sv AWAITING_APPROVAL ''supervisor'' ''awaiting_approval''
                        TASK_AWAITING_APPROVAL
                        [(''reason'', PStr ''capability requires approval''),
                         (''capability'', PStr (task_capability task))] None None (task, w)
                      in (Inr task, w))
                else case policy_evaluate (sv_policy sv) task
                    \<lparr>pc_capability = cap_descriptor capability, pc_workdir = sv_workdir sv\<rparr> of
                  Inl e \<Rightarrow> (Inl e, w)
                | Inr decision \<Rightarrow>
                    (let (task, w) = apply_policy sv decision (task, w) in
                     if task_status task \<noteq> PENDING then (Inr task, w)
                     else execute_task sv capability (task, w))
              else execute_task sv capability (task, w))"

definition run_submission :: "supervisor \<Rightarrow> task_submission \<Rightarrow> world \<Rightarrow> (exc + task_record) \<times> world" where
  "run_submission sv submission w =
     (case create_task_record sv submission False w of
        (Inl e, w) \<Rightarrow> (Inl e, w)
      | (Inr task, w) \<Rightarrow> run_task sv (task_id task) w)"

definition run_next :: "supervisor \<Rightarrow> world \<Rightarrow> (exc + task_record) \<times> world" where
  "run_next sv w =
     (case tq_dequeue (w_queue w) of
        (None, q) \<Rightarrow> (Inl (Value_Error ''No queued tasks are available''), w\<lparr>w_queue := q\<rparr>)
      | (Some tid, q) \<Rightarrow> run_task sv tid (w\<lparr>w_queue := q\<rparr>))"

section \<open>Approval, cancellation, listing, health\<close>

definition approve_task ::
  "supervisor \<Rightarrow> string \<Rightarrow> string \<Rightarrow> pydict option \<Rightarrow> bool \<Rightarrow> world \<Rightarrow> (exc + task_record) \<times> world" where
  "approve_task sv tid actor metadata run w =
     (case get_task w tid of
        Inl e \<Rightarrow> (Inl e, w)
      | Inr task \<Rightarrow>
          if task_status task \<noteq> AWAITING_APPROVAL
          then (Inl (Value_Error (''Task '' @ quote1 @ tid @ quote1 @ '' is not awaiting approval'')), w)
          else
            let (approved, w) = transition_status sv APPROVED actor ''approved'' TASK_APPROVED
                  (empty_if_none metadata) None None (task, w)
            in if \<not> run
               then (case tq_enqueue tid (w_queue w) of
                       Inl e \<Rightarrow> (Inl e, w) | Inr q \<Rightarrow> (Inr approved, w\<lparr>w_queue := q\<rparr>))
               else run_task sv tid w)"

definition cancel_task ::
  "supervisor \<Rightarrow> string \<Rightarrow> string \<Rightarrow> string option \<Rightarrow> pydict option \<Rightarrow> world \<Rightarrow> (exc + task_record) \<times> world" where
  "cancel_task sv tid actor reason metadata w =
     (case get_task w tid of
        Inl e \<Rightarrow> (Inl e, w)
      | Inr task \<Rightarrow>
          if task_status task \<noteq> AWAITING_APPROVAL
          then (Inl (Value_Error (''Task '' @ quote1 @ tid @ quote1 @ '' cannot be cancelled from status '' @
                  quote1 @ status_value (task_status task) @ quote1)), w)
          else
            let cancellation_metadata = (case reason of None \<Rightarrow> empty_if_none metadata
                  | Some r \<Rightarrow> dsetdefault ''reason'' (PStr r) (empty_if_none metadata));
                (cancelled_at, w) = now_utc sv w;
                err = opt_or reason ''Task cancelled'';
                task = task\<lparr>task_result := Some
                  \<lparr>res_success = False, res_output = PNone, res_error = Some err,
                   res_metadata = cancellation_metadata, res_started_at = None,
                   res_completed_at = Some cancelled_at\<rparr>\<rparr>;
                (task, w) = transition_status sv CANCELLED actor ''cancelled'' TASK_CANCELLED
                  cancellation_metadata (Some err) (Some cancelled_at) (task, w)
            in (Inr task, w))"

definition list_tasks :: "world \<Rightarrow> int option \<Rightarrow> int \<Rightarrow> string option \<Rightarrow> task_record list" where
  "list_tasks w limit offset status = ms_list (w_store w) limit offset status"

text \<open>What the file system says of the working directory decides the supervisor's own health.\<close>

definition supervisor_health_check :: "bool \<Rightarrow> bool \<Rightarrow> supervisor \<Rightarrow> string list" where
  "supervisor_health_check exists is_dir sv =
     (if \<not> exists then [''supervisor: workdir '' @ quote1 @ sv_workdir sv @ quote1 @ '' does not exist'']
      else if \<not> is_dir then [''supervisor: workdir '' @ quote1 @ sv_workdir sv @ quote1 @ '' is not a directory'']
      else [])"

end
