(* ===== verification/Supervisor_Frame.thy ===== *)
theory Supervisor_Frame
  imports Supervisor Guild_Proofs
begin

text \<open>
  What one supervisor operation can touch.  \<open>run_frame\<close> relates the task and world before and
  after any step of a run: the identity of the task, every other stored task, the queue and the id
  counter stay; the stored copy is left alone or replaced by one with a longer trail; the audit trail, the events and the execution log only grow, and only for this
  task.  It is reflexive and transitive, and every helper and handler of the supervisor satisfies it.
\<close>

definition run_frame :: "tw \<Rightarrow> tw \<Rightarrow> bool" where
  "run_frame tw tw' \<longleftrightarrow> (case (tw, tw') of ((t, w), (t', w')) \<Rightarrow>
     task_id t' = task_id t \<and> task_name t' = task_name t \<and> task_capability t' = task_capability t \<and>
     task_max_retries t' = task_max_retries t \<and> task_workflow_id t' = task_workflow_id t \<and>
     task_metadata t' = task_metadata t \<and> task_created_at t' = task_created_at t \<and>
     task_attempt t \<le> task_attempt t' \<and>
     (\<exists>es. task_audit_trail t' = task_audit_trail t @ es) \<and>
     w_queue w' = w_queue w \<and> w_uuids w' = w_uuids w \<and>
     (\<forall>k. k \<noteq> task_id t \<longrightarrow> ms_get (w_store w') k = ms_get (w_store w) k) \<and>
     (ms_get (w_store w') (task_id t) = ms_get (w_store w) (task_id t) \<or>
       (\<exists>t0 es. ms_get (w_store w') (task_id t) = Some t0 \<and> task_audit_trail t0 = task_audit_trail t @ es)) \<and>
     (ms_ok (w_store w) \<longrightarrow> ms_ok (w_store w')) \<and>
     (gs_ok (w_guild w) \<longrightarrow> gs_ok (w_guild w')) \<and>
     (\<exists>es. w_events w' = w_events w @ es \<and> (\<forall>e \<in> set es. ev_task_id e = task_id t)) \<and>
     (\<exists>xs. w_executions w' = w_executions w @ xs \<and> (\<forall>x \<in> set xs. fst x = task_id t)) \<and>
     w_mono w \<le> w_mono w')"

lemma run_frame_refl [simp, intro]: "run_frame tw tw"
  by (cases tw) (simp add: run_frame_def)

lemma run_frame_trans:
  assumes "run_frame a b" and "run_frame b c"
  shows "run_frame a c"
proof -
  obtain t1 w1 t2 w2 t3 w3 where abc: "a = (t1, w1)" "b = (t2, w2)" "c = (t3, w3)"
    by (cases a, cases b, cases c) auto
  have "\<exists>es. task_audit_trail t3 = task_audit_trail t1 @ es"
    using assms by (auto simp: run_frame_def abc)
  moreover have "\<exists>es. w_events w3 = w_events w1 @ es \<and> (\<forall>e \<in> set es. ev_task_id e = task_id t1)"
    using assms by (fastforce simp: run_frame_def abc)
  moreover have "\<exists>xs. w_executions w3 = w_executions w1 @ xs \<and> (\<forall>x \<in> set xs. fst x = task_id t1)"
    using assms by (fastforce simp: run_frame_def abc)
  moreover have "ms_get (w_store w3) (task_id t1) = ms_get (w_store w1) (task_id t1) \<or>
      (\<exists>t0 es. ms_get (w_store w3) (task_id t1) = Some t0 \<and> task_audit_trail t0 = task_audit_trail t1 @ es)"
    using assms by (auto simp: run_frame_def abc)
  ultimately show ?thesis
    using assms by (simp add: run_frame_def abc)
qed

text \<open>Updates of the task's other fields, of the ticks and of the last starts are within the frame.\<close>

lemma run_frame_task:
  "run_frame (t, w) (t\<lparr>task_status := s\<rparr>, w)"
  "run_frame (t, w) (t\<lparr>task_result := r\<rparr>, w)"
  "run_frame (t, w) (t\<lparr>task_input := i\<rparr>, w)"
  "run_frame (t, w) (t\<lparr>task_updated_at := u\<rparr>, w)"
  "run_frame (t, w) (t\<lparr>task_audit_trail := task_audit_trail t @ es\<rparr>, w)"
  "run_frame (t, w) (t\<lparr>task_attempt := task_attempt t + 1\<rparr>, w)"
  by (simp_all add: run_frame_def)

lemma run_frame_world:
  "run_frame (t, w) (t, w\<lparr>w_tick := n\<rparr>)"
  "run_frame (t, w) (t, w\<lparr>w_decides := n\<rparr>)"
  "run_frame (t, w) (t, w\<lparr>w_last_start := d\<rparr>)"
  "gs_ok g \<Longrightarrow> run_frame (t, w) (t, w\<lparr>w_tick := n, w_guild := g\<rparr>)"
  "run_frame (t, w) (t, w\<lparr>w_store := ms_save t (w_store w)\<rparr>)"
  by (simp_all add: run_frame_def)

section \<open>Every helper stays within the frame\<close>

lemma or_now_Some [simp]: "or_now sv (Some t) w = (t, w)"
  by (simp add: or_now_def)

lemma now_utc_frame: "now_utc sv w = (x, w') \<Longrightarrow> run_frame (t, w) (t, w')"
  by (auto simp: now_utc_def run_frame_world)

lemma or_now_frame: "or_now sv ts w = (x, w') \<Longrightarrow> run_frame (t, w) (t, w')"
  by (auto simp: or_now_def now_utc_frame split: option.splits)

lemma append_audit_frame: "run_frame tw (append_audit sv a b f t m ts tw)"
  by (auto simp: append_audit_def split: prod.splits
      intro: run_frame_trans [OF or_now_frame run_frame_task(5)])

lemma save_task_frame: "run_frame tw (save_task sv ts tw)"
proof -
  obtain t w where tw: "tw = (t, w)" by fastforce
  obtain x w1 where o: "or_now sv ts w = (x, w1)" by fastforce
  have "run_frame tw (t\<lparr>task_updated_at := x\<rparr>, w1)"
    unfolding tw by (rule run_frame_trans [OF or_now_frame [OF o] run_frame_task(4)])
  from run_frame_trans [OF this run_frame_world(5)] show ?thesis
    by (simp add: save_task_def tw o Let_def)
qed

lemma emit_event_frame: "run_frame tw (emit_event sv et err m tw)"
  by (auto simp: emit_event_def now_utc_def Let_def run_frame_def split: prod.splits)

lemma transition_frame: "run_frame tw (transition_status sv st a b et m err ts tw)"
proof -
  obtain t w where tw: "tw = (t, w)" by fastforce
  obtain x w1 where o: "or_now sv ts w = (x, w1)" by fastforce
  have "run_frame tw (t\<lparr>task_status := st\<rparr>, w1)"
    unfolding tw by (rule run_frame_trans [OF or_now_frame [OF o] run_frame_task(1)])
  from run_frame_trans [OF run_frame_trans [OF run_frame_trans [OF this append_audit_frame] save_task_frame]
      emit_event_frame] show ?thesis
    by (simp add: transition_status_def tw Let_def o)
qed

lemma or_now_executions: "or_now sv ts w = (x, w') \<Longrightarrow> w_executions w' = w_executions w"
  by (auto simp: or_now_def now_utc_def split: option.splits)

lemma append_audit_executions [simp]:
  "w_executions (snd (append_audit sv a b f t m ts tw)) = w_executions (snd tw)"
  by (auto simp: append_audit_def split: prod.splits dest: or_now_executions)

lemma save_task_executions [simp]: "w_executions (snd (save_task sv ts tw)) = w_executions (snd tw)"
  by (auto simp: save_task_def Let_def split: prod.splits dest: or_now_executions)

lemma emit_event_executions [simp]: "w_executions (snd (emit_event sv et err m tw)) = w_executions (snd tw)"
  by (auto simp: emit_event_def now_utc_def Let_def split: prod.splits)

lemma transition_executions [simp]:
  "w_executions (snd (transition_status sv st a b et m err ts tw)) = w_executions (snd tw)"
  by (auto simp: transition_status_def Let_def split: prod.splits dest: or_now_executions)

lemma time_sleep_frame: "0 \<le> s \<Longrightarrow> run_frame (t, w) (t, time_sleep s w)"
  by (simp add: time_sleep_def run_frame_def)

lemma monotonic_frame: "monotonic sv w = (x, w') \<Longrightarrow> run_frame (t, w) (t, w')"
  by (auto simp: monotonic_def Let_def run_frame_def)

lemma kb_publish_ok:
  assumes "gs_ok s" and "kb_publish clock digest config args ctxs n s = (r, n', s')"
  shows "gs_ok s'" and "\<exists>rs. r = Inr rs"
proof -
  from publish_loop_spec [OF assms(1), of "[]" "[]" clock digest config args ctxs n]
  obtain pub n1 s1 where l: "publish_loop clock digest config args ctxs [] [] n s = (Inr pub, n1, s1)"
    and ok1: "gs_ok s1" by (auto simp: published_ok_def)
  obtain rs1 where rs1: "gs_all s1 = Inr rs1" using gsb.records_total [OF ok1] by auto
  obtain s2 where e: "kb_enforce_limit config s1 = (Inr (), s2)" "gs_ok s2"
    using enforce_limit_spec [OF ok1 rs1, of config] by blast
  from assms l e show "gs_ok s'" and "\<exists>rs. r = Inr rs"
    by (auto simp: kb_publish_def split: if_splits)
qed

lemma kb_publish_success_ok:
  assumes "gs_ok s" and "kb_publish_success clock digest config c i role md n s = (r, n', s')"
  shows "gs_ok s'" and "\<forall>e. r = Inl e \<longrightarrow> compute_input_fingerprint digest i = Inl e"
proof -
  have lim: "\<exists>s2. kb_enforce_limit config s1 = (Inr (), s2) \<and> gs_ok s2" if ok1: "gs_ok s1" for s1
  proof -
    obtain rs1 where "gs_all s1 = Inr rs1" using gsb.records_total [OF ok1] by auto
    from enforce_limit_spec [OF ok1 this, of config] show ?thesis by blast
  qed
  have "\<exists>s1 s2. gs_save x s = Inr s1 \<and> kb_enforce_limit config s1 = (Inr (), s2) \<and> gs_ok s2" for x
    using gsb.save_total [OF assms(1), of x] lim by blast
  then obtain F G where FG: "\<And>x. gs_save x s = Inr (F x)" "\<And>x. kb_enforce_limit config (F x) = (Inr (), G x)"
    "\<And>x. gs_ok (G x)" by metis
  have "\<exists>x. gs_get s f = Inr x" for f using gsb.get_total [OF assms(1)] .
  then obtain H where found: "\<And>f. gs_get s f = Inr (H f)" by metis
  have "gs_ok s' \<and> (\<forall>e. r = Inl e \<longrightarrow> compute_input_fingerprint digest i = Inl e)"
    using assms(2) assms(1)
    by (auto simp: kb_publish_success_def Let_def FG found split: if_splits sum.splits option.splits prod.splits)
  then show "gs_ok s'" and "\<forall>e. r = Inl e \<longrightarrow> compute_input_fingerprint digest i = Inl e" by auto
qed


lemma guild_publish_frame:
  assumes "guild_publish sv c h hint w = (r, w')"
  shows "run_frame (t, w) (t, w')" and "w_store w' = w_store w"
    and "gs_ok (w_guild w) \<Longrightarrow> r = Inr ()"
proof -
  show "run_frame (t, w) (t, w')" and "w_store w' = w_store w"
    using assms by (auto simp: guild_publish_def run_frame_def
        split: option.splits if_splits prod.splits dest: kb_publish_ok)
  show "gs_ok (w_guild w) \<Longrightarrow> r = Inr ()"
    using assms by (auto simp: guild_publish_def split: option.splits if_splits prod.splits
        dest: kb_publish_ok(2))
qed

lemma guild_publish_success_frame:
  assumes "guild_publish_success sv c i w = (r, w')"
  shows "run_frame (t, w) (t, w')" and "w_store w' = w_store w"
    and "gs_ok (w_guild w) \<Longrightarrow> r = Inl e \<Longrightarrow> compute_input_fingerprint (sv_digest sv) i = Inl e"
proof -
  show "run_frame (t, w) (t, w')" and "w_store w' = w_store w"
    using assms by (auto simp: guild_publish_success_def run_frame_def
        split: option.splits if_splits prod.splits dest: kb_publish_success_ok(1))
  show "gs_ok (w_guild w) \<Longrightarrow> r = Inl e \<Longrightarrow> compute_input_fingerprint (sv_digest sv) i = Inl e"
    using assms by (auto simp: guild_publish_success_def split: option.splits if_splits prod.splits
        dest: kb_publish_success_ok(2))
qed

text \<open>The stages of an escalation, for the proofs that follow it.\<close>

lemma do_escalate_stages:
  assumes "do_escalate sv h st e rs (t, w) = (r, tw')"
  obtains res md x w2 t3 w3 w4 where
    "run_frame (t, w) (t\<lparr>task_result := res\<rparr>, w2)" "w_store w2 = w_store w"
    "w_events w2 = w_events w" "w_executions w2 = w_executions w" "w_emits w2 = w_emits w"
    "transition_status sv ESCALATED ''supervisor'' ''escalated'' TASK_ESCALATED md (Some (exc_str e)) (Some x)
       (t\<lparr>task_result := res\<rparr>, w2) = (t3, w3)"
    "guild_publish sv (task_capability t3) h hint_escalated w3 = (r, w4)" "tw' = (t3, w4)"
    "res = Some \<lparr>res_success = False, res_output = PNone, res_error = Some (exc_str e),
       res_metadata = (case res of None \<Rightarrow> [] | Some q \<Rightarrow> res_metadata q), res_started_at = Some st, res_completed_at = Some x\<rparr>"
proof -
  obtain x w1 where n: "now_utc sv w = (x, w1)" by fastforce
  obtain md w2 where md: "(case sv_escalation_policy sv of
      Some config \<Rightarrow> (let (a, w) = now_utc sv w1 in
         ([(''escalation_record'', PDict (escalation_dump (tp_build_record config a t h)))], w))
    | None \<Rightarrow> (case rs of None \<Rightarrow> ([], w1) | Some q \<Rightarrow> ([(''escalation_reason'', PStr q)], w1))) = (md, w2)"
    by fastforce
  have f2: "run_frame (t, w1) (t, w2)"
    and same: "w_store w2 = w_store w" "w_events w2 = w_events w" "w_executions w2 = w_executions w"
      "w_emits w2 = w_emits w"
    using md n by (auto simp: now_utc_def run_frame_def split: option.splits prod.splits)
  let ?r = "Some \<lparr>res_success = False, res_output = PNone, res_error = Some (exc_str e),
    res_metadata = md, res_started_at = Some st, res_completed_at = Some x\<rparr>"
  obtain t3 w3 where tr: "transition_status sv ESCALATED ''supervisor'' ''escalated'' TASK_ESCALATED
    [(''attempt'', PInt (task_attempt t)), (''total_failures'', PInt (int (length h)))]
    (Some (exc_str e)) (Some x) (t\<lparr>task_result := ?r\<rparr>, w2) = (t3, w3)" by fastforce
  obtain r4 w4 where g: "guild_publish sv (task_capability t3) h hint_escalated w3 = (r4, w4)" by fastforce
  have res: "tw' = (t3, w4)" "r = r4"
    using assms by (simp_all add: do_escalate_def n md tr g Let_def)
  show thesis
    by (rule that [of ?r w2 _ _ t3 w3 w4, OF _ same tr])
      (use res g run_frame_trans [OF run_frame_trans [OF now_utc_frame [OF n] f2] run_frame_task(2)] in auto)
qed

lemma do_escalate_frame:
  assumes "do_escalate sv h st e rs tw = (r, tw')"
  shows "run_frame tw tw'"
proof -
  obtain t w where tw: "tw = (t, w)" by fastforce
  from assms [unfolded tw] show ?thesis
  proof (rule do_escalate_stages)
    fix res md x w2 t3 w3 w4
    assume a: "run_frame (t, w) (t\<lparr>task_result := res\<rparr>, w2)" "tw' = (t3, w4)"
      "transition_status sv ESCALATED ''supervisor'' ''escalated'' TASK_ESCALATED md (Some (exc_str e)) (Some x)
        (t\<lparr>task_result := res\<rparr>, w2) = (t3, w3)"
      "guild_publish sv (task_capability t3) h hint_escalated w3 = (r, w4)"
    have "run_frame (t\<lparr>task_result := res\<rparr>, w2) (t3, w3)" unfolding a(3) [symmetric] by (rule transition_frame)
    from run_frame_trans [OF run_frame_trans [OF a(1) this] guild_publish_frame(1) [OF a(4)]]
    show ?thesis by (simp add: tw a(2))
  qed
qed

lemma execute_with_timeout_frame:
  assumes "execute_with_timeout c p ctx to w = (r, w')" and "cc_task_id ctx = task_id t"
  shows "run_frame (t, w) (t, w')" and "length (w_executions w') = Suc (length (w_executions w))"
    and "w_store w' = w_store w"
proof -
  show "run_frame (t, w) (t, w')"
    using assms by (auto simp: execute_with_timeout_def run_frame_def Let_def
        split: prod.splits option.splits if_splits)
  show "length (w_executions w') = Suc (length (w_executions w))" and "w_store w' = w_store w"
    using assms by (auto simp: execute_with_timeout_def Let_def split: prod.splits option.splits if_splits)
qed

lemma wait_window_frame:
  assumes "wait_for_execution_window sv name w = (r, w')"
  shows "run_frame (t, w) (t, w')" and "w_store w' = w_store w" and "w_executions w' = w_executions w"
    and "w_events w' = w_events w"
proof -
  show "run_frame (t, w) (t, w')"
    using assms by (auto simp: wait_for_execution_window_def monotonic_def time_sleep_def Let_def run_frame_def
        split: sum.splits option.splits prod.splits if_splits)
  show "w_store w' = w_store w" and "w_executions w' = w_executions w" and "w_events w' = w_events w"
    using assms by (auto simp: wait_for_execution_window_def monotonic_def time_sleep_def Let_def
        split: sum.splits option.splits prod.splits if_splits)
qed

section \<open>The stages of one attempt and of its failure\<close>

definition success_result :: "cap_result \<Rightarrow> int \<Rightarrow> int \<Rightarrow> task_result" where
  "success_result res started completed =
     \<lparr>res_success = True, res_output = cr_output res, res_error = None, res_metadata = cr_metadata res,
      res_started_at = Some started, res_completed_at = Some completed\<rparr>"

lemma run_attempt_stages:
  assumes "run_attempt sv c ec st (t, w) = (r, tw')"
  obtains (invalid) e where "cap_validate_input c (task_input t) = Inl e" "r = Some e" "tw' = (t, w)"
  | (failed) p e w1 where "cap_validate_input c (task_input t) = Inr p"
      "execute_with_timeout c p \<lparr>cc_task_id = task_id t, cc_task_name = task_name t, cc_workdir = sv_workdir sv\<rparr>
         (ec_timeout_seconds ec) w = (Inl e, w1)" "r = Some e" "tw' = (t, w1)"
  | (completed) p out w1 x w2 t3 w3 g w4 where "cap_validate_input c (task_input t) = Inr p"
      "execute_with_timeout c p \<lparr>cc_task_id = task_id t, cc_task_name = task_name t, cc_workdir = sv_workdir sv\<rparr>
         (ec_timeout_seconds ec) w = (Inr out, w1)"
      "now_utc sv w1 = (x, w2)"
      "transition_status sv COMPLETED ''supervisor'' ''completed'' TASK_COMPLETED
         [(''attempt'', PInt (task_attempt t))] None (Some x)
         (t\<lparr>task_result := Some (success_result out st x)\<rparr>, w2) = (t3, w3)"
      "guild_publish_success sv (task_capability t3) (task_input t3) w3 = (g, w4)"
      "tw' = (t3, w4)" "r = (case g of Inl e \<Rightarrow> Some e | Inr _ \<Rightarrow> None)"
proof -
  let ?ctx = "\<lparr>cc_task_id = task_id t, cc_task_name = task_name t, cc_workdir = sv_workdir sv\<rparr>"
  show thesis
  proof (cases "cap_validate_input c (task_input t)")
    case (Inl e)
    with assms show thesis by (intro invalid) (auto simp: run_attempt_def)
  next
    case (Inr p)
    obtain o1 w1 where ex: "execute_with_timeout c p ?ctx (ec_timeout_seconds ec) w = (o1, w1)" by fastforce
    show thesis
    proof (cases o1)
      case (Inl e)
      with Inr ex assms show thesis by (intro failed) (auto simp: run_attempt_def)
    next
      case o1: (Inr out)
      obtain x w2 where n: "now_utc sv w1 = (x, w2)" by fastforce
      obtain t3 w3 where tr: "transition_status sv COMPLETED ''supervisor'' ''completed'' TASK_COMPLETED
        [(''attempt'', PInt (task_attempt t))] None (Some x)
        (t\<lparr>task_result := Some (success_result out st x)\<rparr>, w2) = (t3, w3)" by fastforce
      obtain g w4 where g: "guild_publish_success sv (task_capability t3) (task_input t3) w3 = (g, w4)" by fastforce
      have "run_attempt sv c ec st (t, w) = (case g of Inl e \<Rightarrow> Some e | Inr _ \<Rightarrow> None, t3, w4)"
        using Inr ex o1 n tr g by (simp add: run_attempt_def success_result_def Let_def)
      with assms show thesis by (intro completed [OF Inr ex [unfolded o1] n tr g]) auto
    qed
  qed
qed

lemma run_attempt_frame:
  assumes "run_attempt sv c ec st tw = (r, tw')"
  shows "run_frame tw tw'"
    and "length (w_executions (snd tw')) \<le> Suc (length (w_executions (snd tw)))"
proof -
  obtain t w where tw: "tw = (t, w)" by fastforce
  from assms [unfolded tw]
  have "run_frame tw tw' \<and> length (w_executions (snd tw')) \<le> Suc (length (w_executions (snd tw)))"
  proof (cases rule: run_attempt_stages)
    case (invalid e)
    then show ?thesis by (simp add: tw)
  next
    case (failed p e w1)
    from execute_with_timeout_frame [OF failed(2), of t] failed(4) show ?thesis by (simp add: tw)
  next
    case (completed p out w1 x w2 t3 w3 g w4)
    have "run_frame (t\<lparr>task_result := Some (success_result out st x)\<rparr>, w2) (t3, w3)"
      unfolding completed(4) [symmetric] by (rule transition_frame)
    from run_frame_trans [OF run_frame_trans [OF run_frame_trans [OF run_frame_trans
          [OF execute_with_timeout_frame(1) [OF completed(2)] now_utc_frame [OF completed(3)]]
          run_frame_task(2)] this] guild_publish_success_frame(1) [OF completed(5)]]
    have "run_frame tw tw'" by (simp add: tw completed(6))
    moreover have "w_executions w4 = w_executions w3"
      using completed(5) by (auto simp: guild_publish_success_def split: option.splits if_splits prod.splits)
    moreover have "w_executions w3 = w_executions w2"
      using arg_cong [OF completed(4), of "\<lambda>p. w_executions (snd p)"]
      by (simp add: transition_executions)
    moreover have "w_executions w2 = w_executions w1" using completed(3) by (auto simp: now_utc_def)
    ultimately show ?thesis
      using execute_with_timeout_frame(2) [OF completed(2), of t] by (simp add: tw completed(6))
  qed
  then show "run_frame tw tw'"
    and "length (w_executions (snd tw')) \<le> Suc (length (w_executions (snd tw)))" by auto
qed

text \<open>What a failed attempt leads to, from the point where its audit entry is saved.\<close>

lemma handle_failure_stages:
  assumes "handle_failure sv st h e (t, w) = (n, h', tw')"
  obtains (no_fingerprint) e' where "compute_input_fingerprint (sv_digest sv) (task_input t) = Inl e'"
      "n = Raised e'" "h' = h" "tw' = (t, w)"
  | (decided) fp t1 w1 where "compute_input_fingerprint (sv_digest sv) (task_input t) = Inr fp"
      "h' = h @ [failure_of t e fp]"
      "save_task sv None (append_audit sv ''supervisor'' ''failure_recorded'' None None
         (failure_dump (failure_of t e fp)) None (t, w)) = (t1, w1)"
      "(\<exists>e'. retry_decide (sv_retry_strategy sv) (w_decides w1) (failure_of t e fp) = Inl e' \<and> n = Raised e' \<and>
          tw' = (t1, w1\<lparr>w_decides := Suc (w_decides w1)\<rparr>)) \<or>
       (\<exists>d. retry_decide (sv_retry_strategy sv) (w_decides w1) (failure_of t e fp) = Inr d \<and>
          retry_or_escalate sv st h' e d (t1, w1\<lparr>w_decides := Suc (w_decides w1)\<rparr>) = (n, tw'))"
proof (cases "compute_input_fingerprint (sv_digest sv) (task_input t)")
  case (Inl e')
  with assms show thesis by (intro no_fingerprint) (auto simp: handle_failure_def)
next
  case (Inr fp)
  obtain t1 w1 where s: "save_task sv None (append_audit sv ''supervisor'' ''failure_recorded'' None None
      (failure_dump (failure_of t e fp)) None (t, w)) = (t1, w1)" by fastforce
  show thesis
    by (rule decided [OF Inr _ s])
      (use assms Inr s in \<open>auto simp: handle_failure_def Let_def split: sum.splits prod.splits\<close>)
qed

text \<open>The task and world an again goes round with.\<close>

definition retry_task :: "retry_decision \<Rightarrow> task_record \<Rightarrow> task_record" where
  "retry_task d t = (let t = t\<lparr>task_attempt := task_attempt t + 1\<rparr> in
     case rd_adjusted_input d of None \<Rightarrow> t | Some i \<Rightarrow> t\<lparr>task_input := i\<rparr>)"

definition retry_announced :: "supervisor \<Rightarrow> exc \<Rightarrow> retry_decision \<Rightarrow> tw \<Rightarrow> tw" where
  "retry_announced sv e d tw =
     emit_event sv TASK_RETRY (Some (exc_str e)) (retry_metadata_of (fst tw) e d)
       (save_task sv None (append_audit sv ''supervisor'' ''retry'' (Some RUNNING) (Some RUNNING)
         (retry_metadata_of (fst tw) e d) None tw))"

definition retry_sleep :: "retry_decision \<Rightarrow> world \<Rightarrow> world" where
  "retry_sleep d w = (case rd_delay_seconds d of
     None \<Rightarrow> w | Some delay \<Rightarrow> if delay > 0 then time_sleep delay w else w)"

lemma retry_or_escalate_cases:
  "retry_or_escalate sv st h e d (t, w) =
     (if \<not> rd_should_retry d
      then if rd_escalate d \<or> should_escalate sv h
           then (case do_escalate sv h st e (if rd_escalate d then rd_reason d else None) (t, w) of
                   (Inl e', tw) \<Rightarrow> (Raised e', tw) | (Inr _, tw) \<Rightarrow> (Leave None, tw))
           else (Leave (Some e), t, w)
      else if should_escalate sv h
      then (case do_escalate sv h st e None (retry_task d t, w) of
              (Inl e', tw) \<Rightarrow> (Raised e', tw) | (Inr _, tw) \<Rightarrow> (Leave None, tw))
      else (case retry_announced sv e d (retry_task d t, w) of (t, w) \<Rightarrow> (Again, t, retry_sleep d w)))"
  by (simp add: retry_or_escalate_def retry_task_def retry_announced_def retry_sleep_def Let_def)

lemma retry_task_frame: "run_frame (t, w) (retry_task d t, w)"
  by (auto simp: retry_task_def run_frame_def Let_def split: option.splits)

lemma retry_sleep_frame: "run_frame (t, w) (t, retry_sleep d w)"
  by (auto simp: retry_sleep_def time_sleep_frame split: option.splits)

lemma retry_or_escalate_frame:
  assumes "retry_or_escalate sv st h e d tw = (n, tw')"
  shows "run_frame tw tw'"
proof -
  obtain t w where tw: "tw = (t, w)" by fastforce
  have again: "run_frame (t, w) (t2, retry_sleep d w2)"
    if "retry_announced sv e d (retry_task d t, w) = (t2, w2)" for t2 w2
  proof -
    have "run_frame (retry_task d t, w) (t2, w2)"
      unfolding that [symmetric] retry_announced_def
      by (rule run_frame_trans [OF run_frame_trans [OF append_audit_frame save_task_frame] emit_event_frame])
    then show ?thesis
      by (rule run_frame_trans [OF run_frame_trans [OF retry_task_frame] retry_sleep_frame])
  qed
  show ?thesis
    using assms unfolding tw retry_or_escalate_cases
    by (auto split: if_splits prod.splits sum.splits
        intro: again do_escalate_frame run_frame_trans [OF retry_task_frame do_escalate_frame])
qed

lemma handle_failure_frame:
  assumes "handle_failure sv st h e tw = (n, h', tw')"
  shows "run_frame tw tw'"
proof -
  obtain t w where tw: "tw = (t, w)" by fastforce
  from assms [unfolded tw] show ?thesis
  proof (cases rule: handle_failure_stages)
    case (no_fingerprint e')
    then show ?thesis by (simp add: tw)
  next
    case (decided fp t1 w1)
    have "run_frame (t, w) (t1, w1)"
      unfolding decided(3) [symmetric] by (rule run_frame_trans [OF append_audit_frame save_task_frame])
    from run_frame_trans [OF this run_frame_world(2)]
    have "run_frame tw (t1, w1\<lparr>w_decides := Suc (w_decides w1)\<rparr>)" by (simp add: tw)
    with decided(4) show ?thesis
      by (auto intro: run_frame_trans retry_or_escalate_frame)
  qed
qed

lemma run_loop_frame:
  "run_loop sv c ec st h tw = (r, h', tw') \<Longrightarrow> run_frame tw tw'"
proof (induction sv c ec st h tw arbitrary: r h' tw' rule: run_loop.induct)
  case (1 sv c ec st h tw)
  obtain x tw1 where a: "run_attempt sv c ec st tw = (x, tw1)" by (meson surj_pair)
  note fa = run_attempt_frame(1) [OF a]
  show ?case
  proof (cases x)
    case None
    with 1(2) a fa show ?thesis by (simp add: run_loop.simps [of sv c ec st h tw])
  next
    case (Some e)
    show ?thesis
    proof (cases "is_exception e")
      case False
      with 1(2) a fa Some show ?thesis by (simp add: run_loop.simps [of sv c ec st h tw])
    next
      case True
      obtain n h2 tw2 where f: "handle_failure sv st h e tw1 = (n, h2, tw2)" by (metis prod_cases3)
      note ff = run_frame_trans [OF fa handle_failure_frame [OF f]]
      show ?thesis
      proof (cases n)
        case Again
        have "run_loop sv c ec st h2 tw2 = (r, h', tw')"
          using 1(2) a Some True f Again by (simp add: run_loop.simps [of sv c ec st h tw])
        from 1(1) [OF a [symmetric] Some _ f [symmetric] Again refl this] True show ?thesis
          using run_frame_trans [OF ff] by (cases tw2) auto
      qed (use 1(2) a Some True f ff in \<open>simp_all add: run_loop.simps [of sv c ec st h tw]\<close>)
    qed
  qed
qed

section \<open>Whole runs\<close>

lemma finish_run_stages:
  assumes "finish_run sv st lx h (t, w) = (r, w')"
  obtains (finished) "lx = None" "r = Inr t" "w' = w"
  | (guild) e e' where "lx = Some e" "guild_publish sv (task_capability t) h hint_failed w = (Inl e', w')" "r = Inl e'"
  | (failed) e w1 x w2 t3 where "lx = Some e"
      "guild_publish sv (task_capability t) h hint_failed w = (Inr (), w1)" "now_utc sv w1 = (x, w2)"
      "transition_status sv FAILED ''supervisor'' ''failed'' TASK_FAILED [(''attempt'', PInt (task_attempt t))]
         (Some (exc_str e)) (Some x)
         (t\<lparr>task_result := Some \<lparr>res_success = False, res_output = PNone, res_error = Some (exc_str e),
            res_metadata = [], res_started_at = Some st, res_completed_at = Some x\<rparr>\<rparr>, w2) = (t3, w')"
      "r = Inr t3"
proof (cases lx)
  case None
  with assms show thesis by (intro finished) (auto simp: finish_run_def)
next
  case (Some e)
  obtain g w1 where g: "guild_publish sv (task_capability t) h hint_failed w = (g, w1)" by fastforce
  show thesis
  proof (cases g)
    case (Inl e')
    with assms Some g show thesis by (intro guild) (auto simp: finish_run_def)
  next
    case (Inr u)
    then have g': "guild_publish sv (task_capability t) h hint_failed w = (Inr (), w1)" using g by simp
    obtain x w2 where x: "now_utc sv w1 = (x, w2)" by fastforce
    obtain t3 w3 where tr: "transition_status sv FAILED ''supervisor'' ''failed'' TASK_FAILED
        [(''attempt'', PInt (task_attempt t))] (Some (exc_str e)) (Some x)
         (t\<lparr>task_result := Some \<lparr>res_success = False, res_output = PNone, res_error = Some (exc_str e),
            res_metadata = [], res_started_at = Some st, res_completed_at = Some x\<rparr>\<rparr>, w2) = (t3, w3)"
      by fastforce
    have "finish_run sv st lx h (t, w) = (Inr t3, w3)"
      using Some g' x tr by (simp add: finish_run_def Let_def)
    with assms have rw: "r = Inr t3" "w' = w3" by auto
    show thesis by (rule failed [OF Some g' x tr [folded rw(2)] rw(1)])
  qed
qed

lemma finish_run_frame:
  assumes "finish_run sv st lx h (t, w) = (r, w')"
  shows "\<exists>t'. run_frame (t, w) (t', w') \<and> (\<forall>x. r = Inr x \<longrightarrow> t' = x)"
  using assms
proof (cases rule: finish_run_stages)
  case finished
  then show ?thesis by auto
next
  case (guild e e')
  then show ?thesis using guild_publish_frame(1) [OF guild(2)] by auto
next
  case (failed e w1 x w2 t3)
  have "run_frame (t\<lparr>task_result := Some \<lparr>res_success = False, res_output = PNone, res_error = Some (exc_str e),
            res_metadata = [], res_started_at = Some st, res_completed_at = Some x\<rparr>\<rparr>, w2) (t3, w')"
    unfolding failed(4) [symmetric] by (rule transition_frame)
  from run_frame_trans [OF run_frame_trans [OF run_frame_trans
        [OF guild_publish_frame(1) [OF failed(2)] now_utc_frame [OF failed(3)]] run_frame_task(2)] this]
  show ?thesis using failed(5) by auto
qed

lemma apply_suggestion_cases:
  "apply_suggestion sv (t, w) = (r, tw') \<Longrightarrow>
   tw' = (t, w) \<or>
   (\<exists>i md. r = Inr () \<and> tw' = save_task sv None (append_audit sv ''guild'' ''peer_suggestion_applied'' None None md None
      (t\<lparr>task_input := i\<rparr>, w))) \<or>
   (\<exists>md. r = Inr () \<and> tw' = save_task sv None (append_audit sv ''guild'' ''peer_suggestion_applied'' None None md None (t, w)))"
  by (auto simp: apply_suggestion_def Let_def split: option.splits if_splits sum.splits list.splits)

lemma apply_suggestion_frame:
  assumes "apply_suggestion sv (t, w) = (r, tw')"
  shows "run_frame (t, w) tw'"
  using apply_suggestion_cases [OF assms]
  by (auto intro!: run_frame_trans [OF run_frame_trans [OF run_frame_task(3) append_audit_frame] save_task_frame]
      run_frame_trans [OF append_audit_frame save_task_frame])

lemma execute_task_stages:
  assumes "execute_task sv c (t, w) = (r, w')"
  obtains (suggestion) e tw1 where "apply_suggestion sv (t, w) = (Inl e, tw1)" "r = Inl e" "w' = snd tw1"
  | (controls) t1 w1 e where "apply_suggestion sv (t, w) = (Inr (), t1, w1)" "r = Inl e" "w' = w1"
  | (window) t1 w1 e where "apply_suggestion sv (t, w) = (Inr (), t1, w1)"
      "wait_for_execution_window sv (task_capability t1) w1 = (Inl e, w')" "r = Inl e"
  | (ran) t1 w1 ec w2 x w3 t4 w4 lr h t5 w5 where
      "apply_suggestion sv (t, w) = (Inr (), t1, w1)"
      "reg_execution_controls_of (sv_registry sv) (task_capability t1) = Inr ec"
      "wait_for_execution_window sv (task_capability t1) w1 = (Inr (), w2)"
      "now_utc sv w2 = (x, w3)"
      "transition_status sv RUNNING ''supervisor'' ''started'' TASK_STARTED
         [(''attempt'', PInt (task_attempt t1 + 1)), (''max_retries'', PInt (task_max_retries t1))] None (Some x)
         (t1\<lparr>task_attempt := task_attempt t1 + 1\<rparr>, w3) = (t4, w4)"
      "run_loop sv c ec x [] (t4, w4) = (lr, h, t5, w5)"
      "(\<exists>e. lr = Inl e \<and> r = Inl e \<and> w' = w5) \<or>
       (\<exists>lx. lr = Inr lx \<and> finish_run sv x lx h (t5, w5) = (r, w'))"
proof -
  obtain s t1 w1 where s: "apply_suggestion sv (t, w) = (s, t1, w1)" by (metis prod_cases3)
  show thesis
  proof (cases s)
    case (Inl e)
    with assms s show thesis by (intro suggestion) (auto simp: execute_task_def)
  next
    case s': (Inr u)
    show thesis
    proof (cases "reg_execution_controls_of (sv_registry sv) (task_capability t1)")
      case (Inl e)
      with assms s s' show thesis by (intro controls) (auto simp: execute_task_def)
    next
      case ec: (Inr ec)
      obtain q w2 where q: "wait_for_execution_window sv (task_capability t1) w1 = (q, w2)" by fastforce
      show thesis
      proof (cases q)
        case (Inl e)
        with assms s s' ec q show thesis by (intro window) (auto simp: execute_task_def)
      next
        case q': (Inr v)
        obtain x w3 where x: "now_utc sv w2 = (x, w3)" by fastforce
        obtain t4 w4 where tr: "transition_status sv RUNNING ''supervisor'' ''started'' TASK_STARTED
           [(''attempt'', PInt (task_attempt t1 + 1)), (''max_retries'', PInt (task_max_retries t1))] None (Some x)
           (t1\<lparr>task_attempt := task_attempt t1 + 1\<rparr>, w3) = (t4, w4)" by fastforce
        obtain lr h t5 w5 where l: "run_loop sv c ec x [] (t4, w4) = (lr, h, t5, w5)" by (metis prod_cases3)
        show thesis
          by (rule ran [OF _ ec _ x tr l])
            (use assms s s' ec q q' x tr l in \<open>auto simp: execute_task_def Let_def split: sum.splits\<close>)
      qed
    qed
  qed
qed

lemma execute_task_frame:
  assumes "execute_task sv c (t, w) = (r, w')"
  shows "\<exists>t'. run_frame (t, w) (t', w') \<and> (\<forall>x. r = Inr x \<longrightarrow> t' = x)"
  using assms
proof (cases rule: execute_task_stages)
  case (suggestion e tw1)
  then show ?thesis using apply_suggestion_frame [OF suggestion(1)] by (metis prod.collapse Inl_Inr_False)
next
  case (controls t1 w1 e)
  then show ?thesis using apply_suggestion_frame [OF controls(1)] by auto
next
  case (window t1 w1 e)
  then show ?thesis
    using run_frame_trans [OF apply_suggestion_frame [OF window(1)] wait_window_frame(1) [OF window(2)]] by auto
next
  case (ran t1 w1 ec w2 x w3 t4 w4 lr h t5 w5)
  have "run_frame (t1\<lparr>task_attempt := task_attempt t1 + 1\<rparr>, w3) (t4, w4)"
    unfolding ran(5) [symmetric] by (rule transition_frame)
  from run_frame_trans [OF run_frame_trans [OF run_frame_trans [OF run_frame_trans [OF run_frame_trans
      [OF apply_suggestion_frame [OF ran(1)] wait_window_frame(1) [OF ran(3)]] now_utc_frame [OF ran(4)]]
      run_frame_task(6)] this] run_loop_frame [OF ran(6)]]
  have f: "run_frame (t, w) (t5, w5)" .
  from ran(7) show ?thesis
  proof
    assume "\<exists>e. lr = Inl e \<and> r = Inl e \<and> w' = w5"
    with f show ?thesis by auto
  next
    assume "\<exists>lx. lr = Inr lx \<and> finish_run sv x lx h (t5, w5) = (r, w')"
    then obtain lx where "finish_run sv x lx h (t5, w5) = (r, w')" by blast
    from finish_run_frame [OF this] show ?thesis using f run_frame_trans by blast
  qed
qed

lemma apply_policy_frame: "run_frame tw (apply_policy sv d tw)"
proof -
  obtain t w where tw: "tw = (t, w)" by fastforce
  have deny: "run_frame (t, w) (transition_status sv st a b et m err ts (t\<lparr>task_result := q\<rparr>, w\<lparr>w_tick := n\<rparr>))"
    for st a b et m err ts q n
    by (rule run_frame_trans [OF run_frame_trans [OF run_frame_world(1) run_frame_task(2)] transition_frame])
  show ?thesis
    by (cases "pd_decision d")
      (simp_all add: apply_policy_def tw Let_def now_utc_def deny transition_frame
        run_frame_trans [OF append_audit_frame save_task_frame])
qed

text \<open>The stages of a run: what is checked before the task executes.\<close>

definition approval_gate :: "supervisor \<Rightarrow> task_record \<Rightarrow> world \<Rightarrow> tw" where
  "approval_gate sv t w = transition_status sv AWAITING_APPROVAL ''supervisor'' ''awaiting_approval''
     TASK_AWAITING_APPROVAL [(''reason'', PStr ''capability requires approval''),
       (''capability'', PStr (task_capability t))] None None (t, w)"

lemma run_task_stages:
  assumes "run_task sv tid w = (r, w')"
  obtains (missing) e where "get_task w tid = Inl e" "r = Inl e" "w' = w"
  | (idle) t where "get_task w tid = Inr t" "\<not> executable_status (task_status t)" "r = Inr t" "w' = w"
  | (invalid) t e where "get_task w tid = Inr t" "executable_status (task_status t)"
      "validate_task_submission (build_submission t) (sv_registry sv) = Inl e" "r = Inl e" "w' = w"
  | (gated) t c t1 where "get_task w tid = Inr t" "task_status t = PENDING"
      "validate_task_submission (build_submission t) (sv_registry sv) = Inr c"
      "cd_require_approval (cap_descriptor c)" "approval_gate sv t w = (t1, w')" "r = Inr t1"
  | (policy_raised) t c e where "get_task w tid = Inr t" "task_status t = PENDING"
      "validate_task_submission (build_submission t) (sv_registry sv) = Inr c"
      "policy_evaluate (sv_policy sv) t \<lparr>pc_capability = cap_descriptor c, pc_workdir = sv_workdir sv\<rparr> = Inl e"
      "r = Inl e" "w' = w"
  | (stopped) t c d t1 where "get_task w tid = Inr t" "task_status t = PENDING"
      "validate_task_submission (build_submission t) (sv_registry sv) = Inr c"
      "\<not> cd_require_approval (cap_descriptor c)"
      "policy_evaluate (sv_policy sv) t \<lparr>pc_capability = cap_descriptor c, pc_workdir = sv_workdir sv\<rparr> = Inr d"
      "apply_policy sv d (t, w) = (t1, w')" "task_status t1 \<noteq> PENDING" "r = Inr t1"
  | (allowed) t c d t1 w1 where "get_task w tid = Inr t" "task_status t = PENDING"
      "validate_task_submission (build_submission t) (sv_registry sv) = Inr c"
      "\<not> cd_require_approval (cap_descriptor c)"
      "policy_evaluate (sv_policy sv) t \<lparr>pc_capability = cap_descriptor c, pc_workdir = sv_workdir sv\<rparr> = Inr d"
      "apply_policy sv d (t, w) = (t1, w1)" "task_status t1 = PENDING" "execute_task sv c (t1, w1) = (r, w')"
  | (approved) t c where "get_task w tid = Inr t" "task_status t = APPROVED"
      "validate_task_submission (build_submission t) (sv_registry sv) = Inr c"
      "execute_task sv c (t, w) = (r, w')"
proof (cases "get_task w tid")
  case (Inl e)
  with assms have "r = Inl e" "w' = w" by (auto simp: run_task_def)
  with Inl show thesis by (intro missing) simp_all
next
  case t: (Inr t)
  show thesis
  proof (cases "executable_status (task_status t)")
    case False
    with assms t have "r = Inr t" "w' = w" by (auto simp: run_task_def)
    with t False show thesis by (intro idle) simp_all
  next
    case ex: True
    show thesis
    proof (cases "validate_task_submission (build_submission t) (sv_registry sv)")
      case (Inl e)
      with assms t ex have "r = Inl e" "w' = w" by (auto simp: run_task_def)
      with t ex Inl show thesis by (intro invalid) simp_all
    next
      case c: (Inr c)
      show thesis
      proof (cases "task_status t = PENDING")
        case False
        with ex have "task_status t = APPROVED" by (simp add: executable_status_def)
        with assms t ex c have "execute_task sv c (t, w) = (r, w')" by (simp add: run_task_def)
        with t c \<open>task_status t = APPROVED\<close> show thesis by (intro approved) simp_all
      next
        case p: True
        show thesis
        proof (cases "cd_require_approval (cap_descriptor c)")
          case True
          obtain t1 w1 where g: "approval_gate sv t w = (t1, w1)" by fastforce
          with assms t ex c p True have "r = Inr t1" "w1 = w'"
            by (simp_all add: run_task_def approval_gate_def Let_def)
          with t c p True g show thesis by (intro gated) simp_all
        next
          case g: False
          show thesis
          proof (cases "policy_evaluate (sv_policy sv) t \<lparr>pc_capability = cap_descriptor c, pc_workdir = sv_workdir sv\<rparr>")
            case (Inl e)
            with assms t ex c p g have "r = Inl e" "w' = w" by (auto simp: run_task_def)
            with t c p Inl show thesis by (intro policy_raised) simp_all
          next
            case d: (Inr d)
            obtain t1 w1 where a: "apply_policy sv d (t, w) = (t1, w1)" by fastforce
            have "run_task sv tid w = (if task_status t1 \<noteq> PENDING then (Inr t1, w1) else execute_task sv c (t1, w1))"
              using t ex c p g d a by (simp add: run_task_def)
            note run = this [unfolded assms]
            show thesis
            proof (cases "task_status t1 = PENDING")
              case True
              with run show thesis by (intro allowed [OF t p c g d a]) simp_all
            next
              case False
              with run have "r = Inr t1" "w1 = w'" by simp_all
              with a False show thesis by (intro stopped [OF t p c g d]) simp_all
            qed
          qed
        qed
      qed
    qed
  qed
qed

lemma get_task_id: "ms_ok (w_store w) \<Longrightarrow> get_task w tid = Inr t \<Longrightarrow> task_id t = tid"
  by (auto simp: get_task_def ms_get_id split: option.splits)

lemma get_task_Inr: "get_task w tid = Inr t \<longleftrightarrow> ms_get (w_store w) tid = Some t"
  by (auto simp: get_task_def split: option.splits)

lemma run_task_frame:
  assumes "run_task sv tid w = (r, w')" and "get_task w tid = Inr t"
  shows "\<exists>t'. run_frame (t, w) (t', w') \<and> (\<forall>x. r = Inr x \<longrightarrow> t' = x)"
  using assms(1)
proof (cases rule: run_task_stages)
  case (gated t' c t1)
  have "run_frame (t', w) (t1, w')"
    unfolding gated(5) [symmetric] approval_gate_def by (rule transition_frame)
  with gated assms(2) show ?thesis by auto
next
  case (stopped t' c d t1)
  have "run_frame (t', w) (t1, w')" using apply_policy_frame stopped(6) by metis
  with stopped assms(2) show ?thesis by auto
next
  case (allowed t' c d t1 w1)
  have "run_frame (t', w) (t1, w1)" using apply_policy_frame allowed(6) by metis
  moreover have "t' = t" using allowed(1) assms(2) by simp
  ultimately show ?thesis
    using execute_task_frame [OF allowed(8)] run_frame_trans by blast
next
  case (approved t' c)
  with assms(2) execute_task_frame [OF approved(4)] show ?thesis by auto
qed (use assms(2) in auto)

end
