(* ===== verification/Supervisor_Lifecycle.thy ===== *)
theory Supervisor_Lifecycle
  imports Supervisor_Frame
begin

text \<open>
  The life of a task.  The abstract specification is an automaton over audit entries
  (\<open>audit_step\<close>): its state is the status reached and whether a run is authorised.  The invariant of
  every reachable world is that the audit trail of every stored task is a run of this automaton
  ending in the task's status, that every id in the store was drawn before, and that every logged
  execution belongs to a stored task that was started.
\<close>

section \<open>The specification: an automaton over audit entries\<close>

definition audit_edges :: "(task_status option \<times> string \<times> task_status) list" where
  "audit_edges =
     [(None, ''submitted'', PENDING),
      (Some PENDING, ''allowed'', PENDING),
      (Some PENDING, ''denied'', POLICY_DENIED),
      (Some PENDING, ''awaiting_approval'', AWAITING_APPROVAL),
      (Some AWAITING_APPROVAL, ''approved'', APPROVED),
      (Some AWAITING_APPROVAL, ''cancelled'', CANCELLED),
      (Some PENDING, ''started'', RUNNING),
      (Some APPROVED, ''started'', RUNNING),
      (Some RUNNING, ''retry'', RUNNING),
      (Some RUNNING, ''completed'', COMPLETED),
      (Some RUNNING, ''failed'', FAILED),
      (Some RUNNING, ''escalated'', ESCALATED)]"

definition audit_notes :: "string list" where
  "audit_notes = [''failure_recorded'', ''peer_suggestion_applied'']"

definition authorised_after :: "string \<Rightarrow> bool \<Rightarrow> bool" where
  "authorised_after action a =
     (if action = ''allowed'' \<or> action = ''approved'' then True
      else if action = ''submitted'' \<or> action = ''awaiting_approval'' then False else a)"

type_synonym phase = "task_status option \<times> bool"

fun audit_step :: "phase \<Rightarrow> audit_entry \<Rightarrow> phase option" where
  "audit_step (s, a) e = (case au_to e of
       None \<Rightarrow> if au_from e = None \<and> au_action e \<in> set audit_notes then Some (s, a) else None
     | Some t \<Rightarrow>
         if au_from e = s \<and> (s, au_action e, t) \<in> set audit_edges \<and> (au_action e = ''started'' \<longrightarrow> a) \<and>
            (au_action e = ''allowed'' \<longrightarrow> au_actor e = ''policy'')
         then Some (Some t, authorised_after (au_action e) a) else None)"

fun audit_run :: "phase \<Rightarrow> audit_entry list \<Rightarrow> phase option" where
  "audit_run p [] = Some p"
| "audit_run p (e # es) = (case audit_step p e of None \<Rightarrow> None | Some q \<Rightarrow> audit_run q es)"

definition task_phase :: "task_record \<Rightarrow> phase option" where
  "task_phase t = audit_run (None, False) (task_audit_trail t)"

definition audit_ok :: "task_record \<Rightarrow> bool" where
  "audit_ok t \<longleftrightarrow> (\<exists>a. task_phase t = Some (Some (task_status t), a))"

definition has_started :: "task_record \<Rightarrow> bool" where
  "has_started t \<longleftrightarrow> ''started'' \<in> set (map au_action (task_audit_trail t))"

lemma audit_run_append:
  "audit_run p (es @ fs) = (case audit_run p es of None \<Rightarrow> None | Some q \<Rightarrow> audit_run q fs)"
  by (induction es arbitrary: p) (auto split: option.splits)

text \<open>A step that ends in a status only a start can lead to has a start behind it.\<close>

definition ran :: "task_status option \<Rightarrow> bool" where
  "ran s \<longleftrightarrow> s \<in> {Some RUNNING, Some COMPLETED, Some FAILED, Some ESCALATED}"

lemma edge_ran:
  "(s, act, t) \<in> set audit_edges \<Longrightarrow> ran (Some t) \<longleftrightarrow> ran s \<or> act = ''started''"
  by (simp add: audit_edges_def) (elim disjE conjE; simp add: ran_def)

lemma note_not_started: "act \<in> set audit_notes \<Longrightarrow> act \<noteq> ''started''"
  by (auto simp: audit_notes_def)

lemma audit_step_ran:
  "audit_step (s, a) e = Some (t, b) \<Longrightarrow> ran t \<longleftrightarrow> ran s \<or> au_action e = ''started''"
  by (auto dest: edge_ran note_not_started split: option.splits if_splits)

lemma audit_run_ran:
  "audit_run (s, a) es = Some (t, b) \<Longrightarrow> ran t \<longleftrightarrow> ran s \<or> ''started'' \<in> set (map au_action es)"
proof (induction es arbitrary: s a)
  case (Cons e es)
  then obtain s1 a1 where "audit_step (s, a) e = Some (s1, a1)" "audit_run (s1, a1) es = Some (t, b)"
    by (auto split: option.splits)
  with Cons.IH [OF this(2)] audit_step_ran [OF this(1)] show ?case by auto
qed simp

lemma task_phase_started: "task_phase t = Some (s, a) \<Longrightarrow> has_started t \<longleftrightarrow> ran s"
  using audit_run_ran [of None False "task_audit_trail t" s a]
  by (simp add: task_phase_def has_started_def ran_def)

lemma audit_step_auth:
  "audit_step (s, a) e = Some (t, True) \<Longrightarrow>
   a \<or> au_action e = ''approved'' \<or> (au_action e = ''allowed'' \<and> au_actor e = ''policy'')"
  by (auto simp: authorised_after_def split: option.splits if_splits)

lemma audit_run_auth:
  "audit_run (s, False) es = Some (t, True) \<Longrightarrow>
   \<exists>e \<in> set es. au_action e = ''approved'' \<or> (au_action e = ''allowed'' \<and> au_actor e = ''policy'')"
proof (induction es arbitrary: s)
  case (Cons e es)
  then obtain s1 a1 where st: "audit_step (s, False) e = Some (s1, a1)" "audit_run (s1, a1) es = Some (t, True)"
    by (auto split: option.splits)
  show ?case
  proof (cases a1)
    case True
    with audit_step_auth [of s False e s1] st(1) show ?thesis by auto
  next
    case False
    with Cons.IH st(2) show ?thesis by auto
  qed
qed simp

section \<open>The invariant of a world\<close>

definition world_ok :: "supervisor \<Rightarrow> world \<Rightarrow> bool" where
  "world_ok sv w \<longleftrightarrow> ms_ok (w_store w) \<and> gs_ok (w_guild w) \<and>
     (\<forall>k t. ms_get (w_store w) k = Some t \<longrightarrow> audit_ok t \<and> (\<exists>n < w_uuids w. k = sv_uuid sv n)) \<and>
     (\<forall>x \<in> set (w_executions w). \<exists>t. ms_get (w_store w) (fst x) = Some t \<and> has_started t)"

text \<open>The task a run holds: its trail leads to \<open>s\<close>, it is in the store, and the stored copy has
  started exactly when the held one has.\<close>

definition live :: "supervisor \<Rightarrow> task_status \<Rightarrow> bool \<Rightarrow> tw \<Rightarrow> bool" where
  "live sv s a tw \<longleftrightarrow> (case tw of (t, w) \<Rightarrow>
     task_phase t = Some (Some s, a) \<and> task_status t = s \<and> world_ok sv w \<and>
     (\<exists>t'. ms_get (w_store w) (task_id t) = Some t' \<and> has_started t' = has_started t))"

definition stored :: "tw \<Rightarrow> bool" where
  "stored tw \<longleftrightarrow> (case tw of (t, w) \<Rightarrow> ms_get (w_store w) (task_id t) = Some t)"

lemma live_audit_ok: "live sv s a (t, w) \<Longrightarrow> audit_ok t"
  by (auto simp: live_def audit_ok_def)

lemma live_world: "live sv s a (t, w) \<Longrightarrow> world_ok sv w"
  by (simp add: live_def)

lemma live_gs_ok: "live sv s a (t, w) \<Longrightarrow> gs_ok (w_guild w)"
  by (simp add: live_def world_ok_def)

text \<open>Fields the trail does not depend on.\<close>

lemma live_task_simps [simp]:
  "live sv s a (t\<lparr>task_result := r\<rparr>, w) = live sv s a (t, w)"
  "live sv s a (t\<lparr>task_input := i\<rparr>, w) = live sv s a (t, w)"
  "live sv s a (t\<lparr>task_attempt := n\<rparr>, w) = live sv s a (t, w)"
  "live sv s a (t\<lparr>task_updated_at := u\<rparr>, w) = live sv s a (t, w)"
  by (simp_all add: live_def task_phase_def has_started_def)

lemma audit_ok_updated [simp]: "audit_ok (t\<lparr>task_updated_at := u\<rparr>) = audit_ok t"
  by (simp add: audit_ok_def task_phase_def)

lemma has_started_updated [simp]: "has_started (t\<lparr>task_updated_at := u\<rparr>) = has_started t"
  by (simp add: has_started_def)

text \<open>Changes of the world that leave the store, the guild, the ids and the log alone.\<close>

lemma live_world_cong:
  "w_store w' = w_store w \<Longrightarrow> gs_ok (w_guild w') \<Longrightarrow> w_uuids w' = w_uuids w \<Longrightarrow>
   w_executions w' = w_executions w \<Longrightarrow> live sv s a (t, w) \<Longrightarrow> live sv s a (t, w')"
  by (auto simp: live_def world_ok_def)

lemma now_utc_live: "live sv s a (t, w) \<Longrightarrow> now_utc sv w = (x, w') \<Longrightarrow> live sv s a (t, w')"
  by (rule live_world_cong [where w = w]) (auto simp: now_utc_def live_def world_ok_def)

lemma or_now_live: "live sv s a (t, w) \<Longrightarrow> or_now sv ts w = (x, w') \<Longrightarrow> live sv s a (t, w')"
  by (cases ts) (auto simp: or_now_def dest: now_utc_live)

lemma emit_event_live:
  assumes "live sv s a tw"
  shows "live sv s a (emit_event sv et err m tw)" and "stored tw \<Longrightarrow> stored (emit_event sv et err m tw)"
proof -
  show "live sv s a (emit_event sv et err m tw)"
    using assms by (auto simp: emit_event_def now_utc_def Let_def live_def world_ok_def split: prod.splits)
  show "stored tw \<Longrightarrow> stored (emit_event sv et err m tw)"
    by (auto simp: emit_event_def now_utc_def Let_def stored_def split: prod.splits)
qed

text \<open>Saving the held task.  The premise is about the task alone, since a transition saves a task
  whose stored copy is one step behind.\<close>

lemma save_task_live:
  assumes "task_phase t = Some (Some (task_status t), a)" and "world_ok sv w"
    and "ms_get (w_store w) (task_id t) = Some t0" and "has_started t0 \<longrightarrow> has_started t"
    and "save_task sv ts (t, w) = (t', w')"
  shows "live sv (task_status t) a (t', w')" and "stored (t', w')"
proof -
  obtain x w1 where o: "or_now sv ts w = (x, w1)" by fastforce
  then have w1: "w_store w1 = w_store w" "w_guild w1 = w_guild w" "w_uuids w1 = w_uuids w"
    "w_executions w1 = w_executions w"
    by (auto simp: or_now_def now_utc_def split: option.splits)
  have t': "t' = t\<lparr>task_updated_at := x\<rparr>" and w': "w' = w1\<lparr>w_store := ms_save t' (w_store w1)\<rparr>"
    using assms(5) by (auto simp: save_task_def o Let_def)
  show "stored (t', w')" by (simp add: stored_def w')
  have "audit_ok t'" using assms(1) by (simp add: t' audit_ok_def task_phase_def)
  moreover have "\<exists>n < w_uuids w. task_id t = sv_uuid sv n"
    using assms(2,3) by (auto simp: world_ok_def)
  moreover have "has_started t'" if "x \<in> set (w_executions w)" "fst x = task_id t" for x
    using assms(2-4) that by (fastforce simp: world_ok_def t')
  ultimately have "world_ok sv w'"
    using assms(2) by (auto simp: world_ok_def w' w1 t')
  then show "live sv (task_status t) a (t', w')"
    using assms(1) by (simp add: live_def w' t' task_phase_def)
qed

lemma save_live:
  assumes "live sv s a tw"
  shows "live sv s a (save_task sv ts tw)" and "stored (save_task sv ts tw)"
proof -
  obtain t w where tw: "tw = (t, w)" by fastforce
  obtain t' w' where s: "save_task sv ts (t, w) = (t', w')" by fastforce
  have a: "task_phase t = Some (Some (task_status t), a)" "world_ok sv w" "task_status t = s"
    and "\<exists>t0. ms_get (w_store w) (task_id t) = Some t0 \<and> has_started t0 = has_started t"
    using assms by (simp_all add: live_def tw)
  then obtain t0 where t0: "ms_get (w_store w) (task_id t) = Some t0" "has_started t0 \<longrightarrow> has_started t"
    by blast
  from save_task_live [OF a(1,2) t0 s] show "live sv s a (save_task sv ts tw)" "stored (save_task sv ts tw)"
    unfolding tw s a(3) by this+
qed

text \<open>An audit entry that stays in the same status: a note, a retry or an allowance.\<close>

lemma append_audit_live:
  assumes "live sv s a tw" and "act \<noteq> ''started''"
    and step: "\<And>ts. audit_step (Some s, a) \<lparr>au_timestamp = ts, au_actor = who, au_action = act, au_from = f,
      au_to = to, au_metadata = m\<rparr> = Some (Some s, b)"
  shows "live sv s b (append_audit sv who act f to m ts tw)"
proof -
  obtain t w where tw: "tw = (t, w)" by fastforce
  obtain x w1 where o: "or_now sv ts w = (x, w1)" by fastforce
  have "live sv s a (t, w1)" using or_now_live [OF assms(1) [unfolded tw] o] .
  then show ?thesis
    using step assms(2)
    by (auto simp: append_audit_def tw o live_def task_phase_def audit_run_append has_started_def
        simp del: audit_step.simps)
qed

lemma note_live:
  assumes "live sv s a tw" and "act \<in> set audit_notes"
  shows "live sv s a (append_audit sv who act None None m ts tw)"
  using assms by (intro append_audit_live) (auto simp: audit_notes_def)

lemma retry_entry_live:
  assumes "live sv RUNNING a tw"
  shows "live sv RUNNING a (append_audit sv who ''retry'' (Some RUNNING) (Some RUNNING) m ts tw)"
  using assms by (intro append_audit_live) (auto simp: audit_edges_def authorised_after_def)

lemma allowed_entry_live:
  assumes "live sv PENDING a tw"
  shows "live sv PENDING True (append_audit sv ''policy'' ''allowed'' (Some PENDING) (Some PENDING) m ts tw)"
  using assms by (intro append_audit_live [where a = a]) (auto simp: audit_edges_def authorised_after_def)

text \<open>A transition along an edge of the automaton.\<close>

lemma transition_live:
  assumes "live sv s a tw" and edge: "(Some s, act, to) \<in> set audit_edges" and "act = ''started'' \<longrightarrow> a"
    and "act \<noteq> ''allowed''"
  shows "live sv to (authorised_after act a) (transition_status sv to who act et m err ts tw)"
    and "stored (transition_status sv to who act et m err ts tw)"
proof -
  obtain t w where tw: "tw = (t, w)" by fastforce
  obtain x w1 where o: "or_now sv ts w = (x, w1)" by fastforce
  let ?t = "t\<lparr>task_status := to, task_audit_trail := task_audit_trail t @
    [\<lparr>au_timestamp = x, au_actor = who, au_action = act, au_from = Some s, au_to = Some to, au_metadata = m\<rparr>]\<rparr>"
  from or_now_live [OF assms(1) [unfolded tw] o] obtain t0 where l: "task_phase t = Some (Some s, a)"
    "task_status t = s" "world_ok sv w1" "ms_get (w_store w1) (task_id t) = Some t0" "has_started t0 = has_started t"
    by (auto simp: live_def)
  have ph: "task_phase ?t = Some (Some (task_status ?t), authorised_after act a)"
    using l(1) edge assms(3,4) by (simp add: task_phase_def audit_run_append)
  have st: "has_started t0 \<longrightarrow> has_started ?t" using l(5) by (auto simp: has_started_def)
  obtain t2 w2 where s: "save_task sv (Some x) (?t, w1) = (t2, w2)" by fastforce
  have "transition_status sv to who act et m err ts tw = emit_event sv et err m (t2, w2)"
    using s l(2) by (simp add: transition_status_def tw o Let_def append_audit_def)
  with save_task_live [OF ph l(3) _ st s] l(4) emit_event_live [of sv to _ "(t2, w2)"]
  show "live sv to (authorised_after act a) (transition_status sv to who act et m err ts tw)"
    and "stored (transition_status sv to who act et m err ts tw)"
    by simp_all
qed

section \<open>The execution loop keeps the invariant\<close>

lemma execute_live:
  assumes "live sv RUNNING a (t, w)" and "execute_with_timeout c p ctx to w = (r, w')"
    and "cc_task_id ctx = task_id t"
  shows "live sv RUNNING a (t, w')"
proof -
  have st: "has_started t"
    using assms(1) task_phase_started [of t "Some RUNNING" a] by (simp add: live_def ran_def)
  have w': "w_store w' = w_store w" "w_guild w' = w_guild w" "w_uuids w' = w_uuids w"
    "set (w_executions w') = insert (task_id t, cd_name (cap_descriptor c), w_mono w) (set (w_executions w))"
    using assms(2,3) by (auto simp: execute_with_timeout_def Let_def split: prod.splits option.splits if_splits)
  show ?thesis
    using assms(1) st by (auto simp: live_def world_ok_def w')
qed

lemma guild_publish_live:
  assumes "live sv s a (t, w)" and "guild_publish sv c h hint w = (r, w')"
  shows "live sv s a (t, w')" and "r = Inr ()"
proof -
  have g: "gs_ok (w_guild w)" using live_gs_ok [OF assms(1)] .
  from guild_publish_frame(3) [OF assms(2) g] show "r = Inr ()" .
  have "gs_ok (w_guild w')" using guild_publish_frame(1) [OF assms(2), of t] g by (simp add: run_frame_def)
  moreover have "w_uuids w' = w_uuids w" using guild_publish_frame(1) [OF assms(2), of t] by (simp add: run_frame_def)
  moreover have "w_executions w' = w_executions w"
    using assms(2) by (auto simp: guild_publish_def split: option.splits if_splits prod.splits)
  ultimately show "live sv s a (t, w')"
    using live_world_cong guild_publish_frame(2) [OF assms(2)] assms(1) by blast
qed

lemma guild_publish_success_live:
  assumes "live sv s a (t, w)" and "guild_publish_success sv c i w = (r, w')"
  shows "live sv s a (t, w')" and "r = Inl e \<Longrightarrow> compute_input_fingerprint (sv_digest sv) i = Inl e"
proof -
  have g: "gs_ok (w_guild w)" using live_gs_ok [OF assms(1)] .
  from guild_publish_success_frame(3) [OF assms(2) g]
  show "r = Inl e \<Longrightarrow> compute_input_fingerprint (sv_digest sv) i = Inl e" .
  have "gs_ok (w_guild w')" using guild_publish_success_frame(1) [OF assms(2), of t] g by (simp add: run_frame_def)
  moreover have "w_uuids w' = w_uuids w"
    using guild_publish_success_frame(1) [OF assms(2), of t] by (simp add: run_frame_def)
  moreover have "w_executions w' = w_executions w"
    using assms(2) by (auto simp: guild_publish_success_def split: option.splits if_splits prod.splits)
  ultimately show "live sv s a (t, w')"
    using live_world_cong guild_publish_success_frame(2) [OF assms(2)] assms(1) by blast
qed

lemma stored_guild:
  "stored (t, w) \<Longrightarrow> w_store w' = w_store w \<Longrightarrow> stored (t, w')"
  by (simp add: stored_def)

lemma do_escalate_live:
  assumes "live sv RUNNING a tw" and "do_escalate sv h st e rs tw = (r, tw')"
  shows "live sv ESCALATED a tw'" and "stored tw'" and "r = Inr ()"
proof -
  obtain t w where tw: "tw = (t, w)" by fastforce
  from assms(2) [unfolded tw] have "live sv ESCALATED a tw' \<and> stored tw' \<and> r = Inr ()"
  proof (rule do_escalate_stages)
    fix res md x w2 t3 w3 w4
    assume s: "w_store w2 = w_store w" "w_executions w2 = w_executions w"
      "run_frame (t, w) (t\<lparr>task_result := res\<rparr>, w2)"
      "transition_status sv ESCALATED ''supervisor'' ''escalated'' TASK_ESCALATED md (Some (exc_str e)) (Some x)
        (t\<lparr>task_result := res\<rparr>, w2) = (t3, w3)"
      "guild_publish sv (task_capability t3) h hint_escalated w3 = (r, w4)" "tw' = (t3, w4)"
    have "live sv RUNNING a (t, w2)"
      using assms(1) s(1,2,3) by (auto simp: tw live_def world_ok_def run_frame_def)
    then have "live sv RUNNING a (t\<lparr>task_result := res\<rparr>, w2)" by simp
    from transition_live [OF this, of "''escalated''" ESCALATED "''supervisor''" TASK_ESCALATED md
        "Some (exc_str e)" "Some x"]
    have l: "live sv ESCALATED a (t3, w3)" "stored (t3, w3)"
      by (simp_all add: s(4) audit_edges_def authorised_after_def)
    from guild_publish_live [OF l(1) s(5)] stored_guild [OF l(2) guild_publish_frame(2) [OF s(5)]]
    show ?thesis by (simp add: s(6))
  qed
  then show "live sv ESCALATED a tw'" and "stored tw'" and "r = Inr ()" by auto
qed

lemma run_attempt_live:
  assumes "live sv RUNNING a tw" and "run_attempt sv c ec st tw = (r, tw')"
  shows "(\<exists>e. r = Some e \<and> live sv RUNNING a tw') \<or>
    (live sv COMPLETED a tw' \<and> stored tw' \<and>
      (\<forall>e. r = Some e \<longrightarrow> compute_input_fingerprint (sv_digest sv) (task_input (fst tw')) = Inl e))"
proof -
  obtain t w where tw: "tw = (t, w)" by fastforce
  from assms(2) [unfolded tw] show ?thesis
  proof (cases rule: run_attempt_stages)
    case (invalid e)
    with assms(1) show ?thesis by (simp add: tw)
  next
    case (failed p e w1)
    with execute_live [OF assms(1) [unfolded tw] failed(2)] show ?thesis by simp
  next
    case (completed p out w1 x w2 t3 w3 g w4)
    have "live sv RUNNING a (t, w1)"
      using execute_live [OF assms(1) [unfolded tw] completed(2)] by simp
    from now_utc_live [OF this completed(3)]
    have "live sv RUNNING a (t\<lparr>task_result := Some (success_result out st x)\<rparr>, w2)" by simp
    from transition_live [OF this, of "''completed''" COMPLETED "''supervisor''" TASK_COMPLETED
        "[(''attempt'', PInt (task_attempt t))]" None "Some x"]
    have l: "live sv COMPLETED a (t3, w3)" "stored (t3, w3)"
      by (simp_all add: completed(4) audit_edges_def authorised_after_def)
    from guild_publish_success_live [OF l(1) completed(5)]
      stored_guild [OF l(2) guild_publish_success_frame(2) [OF completed(5)]]
    show ?thesis by (auto simp: completed(6,7) split: sum.splits)
  qed
qed

lemma retry_announced_live:
  assumes "live sv RUNNING a tw"
  shows "live sv RUNNING a (retry_announced sv e d tw)"
  unfolding retry_announced_def
  by (rule emit_event_live(1), rule save_live(1), rule retry_entry_live, rule assms)

lemma retry_sleep_live: "live sv s a (t, w) \<Longrightarrow> live sv s a (t, retry_sleep d w)"
  by (rule live_world_cong [where w = w])
    (auto simp: retry_sleep_def time_sleep_def live_def world_ok_def split: option.splits)

lemma retry_task_live: "live sv s a (t, w) \<Longrightarrow> live sv s a (retry_task d t, w)"
  by (simp add: retry_task_def Let_def split: option.split)

text \<open>What the handler leaves behind, by the way it leaves the loop.\<close>

definition left_ok :: "supervisor \<Rightarrow> bool \<Rightarrow> exc option \<Rightarrow> tw \<Rightarrow> bool" where
  "left_ok sv a lx tw \<longleftrightarrow> (case lx of
      None \<Rightarrow> stored tw \<and> (live sv COMPLETED a tw \<or> live sv ESCALATED a tw)
    | Some e \<Rightarrow> live sv RUNNING a tw)"

lemma retry_or_escalate_live:
  assumes "live sv RUNNING a tw" and "retry_or_escalate sv st h e d tw = (n, tw')"
  shows "case n of Raised e' \<Rightarrow> False | Leave lx \<Rightarrow> left_ok sv a lx tw' | Again \<Rightarrow> live sv RUNNING a tw'"
proof -
  obtain t w where tw: "tw = (t, w)" by fastforce
  have l: "live sv RUNNING a (t, w)" "live sv RUNNING a (retry_task d t, w)"
    using assms(1) retry_task_live by (simp_all add: tw)
  have esc: "case n of Raised e' \<Rightarrow> False | Leave lx \<Rightarrow> left_ok sv a lx tw' | Again \<Rightarrow> live sv RUNNING a tw'"
    if "live sv RUNNING a tw0" and "(n, tw') = (case do_escalate sv h st e rs tw0 of
      (Inl e', tw) \<Rightarrow> (Raised e', tw) | (Inr _, tw) \<Rightarrow> (Leave None, tw))" for tw0 rs
  proof -
    obtain r tw1 where "do_escalate sv h st e rs tw0 = (r, tw1)" by (meson surj_pair)
    with do_escalate_live [OF that(1) this] that(2) show ?thesis by (simp add: left_ok_def)
  qed
  show ?thesis
  proof (cases "rd_should_retry d")
    case False
    show ?thesis
    proof (cases "rd_escalate d \<or> should_escalate sv h")
      case True
      with False assms(2) show ?thesis 
        by (intro esc [OF l(1), where rs = "if rd_escalate d then rd_reason d else None"]) (simp add: tw retry_or_escalate_cases)
    next
      case no: False
      with False assms(2) l(1) show ?thesis by (auto simp: tw retry_or_escalate_cases left_ok_def)
    qed
  next
    case True
    show ?thesis
    proof (cases "should_escalate sv h")
      case esc2: True
      with True assms(2) show ?thesis 
        by (intro esc [OF l(2), where rs = None]) (simp add: tw retry_or_escalate_cases)
    next
      case False
      obtain t2 w2 where r: "retry_announced sv e d (retry_task d t, w) = (t2, w2)" by fastforce
      have "n = Again" "tw' = (t2, retry_sleep d w2)"
        using True False assms(2) r by (simp_all add: tw retry_or_escalate_cases)
      with retry_announced_live [OF l(2), of e d] r show ?thesis by (simp add: retry_sleep_live)
    qed
  qed
qed

lemma handle_failure_live:
  assumes "live sv RUNNING a tw" and "handle_failure sv st h e tw = (n, h', tw')"
  shows "case n of Raised e' \<Rightarrow> live sv RUNNING a tw' | Leave lx \<Rightarrow> left_ok sv a lx tw' | Again \<Rightarrow> live sv RUNNING a tw'"
proof -
  obtain t w where tw: "tw = (t, w)" by fastforce
  from assms(2) [unfolded tw] show ?thesis
  proof (cases rule: handle_failure_stages)
    case (no_fingerprint e')
    with assms(1) show ?thesis by (simp add: tw)
  next
    case (decided fp t1 w1)
    have l1: "live sv RUNNING a (t1, w1)"
      unfolding decided(3) [symmetric]
      by (rule save_live(1), rule note_live) (use assms(1) in \<open>simp_all add: tw audit_notes_def\<close>)
    have l: "live sv RUNNING a (t1, w1\<lparr>w_decides := Suc (w_decides w1)\<rparr>)"
      by (rule live_world_cong [OF _ _ _ _ l1]) (use live_gs_ok [OF l1] in simp_all)
    from decided(4) show ?thesis
    proof (elim disjE exE conjE)
      fix d assume "retry_or_escalate sv st h' e d (t1, w1\<lparr>w_decides := Suc (w_decides w1)\<rparr>) = (n, tw')"
      from retry_or_escalate_live [OF l this] show ?thesis by (auto split: loop_next.splits)
    qed (use l in auto)
  qed
qed

lemma handle_failure_unserialisable:
  assumes "compute_input_fingerprint (sv_digest sv) (task_input (fst tw)) = Inl e'"
  shows "handle_failure sv st h e tw = (Raised e', h, tw)"
  using assms by (cases tw) (simp add: handle_failure_def)

lemma run_loop_live:
  "run_loop sv c ec st h tw = (r, h', tw') \<Longrightarrow> live sv RUNNING a tw \<Longrightarrow>
   case r of Inl e \<Rightarrow> world_ok sv (snd tw') | Inr lx \<Rightarrow> left_ok sv a lx tw'"
proof (induction sv c ec st h tw arbitrary: r h' tw' rule: run_loop.induct)
  case (1 sv c ec st h tw)
  note unfold = run_loop.simps [of sv c ec st h tw]
  have world: "world_ok sv (snd q)" if "live sv s a q" for q s
    using that live_world by (cases q) auto
  obtain x tw1 where at: "run_attempt sv c ec st tw = (x, tw1)" by (meson surj_pair)
  from run_attempt_live [OF 1(3) at] show ?case
  proof (elim disjE exE conjE)
    fix e assume x: "x = Some e" and l: "live sv RUNNING a tw1"
    show ?thesis
    proof (cases "is_exception e")
      case False
      with 1(2) at x world [OF l] show ?thesis by (auto simp: unfold)
    next
      case True
      obtain n h2 tw2 where f: "handle_failure sv st h e tw1 = (n, h2, tw2)" by (metis prod_cases3)
      note lf = handle_failure_live [OF l f]
      show ?thesis
      proof (cases n)
        case Again
        have "run_loop sv c ec st h2 tw2 = (r, h', tw')"
          using 1(2) at x True f Again by (simp add: unfold)
        from 1(1) [OF at [symmetric] x _ f [symmetric] Again refl this] True lf Again show ?thesis by simp
      next
        case (Raised e')
        with 1(2) at x True f lf world [of RUNNING tw2] show ?thesis by (auto simp: unfold)
      next
        case (Leave lx)
        with 1(2) at x True f lf show ?thesis by (auto simp: unfold)
      qed
    qed
  next
    assume l: "live sv COMPLETED a tw1" "stored tw1"
      and e: "\<forall>e. x = Some e \<longrightarrow> compute_input_fingerprint (sv_digest sv) (task_input (fst tw1)) = Inl e"
    show ?thesis
    proof (cases x)
      case None
      with 1(2) at l show ?thesis by (auto simp: unfold left_ok_def)
    next
      case (Some e0)
      with e have u: "compute_input_fingerprint (sv_digest sv) (task_input (fst tw1)) = Inl e0" by simp
      from handle_failure_unserialisable [OF this] 1(2) at Some world [OF l(1)] show ?thesis
        by (auto simp: unfold split: if_splits)
    qed
  qed
qed

section \<open>Whole runs keep the invariant\<close>

definition settled :: "task_status \<Rightarrow> bool" where
  "settled s \<longleftrightarrow> s \<in> {COMPLETED, FAILED, ESCALATED}"

text \<open>What a returned run promises: the world is in order, and a returned task is the stored one and
  has come to rest.\<close>

definition run_ok :: "supervisor \<Rightarrow> (task_status \<Rightarrow> bool) \<Rightarrow> (exc + task_record) \<times> world \<Rightarrow> bool" where
  "run_ok sv P rw \<longleftrightarrow> world_ok sv (snd rw) \<and>
     (\<forall>t. fst rw = Inr t \<longrightarrow> stored (t, snd rw) \<and> audit_ok t \<and> P (task_status t))"

lemma live_status: "live sv s a (t, w) \<Longrightarrow> task_status t = s"
  by (simp add: live_def)

lemma run_ok_Inr: "live sv s a (t, w) \<Longrightarrow> stored (t, w) \<Longrightarrow> P s \<Longrightarrow> run_ok sv P (Inr t, w)"
  by (auto simp: run_ok_def live_status dest: live_world live_audit_ok)

lemma run_ok_Inl: "run_ok sv P (Inl e, w) \<longleftrightarrow> world_ok sv w"
  by (simp add: run_ok_def)

lemma finish_run_live:
  assumes "left_ok sv a lx (t, w)" and "finish_run sv st lx h (t, w) = (r, w')"
  shows "run_ok sv settled (r, w')"
  using assms(2)
proof (cases rule: finish_run_stages)
  case finished
  with assms(1) show ?thesis
    by (auto simp: left_ok_def settled_def intro: run_ok_Inr)
next
  case (guild e e')
  with assms(1) guild_publish_live(2) [OF _ guild(2)] show ?thesis by (auto simp: left_ok_def)
next
  case (failed e w1 x w2 t3)
  have "live sv RUNNING a (t, w)" using assms(1) failed(1) by (simp add: left_ok_def)
  from now_utc_live [OF guild_publish_live(1) [OF this failed(2)] failed(3)]
  have "live sv RUNNING a (t\<lparr>task_result := Some \<lparr>res_success = False, res_output = PNone, res_error = Some (exc_str e),
      res_metadata = [], res_started_at = Some st, res_completed_at = Some x\<rparr>\<rparr>, w2)" by simp
  from transition_live [OF this, of "''failed''" FAILED "''supervisor''" TASK_FAILED
      "[(''attempt'', PInt (task_attempt t))]" "Some (exc_str e)" "Some x"]
  have l: "live sv FAILED a (t3, w')" "stored (t3, w')"
    by (simp_all add: failed(4) audit_edges_def authorised_after_def)
  show ?thesis using run_ok_Inr [OF l, of settled] by (simp add: failed(5) settled_def)
qed

lemma apply_suggestion_live:
  assumes "live sv s a (t, w)" and "apply_suggestion sv (t, w) = (r, tw')"
  shows "live sv s a tw'"
  using apply_suggestion_cases [OF assms(2)]
proof (elim disjE exE conjE)
  fix i md
  assume "tw' = save_task sv None (append_audit sv ''guild'' ''peer_suggestion_applied'' None None md None
      (t\<lparr>task_input := i\<rparr>, w))"
  then show ?thesis
    using assms(1) by (simp add: save_live(1) note_live audit_notes_def)
next
  fix md
  assume "tw' = save_task sv None (append_audit sv ''guild'' ''peer_suggestion_applied'' None None md None (t, w))"
  then show ?thesis
    using assms(1) by (simp add: save_live(1) note_live audit_notes_def)
qed (use assms(1) in simp)

lemma wait_window_live:
  assumes "live sv s a (t, w)" and "wait_for_execution_window sv name w = (r, w')"
  shows "live sv s a (t, w')"
  using live_world_cong [OF wait_window_frame(2) [OF assms(2)] _ _ wait_window_frame(3) [OF assms(2)] assms(1)]
    wait_window_frame(1) [OF assms(2), of t] live_gs_ok [OF assms(1)]
  by (simp add: run_frame_def)

lemma execute_task_live:
  assumes l: "live sv s True (t, w)" and s: "s = PENDING \<or> s = APPROVED"
    and ex: "execute_task sv c (t, w) = (r, w')"
  shows "run_ok sv settled (r, w')"
  using ex
proof (cases rule: execute_task_stages)
  case (suggestion e tw1)
  from apply_suggestion_live [OF l suggestion(1)] suggestion show ?thesis
    by (cases tw1) (auto simp: run_ok_def dest: live_world)
next
  case (controls t1 w1 e)
  from apply_suggestion_live [OF l controls(1)] controls show ?thesis
    by (auto simp: run_ok_def dest: live_world)
next
  case (window t1 w1 e)
  from wait_window_live [OF apply_suggestion_live [OF l window(1)] window(2)] window(3) show ?thesis
    by (auto simp: run_ok_def dest: live_world)
next
  case (ran t1 w1 ec w2 x w3 t4 w4 lr h t5 w5)
  from now_utc_live [OF wait_window_live [OF apply_suggestion_live [OF l ran(1)] ran(3)] ran(4)]
  have "live sv s True (t1\<lparr>task_attempt := task_attempt t1 + 1\<rparr>, w3)" by simp
  from transition_live(1) [OF this, of "''started''" RUNNING "''supervisor''" TASK_STARTED _ None "Some x"] s
  have "live sv RUNNING True (t4, w4)"
    by (auto simp: ran(5) [symmetric] audit_edges_def authorised_after_def)
  note lo = run_loop_live [OF ran(6) this]
  from ran(7) show ?thesis
  proof (elim disjE exE conjE)
    fix e assume "lr = Inl e" "r = Inl e" "w' = w5"
    with lo show ?thesis by (simp add: run_ok_Inl)
  next
    fix lx assume a: "lr = Inr lx" "finish_run sv x lx h (t5, w5) = (r, w')"
    with lo have "left_ok sv True lx (t5, w5)" by simp
    from finish_run_live [OF this a(2)] show ?thesis .
  qed
qed

lemma apply_policy_live:
  assumes l: "live sv PENDING a (t, w)" and p: "apply_policy sv d (t, w) = (t1, w1)"
  shows "case pd_decision d of
      DENY \<Rightarrow> live sv POLICY_DENIED a (t1, w1) \<and> stored (t1, w1)
    | REQUIRE_APPROVAL \<Rightarrow> live sv AWAITING_APPROVAL False (t1, w1) \<and> stored (t1, w1)
    | ALLOW \<Rightarrow> live sv PENDING True (t1, w1) \<and> stored (t1, w1)"
proof -
  have tick: "live sv PENDING a (t\<lparr>task_result := q\<rparr>, w\<lparr>w_tick := n\<rparr>)" for q n
    using l by (simp add: live_def world_ok_def task_phase_def has_started_def)
  have deny: "live sv POLICY_DENIED a tw1 \<and> stored tw1"
    if "transition_status sv POLICY_DENIED ''policy'' ''denied'' et m err ts
      (t\<lparr>task_result := q\<rparr>, w\<lparr>w_tick := n\<rparr>) = tw1" for tw1 et m err ts q n
    using transition_live [OF tick [of q n], of "''denied''" POLICY_DENIED "''policy''" et m err ts] that
    by (simp add: audit_edges_def authorised_after_def)
  have await: "live sv AWAITING_APPROVAL False tw1 \<and> stored tw1"
    if "transition_status sv AWAITING_APPROVAL ''policy'' ''awaiting_approval'' et m err ts (t, w) = tw1"
    for tw1 et m err ts
    using transition_live [OF l, of "''awaiting_approval''" AWAITING_APPROVAL "''policy''" et m err ts] that
    by (simp add: audit_edges_def authorised_after_def)
  have allow: "live sv PENDING True tw1 \<and> stored tw1"
    if "save_task sv None (append_audit sv ''policy'' ''allowed'' (Some PENDING) (Some PENDING) m None (t, w)) = tw1"
    for tw1 m
    unfolding that [symmetric] using save_live [OF allowed_entry_live [OF l]] by blast
  show ?thesis
    using p by (cases "pd_decision d") (auto simp: apply_policy_def Let_def now_utc_def dest: deny await allow)
qed

lemma world_live:
  assumes "world_ok sv w" and "get_task w tid = Inr t"
  shows "\<exists>a. live sv (task_status t) a (t, w)" and "task_id t = tid" and "stored (t, w)" and "audit_ok t"
proof -
  have g: "ms_get (w_store w) tid = Some t" using assms(2) by (simp add: get_task_Inr)
  then show id: "task_id t = tid" using assms(1) by (auto simp: world_ok_def dest: ms_get_id)
  from g assms(1) show ok: "audit_ok t" by (auto simp: world_ok_def)
  from g id show "stored (t, w)" by (simp add: stored_def)
  from ok g id assms(1) show "\<exists>a. live sv (task_status t) a (t, w)"
    by (auto simp: audit_ok_def live_def)
qed

text \<open>Only an approval leads to \<open>APPROVED\<close>, so a task found there is authorised.\<close>

lemma edge_approved: "(s, act, APPROVED) \<in> set audit_edges \<Longrightarrow> act = ''approved''"
  by (simp add: audit_edges_def)

lemma approved_authorised: "task_phase t = Some (Some APPROVED, a) \<Longrightarrow> a"
proof -
  have step: "audit_step (s, b) e = Some (Some APPROVED, c) \<Longrightarrow> (s = Some APPROVED \<longrightarrow> b) \<Longrightarrow> c" for s b e c
    by (auto simp: authorised_after_def split: option.splits if_splits dest: edge_approved)
  have "audit_run (s, b) es = Some (Some APPROVED, a) \<Longrightarrow> (s = Some APPROVED \<longrightarrow> b) \<Longrightarrow> a" for s b es
  proof (induction es arbitrary: s b)
    case (Cons e es)
    then obtain s1 b1 where st: "audit_step (s, b) e = Some (s1, b1)" "audit_run (s1, b1) es = Some (Some APPROVED, a)"
      by (auto split: option.splits)
    show ?case
      by (rule Cons.IH [OF st(2)]) (use step [of s b e b1] st(1) Cons.prems(2) in blast)
  qed simp
  then show "task_phase t = Some (Some APPROVED, a) \<Longrightarrow> a" by (force simp: task_phase_def)
qed

definition rested :: "task_status \<Rightarrow> bool" where
  "rested s \<longleftrightarrow> settled s \<or> s = POLICY_DENIED \<or> s = AWAITING_APPROVAL"

lemma run_ok_mono: "run_ok sv P rw \<Longrightarrow> (\<And>s. P s \<Longrightarrow> Q s) \<Longrightarrow> run_ok sv Q rw"
  by (auto simp: run_ok_def)

lemma run_task_ok:
  assumes ok: "world_ok sv w" and run: "run_task sv tid w = (r, w')"
  shows "run_ok sv (\<lambda>s. rested s \<or> get_task w tid = r \<and> w' = w \<and> \<not> executable_status s) (r, w')"
  using run
proof (cases rule: run_task_stages)
  case (idle t)
  with world_live [OF ok idle(1)] ok show ?thesis by (simp add: run_ok_def)
next
  case (gated t c t1)
  obtain a where "live sv PENDING a (t, w)" using world_live(1) [OF ok gated(1)] gated(2) by auto
  from transition_live [OF this, of "''awaiting_approval''" AWAITING_APPROVAL "''supervisor''"
      TASK_AWAITING_APPROVAL "[(''reason'', PStr ''capability requires approval''),
       (''capability'', PStr (task_capability t))]" None None]
  have l: "live sv AWAITING_APPROVAL False (t1, w')" "stored (t1, w')"
    using gated(5) by (simp_all add: approval_gate_def audit_edges_def authorised_after_def)
  show ?thesis unfolding gated(6) by (rule run_ok_Inr [OF l]) (simp add: rested_def)
next
  case (stopped t c d t1)
  obtain a where "live sv PENDING a (t, w)" using world_live(1) [OF ok stopped(1)] stopped(2) by auto
  from apply_policy_live [OF this stopped(6)] stopped(7,8) show ?thesis
    by (auto simp: rested_def split: policy_decision_type.splits intro: run_ok_Inr dest: live_status)
next
  case (allowed t c d t1 w1)
  obtain a where "live sv PENDING a (t, w)" using world_live(1) [OF ok allowed(1)] allowed(2) by auto
  from apply_policy_live [OF this allowed(6)] allowed(7) have "live sv PENDING True (t1, w1)"
    by (auto split: policy_decision_type.splits dest: live_status)
  from execute_task_live [OF this _ allowed(8)] have "run_ok sv settled (r, w')" by simp
  then show ?thesis by (rule run_ok_mono) (simp add: rested_def)
next
  case (approved t c)
  obtain a where l: "live sv APPROVED a (t, w)" using world_live(1) [OF ok approved(1)] approved(2) by auto
  then have a using approved_authorised [of t a] by (simp add: live_def approved(2))
  with l have "live sv APPROVED True (t, w)" by simp
  from execute_task_live [OF this _ approved(4)] have "run_ok sv settled (r, w')" by simp
  then show ?thesis by (rule run_ok_mono) (simp add: rested_def)
qed (use ok in \<open>simp_all add: run_ok_Inl\<close>)

end
