(* ===== verification/Supervisor_Runs.thy ===== *)
theory Supervisor_Runs
  imports Supervisor_Lifecycle
begin

text \<open>
  The run of a task against a reference: \<open>try_times\<close> calls a function until it succeeds or the
  retries are used up.  With the default retry strategy and the guild and escalation off,
  \<^verbatim>\<open>run_task\<close> is that function over the capability's outcomes, whatever the clocks, the audit
  entries and the store do around it.
\<close>

section \<open>The reference\<close>

fun try_times :: "(nat \<Rightarrow> exc + 'a) \<Rightarrow> nat \<Rightarrow> nat \<Rightarrow> (exc + 'a) \<times> nat" where
  "try_times f n 0 = (f n, 1)"
| "try_times f n (Suc k) = (case f n of
       Inr x \<Rightarrow> (Inr x, 1)
     | Inl e \<Rightarrow> (case try_times f (Suc n) k of (r, m) \<Rightarrow> (r, Suc m)))"

text \<open>The outcome of the \<open>n\<close>-th call of a capability under its timeout.\<close>

definition call_outcome ::
  "capability \<Rightarrow> pyval \<Rightarrow> cap_context \<Rightarrow> rat option \<Rightarrow> nat \<Rightarrow> exc + cap_result" where
  "call_outcome c p ctx to n = (case cap_execute c n p ctx of (elapsed, outcome) \<Rightarrow>
     (case to of None \<Rightarrow> outcome
      | Some t \<Rightarrow> if elapsed > max 0 t then Inl (Timeout_Error (timeout_message t)) else outcome))"

lemma try_times_pos: "try_times f n k = (r, m) \<Longrightarrow> 0 < m \<and> m \<le> Suc k"
  by (induction f n k arbitrary: m rule: try_times.induct) (auto split: sum.splits prod.splits)

text \<open>It is the first success within the budget, or the last failure.\<close>

lemma try_times_spec:
  "try_times f n k = (r, m) \<Longrightarrow>
   r = f (n + m - 1) \<and> (\<forall>i < m - 1. \<exists>e. f (n + i) = Inl e) \<and> ((\<exists>e. r = Inl e) \<longrightarrow> m = Suc k)"
proof (induction f n k arbitrary: m rule: try_times.induct)
  case (1 f n)
  then show ?case by auto
next
  case (2 f n k)
  show ?case
  proof (cases "f n")
    case (Inr x)
    with 2 show ?thesis by auto
  next
    case (Inl e)
    with 2(2) obtain m' where t: "try_times f (Suc n) k = (r, m')" and m: "m = Suc m'"
      by (auto split: prod.splits)
    have pos: "0 < m'" using try_times_pos [OF t] by simp
    have fails: "\<exists>e. f (n + i) = Inl e" if i: "i < m - 1" for i
    proof (cases i)
      case 0
      with Inl show ?thesis by simp
    next
      case (Suc j)
      with 2(1) [OF Inl t] i m have "\<exists>e. f (Suc n + j) = Inl e" by auto
      with Suc show ?thesis by simp
    qed
    have last: "r = f (Suc n + m' - 1)" and "(\<exists>e. r = Inl e) \<longrightarrow> m' = Suc k"
      using 2(1) [OF Inl t] by blast+
    moreover have "Suc n + m' - 1 = n + m - 1" using m pos by simp
    ultimately have "r = f (n + m - 1)" and "(\<exists>e. r = Inl e) \<longrightarrow> m = Suc (Suc k)"
      using m by metis+
    with fails show ?thesis by blast
  qed
qed

section \<open>What the helpers leave of the task and the log\<close>

lemma append_audit_fields [simp]:
  "task_id (fst (append_audit sv a b f t m ts tw)) = task_id (fst tw)"
  "task_name (fst (append_audit sv a b f t m ts tw)) = task_name (fst tw)"
  "task_input (fst (append_audit sv a b f t m ts tw)) = task_input (fst tw)"
  "task_status (fst (append_audit sv a b f t m ts tw)) = task_status (fst tw)"
  "task_result (fst (append_audit sv a b f t m ts tw)) = task_result (fst tw)"
  "task_capability (fst (append_audit sv a b f t m ts tw)) = task_capability (fst tw)"
  "w_events (snd (append_audit sv a b f t m ts tw)) = w_events (snd tw)"
  "w_guild (snd (append_audit sv a b f t m ts tw)) = w_guild (snd tw)"
  by (auto simp: append_audit_def or_now_def now_utc_def split: prod.splits option.splits)

lemma save_task_fields [simp]:
  "task_id (fst (save_task sv ts tw)) = task_id (fst tw)"
  "task_name (fst (save_task sv ts tw)) = task_name (fst tw)"
  "task_input (fst (save_task sv ts tw)) = task_input (fst tw)"
  "task_status (fst (save_task sv ts tw)) = task_status (fst tw)"
  "task_result (fst (save_task sv ts tw)) = task_result (fst tw)"
  "task_capability (fst (save_task sv ts tw)) = task_capability (fst tw)"
  "w_events (snd (save_task sv ts tw)) = w_events (snd tw)"
  "w_guild (snd (save_task sv ts tw)) = w_guild (snd tw)"
  by (auto simp: save_task_def or_now_def now_utc_def Let_def split: prod.splits option.splits)

definition quiet_bus :: "supervisor \<Rightarrow> bool" where
  "quiet_bus sv \<longleftrightarrow> (\<forall>n e. \<not> sv_bus_raises sv n e)"

lemma emit_event_types:
  "quiet_bus sv \<Longrightarrow> map ev_event_type (w_events (snd (emit_event sv et err m tw))) =
     map ev_event_type (w_events (snd tw)) @ [et]"
  by (auto simp: emit_event_def now_utc_def Let_def quiet_bus_def split: prod.splits)

lemma emit_event_guild [simp]: "w_guild (snd (emit_event sv et err m tw)) = w_guild (snd tw)"
  by (auto simp: emit_event_def now_utc_def Let_def split: prod.splits)

lemma or_now_guild: "or_now sv ts w = (x, w') \<Longrightarrow> w_guild w' = w_guild w"
  by (auto simp: or_now_def now_utc_def split: option.splits)

lemma transition_fields [simp]:
  "task_id (fst (transition_status sv st a b et m err ts tw)) = task_id (fst tw)"
  "task_name (fst (transition_status sv st a b et m err ts tw)) = task_name (fst tw)"
  "task_input (fst (transition_status sv st a b et m err ts tw)) = task_input (fst tw)"
  "task_status (fst (transition_status sv st a b et m err ts tw)) = st"
  "task_result (fst (transition_status sv st a b et m err ts tw)) = task_result (fst tw)"
  "task_capability (fst (transition_status sv st a b et m err ts tw)) = task_capability (fst tw)"
  "w_guild (snd (transition_status sv st a b et m err ts tw)) = w_guild (snd tw)"
  by (auto simp: transition_status_def Let_def split: prod.splits dest: or_now_guild)

lemma or_now_events: "or_now sv ts w = (x, w') \<Longrightarrow> w_events w' = w_events w"
  by (auto simp: or_now_def now_utc_def split: option.splits)

lemma transition_types:
  "quiet_bus sv \<Longrightarrow> map ev_event_type (w_events (snd (transition_status sv st a b et m err ts tw))) =
     map ev_event_type (w_events (snd tw)) @ [et]"
  by (auto simp: transition_status_def Let_def emit_event_types split: prod.splits dest: or_now_events)

lemma execute_outcome:
  "execute_with_timeout c p ctx to w = (r, w') \<Longrightarrow>
   r = call_outcome c p ctx to (length (w_executions w)) \<and>
   length (w_executions w') = Suc (length (w_executions w)) \<and> w_events w' = w_events w \<and> w_guild w' = w_guild w"
  by (auto simp: execute_with_timeout_def call_outcome_def Let_def split: prod.splits option.splits if_splits)

section \<open>A supervisor with only retries\<close>

definition simple_retries :: "supervisor \<Rightarrow> bool" where
  "simple_retries sv \<longleftrightarrow> sv_retry_strategy sv = default_retry \<and> sv_escalation_policy sv = None \<and> quiet_bus sv"

definition plain_supervisor :: "supervisor \<Rightarrow> bool" where
  "plain_supervisor sv \<longleftrightarrow> simple_retries sv \<and>
     \<not> guild_enabled (sv_guild_knowledge sv) \<and> \<not> guild_enabled (sv_peer_suggestions sv)"

lemma plain_simple: "plain_supervisor sv \<Longrightarrow> simple_retries sv"
  by (simp add: plain_supervisor_def)

lemma plain_quiet: "plain_supervisor sv \<Longrightarrow> quiet_bus sv"
  by (simp add: plain_supervisor_def simple_retries_def)

lemma plain_no_publish:
  "plain_supervisor sv \<Longrightarrow> guild_publish sv c h hint w = (Inr (), w)"
  "plain_supervisor sv \<Longrightarrow> guild_publish_success sv c i w = (Inr (), w)"
  "plain_supervisor sv \<Longrightarrow> apply_suggestion sv (t, w) = (Inr (), t, w)"
  by (auto simp: plain_supervisor_def guild_enabled_def guild_publish_def guild_publish_success_def
      apply_suggestion_def split: option.splits)

lemma handle_failure_plain:
  assumes "simple_retries sv" and "json_able (PDict (task_input t))"
    and "handle_failure sv st h e (t, w) = (n, h', t', w')"
  shows "task_id t' = task_id t" "task_name t' = task_name t" "task_input t' = task_input t"
    "task_max_retries t' = task_max_retries t" "task_status t' = task_status t"
    "task_capability t' = task_capability t" "w_executions w' = w_executions w"
    "w_guild w' = w_guild w"
    and "if task_attempt t \<le> task_max_retries t
      then n = Again \<and> task_attempt t' = task_attempt t + 1 \<and>
        map ev_event_type (w_events w') = map ev_event_type (w_events w) @ [TASK_RETRY]
      else n = Leave (Some e) \<and> task_attempt t' = task_attempt t \<and> w_events w' = w_events w"
proof -
  obtain fp where fp: "compute_input_fingerprint (sv_digest sv) (task_input t) = Inr fp"
    using assms(2) by (simp add: compute_input_fingerprint_def del: json_able.simps)
  let ?f = "failure_of t e fp"
  let ?s = "save_task sv None (append_audit sv ''supervisor'' ''failure_recorded'' None None (failure_dump ?f) None (t, w))"
  obtain t1 w1 where s: "?s = (t1, w1)" by fastforce
  have t1: "task_id t1 = task_id t" "task_name t1 = task_name t" "task_input t1 = task_input t"
    "task_max_retries t1 = task_max_retries t" "task_status t1 = task_status t"
    "task_capability t1 = task_capability t" "task_attempt t1 = task_attempt t"
    "w_executions w1 = w_executions w" "w_events w1 = w_events w" "w_guild w1 = w_guild w"
    using arg_cong [OF s, of "\<lambda>p. task_id (fst p)"] arg_cong [OF s, of "\<lambda>p. task_name (fst p)"]
      arg_cong [OF s, of "\<lambda>p. task_input (fst p)"] arg_cong [OF s, of "\<lambda>p. task_max_retries (fst p)"]
      arg_cong [OF s, of "\<lambda>p. task_status (fst p)"] arg_cong [OF s, of "\<lambda>p. task_capability (fst p)"]
      arg_cong [OF s, of "\<lambda>p. task_attempt (fst p)"] arg_cong [OF s, of "\<lambda>p. w_executions (snd p)"]
      arg_cong [OF s, of "\<lambda>p. w_events (snd p)"] arg_cong [OF s, of "\<lambda>p. w_guild (snd p)"]
    by simp_all
  have no_esc: "should_escalate sv h2 = False" for h2
    using assms(1) by (simp add: simple_retries_def should_escalate_def)
  have dec: "retry_decide (sv_retry_strategy sv) (w_decides w1) ?f = Inr (default_decide default_flags ?f)"
    using assms(1) by (simp add: simple_retries_def default_retry_def)
  let ?w1 = "w1\<lparr>w_decides := Suc (w_decides w1)\<rparr>"
  let ?d = "default_decide default_flags ?f"
  have run: "(n, t', w') = retry_or_escalate sv st (h @ [?f]) e ?d (t1, ?w1)"
    using assms(3) fp s dec by (simp add: handle_failure_def Let_def split: prod.splits)
  have "task_id t' = task_id t \<and> task_name t' = task_name t \<and> task_input t' = task_input t \<and>
    task_max_retries t' = task_max_retries t \<and> task_status t' = task_status t \<and>
    task_capability t' = task_capability t \<and> w_executions w' = w_executions w \<and> w_guild w' = w_guild w \<and>
    (if task_attempt t \<le> task_max_retries t
      then n = Again \<and> task_attempt t' = task_attempt t + 1 \<and>
        map ev_event_type (w_events w') = map ev_event_type (w_events w) @ [TASK_RETRY]
      else n = Leave (Some e) \<and> task_attempt t' = task_attempt t \<and> w_events w' = w_events w)"
  proof (cases "task_attempt t \<le> task_max_retries t")
    case False
    then have d: "\<not> rd_should_retry ?d" "\<not> rd_escalate ?d"
      by (simp_all add: default_decide_def exhausted_decision_def failure_of_def default_flags_def)
    with run no_esc t1 False show ?thesis by (simp add: retry_or_escalate_cases)
  next
    case True
    then have d: "rd_should_retry ?d" "rd_delay_seconds ?d = None" "rd_adjusted_input ?d = None"
      by (simp_all add: default_decide_def retry_after_def failure_of_def)
    then have rt: "retry_task ?d t1 = t1\<lparr>task_attempt := task_attempt t1 + 1\<rparr>" by (simp add: retry_task_def)
    obtain t2 w2 where a: "retry_announced sv e ?d (retry_task ?d t1, ?w1) = (t2, w2)" by fastforce
    have t2: "task_id t2 = task_id t1" "task_name t2 = task_name t1" "task_input t2 = task_input t1"
      "task_max_retries t2 = task_max_retries t1" "task_status t2 = task_status t1"
      "task_capability t2 = task_capability t1" "task_attempt t2 = task_attempt t1 + 1"
      "w_executions w2 = w_executions w1" "w_guild w2 = w_guild w1"
      "map ev_event_type (w_events w2) = map ev_event_type (w_events w1) @ [TASK_RETRY]"
      using arg_cong [OF a, of "\<lambda>p. task_id (fst p)"] arg_cong [OF a, of "\<lambda>p. task_name (fst p)"]
        arg_cong [OF a, of "\<lambda>p. task_input (fst p)"] arg_cong [OF a, of "\<lambda>p. task_max_retries (fst p)"]
        arg_cong [OF a, of "\<lambda>p. task_status (fst p)"] arg_cong [OF a, of "\<lambda>p. task_capability (fst p)"]
        arg_cong [OF a, of "\<lambda>p. task_attempt (fst p)"] arg_cong [OF a, of "\<lambda>p. w_executions (snd p)"]
        arg_cong [OF a, of "\<lambda>p. w_guild (snd p)"] arg_cong [OF a, of "\<lambda>p. map ev_event_type (w_events (snd p))"] assms(1)
      by (simp_all add: retry_announced_def rt emit_event_types simple_retries_def)
    have "n = Again" "t' = t2" "w' = w2"
      using run d(1) no_esc a d(2) by (simp_all add: retry_or_escalate_cases retry_sleep_def)
    with t1 t2 True show ?thesis by simp
  qed
  then show "task_id t' = task_id t" "task_name t' = task_name t" "task_input t' = task_input t"
    "task_max_retries t' = task_max_retries t" "task_status t' = task_status t"
    "task_capability t' = task_capability t" "w_executions w' = w_executions w"
    "w_guild w' = w_guild w"
    and "if task_attempt t \<le> task_max_retries t
      then n = Again \<and> task_attempt t' = task_attempt t + 1 \<and>
        map ev_event_type (w_events w') = map ev_event_type (w_events w) @ [TASK_RETRY]
      else n = Leave (Some e) \<and> task_attempt t' = task_attempt t \<and> w_events w' = w_events w"
    by simp_all
qed

section \<open>The loop is the reference\<close>

lemma run_attempt_plain:
  assumes pl: "plain_supervisor sv" and v: "cap_validate_input c (task_input t) = Inr p"
    and r: "run_attempt sv c ec st (t, w) = (x, t', w')"
    and oc: "call_outcome c p \<lparr>cc_task_id = task_id t, cc_task_name = task_name t, cc_workdir = sv_workdir sv\<rparr>
      (ec_timeout_seconds ec) (length (w_executions w)) = oc"
  shows "length (w_executions w') = Suc (length (w_executions w)) \<and>
    (case oc of
       Inl e \<Rightarrow> x = Some e \<and> t' = t \<and> w_events w' = w_events w
     | Inr out \<Rightarrow> x = None \<and> task_status t' = COMPLETED \<and> task_attempt t' = task_attempt t \<and>
         (\<exists>y. task_result t' = Some (success_result out st y)) \<and>
         map ev_event_type (w_events w') = map ev_event_type (w_events w) @ [TASK_COMPLETED])"
  using r
proof (cases rule: run_attempt_stages)
  case (invalid e)
  with v show ?thesis by simp
next
  case (failed q e w1)
  have "q = p" using v failed(1) by simp
  with execute_outcome [OF failed(2)] oc
  have "oc = Inl e" "length (w_executions w1) = Suc (length (w_executions w))" "w_events w1 = w_events w" by simp_all
  with failed(3,4) show ?thesis by simp
next
  case (completed q out w1 y w2 t3 w3 g w4)
  have w2: "w_executions w2 = w_executions w1" "w_events w2 = w_events w1"
    using completed(3) by (auto simp: now_utc_def)
  have t3: "task_status t3 = COMPLETED" "task_attempt t3 = task_attempt t"
    "task_result t3 = Some (success_result out st y)" "w_executions w3 = w_executions w2"
    "map ev_event_type (w_events w3) = map ev_event_type (w_events w2) @ [TASK_COMPLETED]"
    using arg_cong [OF completed(4), of "\<lambda>p. task_status (fst p)"] arg_cong [OF completed(4), of "\<lambda>p. task_attempt (fst p)"]
      arg_cong [OF completed(4), of "\<lambda>p. task_result (fst p)"] arg_cong [OF completed(4), of "\<lambda>p. w_executions (snd p)"]
      arg_cong [OF completed(4), of "\<lambda>p. map ev_event_type (w_events (snd p))"] plain_quiet [OF pl]
    by (simp_all add: transition_types)
  have "g = Inr ()" "w4 = w3" using completed(5) plain_no_publish(2) [OF pl] by auto
  moreover have "q = p" using v completed(1) by simp
  with execute_outcome [OF completed(2)] oc
  have "oc = Inr out" "length (w_executions w1) = Suc (length (w_executions w))" "w_events w1 = w_events w" by simp_all
  ultimately show ?thesis using completed(6,7) t3 w2 by auto
qed

text \<open>What \<^verbatim>\<open>m\<close> attempts with outcome \<^verbatim>\<open>r\<close> have done to the task and the world.\<close>

definition attempts_done :: "task_record \<Rightarrow> world \<Rightarrow> int \<Rightarrow> exc + cap_result \<Rightarrow> nat \<Rightarrow> task_record \<Rightarrow> world \<Rightarrow> bool" where
  "attempts_done t w st r m t' w' \<longleftrightarrow>
     task_attempt t' = task_attempt t + int m - 1 \<and>
     length (w_executions w') = length (w_executions w) + m \<and>
     (case r of
        Inr out \<Rightarrow> task_status t' = COMPLETED \<and> (\<exists>y. task_result t' = Some (success_result out st y)) \<and>
          map ev_event_type (w_events w') = map ev_event_type (w_events w) @ replicate (m - 1) TASK_RETRY @ [TASK_COMPLETED]
      | Inl e \<Rightarrow> map ev_event_type (w_events w') = map ev_event_type (w_events w) @ replicate (m - 1) TASK_RETRY)"

lemma run_loop_plain:
  assumes pl: "plain_supervisor sv"
    and exc: "\<And>n e. f n = Inl e \<Longrightarrow> is_exception e"
    and f: "f = call_outcome c p ctx (ec_timeout_seconds ec)"
    and ctx: "ctx = \<lparr>cc_task_id = i, cc_task_name = nm, cc_workdir = sv_workdir sv\<rparr>"
    and js: "json_able (PDict inp)" and v: "cap_validate_input c inp = Inr p"
  shows "task_id t = i \<Longrightarrow> task_name t = nm \<Longrightarrow> task_input t = inp \<Longrightarrow>
    nat (task_max_retries t + 1 - task_attempt t) = k \<Longrightarrow>
    try_times f (length (w_executions w)) k = (r, m) \<Longrightarrow>
    \<exists>h' t' w'. run_loop sv c ec st h (t, w) =
        (Inr (case r of Inr _ \<Rightarrow> None | Inl e \<Rightarrow> Some e), h', t', w') \<and> attempts_done t w st r m t' w'"
proof (induction k arbitrary: t w h m)
  case (0 t w h m)
  obtain x t1 w1 where a: "run_attempt sv c ec st (t, w) = (x, t1, w1)" by (metis prod_cases3)
  have v0: "cap_validate_input c (task_input t) = Inr p" using v 0 by simp
  have oc: "call_outcome c p \<lparr>cc_task_id = task_id t, cc_task_name = task_name t, cc_workdir = sv_workdir sv\<rparr>
      (ec_timeout_seconds ec) (length (w_executions w)) = f (length (w_executions w))"
    using 0 f ctx by simp
  note at = run_attempt_plain [OF pl v0 a oc]
  have r: "r = f (length (w_executions w))" "m = 1" using 0 by simp_all
  show ?case
  proof (cases "f (length (w_executions w))")
    case (Inr out)
    with at r a show ?thesis by (simp add: run_loop.simps [of sv c ec st h "(t, w)"] attempts_done_def)
  next
    case (Inl e)
    with at have t1: "x = Some e" "t1 = t" "w_events w1 = w_events w"
      "length (w_executions w1) = Suc (length (w_executions w))" by simp_all
    obtain n h2 t2 w2 where hf: "handle_failure sv st h e (t, w1) = (n, h2, t2, w2)" by (metis prod_cases4)
    have js0: "json_able (PDict (task_input t))" using js 0 by simp
    note hp = handle_failure_plain [OF plain_simple [OF pl] js0 hf]
    have "\<not> task_attempt t \<le> task_max_retries t" using 0 by simp
    with hp(9) have "n = Leave (Some e)" "task_attempt t2 = task_attempt t" "w_events w2 = w_events w1" by simp_all
    with hf t1 a exc [OF Inl] r Inl hp(7) show ?thesis
      by (simp add: run_loop.simps [of sv c ec st h "(t, w)"] attempts_done_def)
  qed
next
  case (Suc k t w h m)
  obtain x t1 w1 where a: "run_attempt sv c ec st (t, w) = (x, t1, w1)" by (metis prod_cases3)
  have v0: "cap_validate_input c (task_input t) = Inr p" using v Suc.prems by simp
  have oc: "call_outcome c p \<lparr>cc_task_id = task_id t, cc_task_name = task_name t, cc_workdir = sv_workdir sv\<rparr>
      (ec_timeout_seconds ec) (length (w_executions w)) = f (length (w_executions w))"
    using Suc.prems f ctx by simp
  note at = run_attempt_plain [OF pl v0 a oc]
  show ?case
  proof (cases "f (length (w_executions w))")
    case (Inr out)
    with Suc.prems have r: "r = Inr out" "m = 1" by simp_all
    with at Inr a show ?thesis by (simp add: run_loop.simps [of sv c ec st h "(t, w)"] attempts_done_def)
  next
    case (Inl e)
    with at have t1: "x = Some e" "t1 = t" "w_events w1 = w_events w"
      "length (w_executions w1) = Suc (length (w_executions w))" by simp_all
    obtain n h2 t2 w2 where hf: "handle_failure sv st h e (t, w1) = (n, h2, t2, w2)" by (metis prod_cases4)
    have js0: "json_able (PDict (task_input t))" using js Suc.prems by simp
    note hp = handle_failure_plain [OF plain_simple [OF pl] js0 hf]
    have "task_attempt t \<le> task_max_retries t" using Suc.prems by simp
    with hp(9) have n: "n = Again" "task_attempt t2 = task_attempt t + 1"
      "map ev_event_type (w_events w2) = map ev_event_type (w_events w1) @ [TASK_RETRY]" by simp_all
    obtain m' where m': "try_times f (length (w_executions w2)) k = (r, m')" "m = Suc m'"
      using Suc.prems(5) Inl hp(7) t1(4) by (auto split: prod.splits)
    have k: "nat (task_max_retries t2 + 1 - task_attempt t2) = k"
      using Suc.prems(4) n(2) hp(4) by simp
    from Suc.IH [OF _ _ _ k m'(1), of h2] hp(1-3) Suc.prems(1-3)
    obtain h' t' w' where l: "run_loop sv c ec st h2 (t2, w2) =
        (Inr (case r of Inr _ \<Rightarrow> None | Inl e \<Rightarrow> Some e), h', t', w')" "attempts_done t2 w2 st r m' t' w'" by auto
    have run: "run_loop sv c ec st h (t, w) = (Inr (case r of Inr _ \<Rightarrow> None | Inl e \<Rightarrow> Some e), h', t', w')"
      using a t1 hf n(1) exc [OF Inl] l(1) by (simp add: run_loop.simps [of sv c ec st h "(t, w)"])
    have "0 < m'" using try_times_pos [OF m'(1)] by simp
    then have rep: "TASK_RETRY # replicate (m' - 1) TASK_RETRY = replicate m' TASK_RETRY"
      by (cases m') simp_all
    have "attempts_done t w st r m t' w'"
      using l(2) n(2,3) t1(3,4) hp(7) m'(2) rep
      by (auto simp: attempts_done_def split: sum.splits)
    with run show ?thesis by blast
  qed
qed

section \<open>A run is the reference\<close>

text \<open>The task may execute: it is approved, or pending with the policy's allowance and no approval gate.\<close>

definition may_execute :: "supervisor \<Rightarrow> capability \<Rightarrow> task_record \<Rightarrow> bool" where
  "may_execute sv c t \<longleftrightarrow> task_status t = APPROVED \<or>
     (task_status t = PENDING \<and> \<not> cd_require_approval (cap_descriptor c) \<and>
      (\<exists>d. policy_evaluate (sv_policy sv) t \<lparr>pc_capability = cap_descriptor c, pc_workdir = sv_workdir sv\<rparr> = Inr d \<and>
        pd_decision d = ALLOW))"

lemma apply_policy_allow:
  assumes "pd_decision d = ALLOW" and "apply_policy sv d (t, w) = (t1, w1)"
  shows "task_id t1 = task_id t" "task_name t1 = task_name t" "task_input t1 = task_input t"
    "task_status t1 = task_status t" "task_capability t1 = task_capability t"
    "task_attempt t1 = task_attempt t" "task_max_retries t1 = task_max_retries t"
    "w_executions w1 = w_executions w" "w_events w1 = w_events w" "w_guild w1 = w_guild w"
  using arg_cong [OF assms(2), of "\<lambda>p. w_guild (snd p)"] arg_cong [OF assms(2), of "\<lambda>p. task_id (fst p)"] arg_cong [OF assms(2), of "\<lambda>p. task_name (fst p)"]
    arg_cong [OF assms(2), of "\<lambda>p. task_input (fst p)"] arg_cong [OF assms(2), of "\<lambda>p. task_status (fst p)"]
    arg_cong [OF assms(2), of "\<lambda>p. task_capability (fst p)"] arg_cong [OF assms(2), of "\<lambda>p. task_attempt (fst p)"]
    arg_cong [OF assms(2), of "\<lambda>p. task_max_retries (fst p)"] arg_cong [OF assms(2), of "\<lambda>p. w_executions (snd p)"]
    arg_cong [OF assms(2), of "\<lambda>p. w_events (snd p)"] assms(1)
  by (simp_all add: apply_policy_def Let_def)

lemma run_task_executes:
  assumes "get_task w tid = Inr t" and "may_execute sv c t"
    and "validate_task_submission (build_submission t) (sv_registry sv) = Inr c"
  obtains t1 w1 where "run_task sv tid w = execute_task sv c (t1, w1)"
    "task_id t1 = task_id t" "task_name t1 = task_name t" "task_input t1 = task_input t"
    "task_capability t1 = task_capability t" "task_attempt t1 = task_attempt t"
    "task_max_retries t1 = task_max_retries t" "w_executions w1 = w_executions w" "w_events w1 = w_events w"
    "w_guild w1 = w_guild w"
proof (cases "task_status t = APPROVED")
  case True
  with assms show thesis by (intro that [of t w]) (simp_all add: run_task_def executable_status_def)
next
  case False
  with assms(2) obtain d where d: "task_status t = PENDING" "\<not> cd_require_approval (cap_descriptor c)"
    "policy_evaluate (sv_policy sv) t \<lparr>pc_capability = cap_descriptor c, pc_workdir = sv_workdir sv\<rparr> = Inr d"
    "pd_decision d = ALLOW" by (auto simp: may_execute_def)
  obtain t1 w1 where a: "apply_policy sv d (t, w) = (t1, w1)" by fastforce
  note ap = apply_policy_allow [OF d(4) a]
  have "run_task sv tid w = execute_task sv c (t1, w1)"
    using assms(1,3) d a ap(4) by (simp add: run_task_def executable_status_def)
  with ap show thesis by (intro that [of t1 w1]) simp_all
qed

lemma wait_window_Inr:
  "reg_execution_controls_of (sv_registry sv) name = Inr ec \<Longrightarrow> \<exists>w'. wait_for_execution_window sv name w = (Inr (), w')"
  by (auto simp: wait_for_execution_window_def Let_def split: option.splits prod.splits)

lemma execute_task_plain:
  assumes pl: "plain_supervisor sv"
    and ec: "reg_execution_controls_of (sv_registry sv) (task_capability t) = Inr ec"
    and v: "cap_validate_input c (task_input t) = Inr p" and js: "json_able (PDict (task_input t))"
    and ctx: "ctx = \<lparr>cc_task_id = task_id t, cc_task_name = task_name t, cc_workdir = sv_workdir sv\<rparr>"
    and exc: "\<And>n e. call_outcome c p ctx (ec_timeout_seconds ec) n = Inl e \<Longrightarrow> is_exception e"
    and try_: "try_times (call_outcome c p ctx (ec_timeout_seconds ec)) (length (w_executions w))
      (nat (task_max_retries t - task_attempt t)) = (r, m)"
  shows "\<exists>t' w'. execute_task sv c (t, w) = (Inr t', w') \<and>
    task_attempt t' = task_attempt t + int m \<and> length (w_executions w') = length (w_executions w) + m \<and>
    (case r of
       Inr out \<Rightarrow> task_status t' = COMPLETED \<and>
         (\<exists>res. task_result t' = Some res \<and> res_success res \<and> res_output res = cr_output out \<and> res_error res = None) \<and>
         map ev_event_type (w_events w') = map ev_event_type (w_events w) @
           TASK_STARTED # replicate (m - 1) TASK_RETRY @ [TASK_COMPLETED]
     | Inl e \<Rightarrow> task_status t' = FAILED \<and>
         (\<exists>res. task_result t' = Some res \<and> \<not> res_success res \<and> res_error res = Some (exc_str e)) \<and>
         map ev_event_type (w_events w') = map ev_event_type (w_events w) @
           TASK_STARTED # replicate (m - 1) TASK_RETRY @ [TASK_FAILED])"
proof -
  let ?f = "call_outcome c p ctx (ec_timeout_seconds ec)"
  obtain w2 where w2: "wait_for_execution_window sv (task_capability t) w = (Inr (), w2)"
    using wait_window_Inr [OF ec] by blast
  obtain x w3 where x: "now_utc sv w2 = (x, w3)" by fastforce
  obtain t4 w4 where tr: "transition_status sv RUNNING ''supervisor'' ''started'' TASK_STARTED
     [(''attempt'', PInt (task_attempt t + 1)), (''max_retries'', PInt (task_max_retries t))] None (Some x)
     (t\<lparr>task_attempt := task_attempt t + 1\<rparr>, w3) = (t4, w4)" by fastforce
  have w3: "w_executions w3 = w_executions w" "w_events w3 = w_events w"
    using wait_window_frame(3,4) [OF w2] x by (auto simp: now_utc_def)
  have t4: "task_id t4 = task_id t" "task_name t4 = task_name t" "task_input t4 = task_input t"
    "task_max_retries t4 = task_max_retries t" "task_attempt t4 = task_attempt t + 1"
    "w_executions w4 = w_executions w3"
    "map ev_event_type (w_events w4) = map ev_event_type (w_events w3) @ [TASK_STARTED]"
    using arg_cong [OF tr, of "\<lambda>p. task_id (fst p)"] arg_cong [OF tr, of "\<lambda>p. task_name (fst p)"]
      arg_cong [OF tr, of "\<lambda>p. task_input (fst p)"] arg_cong [OF tr, of "\<lambda>p. task_max_retries (fst p)"]
      arg_cong [OF tr, of "\<lambda>p. task_attempt (fst p)"] arg_cong [OF tr, of "\<lambda>p. w_executions (snd p)"]
      arg_cong [OF tr, of "\<lambda>p. map ev_event_type (w_events (snd p))"] plain_quiet [OF pl]
    by (simp_all add: transition_types)
  have k: "nat (task_max_retries t4 + 1 - task_attempt t4) = nat (task_max_retries t - task_attempt t)"
    using t4 by simp
  have tt: "try_times ?f (length (w_executions w4)) (nat (task_max_retries t - task_attempt t)) = (r, m)"
    using try_ t4(6) w3(1) by simp
  have "\<exists>h t5 w5. run_loop sv c ec x [] (t4, w4) = (Inr (case r of Inr _ \<Rightarrow> None | Inl e \<Rightarrow> Some e), h, t5, w5) \<and>
    attempts_done t4 w4 x r m t5 w5"
    by (rule run_loop_plain [where f = ?f, OF pl _ refl ctx js v t4(1-3) k tt]) (rule exc)
  then obtain h t5 w5 where l: "run_loop sv c ec x [] (t4, w4) = (Inr (case r of Inr _ \<Rightarrow> None | Inl e \<Rightarrow> Some e), h, t5, w5)"
    "attempts_done t4 w4 x r m t5 w5" by blast
  have ex: "execute_task sv c (t, w) = finish_run sv x (case r of Inr _ \<Rightarrow> None | Inl e \<Rightarrow> Some e) h (t5, w5)"
    using plain_no_publish(3) [OF pl, of t w] ec w2 x tr l(1) by (simp add: execute_task_def Let_def)
  show ?thesis
  proof (cases r)
    case (Inr out)
    with ex l(2) t4 w3 show ?thesis by (auto simp: finish_run_def attempts_done_def success_result_def)
  next
    case (Inl e)
    obtain y w6 where y: "now_utc sv w5 = (y, w6)" by fastforce
    let ?res = "\<lparr>res_success = False, res_output = PNone, res_error = Some (exc_str e), res_metadata = [],
      res_started_at = Some x, res_completed_at = Some y\<rparr>"
    obtain t7 w7 where tr7: "transition_status sv FAILED ''supervisor'' ''failed'' TASK_FAILED
      [(''attempt'', PInt (task_attempt t5))] (Some (exc_str e)) (Some y) (t5\<lparr>task_result := Some ?res\<rparr>, w6) = (t7, w7)"
      by fastforce
    have t7: "task_status t7 = FAILED" "task_result t7 = Some ?res" "task_attempt t7 = task_attempt t5"
      "w_executions w7 = w_executions w6"
      "map ev_event_type (w_events w7) = map ev_event_type (w_events w6) @ [TASK_FAILED]"
      using arg_cong [OF tr7, of "\<lambda>p. task_status (fst p)"] arg_cong [OF tr7, of "\<lambda>p. task_result (fst p)"]
        arg_cong [OF tr7, of "\<lambda>p. task_attempt (fst p)"] arg_cong [OF tr7, of "\<lambda>p. w_executions (snd p)"]
        arg_cong [OF tr7, of "\<lambda>p. map ev_event_type (w_events (snd p))"] plain_quiet [OF pl]
      by (simp_all add: transition_types)
    have "w_executions w6 = w_executions w5" "w_events w6 = w_events w5" using y by (auto simp: now_utc_def)
    moreover have "execute_task sv c (t, w) = (Inr t7, w7)"
      using ex Inl plain_no_publish(1) [OF pl] y tr7 by (simp add: finish_run_def Let_def)
    ultimately show ?thesis using Inl l(2) t4 w3 t7 by (auto simp: attempts_done_def)
  qed
qed

lemma run_task_reference:
  assumes "plain_supervisor sv" and "get_task w tid = Inr t" and "may_execute sv c t"
    and "validate_task_submission (build_submission t) (sv_registry sv) = Inr c"
    and "reg_execution_controls_of (sv_registry sv) (task_capability t) = Inr ec"
    and "cap_validate_input c (task_input t) = Inr p" and "json_able (PDict (task_input t))"
    and "f = call_outcome c p \<lparr>cc_task_id = task_id t, cc_task_name = task_name t, cc_workdir = sv_workdir sv\<rparr>
      (ec_timeout_seconds ec)"
    and "\<forall>n e. f n = Inl e \<longrightarrow> is_exception e"
    and "try_times f (length (w_executions w)) (nat (task_max_retries t - task_attempt t)) = (r, m)"
  shows "\<exists>t' w'. run_task sv tid w = (Inr t', w') \<and>
    task_attempt t' = task_attempt t + int m \<and> length (w_executions w') = length (w_executions w) + m \<and>
    (case r of
       Inr out \<Rightarrow> task_status t' = COMPLETED \<and>
         (\<exists>res. task_result t' = Some res \<and> res_success res \<and> res_output res = cr_output out \<and> res_error res = None) \<and>
         map ev_event_type (w_events w') = map ev_event_type (w_events w) @
           TASK_STARTED # replicate (m - 1) TASK_RETRY @ [TASK_COMPLETED]
     | Inl e \<Rightarrow> task_status t' = FAILED \<and>
         (\<exists>res. task_result t' = Some res \<and> \<not> res_success res \<and> res_error res = Some (exc_str e)) \<and>
         map ev_event_type (w_events w') = map ev_event_type (w_events w) @
           TASK_STARTED # replicate (m - 1) TASK_RETRY @ [TASK_FAILED])"
proof -
  from run_task_executes [OF assms(2-4)] obtain t1 w1 where e: "run_task sv tid w = execute_task sv c (t1, w1)"
    and t1: "task_id t1 = task_id t" "task_name t1 = task_name t" "task_input t1 = task_input t"
    "task_capability t1 = task_capability t" "task_attempt t1 = task_attempt t"
    "task_max_retries t1 = task_max_retries t" "w_executions w1 = w_executions w" "w_events w1 = w_events w"
    by metis
  let ?ctx = "\<lparr>cc_task_id = task_id t1, cc_task_name = task_name t1, cc_workdir = sv_workdir sv\<rparr>"
  have f: "f = call_outcome c p ?ctx (ec_timeout_seconds ec)" using assms(8) t1(1,2) by simp
  have ec: "reg_execution_controls_of (sv_registry sv) (task_capability t1) = Inr ec"
    and v: "cap_validate_input c (task_input t1) = Inr p" and js: "json_able (PDict (task_input t1))"
    and tr: "try_times (call_outcome c p ?ctx (ec_timeout_seconds ec)) (length (w_executions w1))
      (nat (task_max_retries t1 - task_attempt t1)) = (r, m)"
    using assms(5,6,7,10) t1 f by simp_all
  have "is_exception e" if "call_outcome c p ?ctx (ec_timeout_seconds ec) n = Inl e" for n e
    using assms(9) that f by simp
  then show ?thesis
    unfolding e t1(5,7,8) [symmetric] by (intro execute_task_plain [OF assms(1) ec v js refl _ tr])
qed

end
