(* ===== verification/Supervisor_Properties.thy ===== *)
theory Supervisor_Properties
  imports Supervisor_Runs
begin

text \<open>
  The supervisor as a state machine: its public operations are the steps, \<open>reachable\<close> is what they
  lead to from a fresh supervisor, and the properties of the task life cycle follow from the
  invariant of \<open>Supervisor_Lifecycle\<close> and the frame of \<open>Supervisor_Frame\<close>.

  Task ids are \<^verbatim>\<open>uuid4\<close> values: that no two of them are equal is the hypothesis \<open>inj (sv_uuid sv)\<close>.
\<close>

section \<open>Creating a record\<close>

definition fresh_task :: "supervisor \<Rightarrow> task_submission \<Rightarrow> world \<Rightarrow> task_record" where
  "fresh_task sv sub w =
     (new_task_record (sv_uuid sv (w_uuids w)) (sub_name sub) (sub_capability sub) (sv_clock sv (w_tick w)))
       \<lparr>task_input := sub_input sub, task_metadata := sub_metadata sub, task_max_retries := sub_max_retries sub,
        task_workflow_id := sub_workflow_id sub, task_updated_at := sv_clock sv (Suc (w_tick w)),
        task_audit_trail := [\<lparr>au_timestamp = sv_clock sv (w_tick w), au_actor = ''supervisor'',
          au_action = ''submitted'', au_from = None, au_to = Some PENDING,
          au_metadata = [(''max_retries'', PInt (sub_max_retries sub))]\<rparr>]\<rparr>"

definition created_world :: "supervisor \<Rightarrow> task_submission \<Rightarrow> world \<Rightarrow> world" where
  "created_world sv sub w = w\<lparr>w_uuids := Suc (w_uuids w), w_tick := Suc (Suc (w_tick w)),
     w_store := ms_save (fresh_task sv sub w) (w_store w)\<rparr>"

lemma create_task_record_eq:
  "create_task_record sv sub enqueue w =
     (case validate_task_submission sub (sv_registry sv) of
        Inl e \<Rightarrow> (Inl e, w)
      | Inr c \<Rightarrow>
          if enqueue
          then (case tq_enqueue (sv_uuid sv (w_uuids w)) (w_queue w) of
                  Inl e \<Rightarrow> (Inl e, created_world sv sub w)
                | Inr q \<Rightarrow> (Inr (fresh_task sv sub w), (created_world sv sub w)\<lparr>w_queue := q\<rparr>))
          else (Inr (fresh_task sv sub w), created_world sv sub w))"
  by (simp add: create_task_record_def fresh_task_def created_world_def now_utc_def append_audit_def Let_def
      new_task_record_def split: sum.split)

lemma fresh_task_simps [simp]:
  "task_id (fresh_task sv sub w) = sv_uuid sv (w_uuids w)"
  "task_status (fresh_task sv sub w) = PENDING"
  "audit_ok (fresh_task sv sub w)"
  "\<not> has_started (fresh_task sv sub w)"
  by (auto simp: fresh_task_def new_task_record_def audit_ok_def task_phase_def has_started_def
      audit_edges_def authorised_after_def)

lemma world_ok_id: "world_ok sv w \<Longrightarrow> ms_get (w_store w) k = Some t \<Longrightarrow> \<exists>n < w_uuids w. k = sv_uuid sv n"
  by (simp add: world_ok_def)

lemma fresh_id:
  assumes "world_ok sv w" and "inj (sv_uuid sv)"
  shows "ms_get (w_store w) (sv_uuid sv (w_uuids w)) = None"
proof (rule ccontr)
  assume "ms_get (w_store w) (sv_uuid sv (w_uuids w)) \<noteq> None"
  then obtain n where "n < w_uuids w" "sv_uuid sv (w_uuids w) = sv_uuid sv n"
    using world_ok_id [OF assms(1)] by blast
  with assms(2) show False by (auto dest: injD)
qed

lemma created_world_ok:
  assumes "world_ok sv w" and "inj (sv_uuid sv)"
  shows "world_ok sv (created_world sv sub w)"
proof -
  have "ms_get (ms_save (fresh_task sv sub w) (w_store w)) (fst x) = ms_get (w_store w) (fst x)"
    if "x \<in> set (w_executions w)" for x
    using assms(1) fresh_id [OF assms] that by (fastforce simp: world_ok_def)
  moreover have "\<exists>n < Suc (w_uuids w). k = sv_uuid sv n" if "ms_get (w_store w) k = Some t" for k t
    using world_ok_id [OF assms(1) that] less_SucI by blast
  moreover have "\<exists>n < Suc (w_uuids w). sv_uuid sv (w_uuids w) = sv_uuid sv n" by blast
  ultimately show ?thesis
    using assms(1) by (simp add: world_ok_def created_world_def)
qed

lemma world_ok_queue [simp]: "world_ok sv (w\<lparr>w_queue := q\<rparr>) = world_ok sv w"
  by (simp add: world_ok_def)

lemma create_task_record_ok:
  assumes "world_ok sv w" and "inj (sv_uuid sv)" and "create_task_record sv sub enqueue w = (r, w')"
  shows "run_ok sv (\<lambda>s. s = PENDING) (r, w')"
  using assms(3) created_world_ok [OF assms(1,2), of sub] assms(1)
  by (auto simp: create_task_record_eq run_ok_def stored_def created_world_def
      split: sum.splits if_splits)

section \<open>Operations as steps\<close>

datatype sup_op =
    Submit task_submission
  | Run_Submission task_submission
  | Run_Next
  | Run_Task string
  | Approve string string "pydict option" bool
  | Cancel string string "string option" "pydict option"

fun sup_exec :: "supervisor \<Rightarrow> sup_op \<Rightarrow> world \<Rightarrow> (exc + task_record) \<times> world" where
  "sup_exec sv (Submit sub) w = submit sv sub w"
| "sup_exec sv (Run_Submission sub) w = run_submission sv sub w"
| "sup_exec sv Run_Next w = run_next sv w"
| "sup_exec sv (Run_Task tid) w = run_task sv tid w"
| "sup_exec sv (Approve tid actor md run) w = approve_task sv tid actor md run w"
| "sup_exec sv (Cancel tid actor reason md) w = cancel_task sv tid actor reason md w"

inductive reachable :: "supervisor \<Rightarrow> world \<Rightarrow> bool" for sv where
  init: "gs_ok g \<Longrightarrow> reachable sv (world_init q g)"
| step: "reachable sv w \<Longrightarrow> sup_exec sv op w = (r, w') \<Longrightarrow> reachable sv w'"

text \<open>The two ways an approval ends, and the cancellation.\<close>

lemma approve_task_stages:
  assumes "approve_task sv tid actor md run w = (r, w')"
  obtains (refused) e where "r = Inl e" "w' = w"
  | (approved) t t1 w1 where "get_task w tid = Inr t" "task_status t = AWAITING_APPROVAL"
      "transition_status sv APPROVED actor ''approved'' TASK_APPROVED (empty_if_none md) None None (t, w) = (t1, w1)"
      "(run \<and> run_task sv tid w1 = (r, w')) \<or>
       (\<not> run \<and> (\<exists>e. tq_enqueue tid (w_queue w1) = Inl e \<and> r = Inl e \<and> w' = w1)) \<or>
       (\<not> run \<and> (\<exists>q. tq_enqueue tid (w_queue w1) = Inr q \<and> r = Inr t1 \<and> w' = w1\<lparr>w_queue := q\<rparr>))"
proof (cases "get_task w tid")
  case (Inl e)
  with assms have "r = Inl e" "w' = w" by (auto simp: approve_task_def)
  then show thesis by (rule refused)
next
  case t: (Inr t)
  show thesis
  proof (cases "task_status t = AWAITING_APPROVAL")
    case False
    with assms t have "\<exists>e. r = Inl e" "w' = w" by (auto simp: approve_task_def)
    then show thesis using refused by blast
  next
    case True
    obtain t1 w1 where tr: "transition_status sv APPROVED actor ''approved'' TASK_APPROVED (empty_if_none md)
      None None (t, w) = (t1, w1)" by fastforce
    show thesis
      by (rule approved [OF t True tr])
        (use assms t True tr in \<open>auto simp: approve_task_def Let_def split: sum.splits if_splits\<close>)
  qed
qed

lemma cancel_task_stages:
  assumes "cancel_task sv tid actor reason md w = (r, w')"
  obtains (refused) e where "r = Inl e" "w' = w"
  | (cancelled) t res x w1 t1 m err where "get_task w tid = Inr t" "task_status t = AWAITING_APPROVAL"
      "now_utc sv w = (x, w1)"
      "transition_status sv CANCELLED actor ''cancelled'' TASK_CANCELLED m (Some err) (Some x)
        (t\<lparr>task_result := res\<rparr>, w1) = (t1, w')" "r = Inr t1"
proof (cases "get_task w tid")
  case (Inl e)
  with assms have "r = Inl e" "w' = w" by (auto simp: cancel_task_def)
  then show thesis by (rule refused)
next
  case t: (Inr t)
  show thesis
  proof (cases "task_status t = AWAITING_APPROVAL")
    case False
    with assms t have "\<exists>e. r = Inl e" "w' = w" by (auto simp: cancel_task_def)
    then show thesis using refused by blast
  next
    case True
    let ?m = "case reason of None \<Rightarrow> empty_if_none md | Some r \<Rightarrow> dsetdefault ''reason'' (PStr r) (empty_if_none md)"
    let ?err = "opt_or reason ''Task cancelled''"
    obtain x w1 where x: "now_utc sv w = (x, w1)" by fastforce
    let ?res = "Some \<lparr>res_success = False, res_output = PNone, res_error = Some ?err, res_metadata = ?m,
      res_started_at = None, res_completed_at = Some x\<rparr>"
    obtain t1 w2 where tr: "transition_status sv CANCELLED actor ''cancelled'' TASK_CANCELLED ?m (Some ?err) (Some x)
        (t\<lparr>task_result := ?res\<rparr>, w1) = (t1, w2)" by fastforce
    have "cancel_task sv tid actor reason md w = (Inr t1, w2)"
      using t True x tr by (simp add: cancel_task_def Let_def)
    with assms have rw: "r = Inr t1" "w2 = w'" by auto
    show thesis by (rule cancelled [OF t True x tr [unfolded rw(2)] rw(1)])
  qed
qed

lemma approve_live:
  assumes "world_ok sv w" and "get_task w tid = Inr t" and "task_status t = AWAITING_APPROVAL"
    and "transition_status sv APPROVED actor ''approved'' TASK_APPROVED m None None (t, w) = (t1, w1)"
  shows "live sv APPROVED True (t1, w1)" and "stored (t1, w1)"
proof -
  obtain a where "live sv AWAITING_APPROVAL a (t, w)" using world_live(1) [OF assms(1,2)] assms(3) by auto
  from transition_live [OF this, of "''approved''" APPROVED actor TASK_APPROVED m None None]
  show "live sv APPROVED True (t1, w1)" and "stored (t1, w1)"
    by (simp_all add: assms(4) audit_edges_def authorised_after_def)
qed

lemma sup_exec_ok:
  assumes ok: "world_ok sv w" and inj: "inj (sv_uuid sv)" and ex: "sup_exec sv op w = (r, w')"
  shows "run_ok sv (\<lambda>s. True) (r, w')"
proof (cases op)
  case (Submit sub)
  with ex have "create_task_record sv sub True w = (r, w')" by (simp add: submit_def)
  from create_task_record_ok [OF ok inj this] show ?thesis by (rule run_ok_mono) simp
next
  case (Run_Submission sub)
  obtain s w1 where c: "create_task_record sv sub False w = (s, w1)" by fastforce
  note co = create_task_record_ok [OF ok inj c]
  show ?thesis
  proof (cases s)
    case (Inl e)
    with ex Run_Submission c co show ?thesis by (simp add: run_submission_def run_ok_def)
  next
    case (Inr t)
    with ex Run_Submission c have "run_task sv (task_id t) w1 = (r, w')" by (simp add: run_submission_def)
    from run_task_ok [OF _ this] co show ?thesis by (auto intro: run_ok_mono simp: run_ok_def)
  qed
next
  case Run_Next
  show ?thesis
  proof (cases "tq_dequeue (w_queue w)")
    case (Pair x q)
    show ?thesis
    proof (cases x)
      case None
      with ex Run_Next Pair ok show ?thesis by (auto simp: run_next_def run_ok_def)
    next
      case (Some tid)
      with ex Run_Next Pair have "run_task sv tid (w\<lparr>w_queue := q\<rparr>) = (r, w')" by (simp add: run_next_def)
      from run_task_ok [OF _ this] ok show ?thesis by (auto simp: run_ok_def)
    qed
  qed
next
  case (Run_Task tid)
  with ex have "run_task sv tid w = (r, w')" by simp
  from run_task_ok [OF ok this] show ?thesis by (auto simp: run_ok_def)
next
  case (Approve tid actor md run)
  with ex have "approve_task sv tid actor md run w = (r, w')" by simp
  then show ?thesis
  proof (cases rule: approve_task_stages)
    case (refused e)
    with ok show ?thesis by (simp add: run_ok_def)
  next
    case (approved t t1 w1)
    note l = approve_live [OF ok approved(1-3)]
    from approved(4) show ?thesis
    proof (elim disjE conjE exE)
      assume "run_task sv tid w1 = (r, w')"
      from run_task_ok [OF live_world [OF l(1)] this] show ?thesis by (auto simp: run_ok_def)
    next
      fix q assume "r = Inr t1" "w' = w1\<lparr>w_queue := q\<rparr>"
      with l show ?thesis by (auto simp: run_ok_def stored_def dest: live_world live_audit_ok)
    qed (use live_world [OF l(1)] in \<open>simp add: run_ok_def\<close>)
  qed
next
  case (Cancel tid actor reason md)
  with ex have "cancel_task sv tid actor reason md w = (r, w')" by simp
  then show ?thesis
  proof (cases rule: cancel_task_stages)
    case (refused e)
    with ok show ?thesis by (simp add: run_ok_def)
  next
    case (cancelled t res x w1 t1 m err)
    obtain a where "live sv AWAITING_APPROVAL a (t, w)"
      using world_live(1) [OF ok cancelled(1)] cancelled(2) by auto
    from now_utc_live [OF this cancelled(3)] have "live sv AWAITING_APPROVAL a (t\<lparr>task_result := res\<rparr>, w1)" by simp
    from transition_live [OF this, of "''cancelled''" CANCELLED actor TASK_CANCELLED m "Some err" "Some x"]
    have "live sv CANCELLED a (t1, w')" "stored (t1, w')"
      by (simp_all add: cancelled(4) audit_edges_def authorised_after_def)
    then show ?thesis unfolding cancelled(5) by (rule run_ok_Inr) simp
  qed
qed

lemma reachable_ok: "reachable sv w \<Longrightarrow> inj (sv_uuid sv) \<Longrightarrow> world_ok sv w"
proof (induction rule: reachable.induct)
  case (init g q)
  then show ?case by (simp add: world_ok_def world_init_def ms_get_def ms_init_def ms_ok_def)
next
  case (step w op r w')
  from sup_exec_ok [OF step.IH [OF step.prems] step.prems step.hyps(2)] show ?case by (simp add: run_ok_def)
qed

section \<open>The task life cycle\<close>

text \<open>A small concrete supervisor, for the witnesses: one echo capability of low risk whose
  first call fails, and a task with one retry.\<close>

definition demo_capability :: capability where
  "demo_capability =
     \<lparr>cap_descriptor = \<lparr>cd_name = ''echo'', cd_description = ''Echo'', cd_risk_level = LOW, cd_tags = [],
        cd_require_approval = False\<rparr>,
      cap_validate_input = (\<lambda>d. Inr (PDict d)),
      cap_execute = (\<lambda>n p ctx. (0, if n = 0 then Inl (Runtime_Error ''down'')
        else Inr \<lparr>cr_output = p, cr_metadata = []\<rparr>))\<rparr>"

definition demo_registry :: registry where
  "demo_registry = \<lparr>reg_capabilities = [(''echo'', demo_capability)], reg_execution_controls = []\<rparr>"

definition demo_supervisor :: supervisor where
  "demo_supervisor =
     \<lparr>sv_registry = demo_registry, sv_workdir = ''/w'', sv_policy = Null_Policy,
      sv_retry_strategy = default_retry, sv_escalation_policy = None, sv_guild_knowledge = None,
      sv_peer_suggestions = None, sv_digest = (\<lambda>v. ''d''), sv_clock = int,
      sv_uuid = (\<lambda>n. replicate n CHR ''x''), sv_drift = (\<lambda>n. 0), sv_bus_raises = (\<lambda>n e. False)\<rparr>"

lemma demo_supervisor_registry [simp]: "sv_registry demo_supervisor = demo_registry"
  by (simp add: demo_supervisor_def)

definition demo_submission :: task_submission where
  "demo_submission = \<lparr>sub_name = ''t'', sub_capability = ''echo'', sub_input = [], sub_metadata = [],
     sub_max_retries = 1, sub_workflow_id = None\<rparr>"

definition demo_init :: world where
  "demo_init = world_init (Mem_Queue mq_init) (Mem_Guild mg_init)"

lemma demo_inj: "inj (sv_uuid demo_supervisor)"
  by (rule injI) (simp add: demo_supervisor_def)

lemma demo_init_reachable: "reachable demo_supervisor demo_init"
  by (simp add: demo_init_def reachable.init mg_ok_def mg_init_def)

lemma demo_valid: "validate_task_submission demo_submission demo_registry = Inr demo_capability"
  by (simp add: validate_task_submission_def demo_submission_def demo_registry_def reg_get_def dget_def
      demo_capability_def py_strip_def is_ws_def Let_def)

lemma demo_submitted:
  "submit demo_supervisor demo_submission demo_init =
     (Inr (fresh_task demo_supervisor demo_submission demo_init),
      (created_world demo_supervisor demo_submission demo_init)\<lparr>w_queue := Mem_Queue \<lparr>mq_items = [[]]\<rparr>\<rparr>)"
  using demo_valid
  by (simp add: submit_def create_task_record_eq demo_supervisor_def demo_init_def world_init_def mq_init_def
      mq_enqueue_def)

definition demo_world :: world where
  "demo_world = snd (submit demo_supervisor demo_submission demo_init)"

lemma demo_world_reachable: "reachable demo_supervisor demo_world"
  using reachable.step [OF demo_init_reachable, of "Submit demo_submission"] demo_submitted
  by (simp add: demo_world_def)

lemma demo_world_get:
  "ms_get (w_store demo_world) [] = Some (fresh_task demo_supervisor demo_submission demo_init)"
proof -
  have "sv_uuid demo_supervisor (w_uuids demo_init) = []"
    by (simp add: demo_supervisor_def demo_init_def world_init_def)
  then show ?thesis by (simp add: demo_world_def demo_submitted created_world_def)
qed



text \<open>
  C4. A run does what its retry budget says: for a supervisor with the default retry strategy and
  without guild and escalation, running an authorised task whose input validates calls the
  capability exactly as the reference \<open>try_times\<close> does, starting from the first call of this run and
  with as many retries as are left.  The run returns; the task is \<^verbatim>\<open>COMPLETED\<close> with the output of
  the first successful call, or \<^verbatim>\<open>FAILED\<close> with the error of the last one; the attempt counter and
  the number of calls agree with the reference; and the events are one start, one retry per
  further attempt and one final event.
\<close>

theorem run_task_is_try_times:
  assumes "plain_supervisor sv" and "get_task w tid = Inr t" and "may_execute sv c t"
    and "validate_task_submission (build_submission t) (sv_registry sv) = Inr c"
    and "reg_execution_controls_of (sv_registry sv) (task_capability t) = Inr ec"
    and "cap_validate_input c (task_input t) = Inr p" and "json_able (PDict (task_input t))"
    and "f = call_outcome c p \<lparr>cc_task_id = task_id t, cc_task_name = task_name t, cc_workdir = sv_workdir sv\<rparr>
      (ec_timeout_seconds ec)"
    and "\<forall>n e. f n = Inl e \<longrightarrow> is_exception e"
    and "try_times f (length (w_executions w)) (nat (task_max_retries t - task_attempt t)) = (r, m)"
  shows "\<exists>t' w'. run_task sv tid w = (Inr t', w') \<and>
    task_attempt t' = task_attempt t + int m \<and> length (w_executions w') = length (w_executions w) + m \<and>
    (case r of
       Inr out \<Rightarrow> task_status t' = COMPLETED \<and>
         (\<exists>res. task_result t' = Some res \<and> res_success res \<and> res_output res = cr_output out \<and> res_error res = None) \<and>
         map ev_event_type (w_events w') = map ev_event_type (w_events w) @
           TASK_STARTED # replicate (m - 1) TASK_RETRY @ [TASK_COMPLETED]
     | Inl e \<Rightarrow> task_status t' = FAILED \<and>
         (\<exists>res. task_result t' = Some res \<and> \<not> res_success res \<and> res_error res = Some (exc_str e)) \<and>
         map ev_event_type (w_events w') = map ev_event_type (w_events w) @
           TASK_STARTED # replicate (m - 1) TASK_RETRY @ [TASK_FAILED])"
  using assms by (rule run_task_reference)

lemma demo_fresh [simp]:
  "build_submission (fresh_task demo_supervisor demo_submission demo_init) = demo_submission"
  "task_capability (fresh_task demo_supervisor demo_submission demo_init) = ''echo''"
  "task_input (fresh_task demo_supervisor demo_submission demo_init) = []"
  "task_attempt (fresh_task demo_supervisor demo_submission demo_init) = 0"
  "task_max_retries (fresh_task demo_supervisor demo_submission demo_init) = 1"
  by (simp_all add: build_submission_def fresh_task_def new_task_record_def demo_submission_def)

lemma demo_world_fields [simp]:
  "w_executions demo_world = []" "w_events demo_world = []"
  by (simp_all add: demo_world_def demo_submitted created_world_def) (simp_all add: demo_init_def world_init_def)

abbreviation demo_task :: task_record where
  "demo_task \<equiv> fresh_task demo_supervisor demo_submission demo_init"

abbreviation demo_calls :: "nat \<Rightarrow> exc + cap_result" where
  "demo_calls \<equiv> call_outcome demo_capability (PDict []) \<lparr>cc_task_id = task_id demo_task,
     cc_task_name = task_name demo_task, cc_workdir = sv_workdir demo_supervisor\<rparr> (ec_timeout_seconds new_exec_controls)"

lemma demo_run_premises:
  "plain_supervisor demo_supervisor"
  "get_task demo_world [] = Inr demo_task"
  "may_execute demo_supervisor demo_capability demo_task"
  "validate_task_submission (build_submission demo_task) (sv_registry demo_supervisor) = Inr demo_capability"
  "reg_execution_controls_of (sv_registry demo_supervisor) (task_capability demo_task) = Inr new_exec_controls"
  "cap_validate_input demo_capability (task_input demo_task) = Inr (PDict [])"
  "json_able (PDict (task_input demo_task))"
  "demo_calls = demo_calls"
  "\<forall>n e. demo_calls n = Inl e \<longrightarrow> is_exception e"
  "try_times demo_calls (length (w_executions demo_world)) (nat (task_max_retries demo_task - task_attempt demo_task)) =
      (Inr \<lparr>cr_output = PDict [], cr_metadata = []\<rparr>, 2)"
proof -
  show "plain_supervisor demo_supervisor"
    by (simp add: plain_supervisor_def simple_retries_def demo_supervisor_def quiet_bus_def guild_enabled_def)
  show "get_task demo_world [] = Inr demo_task" by (simp add: get_task_def demo_world_get)
  show "may_execute demo_supervisor demo_capability demo_task"
    by (simp add: may_execute_def demo_capability_def demo_supervisor_def null_evaluate_def)
  show "validate_task_submission (build_submission demo_task) (sv_registry demo_supervisor) = Inr demo_capability"
    by (simp add: demo_valid)
  show "reg_execution_controls_of (sv_registry demo_supervisor) (task_capability demo_task) = Inr new_exec_controls"
    by (simp add: demo_registry_def reg_execution_controls_of_def dget_def)
  show "cap_validate_input demo_capability (task_input demo_task) = Inr (PDict [])"
    by (simp add: demo_capability_def)
  show "\<forall>n e. demo_calls n = Inl e \<longrightarrow> is_exception e"
    by (auto simp: call_outcome_def demo_capability_def new_exec_controls_def split: if_splits)
  show "try_times demo_calls (length (w_executions demo_world)) (nat (task_max_retries demo_task - task_attempt demo_task)) =
      (Inr \<lparr>cr_output = PDict [], cr_metadata = []\<rparr>, 2)"
    by (simp add: call_outcome_def demo_capability_def new_exec_controls_def numeral_2_eq_2)
qed simp_all

theorem run_task_is_try_times_witness:
  "\<exists>t' w'. run_task demo_supervisor [] demo_world = (Inr t', w') \<and> task_attempt t' = 2 \<and>
     task_status t' = COMPLETED \<and> length (w_executions w') = 2 \<and>
     map ev_event_type (w_events w') = [TASK_STARTED, TASK_RETRY, TASK_COMPLETED]"
  using run_task_is_try_times [OF demo_run_premises] by (auto simp: numeral_2_eq_2)

text \<open>The world after that run.\<close>

definition demo_final :: world where
  "demo_final = snd (run_task demo_supervisor [] demo_world)"

lemma demo_final_reachable: "reachable demo_supervisor demo_final"
  using reachable.step [OF demo_world_reachable, of "Run_Task []"] by (simp add: demo_final_def prod_eq_iff)

lemma demo_final_ran:
  "\<exists>t. run_task demo_supervisor [] demo_world = (Inr t, demo_final) \<and> task_status t = COMPLETED"
  "\<exists>cap x. ([], cap, x) \<in> set (w_executions demo_final)"
proof -
  from run_task_reference [OF demo_run_premises] obtain t w' where
    r: "run_task demo_supervisor [] demo_world = (Inr t, w')" and st: "task_status t = COMPLETED"
    and len: "length (w_executions w') = 2" by (auto simp: numeral_2_eq_2)
  then show "\<exists>t. run_task demo_supervisor [] demo_world = (Inr t, demo_final) \<and> task_status t = COMPLETED"
    by (simp add: demo_final_def)
  from run_task_frame [OF r demo_run_premises(2)] have "\<forall>x \<in> set (w_executions w'). fst x = task_id demo_task"
    by (auto simp: run_frame_def)
  moreover have "task_id demo_task = []"
    by (simp add: demo_supervisor_def demo_init_def world_init_def)
  moreover obtain x xs where "w_executions w' = x # xs" using len by (cases "w_executions w'") auto
  ultimately show "\<exists>cap x. ([], cap, x) \<in> set (w_executions demo_final)"
    using r by (cases x) (auto simp: demo_final_def)
qed

text \<open>
  C2. Nothing executes without authorisation: in every reachable world, a task whose capability was
  ever called is stored, its trail shows the start of a run, and before every start the trail has
  an approval or an allowance recorded by the policy.
\<close>

theorem executions_are_authorised:
  assumes "reachable sv w" and "inj (sv_uuid sv)" and "(tid, cap, started_at) \<in> set (w_executions w)"
  shows "\<exists>t. ms_get (w_store w) tid = Some t \<and>
    ''started'' \<in> set (map au_action (task_audit_trail t)) \<and>
    (\<forall>i < length (task_audit_trail t). au_action (task_audit_trail t ! i) = ''started'' \<longrightarrow>
      (\<exists>j < i. au_action (task_audit_trail t ! j) = ''approved'' \<or>
        (au_action (task_audit_trail t ! j) = ''allowed'' \<and> au_actor (task_audit_trail t ! j) = ''policy'')))"
proof -
  have ok: "world_ok sv w" using reachable_ok assms(1,2) by blast
  then obtain t where t: "ms_get (w_store w) tid = Some t" "has_started t" "audit_ok t"
    using assms(3) by (fastforce simp: world_ok_def)
  have "\<exists>j < i. au_action (task_audit_trail t ! j) = ''approved'' \<or>
        (au_action (task_audit_trail t ! j) = ''allowed'' \<and> au_actor (task_audit_trail t ! j) = ''policy'')"
    if i: "i < length (task_audit_trail t)" and st: "au_action (task_audit_trail t ! i) = ''started''" for i
  proof -
    let ?es = "task_audit_trail t"
    obtain p where run: "audit_run (None, False) ?es = Some p"
      using t(3) by (auto simp: audit_ok_def task_phase_def)
    have "?es = take i ?es @ ?es ! i # drop (Suc i) ?es" using i by (simp add: id_take_nth_drop)
    with run have "audit_run (None, False) (take i ?es @ ?es ! i # drop (Suc i) ?es) = Some p" by simp
    then obtain s a q where pre: "audit_run (None, False) (take i ?es) = Some (s, a)"
      and stp: "audit_step (s, a) (?es ! i) = Some q"
      by (auto simp: audit_run_append split: option.splits)
    from stp st have a by (auto simp: audit_notes_def split: option.splits if_splits)
    with audit_run_auth [of None "take i ?es" s] pre
    obtain e where e: "e \<in> set (take i ?es)" "au_action e = ''approved'' \<or> (au_action e = ''allowed'' \<and> au_actor e = ''policy'')"
      by auto
    then obtain j where "j < i" "j < length ?es" "?es ! j = e" by (auto simp: in_set_conv_nth)
    with e(2) show ?thesis by blast
  qed
  with t(1,2) show ?thesis by (auto simp: has_started_def)
qed

theorem executions_are_authorised_witness:
  "\<exists>t. ms_get (w_store demo_final) [] = Some t \<and> ''started'' \<in> set (map au_action (task_audit_trail t))"
proof -
  obtain cap x where "([], cap, x) \<in> set (w_executions demo_final)" using demo_final_ran(2) by blast
  from executions_are_authorised [OF demo_final_reachable demo_inj this] show ?thesis by blast
qed

section \<open>Records only grow\<close>

definition finished :: "task_status \<Rightarrow> bool" where
  "finished s \<longleftrightarrow> s \<in> {COMPLETED, FAILED, ESCALATED, POLICY_DENIED, CANCELLED}"

definition grows :: "world \<Rightarrow> world \<Rightarrow> bool" where
  "grows w w' \<longleftrightarrow> (\<forall>k t. ms_get (w_store w) k = Some t \<longrightarrow>
     (\<exists>t'. ms_get (w_store w') k = Some t' \<and>
       (t' = t \<or> (\<not> finished (task_status t) \<and> (\<exists>es. task_audit_trail t' = task_audit_trail t @ es)))))"

lemma growsD:
  "grows w w' \<Longrightarrow> ms_get (w_store w) k = Some t \<Longrightarrow> \<exists>t'. ms_get (w_store w') k = Some t' \<and>
    (t' = t \<or> (\<not> finished (task_status t) \<and> (\<exists>es. task_audit_trail t' = task_audit_trail t @ es)))"
  by (simp add: grows_def)

lemma grows_refl [simp]: "grows w w"
  by (simp add: grows_def)

lemma grows_trans:
  assumes "grows a b" and "grows b c"
  shows "grows a c"
  unfolding grows_def
proof (intro allI impI)
  fix k t assume a: "ms_get (w_store a) k = Some t"
  obtain t1 where 1: "ms_get (w_store b) k = Some t1"
    "t1 = t \<or> (\<not> finished (task_status t) \<and> (\<exists>es. task_audit_trail t1 = task_audit_trail t @ es))"
    using growsD [OF assms(1) a] by blast
  obtain t2 where 2: "ms_get (w_store c) k = Some t2"
    "t2 = t1 \<or> (\<not> finished (task_status t1) \<and> (\<exists>es. task_audit_trail t2 = task_audit_trail t1 @ es))"
    using growsD [OF assms(2) 1(1)] by blast
  from 1(2) 2(2) have "t2 = t \<or> (\<not> finished (task_status t) \<and> (\<exists>es. task_audit_trail t2 = task_audit_trail t @ es))"
    by (elim disjE conjE exE) simp_all
  with 2(1) show "\<exists>t'. ms_get (w_store c) k = Some t' \<and>
       (t' = t \<or> (\<not> finished (task_status t) \<and> (\<exists>es. task_audit_trail t' = task_audit_trail t @ es)))"
    by blast
qed

lemma grows_queue [simp]: "grows (w\<lparr>w_queue := q\<rparr>) w' = grows w w'" "grows w (w'\<lparr>w_queue := q\<rparr>) = grows w w'"
  by (simp_all add: grows_def)

lemma run_frame_grows:
  assumes "run_frame (t, w) (t', w')" and "ms_get (w_store w) (task_id t) = Some t"
    and "\<not> finished (task_status t)"
  shows "grows w w'"
  unfolding grows_def
proof (intro allI impI)
  fix k t0 assume g: "ms_get (w_store w) k = Some t0"
  show "\<exists>t'. ms_get (w_store w') k = Some t' \<and>
      (t' = t0 \<or> (\<not> finished (task_status t0) \<and> (\<exists>es. task_audit_trail t' = task_audit_trail t0 @ es)))"
  proof (cases "k = task_id t")
    case True
    with g assms(2) have "t0 = t" by simp
    with assms(1,3) g True show ?thesis by (auto simp: run_frame_def)
  next
    case False
    with assms(1) g show ?thesis by (simp add: run_frame_def)
  qed
qed

lemma run_task_grows:
  assumes "world_ok sv w" and "run_task sv tid w = (r, w')"
  shows "grows w w'"
proof (cases "\<exists>t. get_task w tid = Inr t \<and> executable_status (task_status t)")
  case True
  then obtain t where t: "get_task w tid = Inr t" "executable_status (task_status t)" by blast
  obtain t' where "run_frame (t, w) (t', w')" using run_task_frame [OF assms(2) t(1)] by blast
  then show ?thesis
    by (rule run_frame_grows)
      (use world_live(2,3) [OF assms(1) t(1)] t(2) in \<open>auto simp: stored_def executable_status_def finished_def\<close>)
next
  case False
  from assms(2) show ?thesis
    by (cases rule: run_task_stages) (use False in \<open>auto simp: executable_status_def\<close>)
qed

lemma create_grows:
  assumes "world_ok sv w" and "inj (sv_uuid sv)" and "create_task_record sv sub enq w = (r, w')"
  shows "grows w w'"
proof -
  have "grows w (created_world sv sub w)"
    using fresh_id [OF assms(1,2)] by (auto simp: grows_def created_world_def)
  with assms(3) show ?thesis
    by (auto simp: create_task_record_eq split: sum.splits if_splits)
qed

lemma sup_exec_grows:
  assumes ok: "world_ok sv w" and inj: "inj (sv_uuid sv)" and ex: "sup_exec sv op w = (r, w')"
  shows "grows w w'"
proof (cases op)
  case (Submit sub)
  with ex create_grows [OF ok inj] show ?thesis by (simp add: submit_def)
next
  case (Run_Submission sub)
  obtain s w1 where c: "create_task_record sv sub False w = (s, w1)" by fastforce
  note g = create_grows [OF ok inj c]
  show ?thesis
  proof (cases s)
    case (Inl e)
    with ex Run_Submission c g show ?thesis by (simp add: run_submission_def)
  next
    case (Inr t)
    with ex Run_Submission c have "run_task sv (task_id t) w1 = (r, w')" by (simp add: run_submission_def)
    moreover have "world_ok sv w1" using create_task_record_ok [OF ok inj c] by (simp add: run_ok_def)
    ultimately show ?thesis using grows_trans [OF g] run_task_grows by blast
  qed
next
  case Run_Next
  obtain x q where d: "tq_dequeue (w_queue w) = (x, q)" by fastforce
  show ?thesis
  proof (cases x)
    case None
    with ex Run_Next d show ?thesis by (auto simp: run_next_def)
  next
    case (Some tid)
    with ex Run_Next d have "run_task sv tid (w\<lparr>w_queue := q\<rparr>) = (r, w')" by (simp add: run_next_def)
    from run_task_grows [OF _ this] ok show ?thesis by simp
  qed
next
  case (Run_Task tid)
  with ex run_task_grows [OF ok] show ?thesis by simp
next
  case (Approve tid actor md run)
  with ex have "approve_task sv tid actor md run w = (r, w')" by simp
  then show ?thesis
  proof (cases rule: approve_task_stages)
    case (approved t t1 w1)
    have "run_frame (t, w) (t1, w1)" unfolding approved(3) [symmetric] by (rule transition_frame)
    then have g: "grows w w1"
      by (rule run_frame_grows)
        (use world_live(2,3) [OF ok approved(1)] approved(2) in \<open>auto simp: stored_def finished_def\<close>)
    from approved(4) show ?thesis
    proof (elim disjE conjE exE)
      assume "run_task sv tid w1 = (r, w')"
      from run_task_grows [OF live_world [OF approve_live(1) [OF ok approved(1-3)]] this] g
      show ?thesis using grows_trans by blast
    qed (use g in simp_all)
  qed simp
next
  case (Cancel tid actor reason md)
  with ex have "cancel_task sv tid actor reason md w = (r, w')" by simp
  then show ?thesis
  proof (cases rule: cancel_task_stages)
    case (cancelled t res x w1 t1 m err)
    have "run_frame (t\<lparr>task_result := res\<rparr>, w1) (t1, w')" unfolding cancelled(4) [symmetric] by (rule transition_frame)
    from run_frame_trans [OF run_frame_trans [OF now_utc_frame [OF cancelled(3)] run_frame_task(2)] this]
    show ?thesis
      by (rule run_frame_grows)
        (use world_live(2,3) [OF ok cancelled(1)] cancelled(2) in \<open>auto simp: stored_def finished_def\<close>)
  qed simp
qed

text \<open>
  C6. History is never rewritten: from any reachable world, whatever operations follow, every stored
  task stays stored, its audit trail is only extended, and a task that is completed, failed,
  escalated, denied or cancelled never changes again in any field.
\<close>

theorem records_are_append_only:
  assumes "reachable sv w" and "inj (sv_uuid sv)" and "sup_exec sv op w = (r, w')"
    and "ms_get (w_store w) k = Some t"
  shows "\<exists>t' es. ms_get (w_store w') k = Some t' \<and> task_audit_trail t' = task_audit_trail t @ es \<and>
    (task_status t \<in> {COMPLETED, FAILED, ESCALATED, POLICY_DENIED, CANCELLED} \<longrightarrow> t' = t)"
proof -
  have "grows w w'" using sup_exec_grows [OF reachable_ok [OF assms(1,2)] assms(2,3)] .
  from growsD [OF this assms(4)] show ?thesis by (auto simp: finished_def)
qed

theorem records_are_append_only_witness:
  "\<exists>t. ms_get (w_store demo_final) [] = Some t \<and> task_status t = COMPLETED \<and>
     (\<exists>t'. ms_get (w_store (snd (sup_exec demo_supervisor (Run_Task []) demo_final))) [] = Some t' \<and> t' = t)"
proof -
  obtain t where t: "run_task demo_supervisor [] demo_world = (Inr t, demo_final)" "task_status t = COMPLETED"
    using demo_final_ran(1) by blast
  from run_task_ok [OF reachable_ok [OF demo_world_reachable demo_inj] t(1)]
    run_task_frame [OF t(1) demo_run_premises(2)]
  have "ms_get (w_store demo_final) [] = Some t"
    by (auto simp: run_ok_def stored_def run_frame_def demo_supervisor_def demo_init_def world_init_def)
  from records_are_append_only [OF demo_final_reachable demo_inj _ this,
      of "Run_Task []" "fst (sup_exec demo_supervisor (Run_Task []) demo_final)"
        "snd (sup_exec demo_supervisor (Run_Task []) demo_final)"] t(2) this
  show ?thesis by simp
qed

section \<open>A returned run has come to rest\<close>

text \<open>
  A run that returns has decided: in a reachable world, running a pending or approved task
  either raises or returns the very record the store then holds under its id, and that record is
  completed, failed, escalated, denied or waiting for approval, never still running or pending.
\<close>

theorem returned_run_is_decided:
  assumes "reachable sv w" and "inj (sv_uuid sv)" and "run_task sv tid w = (Inr t', w')"
    and "get_task w tid = Inr t" and "task_status t \<in> {PENDING, APPROVED}"
  shows "ms_get (w_store w') tid = Some t' \<and>
    task_status t' \<in> {COMPLETED, FAILED, ESCALATED, POLICY_DENIED, AWAITING_APPROVAL}"
proof -
  have ok: "world_ok sv w" using reachable_ok assms(1,2) by blast
  have "task_id t = tid" using world_live(2) [OF ok assms(4)] .
  then have id: "task_id t' = tid" using run_task_frame [OF assms(3,4)] by (auto simp: run_frame_def)
  from run_task_ok [OF ok assms(3)] have "stored (t', w')"
    and "rested (task_status t') \<or> get_task w tid = Inr t' \<and> \<not> executable_status (task_status t')"
    by (auto simp: run_ok_def)
  with id assms(4,5) show ?thesis
    by (auto simp: stored_def rested_def settled_def executable_status_def)
qed

theorem returned_run_is_decided_witness:
  "\<exists>t. ms_get (w_store demo_final) [] = Some t \<and>
     task_status t \<in> {COMPLETED, FAILED, ESCALATED, POLICY_DENIED, AWAITING_APPROVAL}"
proof -
  obtain t where "run_task demo_supervisor [] demo_world = (Inr t, demo_final)" using demo_final_ran(1) by blast
  from returned_run_is_decided [OF demo_world_reachable demo_inj this demo_run_premises(2)] show ?thesis by simp
qed

section \<open>The execution budget\<close>

lemma now_utc_executions: "now_utc sv w = (x, w') \<Longrightarrow> w_executions w' = w_executions w"
  by (auto simp: now_utc_def)

lemma guild_publish_executions: "guild_publish sv c h hint w = (r, w') \<Longrightarrow> w_executions w' = w_executions w"
  by (auto simp: guild_publish_def split: option.splits if_splits prod.splits)

lemma do_escalate_executions:
  assumes "do_escalate sv h st e rs tw = (r, tw')"
  shows "w_executions (snd tw') = w_executions (snd tw)"
proof -
  obtain t w where tw: "tw = (t, w)" by fastforce
  from assms [unfolded tw] show ?thesis
  proof (rule do_escalate_stages)
    fix res md x w2 t3 w3 w4
    assume a: "w_executions w2 = w_executions w" "tw' = (t3, w4)"
      "transition_status sv ESCALATED ''supervisor'' ''escalated'' TASK_ESCALATED md (Some (exc_str e)) (Some x)
       (t\<lparr>task_result := res\<rparr>, w2) = (t3, w3)"
      "guild_publish sv (task_capability t3) h hint_escalated w3 = (r, w4)"
    from arg_cong [OF a(3), of "\<lambda>p. w_executions (snd p)"] guild_publish_executions [OF a(4)] a(1,2)
    show ?thesis by (simp add: tw)
  qed
qed

lemma retry_announced_executions [simp]:
  "w_executions (snd (retry_announced sv e d tw)) = w_executions (snd tw)"
  by (simp add: retry_announced_def)

lemma retry_sleep_executions [simp]: "w_executions (retry_sleep d w) = w_executions w"
  by (simp add: retry_sleep_def time_sleep_def split: option.split)

lemma retry_or_escalate_executions:
  "retry_or_escalate sv st h e d (t, w) = (n, tw') \<Longrightarrow> w_executions (snd tw') = w_executions w"
  unfolding retry_or_escalate_cases
  by (auto split: if_splits prod.splits sum.splits dest: do_escalate_executions
      arg_cong [where f = "\<lambda>p. w_executions (snd p)"])

lemma handle_failure_executions:
  assumes "handle_failure sv st h e tw = (n, h', tw')"
  shows "w_executions (snd tw') = w_executions (snd tw)"
proof -
  obtain t w where tw: "tw = (t, w)" by fastforce
  from assms [unfolded tw] show ?thesis
  proof (cases rule: handle_failure_stages)
    case (decided fp t1 w1)
    from arg_cong [OF decided(3), of "\<lambda>p. w_executions (snd p)"] have "w_executions w1 = w_executions w" by simp
    with decided(4) show ?thesis by (auto simp: tw dest: retry_or_escalate_executions)
  qed (simp add: tw)
qed

lemma run_loop_budget:
  "run_loop sv c ec st h tw = (r, h', tw') \<Longrightarrow>
   length (w_executions (snd tw')) \<le>
     length (w_executions (snd tw)) + nat (max 1 (task_max_retries (fst tw) + 2 - task_attempt (fst tw)))"
proof (induction sv c ec st h tw arbitrary: r h' tw' rule: run_loop.induct)
  case (1 sv c ec st h tw)
  obtain x tw1 where a: "run_attempt sv c ec st tw = (x, tw1)" by (meson surj_pair)
  note len = run_attempt_frame(2) [OF a] and same = run_attempt_task [OF a]
  have stop: "?case" if "tw' = tw1"
    using len that by simp
  show ?case
  proof (cases x)
    case None
    with 1(2) a stop show ?thesis by (simp add: run_loop.simps [of sv c ec st h tw])
  next
    case (Some e)
    show ?thesis
    proof (cases "is_exception e")
      case False
      with 1(2) a Some stop show ?thesis by (simp add: run_loop.simps [of sv c ec st h tw])
    next
      case True
      obtain n h2 tw2 where f: "handle_failure sv st h e tw1 = (n, h2, tw2)" by (metis prod_cases3)
      have len2: "w_executions (snd tw2) = w_executions (snd tw1)" by (rule handle_failure_executions [OF f])
      show ?thesis
      proof (cases n)
        case Again
        have "run_loop sv c ec st h2 tw2 = (r, h', tw')"
          using 1(2) a Some True f Again by (simp add: run_loop.simps [of sv c ec st h tw])
        from 1(1) [OF a [symmetric] Some _ f [symmetric] Again refl this] True
        have "length (w_executions (snd tw')) \<le> length (w_executions (snd tw2)) +
          nat (max 1 (task_max_retries (fst tw2) + 2 - task_attempt (fst tw2)))" by simp
        with handle_failure_again [OF f [unfolded Again]] len len2 same show ?thesis by simp
      next
        case (Raised e')
        with 1(2) a Some True f have "tw' = tw2" by (simp add: run_loop.simps [of sv c ec st h tw])
        with len len2 show ?thesis by simp
      next
        case (Leave lx)
        with 1(2) a Some True f have "tw' = tw2" by (simp add: run_loop.simps [of sv c ec st h tw])
        with len len2 show ?thesis by simp
      qed
    qed
  qed
qed

lemma apply_suggestion_executions:
  "apply_suggestion sv (t, w) = (r, tw') \<Longrightarrow> w_executions (snd tw') = w_executions w \<and>
     task_attempt (fst tw') = task_attempt t \<and> task_max_retries (fst tw') = task_max_retries t"
  by (drule apply_suggestion_cases) (auto simp: append_audit_task)

lemma finish_run_executions:
  assumes "finish_run sv st lx h (t, w) = (r, w')"
  shows "w_executions w' = w_executions w"
  using assms
proof (cases rule: finish_run_stages)
  case (failed e w1 x w2 t3)
  from arg_cong [OF failed(4), of "\<lambda>p. w_executions (snd p)"] now_utc_executions [OF failed(3)]
    guild_publish_executions [OF failed(2)] show ?thesis by simp
qed (auto dest: guild_publish_executions)

lemma execute_task_budget:
  assumes "execute_task sv c (t, w) = (r, w')"
  shows "length (w_executions w') \<le> length (w_executions w) + nat (max 1 (task_max_retries t + 1 - task_attempt t))"
  using assms
proof (cases rule: execute_task_stages)
  case (ran t1 w1 ec w2 x w3 t4 w4 lr h t5 w5)
  have "w_executions w4 = w_executions w" "task_attempt t4 = task_attempt t + 1" "task_max_retries t4 = task_max_retries t"
    using arg_cong [OF ran(5), of "\<lambda>p. w_executions (snd p)"] arg_cong [OF ran(5), of "\<lambda>p. task_attempt (fst p)"]
      arg_cong [OF ran(5), of "\<lambda>p. task_max_retries (fst p)"] apply_suggestion_executions [OF ran(1)]
      wait_window_frame(3) [OF ran(3)] now_utc_executions [OF ran(4)] by simp_all
  with run_loop_budget [OF ran(6)] have "length (w_executions w5) \<le>
      length (w_executions w) + nat (max 1 (task_max_retries t + 1 - task_attempt t))" by simp
  with ran(7) show ?thesis by (auto dest: finish_run_executions)
next
  case (window t1 w1 e)
  from apply_suggestion_executions [OF window(1)] wait_window_frame(3) [OF window(2)] show ?thesis by simp
qed (auto dest: apply_suggestion_executions)

lemma apply_policy_fields:
  "apply_policy sv d (t, w) = (t1, w1) \<Longrightarrow> w_executions w1 = w_executions w \<and>
     task_attempt t1 = task_attempt t \<and> task_max_retries t1 = task_max_retries t \<and>
     (task_status t1 = PENDING \<longrightarrow> pd_decision d = ALLOW \<or> task_status t \<noteq> PENDING)"
  by (cases "pd_decision d") (auto simp: apply_policy_def Let_def now_utc_def
      dest: arg_cong [where f = "\<lambda>p. w_executions (snd p)"] arg_cong [where f = "\<lambda>p. task_attempt (fst p)"]
        arg_cong [where f = "\<lambda>p. task_max_retries (fst p)"] arg_cong [where f = "\<lambda>p. task_status (fst p)"])



section \<open>The execution window\<close>



section \<open>Submission\<close>

text \<open>
  What a submission does: if it returns, the submission was valid and the store holds the
  returned pending task with the submitted name, capability, input and retries, and its id waits
  last in the queue.  If it raises, either the submission was invalid and nothing changed, or the
  queue refused the id, and then the task is in the store, pending, although it was never queued
  and the caller was told that the submission failed.
\<close>

theorem submit_effect:
  "case submit sv sub w of
     (Inr t, w') \<Rightarrow> (\<exists>c. validate_task_submission sub (sv_registry sv) = Inr c) \<and>
        ms_get (w_store w') (task_id t) = Some t \<and> task_status t = PENDING \<and>
        task_name t = sub_name sub \<and> task_capability t = sub_capability sub \<and>
        task_input t = sub_input sub \<and> task_max_retries t = sub_max_retries sub \<and> task_attempt t = 0 \<and>
        tq_list (w_queue w') = tq_list (w_queue w) @ [task_id t]
   | (Inl e, w') \<Rightarrow>
        (validate_task_submission sub (sv_registry sv) = Inl e \<and> w' = w) \<or>
        (tq_enqueue (sv_uuid sv (w_uuids w)) (w_queue w) = Inl e \<and> w_queue w' = w_queue w \<and>
         (\<exists>t. ms_get (w_store w') (sv_uuid sv (w_uuids w)) = Some t \<and> task_status t = PENDING \<and>
            task_name t = sub_name sub))"
  by (auto simp: submit_def create_task_record_eq created_world_def tq_enqueue_list
      split: sum.splits prod.splits if_splits)
    (simp_all add: fresh_task_def new_task_record_def)

section \<open>A broken guild file\<close>

text \<open>The guild's knowledge base is on, and its file does not decode.\<close>

definition guild_corrupt :: "supervisor \<Rightarrow> world \<Rightarrow> string \<Rightarrow> bool" where
  "guild_corrupt sv w m \<longleftrightarrow> (\<exists>config l. sv_guild_knowledge sv = Some config \<and> gc_enabled config \<and>
     w_guild w = Local_Guild l \<and> lg_file l = Corrupt m)"

lemma guild_corrupt_raises:
  assumes "guild_corrupt sv w m"
  shows "h \<noteq> [] \<Longrightarrow> \<exists>w'. guild_publish sv c h hint w = (Inl (JSON_Decode_Error m), w') \<and> w_store w' = w_store w \<and>
      w_executions w' = w_executions w"
    and "json_able (PDict i) \<Longrightarrow> \<exists>w'. guild_publish_success sv c i w = (Inl (JSON_Decode_Error m), w') \<and>
      w_store w' = w_store w \<and> w_executions w' = w_executions w \<and> w_guild w' = w_guild w"
proof -
  obtain config l where g: "sv_guild_knowledge sv = Some config" "gc_enabled config"
    "w_guild w = Local_Guild l" "lg_file l = Corrupt m"
    using assms by (auto simp: guild_corrupt_def)
  then have get: "gs_get (Local_Guild l) f = Inl (JSON_Decode_Error m)" for f
    by (simp add: lg_get_def lg_read_all_def)
  show "\<exists>w'. guild_publish sv c h hint w = (Inl (JSON_Decode_Error m), w') \<and> w_store w' = w_store w \<and>
      w_executions w' = w_executions w" if "h \<noteq> []"
    using that g get by (cases h) (auto simp: guild_publish_def kb_publish_def Let_def)
  show "\<exists>w'. guild_publish_success sv c i w = (Inl (JSON_Decode_Error m), w') \<and>
      w_store w' = w_store w \<and> w_executions w' = w_executions w \<and> w_guild w' = w_guild w" if "json_able (PDict i)"
    using that g get
    by (auto simp: guild_publish_success_def kb_publish_success_def Let_def compute_input_fingerprint_def)
qed

lemma run_attempt_corrupt:
  assumes gc: "guild_corrupt sv w m" and js: "json_able (PDict (task_input t))"
    and v: "cap_validate_input c (task_input t) = Inr p"
    and ok: "\<And>ctx n. \<exists>out. call_outcome c p ctx (ec_timeout_seconds ec) n = Inr out"
    and r: "run_attempt sv c ec st (t, w) = (x, t', w')"
  shows "x = Some (JSON_Decode_Error m)" "guild_corrupt sv w' m" "task_input t' = task_input t"
    "task_max_retries t' = task_max_retries t" "task_attempt t' = task_attempt t"
    "task_status t' = COMPLETED" "length (w_executions w') = Suc (length (w_executions w))"
    "ms_get (w_store w') (task_id t') = Some t'"
proof -
  have "x = Some (JSON_Decode_Error m) \<and> guild_corrupt sv w' m \<and> task_input t' = task_input t \<and>
    task_max_retries t' = task_max_retries t \<and> task_attempt t' = task_attempt t \<and>
    task_status t' = COMPLETED \<and> length (w_executions w') = Suc (length (w_executions w)) \<and>
    ms_get (w_store w') (task_id t') = Some t'"
    using r
  proof (cases rule: run_attempt_stages)
    case (failed q e w1)
    with v have "q = p" by simp
    with execute_outcome [OF failed(2)] ok show ?thesis by (metis sum.distinct(1))
  next
    case (completed q out w1 y w2 t3 w3 g w4)
    have w2: "w_executions w2 = w_executions w1" "w_guild w2 = w_guild w1"
      using completed(3) by (auto simp: now_utc_def)
    have t3: "task_status t3 = COMPLETED" "task_attempt t3 = task_attempt t" "task_input t3 = task_input t"
      "task_max_retries t3 = task_max_retries t" "w_executions w3 = w_executions w2" "w_guild w3 = w_guild w2"
      using arg_cong [OF completed(4), of "\<lambda>p. task_status (fst p)"] arg_cong [OF completed(4), of "\<lambda>p. task_attempt (fst p)"]
        arg_cong [OF completed(4), of "\<lambda>p. task_input (fst p)"] arg_cong [OF completed(4), of "\<lambda>p. task_max_retries (fst p)"]
        arg_cong [OF completed(4), of "\<lambda>p. w_executions (snd p)"] arg_cong [OF completed(4), of "\<lambda>p. w_guild (snd p)"]
      by simp_all
    have st: "ms_get (w_store w3) (task_id t3) = Some t3"
      using arg_cong [OF completed(4), of "\<lambda>p. ms_get (w_store (snd p)) (task_id (fst p))"] completed(4)
      by (auto simp: transition_status_def save_task_def emit_event_def now_utc_def append_audit_def Let_def
          split: if_splits)
    have ex: "length (w_executions w1) = Suc (length (w_executions w))" "w_guild w1 = w_guild w"
      using execute_outcome [OF completed(2)] by simp_all
    then have gc3: "guild_corrupt sv w3 m" using gc w2 t3 by (simp add: guild_corrupt_def)
    have js3: "json_able (PDict (task_input t3))" using js t3(3) by simp
    from guild_corrupt_raises(2) [OF gc3 js3, of "task_capability t3"] completed(5)
    have "g = Inl (JSON_Decode_Error m)" "w_store w4 = w_store w3" "w_executions w4 = w_executions w3" "w_guild w4 = w_guild w3"
      by auto
    with completed(6,7) t3 w2 ex st gc3 show ?thesis by (simp add: guild_corrupt_def)
  qed (use v in simp)
  then show "x = Some (JSON_Decode_Error m)" "guild_corrupt sv w' m" "task_input t' = task_input t"
    "task_max_retries t' = task_max_retries t" "task_attempt t' = task_attempt t"
    "task_status t' = COMPLETED" "length (w_executions w') = Suc (length (w_executions w))"
    "ms_get (w_store w') (task_id t') = Some t'" by simp_all
qed

lemma run_loop_corrupt:
  assumes sr: "simple_retries sv"
    and ok: "\<And>ctx n. \<exists>out. call_outcome c p ctx (ec_timeout_seconds ec) n = Inr out"
    and js: "json_able (PDict inp)" and v: "cap_validate_input c inp = Inr p"
  shows "guild_corrupt sv w m \<Longrightarrow> task_input t = inp \<Longrightarrow>
    nat (task_max_retries t + 1 - task_attempt t) = k \<Longrightarrow>
    \<exists>h' t' w'. run_loop sv c ec st h (t, w) = (Inr (Some (JSON_Decode_Error m)), h', t', w') \<and> h' \<noteq> [] \<and>
      length (w_executions w') = length (w_executions w) + Suc k \<and> guild_corrupt sv w' m"
proof (induction k arbitrary: t w h)
  case (0 t w h)
  obtain x t1 w1 where a: "run_attempt sv c ec st (t, w) = (x, t1, w1)" by (metis prod_cases3)
  note at = run_attempt_corrupt [OF 0(1) _ _ ok a] 
  have at': "x = Some (JSON_Decode_Error m)" "guild_corrupt sv w1 m" "task_input t1 = inp"
    "task_max_retries t1 = task_max_retries t" "task_attempt t1 = task_attempt t"
    "length (w_executions w1) = Suc (length (w_executions w))"
    using at js v 0(2) by simp_all
  obtain n h2 t2 w2 where hf: "handle_failure sv st h (JSON_Decode_Error m) (t1, w1) = (n, h2, t2, w2)" by (metis prod_cases4)
  have js1: "json_able (PDict (task_input t1))" using js at'(3) by simp
  note hp = handle_failure_plain [OF sr js1 hf]
  have "n = Leave (Some (JSON_Decode_Error m))" using hp(9) at' 0(3) by (simp split: if_splits)
  moreover have "h2 \<noteq> []"
    using hf js1 by (auto simp: handle_failure_def compute_input_fingerprint_def Let_def split: sum.splits prod.splits)
  ultimately show ?case
    using a at' hf hp(7,8) by (simp add: run_loop.simps [of sv c ec st h "(t, w)"] guild_corrupt_def)
next
  case (Suc k t w h)
  obtain x t1 w1 where a: "run_attempt sv c ec st (t, w) = (x, t1, w1)" by (metis prod_cases3)
  note at = run_attempt_corrupt [OF Suc.prems(1) _ _ ok a] 
  have at': "x = Some (JSON_Decode_Error m)" "guild_corrupt sv w1 m" "task_input t1 = inp"
    "task_max_retries t1 = task_max_retries t" "task_attempt t1 = task_attempt t"
    "length (w_executions w1) = Suc (length (w_executions w))"
    using at js v Suc.prems(2) by simp_all
  obtain n h2 t2 w2 where hf: "handle_failure sv st h (JSON_Decode_Error m) (t1, w1) = (n, h2, t2, w2)" by (metis prod_cases4)
  have js1: "json_able (PDict (task_input t1))" using js at'(3) by simp
  note hp = handle_failure_plain [OF sr js1 hf]
  have n: "n = Again" "task_attempt t2 = task_attempt t1 + 1"
    using hp(9) at' Suc.prems(3) by (simp_all split: if_splits)
  have gc2: "guild_corrupt sv w2 m" using at'(2) hp(8) by (simp add: guild_corrupt_def)
  have k: "nat (task_max_retries t2 + 1 - task_attempt t2) = k" using Suc.prems(3) at' n hp(4) by simp
  from Suc.IH [OF gc2 _ k, of h2] hp(3) at'(3) obtain h' t' w' where l:
    "run_loop sv c ec st h2 (t2, w2) = (Inr (Some (JSON_Decode_Error m)), h', t', w')" "h' \<noteq> []"
    "length (w_executions w') = length (w_executions w2) + Suc k" "guild_corrupt sv w' m" by auto
  have "run_loop sv c ec st h (t, w) = (Inr (Some (JSON_Decode_Error m)), h', t', w')"
    using a at'(1) hf n(1) l(1) by (simp add: run_loop.simps [of sv c ec st h "(t, w)"])
  with l at'(6) hp(7) show ?case by auto
qed

text \<open>
  A guild file that cannot be decoded turns successes into repetitions: with the guild's
  knowledge base on and its file corrupt, default retries and a capability every call of which
  succeeds, an authorised run calls the capability once and again for every retry left, although
  the task is marked \<^verbatim>\<open>COMPLETED\<close> after the first call, and then raises the decoder's error out of
  \<^verbatim>\<open>run_task\<close>.
\<close>

theorem corrupt_guild_file_repeats_success:
  assumes "simple_retries sv" and "\<not> guild_enabled (sv_peer_suggestions sv)" and "guild_corrupt sv w m"
    and "get_task w tid = Inr t" and "may_execute sv c t"
    and "validate_task_submission (build_submission t) (sv_registry sv) = Inr c"
    and "reg_execution_controls_of (sv_registry sv) (task_capability t) = Inr ec"
    and "cap_validate_input c (task_input t) = Inr p" and "json_able (PDict (task_input t))"
    and "\<forall>ctx n. \<exists>out. call_outcome c p ctx (ec_timeout_seconds ec) n = Inr out"
  shows "\<exists>w'. run_task sv tid w = (Inl (JSON_Decode_Error m), w') \<and>
    length (w_executions w') = length (w_executions w) + Suc (nat (task_max_retries t - task_attempt t))"
proof -
  from run_task_executes [OF assms(4-6)] obtain t1 w1 where e: "run_task sv tid w = execute_task sv c (t1, w1)"
    and t1: "task_id t1 = task_id t" "task_name t1 = task_name t" "task_input t1 = task_input t"
    "task_capability t1 = task_capability t" "task_attempt t1 = task_attempt t"
    "task_max_retries t1 = task_max_retries t" "w_executions w1 = w_executions w" "w_guild w1 = w_guild w"
    by metis
  obtain w2 where w2: "wait_for_execution_window sv (task_capability t1) w1 = (Inr (), w2)"
    using wait_window_Inr assms(7) t1(4) by metis
  obtain x w3 where x: "now_utc sv w2 = (x, w3)" by fastforce
  obtain t4 w4 where tr: "transition_status sv RUNNING ''supervisor'' ''started'' TASK_STARTED
     [(''attempt'', PInt (task_attempt t1 + 1)), (''max_retries'', PInt (task_max_retries t1))] None (Some x)
     (t1\<lparr>task_attempt := task_attempt t1 + 1\<rparr>, w3) = (t4, w4)" by fastforce
  have "w_guild w2 = w_guild w1"
    using w2 by (auto simp: wait_for_execution_window_def monotonic_def time_sleep_def Let_def
        split: sum.splits option.splits if_splits)
  then have g4: "w_guild w4 = w_guild w" and t4: "task_input t4 = task_input t" "task_attempt t4 = task_attempt t + 1"
    "task_max_retries t4 = task_max_retries t" "w_executions w4 = w_executions w"
    using arg_cong [OF tr, of "\<lambda>p. w_guild (snd p)"] arg_cong [OF tr, of "\<lambda>p. task_input (fst p)"]
      arg_cong [OF tr, of "\<lambda>p. task_attempt (fst p)"] arg_cong [OF tr, of "\<lambda>p. task_max_retries (fst p)"]
      arg_cong [OF tr, of "\<lambda>p. w_executions (snd p)"] t1 x wait_window_frame(3) [OF w2]
    by (auto simp: now_utc_def)
  have gc: "guild_corrupt sv w4 m" using assms(3) g4 by (simp add: guild_corrupt_def)
  have ok: "\<exists>out. call_outcome c p ctx (ec_timeout_seconds ec) n = Inr out" for ctx n using assms(10) by blast
  have k: "nat (task_max_retries t4 + 1 - task_attempt t4) = nat (task_max_retries t - task_attempt t)" using t4 by simp
  from run_loop_corrupt [OF assms(1) ok assms(9,8) gc t4(1) k] obtain h t5 w5 where l:
    "run_loop sv c ec x [] (t4, w4) = (Inr (Some (JSON_Decode_Error m)), h, t5, w5)" "h \<noteq> []"
    "length (w_executions w5) = length (w_executions w4) + Suc (nat (task_max_retries t - task_attempt t))"
    "guild_corrupt sv w5 m" by blast
  obtain w6 where p: "guild_publish sv (task_capability t5) h hint_failed w5 = (Inl (JSON_Decode_Error m), w6)"
    "w_executions w6 = w_executions w5"
    using guild_corrupt_raises(1) [OF l(4,2)] by blast
  have "apply_suggestion sv (t1, w1) = (Inr (), t1, w1)"
    using assms(2) by (auto simp: guild_enabled_def apply_suggestion_def split: option.splits)
  then have "execute_task sv c (t1, w1) = (Inl (JSON_Decode_Error m), w6)"
    using assms(7) t1(4) w2 x tr l(1) p(1) by (simp add: execute_task_def finish_run_def Let_def)
  with e p(2) l(3) t4(4) show ?thesis by simp
qed

text \<open>The demonstration supervisor with its guild on, over a file that does not decode; the
  capability's first call is behind it.\<close>

definition guilded_supervisor :: supervisor where
  "guilded_supervisor = demo_supervisor\<lparr>sv_registry := \<lparr>reg_capabilities =
       [(''echo'', demo_capability\<lparr>cap_execute := (\<lambda>n p ctx. (0, Inr \<lparr>cr_output = p, cr_metadata = []\<rparr>))\<rparr>)],
       reg_execution_controls = []\<rparr>,
     sv_guild_knowledge := Some (guild_config_default\<lparr>gc_enabled := True\<rparr>)\<rparr>"

definition guilded_world :: world where
  "guilded_world = demo_world\<lparr>w_guild := Local_Guild \<lparr>lg_path = ''guild.json'', lg_file = Corrupt ''bad''\<rparr>\<rparr>"

theorem corrupt_guild_file_repeats_success_witness:
  "\<exists>w'. run_task guilded_supervisor [] guilded_world = (Inl (JSON_Decode_Error ''bad''), w') \<and>
     length (w_executions w') = 2"
proof -
  let ?c = "demo_capability\<lparr>cap_execute := (\<lambda>n p ctx. (0, Inr \<lparr>cr_output = p, cr_metadata = []\<rparr>))\<rparr>"
  have "\<exists>w'. run_task guilded_supervisor [] guilded_world = (Inl (JSON_Decode_Error ''bad''), w') \<and>
      length (w_executions w') = length (w_executions guilded_world) +
        Suc (nat (task_max_retries demo_task - task_attempt demo_task))"
  proof (rule corrupt_guild_file_repeats_success [where c = ?c and ec = new_exec_controls and p = "PDict []"])
    show "simple_retries guilded_supervisor" "\<not> guild_enabled (sv_peer_suggestions guilded_supervisor)"
      by (simp_all add: simple_retries_def guilded_supervisor_def demo_supervisor_def quiet_bus_def guild_enabled_def)
    show "guild_corrupt guilded_supervisor guilded_world ''bad''"
      by (simp add: guild_corrupt_def guilded_supervisor_def guilded_world_def guild_config_default_def)
    show "get_task guilded_world [] = Inr demo_task"
      using demo_world_get by (simp add: get_task_def guilded_world_def)
    show "may_execute guilded_supervisor ?c demo_task"
      by (simp add: may_execute_def guilded_supervisor_def demo_supervisor_def demo_capability_def null_evaluate_def)
    show "validate_task_submission (build_submission demo_task) (sv_registry guilded_supervisor) = Inr ?c"
      unfolding demo_fresh
      by (simp add: validate_task_submission_def demo_submission_def guilded_supervisor_def reg_get_def dget_def
          demo_capability_def py_strip_def is_ws_def Let_def)
    show "reg_execution_controls_of (sv_registry guilded_supervisor) (task_capability demo_task) = Inr new_exec_controls"
      by (simp add: guilded_supervisor_def reg_execution_controls_of_def dget_def)
    show "cap_validate_input ?c (task_input demo_task) = Inr (PDict [])" by (simp add: demo_capability_def)
    show "json_able (PDict (task_input demo_task))" by simp
    show "\<forall>ctx n. \<exists>out. call_outcome ?c (PDict []) ctx (ec_timeout_seconds new_exec_controls) n = Inr out"
      by (simp add: call_outcome_def new_exec_controls_def)
  qed
  then show ?thesis by (simp add: guilded_world_def numeral_2_eq_2)
qed

end
