(* ===== verification/Scheduler.thy ===== *)
theory Scheduler
  imports Contracts Retries
begin

text \<open>
  \<^verbatim>\<open>engine/runtime/scheduler.py\<close> and \<^verbatim>\<open>engine/interfaces/scheduler.py\<close>: cron schedules, the cron and
  webhook trigger adapters, webhook ingress, the scheduler service and its loop runner.

  A \<^verbatim>\<open>datetime\<close> is given by its fields; an aware one by its fields in UTC, so that
  \<^verbatim>\<open>astimezone(UTC)\<close> keeps them.  The weekday is computed from the date as the standard library
  does.  Strings are taken to be ASCII where the code tests \<^verbatim>\<open>isdigit\<close>.  The wall clock and the
  dispatch ids are functions of the number of draws.  The sink is the \<^verbatim>\<open>submit\<close> of the code's
  \<^verbatim>\<open>SubmissionSink\<close> protocol, a function on its own state.
\<close>

section \<open>Dates\<close>

record py_datetime =
  dt_year :: int
  dt_month :: int
  dt_day :: int
  dt_hour :: int
  dt_minute :: int
  dt_second :: int
  dt_microsecond :: int
  dt_aware :: bool

definition is_leap :: "int \<Rightarrow> bool" where
  "is_leap y \<longleftrightarrow> y mod 4 = 0 \<and> (y mod 100 \<noteq> 0 \<or> y mod 400 = 0)"

definition days_before_year :: "int \<Rightarrow> int" where
  "days_before_year y = (y - 1) * 365 + (y - 1) div 4 - (y - 1) div 100 + (y - 1) div 400"

definition days_before_month :: "int \<Rightarrow> int \<Rightarrow> int" where
  "days_before_month y m =
     ([0, 31, 59, 90, 120, 151, 181, 212, 243, 273, 304, 334] ! nat (m - 1)) + (if m > 2 \<and> is_leap y then 1 else 0)"

text \<open>\<^verbatim>\<open>date.weekday()\<close>: Monday is 0.\<close>

definition py_weekday :: "py_datetime \<Rightarrow> int" where
  "py_weekday d = (days_before_year (dt_year d) + days_before_month (dt_year d) (dt_month d) + dt_day d + 6) mod 7"

definition pad2 :: "int \<Rightarrow> string" where
  "pad2 n = pad_zero 2 (show_int n)"

definition isofmt :: "py_datetime \<Rightarrow> string" where
  "isofmt d = pad_zero 4 (show_int (dt_year d)) @ ''-'' @ pad2 (dt_month d) @ ''-'' @ pad2 (dt_day d) @ ''T'' @
     pad2 (dt_hour d) @ '':'' @ pad2 (dt_minute d) @ '':'' @ pad2 (dt_second d) @
     (if dt_microsecond d = 0 then [] else ''.'' @ pad_zero 6 (show_int (dt_microsecond d))) @
     (if dt_aware d then ''+00:00'' else [])"

text \<open>\<^verbatim>\<open>_normalize_now\<close>; the clock is read only when no time is given.\<close>

definition normalize_now :: "py_datetime \<Rightarrow> py_datetime option \<Rightarrow> py_datetime" where
  "normalize_now clock now = (case now of
       None \<Rightarrow> clock
     | Some d \<Rightarrow> if \<not> dt_aware d then d\<lparr>dt_aware := True\<rparr> else d)"

section \<open>Cron fields\<close>

definition out_of_range_message :: "int \<Rightarrow> string \<Rightarrow> string" where
  "out_of_range_message candidate field_spec =
     ''Value '' @ show_int candidate @ '' out of range for field '' @ py_repr field_spec"

fun token_matches :: "int \<Rightarrow> string \<Rightarrow> int \<Rightarrow> int \<Rightarrow> bool \<Rightarrow> string list \<Rightarrow> exc + bool" where
  "token_matches v field_spec minimum maximum allow_weekday_7 [] = Inr False"
| "token_matches v field_spec minimum maximum allow_weekday_7 (part # parts) =
     (let token = py_strip part in
      if token = [] then token_matches v field_spec minimum maximum allow_weekday_7 parts
      else if token = ''*'' then Inr True
      else if prefix_of ''*/'' token
      then
        let step_str = drop 2 token in
        if \<not> py_isdigit step_str
        then Inl (Value_Error (''Invalid step value '' @ py_repr token))
        else if py_int step_str \<le> 0
        then Inl (Value_Error (''Step must be > 0 in '' @ py_repr token))
        else Inr (v mod py_int step_str = 0)
      else if py_isdigit token
      then
        let candidate = py_int token;
            candidate = (if allow_weekday_7 \<and> candidate = 7 then 0 else candidate)
        in
        if candidate < minimum \<or> candidate > maximum
        then Inl (Value_Error (out_of_range_message candidate field_spec))
        else if v = candidate then Inr True
        else token_matches v field_spec minimum maximum allow_weekday_7 parts
      else Inl (Value_Error (''Unsupported cron token '' @ py_repr token)))"

definition field_matches :: "int \<Rightarrow> string \<Rightarrow> int \<Rightarrow> int \<Rightarrow> bool \<Rightarrow> exc + bool" where
  "field_matches v field_spec minimum maximum allow_weekday_7 =
     token_matches v field_spec minimum maximum allow_weekday_7 (split_on CHR '','' field_spec)"

section \<open>CronSchedule\<close>

text \<open>\<^verbatim>\<open>s.split()\<close>: the pieces between runs of whitespace.\<close>

fun split_ws_acc :: "string \<Rightarrow> string \<Rightarrow> string list" where
  "split_ws_acc acc [] = (if acc = [] then [] else [rev acc])"
| "split_ws_acc acc (c # s) =
     (if is_ws c then (if acc = [] then split_ws_acc [] s else rev acc # split_ws_acc [] s)
      else split_ws_acc (c # acc) s)"

definition split_ws :: "string \<Rightarrow> string list" where
  "split_ws s = split_ws_acc [] s"

record cron_schedule =
  cs_expression :: string
  cs_minute :: string
  cs_hour :: string
  cs_day :: string
  cs_month :: string
  cs_weekday :: string

text \<open>Python's \<^verbatim>\<open>and\<close> over calls that may raise: stop at the first false or raising one.\<close>

fun all_true :: "(exc + bool) list \<Rightarrow> exc + bool" where
  "all_true [] = Inr True"
| "all_true (Inl e # xs) = Inl e"
| "all_true (Inr b # xs) = (if b then all_true xs else Inr False)"

definition cron_weekday :: "py_datetime \<Rightarrow> int" where
  "cron_weekday d = (py_weekday d + 1) mod 7"

definition cron_matches :: "cron_schedule \<Rightarrow> py_datetime \<Rightarrow> exc + bool" where
  "cron_matches s when =
     (let check = normalize_now when (Some when) in
      all_true
        [field_matches (dt_minute check) (cs_minute s) 0 59 False,
         field_matches (dt_hour check) (cs_hour s) 0 23 False,
         field_matches (dt_day check) (cs_day s) 1 31 False,
         field_matches (dt_month check) (cs_month s) 1 12 False,
         field_matches (cron_weekday check) (cs_weekday s) 0 6 True])"

definition new_year_2026 :: py_datetime where
  "new_year_2026 = \<lparr>dt_year = 2026, dt_month = 1, dt_day = 1, dt_hour = 0, dt_minute = 0, dt_second = 0,
     dt_microsecond = 0, dt_aware = True\<rparr>"

definition cron_init :: "string \<Rightarrow> exc + cron_schedule" where
  "cron_init expression =
     (case split_ws expression of
        [minute, hour, day, month, weekday] \<Rightarrow>
          (let s = \<lparr>cs_expression = expression, cs_minute = minute, cs_hour = hour, cs_day = day,
                    cs_month = month, cs_weekday = weekday\<rparr> in
           case cron_matches s new_year_2026 of Inl e \<Rightarrow> Inl e | Inr b \<Rightarrow> Inr s)
      | _ \<Rightarrow> Inl (Value_Error ''Cron expression must have 5 fields: minute hour day month weekday''))"

section \<open>Trigger adapters\<close>

datatype trigger_source = CRON | WEBHOOK

fun source_value :: "trigger_source \<Rightarrow> string" where
  "source_value CRON = ''cron''"
| "source_value WEBHOOK = ''webhook''"

record trigger_dispatch =
  td_dispatch_id :: string
  td_source :: trigger_source
  td_trigger_name :: string
  td_scheduled_for :: py_datetime
  td_emitted_at :: py_datetime
  td_submission :: task_submission

text \<open>Where dispatch ids and times come from.\<close>

record sched_env =
  se_clock :: "nat \<Rightarrow> py_datetime"
  se_uuid :: "nat \<Rightarrow> string"

definition make_dispatch ::
  "sched_env \<Rightarrow> trigger_source \<Rightarrow> string \<Rightarrow> py_datetime \<Rightarrow> task_submission \<Rightarrow> nat \<Rightarrow> trigger_dispatch \<times> nat" where
  "make_dispatch env source name scheduled_for submission n =
     (\<lparr>td_dispatch_id = se_uuid env n, td_source = source, td_trigger_name = name,
       td_scheduled_for = scheduled_for, td_emitted_at = se_clock env n, td_submission = submission\<rparr>, Suc n)"

type_synonym slot = "int \<times> int \<times> int \<times> int \<times> int"

definition slot_key :: "py_datetime \<Rightarrow> slot" where
  "slot_key when = (let d = normalize_now when (Some when) in
     (dt_year d, dt_month d, dt_day d, dt_hour d, dt_minute d))"

record cron_adapter =
  ca_name :: string
  ca_schedule :: cron_schedule
  ca_submission :: task_submission
  ca_last_emitted_slot :: "slot option"

definition cron_adapter_init :: "string \<Rightarrow> string \<Rightarrow> task_submission \<Rightarrow> exc + cron_adapter" where
  "cron_adapter_init name schedule submission =
     (case cron_init schedule of
        Inl e \<Rightarrow> Inl e
      | Inr s \<Rightarrow> Inr \<lparr>ca_name = name, ca_schedule = s, ca_submission = submission, ca_last_emitted_slot = None\<rparr>)"

definition cron_poll ::
  "sched_env \<Rightarrow> py_datetime option \<Rightarrow> nat \<Rightarrow> cron_adapter \<Rightarrow> (exc + trigger_dispatch list) \<times> nat \<times> cron_adapter" where
  "cron_poll env now n a =
     (let current = normalize_now (se_clock env n) now;
          n = (if now = None then Suc n else n)
      in case cron_matches (ca_schedule a) current of
           Inl e \<Rightarrow> (Inl e, n, a)
         | Inr False \<Rightarrow> (Inr [], n, a)
         | Inr True \<Rightarrow>
             (let slot = slot_key current in
              if ca_last_emitted_slot a = Some slot then (Inr [], n, a)
              else
                let (d, n) = make_dispatch env CRON (ca_name a) current (ca_submission a) n in
                (Inr [d], n, a\<lparr>ca_last_emitted_slot := Some slot\<rparr>)))"

record webhook_adapter =
  wa_name :: string
  wa_mapper :: "pydict \<Rightarrow> exc + task_submission"
  wa_pending_payloads :: "(py_datetime \<times> pydict) list"

definition webhook_init :: "string \<Rightarrow> (pydict \<Rightarrow> exc + task_submission) \<Rightarrow> webhook_adapter" where
  "webhook_init name mapper = \<lparr>wa_name = name, wa_mapper = mapper, wa_pending_payloads = []\<rparr>"

definition enqueue_payload :: "py_datetime \<Rightarrow> pydict \<Rightarrow> py_datetime option \<Rightarrow> webhook_adapter \<Rightarrow> webhook_adapter" where
  "enqueue_payload clock payload received_at a =
     a\<lparr>wa_pending_payloads := wa_pending_payloads a @ [(normalize_now clock received_at, payload)]\<rparr>"

text \<open>The \<^verbatim>\<open>while\<close> of \<^verbatim>\<open>poll\<close>: each payload is popped before it is mapped.\<close>

fun webhook_drain ::
  "sched_env \<Rightarrow> string \<Rightarrow> (pydict \<Rightarrow> exc + task_submission) \<Rightarrow> (py_datetime \<times> pydict) list \<Rightarrow> nat \<Rightarrow>
   (exc + trigger_dispatch list) \<times> nat \<times> (py_datetime \<times> pydict) list" where
  "webhook_drain env name mapper [] n = (Inr [], n, [])"
| "webhook_drain env name mapper ((scheduled_for, payload) # rest) n =
     (case mapper payload of
        Inl e \<Rightarrow> (Inl e, n, rest)
      | Inr submission \<Rightarrow>
          (let (d, n) = make_dispatch env WEBHOOK name scheduled_for submission n in
           case webhook_drain env name mapper rest n of
             (Inl e, n, left) \<Rightarrow> (Inl e, n, left)
           | (Inr ds, n, left) \<Rightarrow> (Inr (d # ds), n, left)))"

definition webhook_poll ::
  "sched_env \<Rightarrow> nat \<Rightarrow> webhook_adapter \<Rightarrow> (exc + trigger_dispatch list) \<times> nat \<times> webhook_adapter" where
  "webhook_poll env n a =
     (case webhook_drain env (wa_name a) (wa_mapper a) (wa_pending_payloads a) n of
        (r, n, left) \<Rightarrow> (r, n, a\<lparr>wa_pending_payloads := left\<rparr>))"

datatype trigger_adapter = Cron_Adapter cron_adapter | Webhook_Adapter webhook_adapter

fun adapter_poll ::
  "sched_env \<Rightarrow> py_datetime option \<Rightarrow> nat \<Rightarrow> trigger_adapter \<Rightarrow>
   (exc + trigger_dispatch list) \<times> nat \<times> trigger_adapter" where
  "adapter_poll env now n (Cron_Adapter a) =
     (case cron_poll env now n a of (r, n, a) \<Rightarrow> (r, n, Cron_Adapter a))"
| "adapter_poll env now n (Webhook_Adapter a) =
     (case webhook_poll env n a of (r, n, a) \<Rightarrow> (r, n, Webhook_Adapter a))"

text \<open>\<^verbatim>\<open>WebhookIngressService\<close> over the adapters it shares with the scheduler: its dict keeps, for each
  name, the last webhook adapter of that name.  \<open>deliver\<close> returns \<open>None\<close> when no adapter took the payload.\<close>

fun deliver ::
  "string \<Rightarrow> (webhook_adapter \<Rightarrow> webhook_adapter) \<Rightarrow> trigger_adapter list \<Rightarrow> trigger_adapter list option" where
  "deliver name f [] = None"
| "deliver name f (a # as) =
     (case deliver name f as of
        Some as' \<Rightarrow> Some (a # as')
      | None \<Rightarrow> (case a of
          Webhook_Adapter w \<Rightarrow> if wa_name w = name then Some (Webhook_Adapter (f w) # as) else None
        | Cron_Adapter c \<Rightarrow> None))"

definition ingest ::
  "py_datetime \<Rightarrow> string \<Rightarrow> pydict \<Rightarrow> py_datetime option \<Rightarrow> trigger_adapter list \<Rightarrow> exc + trigger_adapter list" where
  "ingest clock trigger_name payload received_at adapters =
     (case deliver trigger_name (enqueue_payload clock payload received_at) adapters of
        None \<Rightarrow> Inl (Value_Error (''Unknown webhook trigger '' @ py_repr trigger_name))
      | Some as \<Rightarrow> Inr as)"

section \<open>TriggerSchedulerService\<close>

definition trigger_metadata :: "trigger_dispatch \<Rightarrow> pydict" where
  "trigger_metadata d =
     [(''dispatch_id'', PStr (td_dispatch_id d)), (''source'', PStr (source_value (td_source d))),
      (''trigger_name'', PStr (td_trigger_name d)), (''scheduled_for'', PStr (isofmt (td_scheduled_for d))),
      (''emitted_at'', PStr (isofmt (td_emitted_at d)))]"

definition with_trigger_metadata :: "trigger_dispatch \<Rightarrow> task_submission" where
  "with_trigger_metadata d =
     (td_submission d)\<lparr>sub_metadata := dset ''trigger'' (PDict (trigger_metadata d)) (sub_metadata (td_submission d))\<rparr>"

record 'w scheduler =
  sd_adapters :: "trigger_adapter list"
  sd_runtime_issues :: "string list"
  sd_draws :: nat
  sd_sink :: 'w

type_synonym 'w sink = "task_submission \<Rightarrow> 'w \<Rightarrow> (exc + task_record) \<times> 'w"

text \<open>Submitting the dispatches of one poll: a \<^verbatim>\<open>submit\<close> that raises ends the whole cycle.\<close>

fun submit_all :: "'w sink \<Rightarrow> trigger_dispatch list \<Rightarrow> 'w \<Rightarrow> (exc + task_record list) \<times> 'w" where
  "submit_all sink [] w = (Inr [], w)"
| "submit_all sink (d # ds) w =
     (case sink (with_trigger_metadata d) w of
        (Inl e, w) \<Rightarrow> (Inl e, w)
      | (Inr t, w) \<Rightarrow> (case submit_all sink ds w of
          (Inl e, w) \<Rightarrow> (Inl e, w) | (Inr ts, w) \<Rightarrow> (Inr (t # ts), w)))"

fun poll_adapters ::
  "'w sink \<Rightarrow> sched_env \<Rightarrow> py_datetime option \<Rightarrow> trigger_adapter list \<Rightarrow> string list \<Rightarrow> nat \<Rightarrow> 'w \<Rightarrow>
   (exc + task_record list) \<times> trigger_adapter list \<times> string list \<times> nat \<times> 'w" where
  "poll_adapters sink env now [] issues n w = (Inr [], [], issues, n, w)"
| "poll_adapters sink env now (a # as) issues n w =
     (case adapter_poll env now n a of
        (Inl e, n, a) \<Rightarrow>
          if \<not> is_exception e then (Inl e, a # as, issues, n, w)
          else (case poll_adapters sink env now as
                  (issues @ [''scheduler: adapter poll failed: '' @ exc_str e]) n w of
                (r, as, issues, n, w) \<Rightarrow> (r, a # as, issues, n, w))
      | (Inr dispatches, n, a) \<Rightarrow> (case submit_all sink dispatches w of
          (Inl e, w) \<Rightarrow> (Inl e, a # as, issues, n, w)
        | (Inr submitted, w) \<Rightarrow> (case poll_adapters sink env now as issues n w of
            (Inl e, as, issues, n, w) \<Rightarrow> (Inl e, a # as, issues, n, w)
          | (Inr rest, as, issues, n, w) \<Rightarrow> (Inr (submitted @ rest), a # as, issues, n, w))))"

definition run_once ::
  "'w sink \<Rightarrow> sched_env \<Rightarrow> py_datetime option \<Rightarrow> 'w scheduler \<Rightarrow> (exc + task_record list) \<times> 'w scheduler" where
  "run_once sink env now s =
     (case poll_adapters sink env now (sd_adapters s) [] (sd_draws s) (sd_sink s) of
        (r, as, issues, n, w) \<Rightarrow>
          (r, s\<lparr>sd_adapters := as, sd_runtime_issues := issues, sd_draws := n, sd_sink := w\<rparr>))"

text \<open>The adapters of the engine always report themselves healthy.\<close>

definition scheduler_health_check :: "'w scheduler \<Rightarrow> string list" where
  "scheduler_health_check s = sd_runtime_issues s"

section \<open>TriggerSchedulerLoopRunner\<close>

record runner_config =
  rc_base :: rat
  rc_max :: rat
  rc_multiplier :: rat
  rc_jitter :: rat

definition runner_init :: "rat \<Rightarrow> rat \<Rightarrow> rat \<Rightarrow> rat \<Rightarrow> exc + runner_config" where
  "runner_init base maximum multiplier jitter =
     (if base \<le> 0 then Inl (Value_Error ''base_poll_interval_seconds must be > 0'')
      else if maximum < base
      then Inl (Value_Error ''max_poll_interval_seconds must be >= base_poll_interval_seconds'')
      else if multiplier < 1 then Inl (Value_Error ''backoff_multiplier must be >= 1.0'')
      else if jitter < 0 then Inl (Value_Error ''jitter_ratio must be >= 0'')
      else Inr \<lparr>rc_base = base, rc_max = maximum, rc_multiplier = multiplier, rc_jitter = jitter\<rparr>)"

definition compute_interval :: "runner_config \<Rightarrow> rat \<Rightarrow> int \<Rightarrow> exc + rat" where
  "compute_interval c random idle =
     (case (if idle \<le> 0 then Inr (rc_base c)
            else case float_pow (rc_multiplier c) (idle - 1) of
              Inl e \<Rightarrow> Inl e
            | Inr p \<Rightarrow> Inr (min (rc_base c * p) (rc_max c))) of
        Inl e \<Rightarrow> Inl e
      | Inr interval \<Rightarrow>
          Inr (if rc_jitter c > 0 then interval + interval * rc_jitter c * random else interval))"

text \<open>What the runner reads: the stop signal, the time and the random number, each a function of how
  often it was read; and what it does: the service's cycles and the sleeps.\<close>

record runner_env =
  ru_stop :: "nat \<Rightarrow> bool"
  ru_now :: "nat \<Rightarrow> py_datetime option"
  ru_random :: "nat \<Rightarrow> rat"

record 'w runner =
  rn_service :: "'w scheduler"
  rn_checks :: nat
  rn_sleeps :: "rat list"

definition check_stop :: "runner_env \<Rightarrow> 'w runner \<Rightarrow> bool \<times> 'w runner" where
  "check_stop renv r = (ru_stop renv (rn_checks r), r\<lparr>rn_checks := Suc (rn_checks r)\<rparr>)"

text \<open>The loop of \<^verbatim>\<open>run\<close> may go on forever, so it takes fuel: \<open>None\<close> means the fuel ran out.\<close>

fun runner_loop ::
  "nat \<Rightarrow> 'w sink \<Rightarrow> sched_env \<Rightarrow> runner_env \<Rightarrow> runner_config \<Rightarrow> int option \<Rightarrow> int \<Rightarrow> int \<Rightarrow> 'w runner \<Rightarrow>
   ((exc + int) \<times> 'w runner) option" where
  "runner_loop 0 sink env renv c max_cycles cycles idle r = None"
| "runner_loop (Suc fuel) sink env renv c max_cycles cycles idle r =
     (let (stop, r) = check_stop renv r in
      if stop then Some (Inr cycles, r)
      else if (case max_cycles of None \<Rightarrow> False | Some m \<Rightarrow> cycles \<ge> m) then Some (Inr cycles, r)
      else
        case run_once sink env (ru_now renv (nat cycles)) (rn_service r) of
          (Inl e, s) \<Rightarrow> Some (Inl e, r\<lparr>rn_service := s\<rparr>)
        | (Inr submitted, s) \<Rightarrow>
            let r = r\<lparr>rn_service := s\<rparr>;
                cycles = cycles + 1;
                idle = (if submitted \<noteq> [] then 0 else idle + 1);
                (stop, r) = check_stop renv r
            in if stop then Some (Inr cycles, r)
               else if (case max_cycles of None \<Rightarrow> False | Some m \<Rightarrow> cycles \<ge> m) then Some (Inr cycles, r)
               else case compute_interval c (ru_random renv (nat cycles)) idle of
                 Inl e \<Rightarrow> Some (Inl e, r)
               | Inr seconds \<Rightarrow>
                   runner_loop fuel sink env renv c max_cycles cycles idle (r\<lparr>rn_sleeps := rn_sleeps r @ [seconds]\<rparr>))"

definition runner_run ::
  "nat \<Rightarrow> 'w sink \<Rightarrow> sched_env \<Rightarrow> runner_env \<Rightarrow> runner_config \<Rightarrow> int option \<Rightarrow> 'w runner \<Rightarrow>
   ((exc + int) \<times> 'w runner) option" where
  "runner_run fuel sink env renv c max_cycles r =
     (if (case max_cycles of None \<Rightarrow> False | Some m \<Rightarrow> m < 0)
      then Some (Inl (Value_Error ''max_cycles must be >= 0''), r)
      else runner_loop fuel sink env renv c max_cycles 0 0 r)"

end
