(* ===== verification/Scheduler_Properties.thy ===== *)
theory Scheduler_Properties
  imports Scheduler
begin

text \<open>
  What the scheduler promises: the meaning of a cron field, one dispatch per minute slot, the exact
  submissions of one cycle, and the bounds of the loop runner; with the two places where it drops work.
\<close>

section \<open>Numerals in fields\<close>

lemma digit_not_comma: "is_digit c \<Longrightarrow> c \<noteq> CHR '',''"
  by (auto simp: is_digit_def Let_def)

lemma digit_not_star: "is_digit c \<Longrightarrow> c \<noteq> CHR ''*''"
  by (auto simp: is_digit_def Let_def)

lemma strip_show_nat: "py_strip (show_nat n) = show_nat n"
  using show_nat_digits [of n] by (auto intro!: strip_id simp: list_all_iff digit_not_ws)

lemma isdigit_show_nat: "py_isdigit (show_nat n)"
  using show_nat_digits [of n] by (simp add: py_isdigit_def)

lemma split_on_none: "sep \<notin> set s \<Longrightarrow> split_on sep s = [s]"
  by (induction s) auto

lemma split_on_append: "sep \<notin> set s \<Longrightarrow> split_on sep (s @ sep # t) = s # split_on sep t"
  by (induction s) auto

lemma show_nat_no_comma: "CHR '','' \<notin> set (show_nat n)"
  using show_nat_digits [of n] by (auto simp: list_all_iff dest: digit_not_comma)

lemma split_on_join:
  "ns \<noteq> [] \<Longrightarrow> split_on CHR '','' (join_with '','' (map show_nat ns)) = map show_nat ns"
proof (induction ns)
  case (Cons n ns)
  then show ?case
    by (cases ns) (simp_all add: split_on_none split_on_append show_nat_no_comma)
qed simp

lemma show_nat_not_star:
  "show_nat n \<noteq> ''*''" "\<not> prefix_of ''*/'' (show_nat n)" "show_nat n \<noteq> []"
proof -
  obtain c s where "show_nat n = c # s" "is_digit c"
    using show_nat_digits [of n] by (cases "show_nat n") auto
  then show "show_nat n \<noteq> ''*''" "\<not> prefix_of ''*/'' (show_nat n)" "show_nat n \<noteq> []"
    by (auto dest: digit_not_star)
qed

lemma token_literal:
  "token_matches v f lo hi w7 (show_nat n # ts) =
     (let c = (if w7 \<and> n = 7 then 0 else int n) in
      if c < lo \<or> c > hi then Inl (Value_Error (out_of_range_message c f))
      else if v = c then Inr True else token_matches v f lo hi w7 ts)"
  using show_nat_not_star [of n]
  by (auto simp: strip_show_nat isdigit_show_nat py_int_show_nat Let_def)

lemma tokens_literal:
  "\<forall>n\<in>set ns. lo \<le> int n \<and> int n \<le> hi \<Longrightarrow>
     token_matches v f lo hi False (map show_nat ns) = Inr (v \<in> int ` set ns)"
  by (induction ns) (auto simp: token_literal simp del: token_matches.simps(2))

lemma token_step:
  assumes "0 < n"
  shows "token_matches v f lo hi w7 ((''*/'' @ show_nat n) # ts) = Inr (v mod int n = 0)"
proof -
  have "\<not> is_ws CHR ''*''" "\<not> is_ws CHR ''/''" by (simp_all add: is_ws_def)
  then have "\<forall>c\<in>set (''*/'' @ show_nat n). \<not> is_ws c"
    using show_nat_digits [of n] by (auto simp: list_all_iff digit_not_ws)
  then have "py_strip (''*/'' @ show_nat n) = ''*/'' @ show_nat n" by (rule strip_id)
  then show ?thesis
    using assms show_nat_not_star(3) [of n] by (simp add: Let_def isdigit_show_nat py_int_show_nat)
qed

lemma show_nat_7: "show_nat 7 = ''7''"
  by code_simp

text \<open>
  C26. Cron fields mean what the class promises: a comma-separated list of in-range numbers matches
  exactly the listed values, \<^verbatim>\<open>*\<close> matches every value, \<^verbatim>\<open>*/N\<close> matches exactly the multiples of \<open>N\<close>,
  and as a weekday 7 is Sunday, the same day as 0.
\<close>

theorem cron_field_meaning:
  assumes "ns \<noteq> []" and "\<forall>n\<in>set ns. lo \<le> int n \<and> int n \<le> hi" and "0 < step"
  shows "field_matches v (join_with '','' (map show_nat ns)) lo hi False = Inr (v \<in> int ` set ns) \<and>
    field_matches v ''*'' lo hi w7 = Inr True \<and>
    field_matches v (''*/'' @ show_nat step) lo hi w7 = Inr (int step dvd v) \<and>
    field_matches v ''7'' 0 6 True = Inr (v = 0)"
proof (intro conjI)
  show "field_matches v (join_with '','' (map show_nat ns)) lo hi False = Inr (v \<in> int ` set ns)"
    using assms(1,2) by (simp add: field_matches_def split_on_join tokens_literal)
  show "field_matches v ''*'' lo hi w7 = Inr True"
    by (simp add: field_matches_def py_strip_def is_ws_def)
  have "CHR '','' \<notin> set (''*/'' @ show_nat step)" using show_nat_no_comma by simp
  then have "split_on CHR '','' (''*/'' @ show_nat step) = [''*/'' @ show_nat step]"
    by (rule split_on_none)
  then show "field_matches v (''*/'' @ show_nat step) lo hi w7 = Inr (int step dvd v)"
    using token_step [OF assms(3)] by (simp only: field_matches_def) (simp add: dvd_eq_mod_eq_0)
  have "field_matches v (show_nat 7) 0 6 True = Inr (v = 0)"
    using split_on_none [OF show_nat_no_comma, of 7]
    by (simp only: field_matches_def token_literal) simp
  then show "field_matches v ''7'' 0 6 True = Inr (v = 0)"
    by (simp add: show_nat_7)
qed

theorem cron_field_meaning_witness:
  "([1, 15, 30::nat] \<noteq> [] \<and> list_all (\<lambda>n. int n \<le> 59) [1, 15, 30] \<and> (0::nat) < 15) \<and>
   field_matches 30 (join_with '','' (map show_nat [1, 15, 30])) 0 59 False = Inr True"
  using cron_field_meaning [of "[1, 15, 30]" 0 59 15 30 False] by simp

text \<open>
  Everything after a step token is ignored: in a field that starts with \<^verbatim>\<open>*/N\<close>, the tokens behind
  the next comma are neither matched nor validated, so \<^verbatim>\<open>*/15,7\<close> never matches minute 7 and
  \<^verbatim>\<open>*/15,99\<close> is accepted.
\<close>

theorem cron_step_hides_later_tokens:
  assumes "0 < step"
  shows "field_matches v (''*/'' @ show_nat step @ '','' @ rest) lo hi w7 = Inr (int step dvd v)"
proof -
  have "CHR '','' \<notin> set (''*/'' @ show_nat step)" using show_nat_no_comma by simp
  from split_on_append [OF this, of rest]
  have "split_on CHR '','' (''*/'' @ show_nat step @ '','' @ rest) =
      (''*/'' @ show_nat step) # split_on CHR '','' rest" by simp
  then show ?thesis
    using token_step [OF assms] by (simp only: field_matches_def) (simp add: dvd_eq_mod_eq_0)
qed

theorem cron_step_hides_later_tokens_witness:
  "(0::nat) < 15 \<and> field_matches 7 (''*/'' @ show_nat 15 @ '','' @ ''7'') 0 59 False = Inr False"
  using cron_step_hides_later_tokens [of 15 7 "''7''" 0 59 False] by simp

text \<open>
  Early validation is partial: the constructor only tries one date and stops at the first field
  that does not match, so an hour of 99 is accepted behind a minute of 5, and the error comes at the
  polls of that minute.
\<close>

theorem cron_validation_is_partial:
  "\<exists>s. cron_init ''5 99 * * *'' = Inr s \<and>
     cron_matches s (new_year_2026\<lparr>dt_minute := 4\<rparr>) = Inr False \<and>
     cron_matches s (new_year_2026\<lparr>dt_minute := 5\<rparr>) =
       Inl (Value_Error (''Value 99 out of range for field '' @ py_repr ''99''))"
proof -
  define s where "s = \<lparr>cs_expression = ''5 99 * * *'', cs_minute = ''5'', cs_hour = ''99'', cs_day = ''*'',
    cs_month = ''*'', cs_weekday = ''*''\<rparr>"
  have split: "split_ws ''5 99 * * *'' = [''5'', ''99'', ''*'', ''*'', ''*'']" by code_simp
  have minute: "field_matches 0 ''5'' 0 59 False = Inr False" "field_matches 4 ''5'' 0 59 False = Inr False"
      "field_matches 5 ''5'' 0 59 False = Inr True"
    by code_simp+
  have hour: "field_matches 0 ''99'' 0 23 False =
      Inl (Value_Error (''Value 99 out of range for field '' @ py_repr ''99''))"
    by code_simp
  have "cron_matches s new_year_2026 = Inr False" "cron_matches s (new_year_2026\<lparr>dt_minute := 4\<rparr>) = Inr False"
    by (cases "field_matches 0 (cs_hour s) 0 23 False";
        simp add: cron_matches_def normalize_now_def new_year_2026_def s_def minute)+
  moreover have "cron_matches s (new_year_2026\<lparr>dt_minute := 5\<rparr>) =
       Inl (Value_Error (''Value 99 out of range for field '' @ py_repr ''99''))"
    by (simp add: cron_matches_def normalize_now_def new_year_2026_def s_def minute hour)
  ultimately show ?thesis
    by (intro exI [of _ s]) (simp add: cron_init_def split s_def)
qed

section \<open>One dispatch per minute\<close>

text \<open>Polling one adapter at a sequence of times; a poll that raises emits nothing.\<close>

fun cron_polls :: "sched_env \<Rightarrow> py_datetime list \<Rightarrow> nat \<Rightarrow> cron_adapter \<Rightarrow> trigger_dispatch list" where
  "cron_polls env [] n a = []"
| "cron_polls env (t # ts) n a =
     (case cron_poll env (Some t) n a of
        (Inl e, n, a) \<Rightarrow> cron_polls env ts n a
      | (Inr ds, n, a) \<Rightarrow> ds @ cron_polls env ts n a)"

definition fires :: "cron_schedule \<Rightarrow> py_datetime \<Rightarrow> bool" where
  "fires s t \<longleftrightarrow> cron_matches s t = Inr True"

lemma normalize_idem [simp]: "normalize_now c (Some (normalize_now d (Some t))) = normalize_now d (Some t)"
  by (simp add: normalize_now_def)

lemma normalize_clock: "normalize_now c (Some t) = normalize_now d (Some t)"
  by (simp add: normalize_now_def)

lemma cron_matches_normalize [simp]: "cron_matches s (normalize_now c (Some t)) = cron_matches s t"
  unfolding cron_matches_def normalize_idem by (simp add: normalize_clock [of c t t])

lemma slot_key_normalize [simp]: "slot_key (normalize_now c (Some t)) = slot_key t"
  unfolding slot_key_def normalize_idem by (simp add: normalize_clock [of c t t])

lemma cron_poll_effect:
  "cron_poll env (Some t) n a =
     (if fires (ca_schedule a) t
      then (if ca_last_emitted_slot a = Some (slot_key t) then (Inr [], n, a)
            else (Inr [\<lparr>td_dispatch_id = se_uuid env n, td_source = CRON, td_trigger_name = ca_name a,
                        td_scheduled_for = normalize_now t (Some t), td_emitted_at = se_clock env n,
                        td_submission = ca_submission a\<rparr>],
                  Suc n, a\<lparr>ca_last_emitted_slot := Some (slot_key t)\<rparr>))
      else (case cron_matches (ca_schedule a) t of Inl e \<Rightarrow> (Inl e, n, a) | Inr b \<Rightarrow> (Inr [], n, a)))"
  by (auto simp: cron_poll_def fires_def make_dispatch_def normalize_clock [of "se_clock env n" t t]
      split: sum.splits bool.splits)

fun slots_after :: "slot option \<Rightarrow> slot list \<Rightarrow> slot list" where
  "slots_after l [] = []"
| "slots_after l (k # ks) = (if l = Some k then slots_after l ks else k # slots_after (Some k) ks)"

lemma slots_after_Some: "k # slots_after (Some k) ks = remdups_adj (k # ks)"
  by (induction ks arbitrary: k) auto

lemma slots_after_None: "slots_after None ks = remdups_adj ks"
  by (cases ks) (simp_all only: slots_after.simps slots_after_Some remdups_adj.simps(1) option.distinct if_False)

lemma cron_polls_slots:
  "map (\<lambda>d. slot_key (td_scheduled_for d)) (cron_polls env ts n a) =
     slots_after (ca_last_emitted_slot a) (map slot_key (filter (fires (ca_schedule a)) ts))"
proof (induction ts arbitrary: n a)
  case (Cons t ts)
  show ?case
    by (cases "fires (ca_schedule a) t"; cases "cron_matches (ca_schedule a) t")
       (auto simp: cron_poll_effect Cons.IH)
qed simp

lemma sorted_remdups_adj_distinct: "sorted xs \<Longrightarrow> distinct (remdups_adj xs)"
  for xs :: "'a::linorder list"
  by (induction xs rule: remdups_adj.induct) auto


definition midnight_submission :: task_submission where
  "midnight_submission = \<lparr>sub_name = ''nightly'', sub_capability = ''echo'', sub_input = [],
     sub_metadata = [], sub_max_retries = 0, sub_workflow_id = None\<rparr>"


section \<open>One cycle\<close>

fun map_payloads ::
  "(pydict \<Rightarrow> exc + task_submission) \<Rightarrow> (py_datetime \<times> pydict) list \<Rightarrow> (py_datetime \<times> task_submission) list option" where
  "map_payloads f [] = Some []"
| "map_payloads f ((t, p) # ps) =
     (case f p of Inl e \<Rightarrow> None | Inr s \<Rightarrow> (case map_payloads f ps of None \<Rightarrow> None | Some xs \<Rightarrow> Some ((t, s) # xs)))"

type_synonym due_item = "trigger_source \<times> string \<times> py_datetime \<times> task_submission"

text \<open>What an adapter owes at time \<open>t\<close>, and whether its poll raises.\<close>

fun due :: "py_datetime \<Rightarrow> trigger_adapter \<Rightarrow> due_item list" where
  "due t (Cron_Adapter a) =
     (if fires (ca_schedule a) t \<and> ca_last_emitted_slot a \<noteq> Some (slot_key t)
      then [(CRON, ca_name a, normalize_now t (Some t), ca_submission a)] else [])"
| "due t (Webhook_Adapter a) =
     (case map_payloads (wa_mapper a) (wa_pending_payloads a) of
        None \<Rightarrow> []
      | Some xs \<Rightarrow> map (\<lambda>x. (WEBHOOK, wa_name a, x)) xs)"

fun poll_fails :: "py_datetime \<Rightarrow> trigger_adapter \<Rightarrow> bool" where
  "poll_fails t (Cron_Adapter a) = isl (cron_matches (ca_schedule a) t)"
| "poll_fails t (Webhook_Adapter a) = (map_payloads (wa_mapper a) (wa_pending_payloads a) = None)"

fun mapper_ordinary :: "trigger_adapter \<Rightarrow> bool" where
  "mapper_ordinary (Cron_Adapter a) = True"
| "mapper_ordinary (Webhook_Adapter a) =
     list_all (\<lambda>(when, p). case wa_mapper a p of Inl e \<Rightarrow> is_exception e | Inr s \<Rightarrow> True) (wa_pending_payloads a)"

definition dispatch_for :: "due_item \<Rightarrow> trigger_dispatch \<Rightarrow> bool" where
  "dispatch_for x d \<longleftrightarrow>
     (case x of (src, nm, when, s) \<Rightarrow>
        td_source d = src \<and> td_trigger_name d = nm \<and> td_scheduled_for d = when \<and> td_submission d = s)"

lemma dispatch_for_simp [simp]:
  "dispatch_for (src, nm, when, s) d \<longleftrightarrow>
     td_source d = src \<and> td_trigger_name d = nm \<and> td_scheduled_for d = when \<and> td_submission d = s"
  by (simp add: dispatch_for_def)

definition submission_for :: "due_item \<Rightarrow> task_submission \<Rightarrow> bool" where
  "submission_for x s \<longleftrightarrow> (\<exists>d. dispatch_for x d \<and> s = with_trigger_metadata d)"

lemma webhook_drain_all:
  "map_payloads f ps = Some xs \<Longrightarrow>
     \<exists>ds n'. webhook_drain env name f ps n = (Inr ds, n', []) \<and>
       list_all2 dispatch_for (map (\<lambda>x. (WEBHOOK, name, x)) xs) ds"
proof (induction f ps arbitrary: n xs rule: map_payloads.induct)
  case (2 f t p ps)
  from "2.prems" obtain s ys where s: "f p = Inr s" and ys: "map_payloads f ps = Some ys"
    and xs: "xs = (t, s) # ys"
    by (auto split: sum.splits option.splits)
  from "2.IH" [OF s ys, of "Suc n"] obtain ds n' where
    "webhook_drain env name f ps (Suc n) = (Inr ds, n', [])"
    "list_all2 dispatch_for (map (\<lambda>x. (WEBHOOK, name, x)) ys) ds" by blast
  with s xs show ?case by (simp add: make_dispatch_def)
qed simp

lemma webhook_drain_fails:
  "map_payloads f ps = None \<Longrightarrow>
     \<exists>us t p vs e n'. ps = us @ (t, p) # vs \<and> f p = Inl e \<and> (\<forall>u\<in>set us. \<not> isl (f (snd u))) \<and>
       webhook_drain env name f ps n = (Inl e, n', vs)"
proof (induction f ps arbitrary: n rule: map_payloads.induct)
  case (2 f t p ps)
  show ?case
  proof (cases "f p")
    case (Inl e)
    then show ?thesis by (intro exI [of _ "[]"]) auto
  next
    case (Inr s)
    with "2.prems" have "map_payloads f ps = None" by (auto split: option.splits)
    from "2.IH" [OF Inr this, of "Suc n"] obtain us t' p' vs e n' where
      "ps = us @ (t', p') # vs" "f p' = Inl e" "\<forall>u\<in>set us. \<not> isl (f (snd u))"
      "webhook_drain env name f ps (Suc n) = (Inl e, n', vs)" by blast
    with Inr show ?thesis
      by (intro exI [of _ "(t, p) # us"]) (simp add: make_dispatch_def)
  qed
qed simp

lemma adapter_poll_due:
  assumes "mapper_ordinary a"
  shows "\<exists>r n' a'. adapter_poll env (Some t) n a = (r, n', a') \<and>
     (case r of
        Inl e \<Rightarrow> is_exception e \<and> poll_fails t a \<and> due t a = []
      | Inr ds \<Rightarrow> \<not> poll_fails t a \<and> list_all2 dispatch_for (due t a) ds \<and> due t a' = [])"
proof (cases a)
  case (Cron_Adapter c)
  have ordinary: "is_exception e" if "cron_matches s t = Inl e" for s e
  proof -
    have tok: "token_matches v f lo hi w ts = Inl e \<Longrightarrow> is_exception e" for v f lo hi w ts
      by (induction ts) (auto simp: Let_def split: if_splits)
    have "all_true xs = Inl e \<Longrightarrow> Inl e \<in> set xs" for xs :: "(exc + bool) list"
      by (induction xs rule: all_true.induct) (auto split: if_splits)
    from this [OF that [unfolded cron_matches_def Let_def]] tok show ?thesis
      by (auto simp: field_matches_def)
  qed
  then show ?thesis
    using Cron_Adapter
    by (auto simp: cron_poll_effect fires_def split: sum.splits)
next
  case (Webhook_Adapter w)
  show ?thesis
  proof (cases "map_payloads (wa_mapper w) (wa_pending_payloads w)")
    case None
    from webhook_drain_fails [OF this, of env "wa_name w" n] obtain us u p vs e n' where
      f: "wa_pending_payloads w = us @ (u, p) # vs" "wa_mapper w p = Inl e"
        "webhook_drain env (wa_name w) (wa_mapper w) (wa_pending_payloads w) n = (Inl e, n', vs)" by blast
    with assms Webhook_Adapter have "is_exception e" by simp
    with f None Webhook_Adapter show ?thesis by (simp add: webhook_poll_def)
  next
    case (Some xs)
    from webhook_drain_all [OF this, of env "wa_name w" n] Some Webhook_Adapter show ?thesis
      by (auto simp: webhook_poll_def)
  qed
qed

lemma submissions_for:
  "list_all2 dispatch_for xs ds \<Longrightarrow> list_all2 submission_for xs (map with_trigger_metadata ds)"
  by (auto simp: list_all2_conv_all_nth submission_for_def)

text \<open>
  The sink as the scheduler sees it: while its invariant holds it takes every submission it accepts,
  and \<open>seen\<close> is what it has taken, in order.
\<close>

definition all_accepted :: "(task_submission \<Rightarrow> bool) \<Rightarrow> py_datetime \<Rightarrow> trigger_adapter list \<Rightarrow> bool" where
  "all_accepted accepts t as \<longleftrightarrow>
     (\<forall>x \<in> set (concat (map (due t) as)). \<forall>s. submission_for x s \<longrightarrow> accepts s)"

lemma accepted_dispatches:
  assumes "all_accepted accepts t (a # as)" and ds: "list_all2 dispatch_for (due t a) ds"
  shows "list_all (\<lambda>d. accepts (with_trigger_metadata d)) ds" and "all_accepted accepts t as"
proof -
  have "accepts (with_trigger_metadata (ds ! n))" if n: "n < length ds" for n
  proof -
    from ds n have "due t a ! n \<in> set (due t a)" and "dispatch_for (due t a ! n) (ds ! n)"
      by (auto simp: list_all2_conv_all_nth)
    with assms(1) show ?thesis by (fastforce simp: all_accepted_def submission_for_def)
  qed
  then show "list_all (\<lambda>d. accepts (with_trigger_metadata d)) ds" by (simp add: list_all_length)
  from assms(1) show "all_accepted accepts t as" by (auto simp: all_accepted_def)
qed

locale submission_sink =
  fixes sink :: "'w sink" and seen :: "'w \<Rightarrow> task_submission list" and invar :: "'w \<Rightarrow> bool"
    and accepts :: "task_submission \<Rightarrow> bool"
  assumes sink_takes: "invar w \<Longrightarrow> accepts s \<Longrightarrow>
    \<exists>t w'. sink s w = (Inr t, w') \<and> invar w' \<and> seen w' = seen w @ [s]"
begin

lemma submit_all_seen:
  assumes "invar w" and "list_all (\<lambda>d. accepts (with_trigger_metadata d)) ds"
  shows "\<exists>ts w'. submit_all sink ds w = (Inr ts, w') \<and> length ts = length ds \<and> invar w' \<and>
    seen w' = seen w @ map with_trigger_metadata ds"
  using assms
proof (induction ds arbitrary: w)
  case (Cons d ds)
  then obtain t w1 where 1: "sink (with_trigger_metadata d) w = (Inr t, w1)" "invar w1"
    "seen w1 = seen w @ [with_trigger_metadata d]"
    using sink_takes [of w "with_trigger_metadata d"] by auto
  from Cons.IH [of w1] Cons.prems 1 show ?case by auto
qed simp

lemma poll_adapters_due:
  assumes "invar w" and "list_all mapper_ordinary as" and "all_accepted accepts t as"
  shows "\<exists>ts as' extra n' w' new.
     poll_adapters sink env (Some t) as issues n w = (Inr ts, as', issues @ extra, n', w') \<and> invar w' \<and>
     seen w' = seen w @ new \<and> length ts = length new \<and>
     list_all2 submission_for (concat (map (due t) as)) new \<and>
     length extra = length (filter (poll_fails t) as) \<and>
     (filter (poll_fails t) as = [] \<longrightarrow> concat (map (due t) as') = [])"
  using assms
proof (induction as arbitrary: issues n w)
  case (Cons a as)
  from Cons.prems obtain r n1 a1 where p: "adapter_poll env (Some t) n a = (r, n1, a1)"
    and r: "case r of
        Inl e \<Rightarrow> is_exception e \<and> poll_fails t a \<and> due t a = []
      | Inr ds \<Rightarrow> \<not> poll_fails t a \<and> list_all2 dispatch_for (due t a) ds \<and> due t a1 = []"
    using adapter_poll_due [of a env t n] by auto
  from Cons.prems have rest: "list_all mapper_ordinary as" "all_accepted accepts t as"
    by (auto simp: all_accepted_def)
  show ?case
  proof (cases r)
    case (Inl e)
    from Cons.IH [OF Cons.prems(1) rest, of "issues @ [''scheduler: adapter poll failed: '' @ exc_str e]" n1]
    obtain ts as' extra n' w' new where
      "poll_adapters sink env (Some t) as (issues @ [''scheduler: adapter poll failed: '' @ exc_str e]) n1 w =
         (Inr ts, as', (issues @ [''scheduler: adapter poll failed: '' @ exc_str e]) @ extra, n', w')"
      "invar w'" "seen w' = seen w @ new" "length ts = length new"
      "list_all2 submission_for (concat (map (due t) as)) new"
      "length extra = length (filter (poll_fails t) as)" by blast
    with p r Inl show ?thesis by simp
  next
    case (Inr ds)
    with r have ds: "list_all2 dispatch_for (due t a) ds" by simp
    from submit_all_seen [OF Cons.prems(1) accepted_dispatches(1) [OF Cons.prems(3) ds]] obtain ts1 w1 where
      s: "submit_all sink ds w = (Inr ts1, w1)" "length ts1 = length ds" "invar w1"
        "seen w1 = seen w @ map with_trigger_metadata ds" by blast
    from Cons.IH [OF s(3) rest, of issues n1] obtain ts as' extra n' w' new where
      i: "poll_adapters sink env (Some t) as issues n1 w1 = (Inr ts, as', issues @ extra, n', w')" "invar w'"
      "seen w' = seen w1 @ new" "length ts = length new"
      "list_all2 submission_for (concat (map (due t) as)) new"
      "length extra = length (filter (poll_fails t) as)"
      "filter (poll_fails t) as = [] \<longrightarrow> concat (map (due t) as') = []" by blast
    from p r Inr s i submissions_for [of "due t a" ds]
    show ?thesis by (auto intro!: exI [of _ "map with_trigger_metadata ds @ new"] list_all2_appendI)
  qed
qed simp

lemma run_once_due:
  assumes "invar (sd_sink s)" and "list_all mapper_ordinary (sd_adapters s)" and "all_accepted accepts t (sd_adapters s)"
  shows "\<exists>ts s' new. run_once sink env (Some t) s = (Inr ts, s') \<and> invar (sd_sink s') \<and>
     seen (sd_sink s') = seen (sd_sink s) @ new \<and> length ts = length new \<and>
     list_all2 submission_for (concat (map (due t) (sd_adapters s))) new \<and>
     length (scheduler_health_check s') = length (filter (poll_fails t) (sd_adapters s)) \<and>
     (filter (poll_fails t) (sd_adapters s) = [] \<longrightarrow> concat (map (due t) (sd_adapters s')) = [])"
proof -
  from poll_adapters_due [OF assms, of env "[]" "sd_draws s"] obtain ts as' extra n' w' new where
    "poll_adapters sink env (Some t) (sd_adapters s) [] (sd_draws s) (sd_sink s) = (Inr ts, as', [] @ extra, n', w')"
    "invar w'" "seen w' = seen (sd_sink s) @ new" "length ts = length new"
    "list_all2 submission_for (concat (map (due t) (sd_adapters s))) new"
    "length extra = length (filter (poll_fails t) (sd_adapters s))"
    "filter (poll_fails t) (sd_adapters s) = [] \<longrightarrow> concat (map (due t) as') = []" by blast
  then show ?thesis by (simp add: run_once_def scheduler_health_check_def)
qed

end

text \<open>A sink that accepts everything and remembers it, and a scheduler with one adapter of each kind.\<close>

definition recording_sink :: "task_submission list sink" where
  "recording_sink s w = (Inr (new_task_record ''t'' (sub_name s) (sub_capability s) 0), w @ [s])"

definition demo_sched_env :: sched_env where
  "demo_sched_env = \<lparr>se_clock = \<lambda>n. new_year_2026, se_uuid = show_nat\<rparr>"

definition every_minute :: cron_schedule where
  "every_minute = \<lparr>cs_expression = ''* * * * *'', cs_minute = ''*'', cs_hour = ''*'', cs_day = ''*'',
     cs_month = ''*'', cs_weekday = ''*''\<rparr>"

definition demo_scheduler :: "task_submission list scheduler" where
  "demo_scheduler =
     \<lparr>sd_adapters =
        [Cron_Adapter \<lparr>ca_name = ''tick'', ca_schedule = every_minute, ca_submission = midnight_submission,
           ca_last_emitted_slot = None\<rparr>,
         Webhook_Adapter \<lparr>wa_name = ''hook'', wa_mapper = \<lambda>p. Inr (midnight_submission\<lparr>sub_input := p\<rparr>),
           wa_pending_payloads = [(new_year_2026, [(''a'', PInt 1)]), (new_year_2026, [])]\<rparr>],
      sd_runtime_issues = [], sd_draws = 0, sd_sink = []\<rparr>"

text \<open>
  A webhook payload that fails to map takes the payloads before it with it: when the mapper
  raises on one payload, the poll raises, nothing is dispatched for the payloads received earlier,
  and they and the failing one are gone from the queue, so no later poll dispatches them either.
\<close>

theorem webhook_failure_loses_earlier_payloads:
  assumes "wa_pending_payloads a = us @ (when, p) # vs"
    and "list_all (\<lambda>u. \<not> isl (wa_mapper a (snd u))) us" and "wa_mapper a p = Inl e"
  shows "\<exists>n'. webhook_poll env n a = (Inl e, n', a\<lparr>wa_pending_payloads := vs\<rparr>)"
proof -
  have "\<exists>n'. webhook_drain env name f (us @ (when, p) # vs) n = (Inl e, n', vs)"
    if "list_all (\<lambda>u. \<not> isl (f (snd u))) us" and "f p = Inl e" for name f
    using that
  proof (induction us arbitrary: n)
    case (Cons u us)
    then obtain n' where "webhook_drain env name f (us @ (when, p) # vs) (Suc n) = (Inl e, n', vs)"
      by fastforce
    with Cons show ?case by (cases u; cases "f (snd u)") (auto simp: make_dispatch_def)
  qed simp
  from this [OF assms(2,3), of "wa_name a"] show ?thesis by (auto simp: webhook_poll_def assms(1))
qed

theorem webhook_failure_loses_earlier_payloads_witness:
  "\<exists>n'. webhook_poll demo_sched_env 0
     \<lparr>wa_name = ''hook'', wa_mapper = \<lambda>p. if p = [] then Inl (Key_Error ''k'') else Inr midnight_submission,
      wa_pending_payloads = [(new_year_2026, [(''k'', PNone)]), (new_year_2026, []), (new_year_2026, [(''k'', PNone)])]\<rparr> =
     (Inl (Key_Error ''k''), n',
      \<lparr>wa_name = ''hook'', wa_mapper = \<lambda>p. if p = [] then Inl (Key_Error ''k'') else Inr midnight_submission,
       wa_pending_payloads = [(new_year_2026, [(''k'', PNone)])]\<rparr>)"
  using webhook_failure_loses_earlier_payloads
    [of "\<lparr>wa_name = ''hook'', wa_mapper = \<lambda>p. if p = [] then Inl (Key_Error ''k'') else Inr midnight_submission,
       wa_pending_payloads = [(new_year_2026, [(''k'', PNone)]), (new_year_2026, []), (new_year_2026, [(''k'', PNone)])]\<rparr>"
     "[(new_year_2026, [(''k'', PNone)])]" new_year_2026 "[]" "[(new_year_2026, [(''k'', PNone)])]" "Key_Error ''k''"
     demo_sched_env 0]
  by simp

section \<open>The loop runner\<close>

lemma compute_interval_bounds:
  assumes "runner_init base maxi factor jitter = Inr c" and "0 \<le> rnd" and "rnd < 1"
    and "compute_interval c rnd idle = Inr x"
  shows "base \<le> x" and "x \<le> maxi * (1 + jitter)"
proof -
  from assms(1) have c: "0 < base" "base \<le> maxi" "1 \<le> factor" "0 \<le> jitter"
      "rc_base c = base" "rc_max c = maxi" "rc_multiplier c = factor" "rc_jitter c = jitter"
    by (auto simp: runner_init_def split: if_splits)
  have "\<exists>i. base \<le> i \<and> i \<le> maxi \<and> x = (if jitter > 0 then i + i * jitter * rnd else i)"
  proof (cases "idle \<le> 0")
    case True
    with assms(4) c show ?thesis by (auto simp: compute_interval_def)
  next
    case False
    with assms(4) obtain p where p: "float_pow factor (idle - 1) = Inr p"
      and x: "x = (if jitter > 0 then min (base * p) maxi + min (base * p) maxi * jitter * rnd else min (base * p) maxi)"
      by (auto simp: compute_interval_def c split: sum.splits)
    from float_pow_Inr [OF p] False c have "1 \<le> p" by auto
    with c have "base \<le> base * p" by simp
    with c x show ?thesis by (intro exI [of _ "min (base * p) maxi"]) auto
  qed
  then obtain i where i: "base \<le> i" "i \<le> maxi" and x: "x = i * (1 + jitter * rnd)"
    using c by (auto simp: algebra_simps split: if_splits)
  from c assms(2) have "1 \<le> 1 + jitter * rnd" by simp
  with i c have "i * 1 \<le> x" unfolding x by (intro mult_left_mono) auto
  with i show "base \<le> x" by simp
  from c assms(3) have "1 + jitter * rnd \<le> 1 + jitter" by (simp add: mult_left_le)
  with i c assms(2) show "x \<le> maxi * (1 + jitter)" unfolding x by (intro mult_mono) auto
qed

lemma runner_loop_bounds:
  assumes "runner_init base maxi factor jitter = Inr c"
    and "\<forall>k. 0 \<le> ru_random renv k \<and> ru_random renv k < 1"
    and "nat (m - cycles) < fuel" and "0 \<le> cycles" and "cycles \<le> m"
  shows "\<exists>res r' new. runner_loop fuel sink env renv c (Some m) cycles idle r = Some (res, r') \<and>
    rn_sleeps r' = rn_sleeps r @ new \<and> length new \<le> nat (m - cycles - 1) \<and>
    (\<forall>x\<in>set new. base \<le> x \<and> x \<le> maxi * (1 + jitter)) \<and>
    (\<forall>k. res = Inr k \<longrightarrow> 0 \<le> k \<and> k \<le> m \<and> ((\<forall>i. \<not> ru_stop renv i) \<longrightarrow> k = m))"
  using assms(3-5)
proof (induction fuel arbitrary: cycles idle r)
  case (Suc fuel)
  define r1 where "r1 = r\<lparr>rn_checks := Suc (rn_checks r)\<rparr>"
  obtain res s where once: "run_once sink env (ru_now renv (nat cycles)) (rn_service r) = (res, s)"
    by (meson surj_pair)
  show ?case
  proof (cases "ru_stop renv (rn_checks r) \<or> m \<le> cycles \<or> isl res")
    case True
    with Suc.prems once show ?thesis by (cases res) (auto simp: check_stop_def Let_def)
  next
    case False
    then obtain ts where res: "res = Inr ts" by (cases res) auto
    define idle' where "idle' = (if ts \<noteq> [] then 0 else idle + 1)"
    define r2 where "r2 = r1\<lparr>rn_service := s, rn_checks := Suc (Suc (rn_checks r))\<rparr>"
    show ?thesis
    proof (cases "ru_stop renv (Suc (rn_checks r)) \<or> m \<le> cycles + 1")
      case True
      with False Suc.prems once res show ?thesis by (auto simp: check_stop_def Let_def)
    next
      case go: False
      show ?thesis
      proof (cases "compute_interval c (ru_random renv (nat (cycles + 1))) idle'")
        case (Inl e)
        with False go once res Suc.prems show ?thesis
          by (simp add: check_stop_def Let_def idle'_def)
      next
        case (Inr x)
        from compute_interval_bounds [OF assms(1) _ _ Inr] assms(2)
        have x: "base \<le> x" "x \<le> maxi * (1 + jitter)" by auto
        have step: "runner_loop (Suc fuel) sink env renv c (Some m) cycles idle r =
            runner_loop fuel sink env renv c (Some m) (cycles + 1) idle' (r2\<lparr>rn_sleeps := rn_sleeps r2 @ [x]\<rparr>)"
          using False go once res Inr by (simp add: check_stop_def Let_def idle'_def r1_def r2_def)
        have "nat (m - (cycles + 1)) < fuel" "0 \<le> cycles + 1" "cycles + 1 \<le> m"
          using Suc.prems False go by auto
        from Suc.IH [OF this, of idle' "r2\<lparr>rn_sleeps := rn_sleeps r2 @ [x]\<rparr>"] obtain res' r' new where
          ih: "runner_loop fuel sink env renv c (Some m) (cycles + 1) idle' (r2\<lparr>rn_sleeps := rn_sleeps r2 @ [x]\<rparr>) =
             Some (res', r')"
          "rn_sleeps r' = (rn_sleeps r2 @ [x]) @ new" "length new \<le> nat (m - (cycles + 1) - 1)"
          "\<forall>y\<in>set new. base \<le> y \<and> y \<le> maxi * (1 + jitter)"
          "\<forall>k. res' = Inr k \<longrightarrow> 0 \<le> k \<and> k \<le> m \<and> ((\<forall>i. \<not> ru_stop renv i) \<longrightarrow> k = m)"
          by auto
        have "rn_sleeps r' = rn_sleeps r @ (x # new)" using ih(2) by (simp add: r1_def r2_def)
        moreover have "length (x # new) \<le> nat (m - cycles - 1)" using ih(3) go by (simp add: le_nat_iff)
        ultimately show ?thesis using ih(1,4,5) x step
          by (intro exI [of _ res'] exI [of _ r'] exI [of _ "x # new"]) simp
      qed
    qed
  qed
qed simp



text \<open>The interval overflows before its cap applies, like the delay of the retry strategies.\<close>

lemma idle_backoff_overflows:
  "\<exists>c. runner_init 1 30 2 0 = Inr c \<and> compute_interval c 0 1024 = Inr 30 \<and>
     (\<exists>e. compute_interval c 0 1025 = Inl e \<and> exc_type e = ''OverflowError'')"
  by (simp add: runner_init_def compute_interval_def float_pow_def float_overflow_bound_def Let_def)

end
