(* ===== verification/Scheduler_Supervisor.thy ===== *)
theory Scheduler_Supervisor
  imports Scheduler_Properties Supervisor_Properties
begin

text \<open>
  The scheduler on the supervisor (\<^verbatim>\<open>engine/runtime/scheduler.py\<close> over
  \<^verbatim>\<open>engine/supervisor/service.py\<close>): the supervisor's \<^verbatim>\<open>submit\<close> provides the contract
  the scheduler's cycle needs of its task sink, so that what a cycle finds due ends up, in order, at
  the end of the supervisor's task queue.
\<close>

text \<open>The submissions waiting in the queue, read back from the stored records.\<close>

definition queued_submissions :: "world \<Rightarrow> task_submission list" where
  "queued_submissions w =
     map build_submission (List.map_filter (ms_get (w_store w)) (tq_list (w_queue w)))"

text \<open>A supervisor with an unbounded queue, whose ids are fresh and whose queued tasks are stored.\<close>

definition supervised :: "supervisor \<Rightarrow> world \<Rightarrow> bool" where
  "supervised sv w \<longleftrightarrow> inj (sv_uuid sv) \<and> world_ok sv w \<and> (\<exists>q. w_queue w = Mem_Queue q) \<and>
     list_all (\<lambda>k. ms_get (w_store w) k \<noteq> None) (tq_list (w_queue w))"

definition valid_for :: "supervisor \<Rightarrow> task_submission \<Rightarrow> bool" where
  "valid_for sv sub \<longleftrightarrow> (\<exists>c. validate_task_submission sub (sv_registry sv) = Inr c)"

lemma build_fresh_task: "build_submission (fresh_task sv sub w) = sub"
  by (simp add: build_submission_def fresh_task_def new_task_record_def)

lemma map_filter_cong:
  "list_all (\<lambda>x. f x = g x) xs \<Longrightarrow> List.map_filter f xs = List.map_filter g xs"
  by (induction xs) (simp_all add: List.map_filter_simps split: option.split)

lemma map_filter_append: "List.map_filter f (xs @ ys) = List.map_filter f xs @ List.map_filter f ys"
  by (simp add: List.map_filter_def)

lemma submit_takes:
  assumes "supervised sv w" and "valid_for sv sub"
  shows "\<exists>t w'. submit sv sub w = (Inr t, w') \<and> supervised sv w' \<and>
    queued_submissions w' = queued_submissions w @ [sub]"
proof -
  let ?id = "sv_uuid sv (w_uuids w)" and ?w1 = "created_world sv sub w"
  from assms(1) obtain q where q: "w_queue w = Mem_Queue q" and inj: "inj (sv_uuid sv)" and ok: "world_ok sv w"
    and stored: "list_all (\<lambda>k. ms_get (w_store w) k \<noteq> None) (tq_list (w_queue w))"
    by (auto simp: supervised_def)
  obtain q' where q': "tq_enqueue ?id (w_queue w) = Inr (Mem_Queue q')"
    by (simp add: q mq_enqueue_def)
  from q' have ids: "tq_list (Mem_Queue q') = tq_list (w_queue w) @ [?id]" by (rule tq_enqueue_list)
  from fresh_id [OF ok inj] stored have old: "list_all (\<lambda>k. k \<noteq> ?id) (tq_list (w_queue w))"
    by (auto simp: list_all_iff)
  have get: "ms_get (w_store ?w1) k = (if k = ?id then Some (fresh_task sv sub w) else ms_get (w_store w) k)" for k
    by (simp add: created_world_def)
  from old have "list_all (\<lambda>k. ms_get (w_store ?w1) k = ms_get (w_store w) k) (tq_list (w_queue w))"
    by (simp add: get list_all_iff)
  from map_filter_cong [OF this] get [of ?id]
  have "queued_submissions (?w1\<lparr>w_queue := Mem_Queue q'\<rparr>) = queued_submissions w @ [sub]"
    by (simp add: queued_submissions_def ids [simplified] map_filter_append List.map_filter_simps build_fresh_task)
  moreover have "supervised sv (?w1\<lparr>w_queue := Mem_Queue q'\<rparr>)"
    using created_world_ok [OF ok inj] inj stored
    by (auto simp: supervised_def ids [simplified] get list_all_iff)
  ultimately show ?thesis
    using assms(2) q' by (auto simp: submit_def create_task_record_eq valid_for_def)
qed

interpretation supervisor_sink: submission_sink "submit sv" queued_submissions "supervised sv" "valid_for sv"
  for sv
  by unfold_locales (rule submit_takes)

section \<open>A cycle on the supervisor\<close>

definition supervised_scheduler :: "world scheduler" where
  "supervised_scheduler =
     \<lparr>sd_adapters = sd_adapters demo_scheduler, sd_runtime_issues = [], sd_draws = 0, sd_sink = demo_init\<rparr>"

lemma supervised_scheduler_due:
  "length (concat (map (due new_year_2026) (sd_adapters supervised_scheduler))) = 3"
  "filter (poll_fails new_year_2026) (sd_adapters supervised_scheduler) = []"
proof -
  have star: "field_matches v ''*'' lo hi w = Inr True" for v lo hi w
    by (simp add: field_matches_def py_strip_def is_ws_def)
  have "fires every_minute new_year_2026"
    by (simp add: fires_def cron_matches_def every_minute_def star)
  then show "length (concat (map (due new_year_2026) (sd_adapters supervised_scheduler))) = 3"
    and "filter (poll_fails new_year_2026) (sd_adapters supervised_scheduler) = []"
    by (simp_all add: supervised_scheduler_def demo_scheduler_def fires_def)
qed

lemma supervised_scheduler_ok:
  "supervised demo_supervisor (sd_sink supervised_scheduler)"
  "list_all mapper_ordinary (sd_adapters supervised_scheduler)"
  "all_accepted (valid_for demo_supervisor) new_year_2026 (sd_adapters supervised_scheduler)"
proof -
  show "supervised demo_supervisor (sd_sink supervised_scheduler)"
    using demo_inj reachable_ok [OF demo_init_reachable demo_inj]
    by (simp add: supervised_def supervised_scheduler_def demo_init_def world_init_def mq_init_def mq_list_def)
  show "list_all mapper_ordinary (sd_adapters supervised_scheduler)" by (simp add: supervised_scheduler_def demo_scheduler_def)
  have "valid_for demo_supervisor s" if "sub_capability s = ''echo''" "sub_name s = ''nightly''" for s
    using that
    by (simp add: valid_for_def validate_task_submission_def demo_registry_def reg_get_def dget_def
        demo_capability_def py_strip_def is_ws_def Let_def)
  then show "all_accepted (valid_for demo_supervisor) new_year_2026 (sd_adapters supervised_scheduler)"
    by (auto simp: all_accepted_def submission_for_def supervised_scheduler_def demo_scheduler_def midnight_submission_def
        with_trigger_metadata_def split: if_splits)
qed

text \<open>
  C8. A cycle submits exactly what is due: on a supervisor with an unbounded queue, and when every due
  submission is one the supervisor validates, \<^verbatim>\<open>run_once\<close> puts at the end of the task queue, adapter
  by adapter and in order, one task for every cron trigger due in this minute and for every payload of
  every webhook whose payloads all map, each stamped with its trigger's metadata; a poll that raises
  costs only that adapter and leaves one issue for the health check; and if none raised, nothing is due
  any more, so a second cycle in the same minute submits nothing.
\<close>

theorem cycle_submits_what_is_due:
  assumes "supervised sv (sd_sink s)" and "list_all mapper_ordinary (sd_adapters s)"
    and "all_accepted (valid_for sv) t (sd_adapters s)"
  shows "\<exists>ts s' new. run_once (submit sv) env (Some t) s = (Inr ts, s') \<and> supervised sv (sd_sink s') \<and>
     queued_submissions (sd_sink s') = queued_submissions (sd_sink s) @ new \<and> length ts = length new \<and>
     list_all2 submission_for (concat (map (due t) (sd_adapters s))) new \<and>
     length (scheduler_health_check s') = length (filter (poll_fails t) (sd_adapters s)) \<and>
     (filter (poll_fails t) (sd_adapters s) = [] \<longrightarrow> concat (map (due t) (sd_adapters s')) = [])"
  using assms by (rule supervisor_sink.run_once_due)

theorem cycle_submits_what_is_due_witness:
  "supervised demo_supervisor (sd_sink supervised_scheduler) \<and>
   (\<exists>ts s'. run_once (submit demo_supervisor) demo_sched_env (Some new_year_2026) supervised_scheduler = (Inr ts, s') \<and>
      length ts = 3 \<and> length (queued_submissions (sd_sink s')) = 3 \<and> scheduler_health_check s' = [])"
proof -
  have "queued_submissions (sd_sink supervised_scheduler) = []"
    by (simp add: queued_submissions_def supervised_scheduler_def demo_init_def world_init_def mq_init_def
        mq_list_def List.map_filter_simps)
  with cycle_submits_what_is_due [OF supervised_scheduler_ok, of demo_sched_env] supervised_scheduler_due
    supervised_scheduler_ok(1)
  show ?thesis by (fastforce dest: list_all2_lengthD)
qed

end
