(* ===== verification/Workflow.thy ===== *)
theory Workflow
  imports Contracts
begin

text \<open>
  \<^verbatim>\<open>engine/workflow/orchestrator.py\<close>, \<^verbatim>\<open>engine/interfaces/workflow.py\<close> and the bundled agents of
  \<^verbatim>\<open>engine/workflow/agents/\<close>.

  The planner, the worker and the validator are the user's objects: functions that may raise and may
  change the state \<open>'w\<close> everything shares.  \<open>'w\<close> also holds the supervisor, whose
  \<^verbatim>\<open>run_submission\<close> is an argument.  A parallel group is run by a thread pool: here each call of
  \<^verbatim>\<open>_run_step\<close> takes effect at once, in an order that is an argument of the run, since any order
  may happen; the records are collected in the order of the steps, as the futures are.
\<close>

section \<open>interfaces/workflow.py\<close>

datatype workflow_status = WF_PENDING | WF_RUNNING | WF_COMPLETED | WF_FAILED | WF_PARTIAL

fun workflow_status_value :: "workflow_status \<Rightarrow> string" where
  "workflow_status_value WF_PENDING = ''pending''"
| "workflow_status_value WF_RUNNING = ''running''"
| "workflow_status_value WF_COMPLETED = ''completed''"
| "workflow_status_value WF_FAILED = ''failed''"
| "workflow_status_value WF_PARTIAL = ''partial''"

record plan_step =
  ps_name :: string
  ps_capability :: string
  ps_input_hint :: pydict
  ps_parallel_group :: "string option"

record workflow_goal =
  wg_workflow_id :: string
  wg_goal :: string
  wg_capabilities :: "string list"
  wg_metadata :: pydict

record validation_response =
  vr_passed :: bool
  vr_verdict :: string
  vr_issues :: "string list"

record workflow_result =
  wr_workflow_id :: string
  wr_goal :: string
  wr_status :: workflow_status
  wr_records :: "task_record list"
  wr_verdict :: "validation_response option"

record planner_context =
  pcx_workflow_id :: string
  pcx_goal :: string
  pcx_capabilities :: "string list"

record plan_response =
  pr_steps :: "plan_step list"
  pr_rationale :: string

record worker_context =
  wcx_workflow_id :: string
  wcx_step :: plan_step
  wcx_prior_results :: "task_record list"

record worker_response =
  wre_submission :: task_submission

record validator_context =
  vcx_workflow_id :: string
  vcx_goal :: string
  vcx_results :: "task_record list"

type_synonym ('a, 'w) action = "'w \<Rightarrow> (exc + 'a) \<times> 'w"
type_synonym 'w planner = "string \<Rightarrow> planner_context \<Rightarrow> (plan_response, 'w) action"
type_synonym 'w worker = "string \<Rightarrow> worker_context \<Rightarrow> (worker_response, 'w) action"
type_synonym 'w validator = "string \<Rightarrow> validator_context \<Rightarrow> (validation_response, 'w) action"

section \<open>WorkflowOrchestrator\<close>

record 'w orchestrator =
  wo_planner :: "'w planner"
  wo_worker :: "'w worker"
  wo_validator :: "'w validator"
  wo_run_submission :: "task_submission \<Rightarrow> (task_record, 'w) action"

definition run_step ::
  "'w orchestrator \<Rightarrow> string \<Rightarrow> task_record list \<Rightarrow> plan_step \<Rightarrow> (task_record, 'w) action" where
  "run_step o1 workflow_id prior_results step w =
     (case wo_worker o1 (ps_name step)
             \<lparr>wcx_workflow_id = workflow_id, wcx_step = step, wcx_prior_results = prior_results\<rparr> w of
        (Inl e, w) \<Rightarrow> (Inl e, w)
      | (Inr response, w) \<Rightarrow>
          wo_run_submission o1 ((wre_submission response)\<lparr>sub_workflow_id := Some workflow_id\<rparr>) w)"

text \<open>The inner loop of \<^verbatim>\<open>_step_batches\<close>: the steps of the group that follow, and the rest.\<close>

fun take_group :: "string \<Rightarrow> plan_step list \<Rightarrow> plan_step list \<times> plan_step list" where
  "take_group g [] = ([], [])"
| "take_group g (s # ss) =
     (if ps_parallel_group s = Some g
      then (case take_group g ss of (batch, rest) \<Rightarrow> (s # batch, rest))
      else ([], s # ss))"

lemma take_group_rest: "take_group g ss = (batch, rest) \<Longrightarrow> length rest \<le> length ss"
  by (induction g ss arbitrary: batch rest rule: take_group.induct)
     (auto split: if_splits prod.splits)

function step_batches :: "plan_step list \<Rightarrow> plan_step list list" where
  "step_batches [] = []"
| "step_batches (s # ss) =
     (case ps_parallel_group s of
        None \<Rightarrow> [s] # step_batches ss
      | Some g \<Rightarrow> (case take_group g ss of (batch, rest) \<Rightarrow> (s # batch) # step_batches rest))"
  by pat_completeness auto

termination
  by (relation "measure length") (auto dest: take_group_rest [OF sym])

text \<open>The thread pool: every call is made, in the given order of positions; \<^verbatim>\<open>future.result()\<close> then
  raises for the first step, in plan order, whose call raised.\<close>

fun run_in_order ::
  "(plan_step \<Rightarrow> (task_record, 'w) action) \<Rightarrow> plan_step list \<Rightarrow> nat list \<Rightarrow> 'w \<Rightarrow>
   (nat \<times> (exc + task_record)) list \<times> 'w" where
  "run_in_order f batch [] w = ([], w)"
| "run_in_order f batch (i # is) w =
     (case f (batch ! i) w of
        (r, w) \<Rightarrow> (case run_in_order f batch is w of (rs, w) \<Rightarrow> ((i, r) # rs, w)))"

fun results_in_order :: "(exc + task_record) list \<Rightarrow> exc + task_record list" where
  "results_in_order [] = Inr []"
| "results_in_order (Inl e # rs) = Inl e"
| "results_in_order (Inr t # rs) = (case results_in_order rs of Inl e \<Rightarrow> Inl e | Inr ts \<Rightarrow> Inr (t # ts))"

definition run_batch ::
  "'w orchestrator \<Rightarrow> string \<Rightarrow> task_record list \<Rightarrow> nat list \<Rightarrow> plan_step list \<Rightarrow> (task_record list, 'w) action" where
  "run_batch o1 workflow_id prior_results order batch w =
     (case batch of
        [step] \<Rightarrow> (case run_step o1 workflow_id prior_results step w of
            (Inl e, w) \<Rightarrow> (Inl e, w) | (Inr t, w) \<Rightarrow> (Inr [t], w))
      | _ \<Rightarrow> (case run_in_order (run_step o1 workflow_id prior_results) batch order w of
            (rs, w) \<Rightarrow> (results_in_order (map (\<lambda>i. the (map_of rs i)) [0..<length batch]), w)))"

text \<open>The loop over the batches: \<open>orders k\<close> is the order of the \<open>k\<close>-th batch still to run,
  which matters for a parallel group only.\<close>

fun run_batches ::
  "'w orchestrator \<Rightarrow> string \<Rightarrow> (nat \<Rightarrow> nat list) \<Rightarrow> plan_step list list \<Rightarrow> task_record list \<Rightarrow>
   (workflow_status \<times> task_record list, 'w) action" where
  "run_batches o1 workflow_id orders [] records w = (Inr (WF_RUNNING, records), w)"
| "run_batches o1 workflow_id orders (batch # batches) records w =
     (case run_batch o1 workflow_id records (orders 0) batch w of
        (Inl e, w) \<Rightarrow> (Inl e, w)
      | (Inr batch_records, w) \<Rightarrow>
          if (\<exists>t\<in>set batch_records. task_status t = FAILED)
          then (Inr (WF_FAILED, records @ batch_records), w)
          else run_batches o1 workflow_id (\<lambda>k. orders (Suc k)) batches (records @ batch_records) w)"

definition workflow_run ::
  "'w orchestrator \<Rightarrow> (nat \<Rightarrow> nat list) \<Rightarrow> workflow_goal \<Rightarrow> (workflow_result, 'w) action" where
  "workflow_run o1 orders goal w =
     (case wo_planner o1 (wg_goal goal)
             \<lparr>pcx_workflow_id = wg_workflow_id goal, pcx_goal = wg_goal goal, pcx_capabilities = wg_capabilities goal\<rparr> w of
        (Inl e, w) \<Rightarrow> (Inl e, w)
      | (Inr plan, w) \<Rightarrow>
          (case run_batches o1 (wg_workflow_id goal) orders (step_batches (pr_steps plan)) [] w of
             (Inl e, w) \<Rightarrow> (Inl e, w)
           | (Inr (status, records), w) \<Rightarrow>
               if status \<noteq> WF_FAILED
               then (case wo_validator o1 (wg_goal goal)
                        \<lparr>vcx_workflow_id = wg_workflow_id goal, vcx_goal = wg_goal goal, vcx_results = records\<rparr> w of
                       (Inl e, w) \<Rightarrow> (Inl e, w)
                     | (Inr validation, w) \<Rightarrow>
                         (Inr \<lparr>wr_workflow_id = wg_workflow_id goal, wr_goal = wg_goal goal,
                               wr_status = (if vr_passed validation then WF_COMPLETED else WF_PARTIAL),
                               wr_records = records, wr_verdict = Some validation\<rparr>, w))
               else (Inr \<lparr>wr_workflow_id = wg_workflow_id goal, wr_goal = wg_goal goal,
                          wr_status = status, wr_records = records, wr_verdict = None\<rparr>, w)))"

section \<open>The bundled agents\<close>

definition linear_plan :: "plan_step list \<Rightarrow> 'w planner" where
  "linear_plan steps goal context w = (Inr \<lparr>pr_steps = steps, pr_rationale = ''linear plan''\<rparr>, w)"

definition passthrough_submission :: "string \<Rightarrow> worker_context \<Rightarrow> task_submission" where
  "passthrough_submission step_name context =
     \<lparr>sub_name = step_name, sub_capability = ps_capability (wcx_step context),
      sub_input = ps_input_hint (wcx_step context), sub_metadata = [], sub_max_retries = 0,
      sub_workflow_id = Some (wcx_workflow_id context)\<rparr>"

definition passthrough_work :: "'w worker" where
  "passthrough_work step_name context w = (Inr \<lparr>wre_submission = passthrough_submission step_name context\<rparr>, w)"

definition passthrough_validate :: "'w validator" where
  "passthrough_validate goal context w =
     (Inr \<lparr>vr_passed = True, vr_verdict = ''all steps passed'', vr_issues = []\<rparr>, w)"

section \<open>Batches\<close>

lemma take_group_split:
  "take_group g ss = (batch, rest) \<Longrightarrow>
     ss = batch @ rest \<and> (\<forall>s\<in>set batch. ps_parallel_group s = Some g) \<and>
     (rest \<noteq> [] \<longrightarrow> ps_parallel_group (hd rest) \<noteq> Some g)"
  by (induction g ss arbitrary: batch rest rule: take_group.induct)
     (auto split: if_splits prod.splits)

lemma step_batches_concat: "concat (step_batches ss) = ss"
  by (induction ss rule: step_batches.induct)
     (auto split: option.splits prod.splits dest: take_group_split)

lemma step_batches_not_Nil: "[] \<notin> set (step_batches ss)"
  by (induction ss rule: step_batches.induct) (auto split: option.splits prod.splits)

definition one_group :: "plan_step list \<Rightarrow> bool" where
  "one_group batch \<longleftrightarrow>
     (\<forall>s\<in>set batch. ps_parallel_group s = ps_parallel_group (hd batch)) \<and>
     (length batch \<noteq> 1 \<longrightarrow> ps_parallel_group (hd batch) \<noteq> None)"

lemma step_batches_one_group: "\<forall>batch\<in>set (step_batches ss). one_group batch"
proof (induction ss rule: step_batches.induct)
  case (2 s ss)
  show ?case
  proof (cases "ps_parallel_group s")
    case None
    with 2(1) [OF None] show ?thesis by (simp add: one_group_def)
  next
    case (Some g)
    obtain batch rest where tg: "take_group g ss = (batch, rest)" by (meson surj_pair)
    from take_group_split [OF tg] Some have "one_group (s # batch)" by (auto simp: one_group_def)
    with 2(2) [OF Some tg [symmetric]] Some tg show ?thesis by simp
  qed
qed simp

definition apart :: "plan_step list \<Rightarrow> plan_step list \<Rightarrow> bool" where
  "apart b c \<longleftrightarrow> ps_parallel_group (hd b) = None \<or> ps_parallel_group (hd c) \<noteq> ps_parallel_group (hd b)"

lemma hd_step_batches: "step_batches ss = b # bs \<Longrightarrow> ss \<noteq> [] \<and> hd b = hd ss"
  by (cases ss) (auto split: option.splits prod.splits)

lemma step_batches_apart: "successively apart (step_batches ss)"
proof (induction ss rule: step_batches.induct)
  case (2 s ss)
  show ?case
  proof (cases "ps_parallel_group s")
    case None
    with 2(1) show ?thesis by (cases "step_batches ss") (auto simp: apart_def)
  next
    case (Some g)
    obtain batch rest where tg: "take_group g ss = (batch, rest)" by (meson surj_pair)
    with 2(2) [OF Some tg [symmetric]] Some take_group_split [OF tg] show ?thesis
      by (cases "step_batches rest") (auto simp: apart_def dest: hd_step_batches)
  qed
qed simp

end
