(* ===== verification/Workflow_Properties.thy ===== *)
theory Workflow_Properties
  imports Workflow Supervisor_Properties
begin

text \<open>
  What the orchestrator promises: how a plan is cut into batches, what a result says of the steps
  that ran, and that a workflow of the bundled agents is the plain sequence of its steps on the
  supervisor; with the statuses it takes for success.
\<close>

text \<open>
  A plan is cut into batches that keep it: the batches in order are the plan, no batch is empty,
  every batch is one step without a group or consecutive steps of one parallel group, and a group is
  never split, since the batch after it starts with another group or none.
\<close>

theorem plan_batches_keep_the_plan:
  "concat (step_batches steps) = steps \<and> [] \<notin> set (step_batches steps) \<and>
   list_all one_group (step_batches steps) \<and> successively apart (step_batches steps)"
  using step_batches_one_group [of steps]
  by (simp add: step_batches_concat step_batches_not_Nil step_batches_apart list_all_iff)

section \<open>What a result says\<close>

lemma results_in_order_length: "results_in_order rs = Inr ts \<Longrightarrow> length ts = length rs"
  by (induction rs arbitrary: ts rule: results_in_order.induct) (auto split: sum.splits)

lemma run_batch_length:
  "batch \<noteq> [] \<Longrightarrow> run_batch o1 wid prior order batch w = (Inr ts, w') \<Longrightarrow> length ts = length batch"
  by (auto simp: run_batch_def split: list.splits prod.splits sum.splits dest: results_in_order_length)

definition some_failed :: "task_record list \<Rightarrow> bool" where
  "some_failed ts \<longleftrightarrow> FAILED \<in> task_status ` set ts"

lemma run_batches_result:
  assumes "run_batches o1 wid orders batches records w = (Inr (status, rs), w')" and "[] \<notin> set batches"
  shows "\<exists>earlier latest k. rs = records @ earlier @ latest \<and> k \<le> length batches \<and>
    length (earlier @ latest) = length (concat (take k batches)) \<and> \<not> some_failed earlier \<and>
    (if status = WF_FAILED then 0 < k \<and> length latest = length (batches ! (k - 1)) \<and> some_failed latest
     else status = WF_RUNNING \<and> k = length batches \<and> latest = [])"
  using assms
proof (induction batches arbitrary: orders records w)
  case Nil
  then show ?case by (auto simp: some_failed_def)
next
  case (Cons b bs)
  obtain r w1 where b: "run_batch o1 wid records (orders 0) b w = (r, w1)" by (meson surj_pair)
  with Cons.prems obtain ts where r: "r = Inr ts" by (cases r) auto
  from Cons.prems(2) have "b \<noteq> []" by auto
  from run_batch_length [OF this b [unfolded r]] have len: "length ts = length b" .
  show ?case
  proof (cases "some_failed ts")
    case True
    with Cons.prems b r have "rs = records @ ts" "status = WF_FAILED"
      by (auto simp: some_failed_def split: if_splits)
    with True len show ?thesis
      by (intro exI [of _ "[]"] exI [of _ ts] exI [of _ 1]) (auto simp: some_failed_def)
  next
    case False
    then have "\<not> (\<exists>t\<in>set ts. task_status t = FAILED)" by (force simp: some_failed_def)
    with Cons.prems b r have
      "run_batches o1 wid (\<lambda>k. orders (Suc k)) bs (records @ ts) w1 = (Inr (status, rs), w')"
      by simp
    from Cons.IH [OF this] Cons.prems obtain earlier latest k where
      ih: "rs = (records @ ts) @ earlier @ latest" "k \<le> length bs"
      "length (earlier @ latest) = length (concat (take k bs))" "\<not> some_failed earlier"
      "if status = WF_FAILED then 0 < k \<and> length latest = length (bs ! (k - 1)) \<and> some_failed latest
       else status = WF_RUNNING \<and> k = length bs \<and> latest = []" by auto
    from ih False len show ?thesis
      by (intro exI [of _ "ts @ earlier"] exI [of _ latest] exI [of _ "Suc k"])
         (auto simp: some_failed_def nth_Cons' split: if_splits)
  qed
qed


section \<open>Workflows of the bundled agents on the supervisor\<close>

definition bundled :: "supervisor \<Rightarrow> plan_step list \<Rightarrow> world orchestrator" where
  "bundled sv steps = \<lparr>wo_planner = linear_plan steps, wo_worker = passthrough_work,
     wo_validator = passthrough_validate, wo_run_submission = run_submission sv\<rparr>"

definition step_submission :: "string \<Rightarrow> plan_step \<Rightarrow> task_submission" where
  "step_submission wid step = \<lparr>sub_name = ps_name step, sub_capability = ps_capability step,
     sub_input = ps_input_hint step, sub_metadata = [], sub_max_retries = 0, sub_workflow_id = Some wid\<rparr>"

text \<open>The reference: submit and run the steps one after the other until one fails.\<close>

fun run_steps ::
  "supervisor \<Rightarrow> string \<Rightarrow> plan_step list \<Rightarrow> task_record list \<Rightarrow> world \<Rightarrow> (exc + bool \<times> task_record list) \<times> world" where
  "run_steps sv wid [] records w = (Inr (True, records), w)"
| "run_steps sv wid (s # ss) records w =
     (case run_submission sv (step_submission wid s) w of
        (Inl e, w) \<Rightarrow> (Inl e, w)
      | (Inr t, w) \<Rightarrow>
          if task_status t = FAILED then (Inr (False, records @ [t]), w)
          else run_steps sv wid ss (records @ [t]) w)"

definition sequential :: "plan_step list \<Rightarrow> bool" where
  "sequential steps \<longleftrightarrow> list_all (\<lambda>s. ps_parallel_group s = None) steps"

lemma sequential_batches: "sequential steps \<Longrightarrow> step_batches steps = map (\<lambda>s. [s]) steps"
  by (induction steps) (auto simp: sequential_def)

lemma bundled_step:
  "run_step (bundled sv steps) wid prior s w = run_submission sv (step_submission wid s) w"
  by (simp add: run_step_def bundled_def passthrough_work_def passthrough_submission_def step_submission_def)

lemma bundled_batch:
  "run_batch (bundled sv steps) wid prior order [s] w =
     (case run_submission sv (step_submission wid s) w of (Inl e, w) \<Rightarrow> (Inl e, w) | (Inr t, w) \<Rightarrow> (Inr [t], w))"
  by (simp add: run_batch_def bundled_step)

lemma bundled_batches:
  "run_batches (bundled sv steps) wid orders (map (\<lambda>s. [s]) ss) records w =
     (case run_steps sv wid ss records w of
        (Inl e, w) \<Rightarrow> (Inl e, w)
      | (Inr (ok, rs), w) \<Rightarrow> (Inr (if ok then WF_RUNNING else WF_FAILED, rs), w))"
proof (induction ss arbitrary: orders records w)
  case (Cons s ss)
  obtain r w1 where r: "run_submission sv (step_submission wid s) w = (r, w1)" by (meson surj_pair)
  then show ?case by (cases r) (auto simp: bundled_batch Cons.IH)
qed simp

lemma bundled_run:
  assumes "sequential steps"
  shows "workflow_run (bundled sv steps) orders goal w =
    (case run_steps sv (wg_workflow_id goal) steps [] w of
       (Inl e, w) \<Rightarrow> (Inl e, w)
     | (Inr (ok, rs), w) \<Rightarrow>
         (Inr \<lparr>wr_workflow_id = wg_workflow_id goal, wr_goal = wg_goal goal,
               wr_status = (if ok then WF_COMPLETED else WF_FAILED), wr_records = rs,
               wr_verdict = (if ok then Some \<lparr>vr_passed = True, vr_verdict = ''all steps passed'', vr_issues = []\<rparr>
                             else None)\<rparr>, w))"
proof -
  have plan: "wo_planner (bundled sv steps) g c w = (Inr \<lparr>pr_steps = steps, pr_rationale = ''linear plan''\<rparr>, w)"
    and validate: "wo_validator (bundled sv steps) g vc w =
      (Inr \<lparr>vr_passed = True, vr_verdict = ''all steps passed'', vr_issues = []\<rparr>, w)" for g c vc w
    by (simp_all add: bundled_def linear_plan_def passthrough_validate_def)
  show ?thesis
    by (auto simp: workflow_run_def plan validate sequential_batches [OF assms] bundled_batches
        split: prod.splits sum.splits)
qed

text \<open>
  C14. A sequential workflow of the bundled agents is its steps, one after the other: it submits and
  runs each step's input hint under the workflow's id, stops at the first failed task, lets an
  exception of the supervisor through, and is completed exactly when no task failed.
\<close>

theorem sequential_workflow_runs_its_steps:
  assumes "sequential steps"
  shows "workflow_run (bundled sv steps) orders goal w =
    (case run_steps sv (wg_workflow_id goal) steps [] w of
       (Inl e, w) \<Rightarrow> (Inl e, w)
     | (Inr (ok, rs), w) \<Rightarrow>
         (Inr \<lparr>wr_workflow_id = wg_workflow_id goal, wr_goal = wg_goal goal,
               wr_status = (if ok then WF_COMPLETED else WF_FAILED), wr_records = rs,
               wr_verdict = (if ok then Some \<lparr>vr_passed = True, vr_verdict = ''all steps passed'', vr_issues = []\<rparr>
                             else None)\<rparr>, w))"
  using assms by (rule bundled_run)

definition demo_step :: plan_step where
  "demo_step = \<lparr>ps_name = ''greet'', ps_capability = ''echo'', ps_input_hint = [], ps_parallel_group = None\<rparr>"

definition demo_goal :: workflow_goal where
  "demo_goal = \<lparr>wg_workflow_id = ''wf'', wg_goal = ''say hello'', wg_capabilities = [''echo''], wg_metadata = []\<rparr>"

lemma demo_goal_fields: "wg_workflow_id demo_goal = ''wf''" "wg_goal demo_goal = ''say hello''"
  by (simp_all add: demo_goal_def)

theorem sequential_workflow_runs_its_steps_witness:
  "sequential [demo_step] \<and>
   workflow_run (bundled demo_supervisor [demo_step]) (\<lambda>k. []) demo_goal demo_init =
    (case run_steps demo_supervisor ''wf'' [demo_step] [] demo_init of
       (Inl e, w) \<Rightarrow> (Inl e, w)
     | (Inr (ok, rs), w) \<Rightarrow>
         (Inr \<lparr>wr_workflow_id = ''wf'', wr_goal = ''say hello'',
               wr_status = (if ok then WF_COMPLETED else WF_FAILED), wr_records = rs,
               wr_verdict = (if ok then Some \<lparr>vr_passed = True, vr_verdict = ''all steps passed'', vr_issues = []\<rparr>
                             else None)\<rparr>, w))"
proof -
  have "sequential [demo_step]" by (simp add: sequential_def demo_step_def)
  with sequential_workflow_runs_its_steps [OF this, of demo_supervisor "\<lambda>k. []" demo_goal demo_init]
  show ?thesis unfolding demo_goal_fields by (intro conjI)
qed

section \<open>Tasks that wait for approval\<close>

lemma fresh_submission: "build_submission (fresh_task sv sub w) = sub"
  by (simp add: build_submission_def fresh_task_def new_task_record_def)

lemma gated_run_submission:
  assumes "validate_task_submission sub (sv_registry sv) = Inr c" and "cd_require_approval (cap_descriptor c)"
  shows "\<exists>t w'. run_submission sv sub w = (Inr t, w') \<and> task_status t = AWAITING_APPROVAL \<and>
    w_executions w' = w_executions w"
proof -
  let ?t = "fresh_task sv sub w"
  have "ms_get (w_store (created_world sv sub w)) (task_id ?t) = Some ?t"
    by (simp add: created_world_def)
  then show ?thesis
    using assms
    by (auto simp: run_submission_def create_task_record_eq run_task_def get_task_def fresh_submission
        executable_status_def transition_status_def append_audit_def save_task_def emit_event_def or_now_def
        now_utc_def created_world_def Let_def split: prod.splits)
qed

lemma gated_workflow:
  assumes "sequential steps"
    and "\<forall>s\<in>set steps. \<exists>c. validate_task_submission (step_submission (wg_workflow_id goal) s) (sv_registry sv) = Inr c \<and>
      cd_require_approval (cap_descriptor c)"
  shows "\<exists>r w'. workflow_run (bundled sv steps) orders goal w = (Inr r, w') \<and> wr_status r = WF_COMPLETED \<and>
    length (wr_records r) = length steps \<and>
    list_all (\<lambda>t. task_status t = AWAITING_APPROVAL) (wr_records r) \<and> w_executions w' = w_executions w"
proof -
  have "\<exists>new w'. run_steps sv (wg_workflow_id goal) steps records w = (Inr (True, records @ new), w') \<and>
    length new = length steps \<and> list_all (\<lambda>t. task_status t = AWAITING_APPROVAL) new \<and>
    w_executions w' = w_executions w" for records
    using assms(2)
  proof (induction steps arbitrary: records w)
    case (Cons s ss)
    from Cons.prems obtain c where
      "validate_task_submission (step_submission (wg_workflow_id goal) s) (sv_registry sv) = Inr c"
      "cd_require_approval (cap_descriptor c)" by auto
    from gated_run_submission [OF this, of w] obtain t w1 where
      t: "run_submission sv (step_submission (wg_workflow_id goal) s) w = (Inr t, w1)"
      "task_status t = AWAITING_APPROVAL" "w_executions w1 = w_executions w" by blast
    from Cons.IH [of "records @ [t]" w1] Cons.prems obtain new w' where
      "run_steps sv (wg_workflow_id goal) ss (records @ [t]) w1 = (Inr (True, (records @ [t]) @ new), w')"
      "length new = length ss" "list_all (\<lambda>t. task_status t = AWAITING_APPROVAL) new"
      "w_executions w' = w_executions w1" by auto
    with t show ?case by (intro exI [of _ "t # new"] exI [of _ w']) simp
  qed simp
  from this [of "[]"] show ?thesis by (auto simp: bundled_run [OF assms(1)])
qed


definition gated_supervisor :: supervisor where
  "gated_supervisor = demo_supervisor\<lparr>sv_registry :=
     \<lparr>reg_capabilities = [(''echo'', demo_capability\<lparr>cap_descriptor :=
        (cap_descriptor demo_capability)\<lparr>cd_require_approval := True\<rparr>\<rparr>)], reg_execution_controls = []\<rparr>\<rparr>"



end
