(* ===== verification/Auth.thy ===== *)
theory Auth
  imports Prelude
begin

text \<open>
  \<^verbatim>\<open>engine/api/auth/store.py\<close>, the auth part of \<^verbatim>\<open>engine/api/dependencies.py\<close> and the middleware of
  \<^verbatim>\<open>engine/api/app.py\<close>: the API-key store with its JSON file, and the decision the middleware takes
  for a request.

  The key file is shared between processes, so it is its own state, a \<open>key_file\<close> with its
  modification time.  SHA-256 is a function \<open>h\<close> from the raw key to the digest; the random part of a
  new key, the current time and the modification time a write gets are arguments of the operations.
  A file that cannot be decoded, or with an entry that has no prefix, counts as empty, as in the code.
\<close>

section \<open>ApiKeyEntry\<close>

record api_key_entry =
  ke_key_hash :: string
  ke_prefix :: string
  ke_actor :: string
  ke_scopes :: "string list"
  ke_created_at :: string
  ke_last_used_at :: "string option"
  ke_revoked :: bool

definition wildcard :: "string list" where
  "wildcard = [''*'']"

definition entry_init ::
  "string \<Rightarrow> string \<Rightarrow> string \<Rightarrow> string \<Rightarrow> string list option \<Rightarrow> string option \<Rightarrow> string option \<Rightarrow> bool \<Rightarrow> api_key_entry" where
  "entry_init now key_hash prefix actor scopes created_at last_used_at revoked =
     \<lparr>ke_key_hash = key_hash, ke_prefix = prefix, ke_actor = actor,
      ke_scopes = (case scopes of None \<Rightarrow> wildcard | Some xs \<Rightarrow> if xs = [] then wildcard else xs),
      ke_created_at = opt_or created_at now, ke_last_used_at = last_used_at, ke_revoked = revoked\<rparr>"

text \<open>The JSON object of an entry: every key may be missing.\<close>

record key_data =
  kd_prefix :: "string option"
  kd_actor :: "string option"
  kd_scopes :: "string list option"
  kd_created_at :: "string option"
  kd_last_used_at :: "string option"
  kd_revoked :: "bool option"

definition to_dict :: "api_key_entry \<Rightarrow> key_data" where
  "to_dict e = \<lparr>kd_prefix = Some (ke_prefix e), kd_actor = Some (ke_actor e), kd_scopes = Some (ke_scopes e),
     kd_created_at = Some (ke_created_at e), kd_last_used_at = ke_last_used_at e, kd_revoked = Some (ke_revoked e)\<rparr>"

definition from_dict :: "string \<Rightarrow> string \<Rightarrow> key_data \<Rightarrow> exc + api_key_entry" where
  "from_dict now key_hash d =
     (case kd_prefix d of
        None \<Rightarrow> Inl (Key_Error ''prefix'')
      | Some prefix \<Rightarrow> Inr (entry_init now key_hash prefix
          (case kd_actor d of None \<Rightarrow> ''api'' | Some a \<Rightarrow> a)
          (Some (case kd_scopes d of None \<Rightarrow> wildcard | Some xs \<Rightarrow> xs))
          (kd_created_at d) (kd_last_used_at d) (case kd_revoked d of None \<Rightarrow> False | Some b \<Rightarrow> b)))"

section \<open>ApiKeyStore\<close>

text \<open>The file: its content as JSON, and its modification time.\<close>

record key_file =
  kf_data :: "key_data jfile"
  kf_mtime :: int

record key_store =
  ks_has_path :: bool
  ks_entries :: "api_key_entry dict"
  ks_dirty :: bool
  ks_last_mtime :: "int option"

fun entries_from :: "string \<Rightarrow> key_data dict \<Rightarrow> exc + api_key_entry dict" where
  "entries_from now [] = Inr []"
| "entries_from now ((kh, d) # ds) =
     (case from_dict now kh d of
        Inl e \<Rightarrow> Inl e
      | Inr x \<Rightarrow> (case entries_from now ds of Inl e \<Rightarrow> Inl e | Inr xs \<Rightarrow> Inr ((kh, x) # xs)))"

definition key_load :: "string \<Rightarrow> key_file \<Rightarrow> key_store \<Rightarrow> key_store" where
  "key_load now f s =
     (case jread (kf_data f) of
        Inl e \<Rightarrow> s\<lparr>ks_entries := []\<rparr>
      | Inr data \<Rightarrow> (case entries_from now data of
          Inl e \<Rightarrow> s\<lparr>ks_entries := []\<rparr>
        | Inr es \<Rightarrow> s\<lparr>ks_entries := es\<rparr>))"

definition key_save :: "int \<Rightarrow> key_store \<Rightarrow> key_file \<Rightarrow> key_file" where
  "key_save mtime s f =
     (if \<not> ks_has_path s then f
      else \<lparr>kf_data = Stored (map (\<lambda>(kh, e). (kh, to_dict e)) (ks_entries s)), kf_mtime = mtime\<rparr>)"

definition key_store_empty :: key_store where
  "key_store_empty = \<lparr>ks_has_path = False, ks_entries = [], ks_dirty = False, ks_last_mtime = None\<rparr>"

definition key_store_init :: "string \<Rightarrow> key_file \<Rightarrow> key_store" where
  "key_store_init now f =
     key_load now f \<lparr>ks_has_path = True, ks_entries = [], ks_dirty = False, ks_last_mtime = None\<rparr>"

definition load_api_key_store :: "string \<Rightarrow> key_file option \<Rightarrow> key_store" where
  "load_api_key_store now path = (case path of None \<Rightarrow> key_store_empty | Some f \<Rightarrow> key_store_init now f)"

definition has_keys :: "key_store \<Rightarrow> bool" where
  "has_keys s \<longleftrightarrow> list_ex (\<lambda>e. \<not> ke_revoked e) (dvalues (ks_entries s))"

definition auth_enabled :: "key_store \<Rightarrow> bool" where
  "auth_enabled s = has_keys s"

definition generate_raw_key :: "string \<Rightarrow> string" where
  "generate_raw_key token_hex = ''cond_'' @ token_hex"

definition key_generate ::
  "(string \<Rightarrow> string) \<Rightarrow> string \<Rightarrow> int \<Rightarrow> string \<Rightarrow> string \<Rightarrow> string list option \<Rightarrow> key_store \<Rightarrow> key_file \<Rightarrow>
   (string \<times> api_key_entry) \<times> key_store \<times> key_file" where
  "key_generate h now mtime token_hex actor scopes s f =
     (let raw = generate_raw_key token_hex;
          key_hash = h raw;
          entry = entry_init now key_hash (take 12 raw) actor scopes None None False;
          s = s\<lparr>ks_entries := dset key_hash entry (ks_entries s), ks_dirty := True\<rparr>
      in ((raw, entry), s, key_save mtime s f))"

definition reload_if_changed :: "string \<Rightarrow> key_file \<Rightarrow> key_store \<Rightarrow> key_store" where
  "reload_if_changed now f s =
     (if \<not> ks_has_path s \<or> kf_data f = Absent then s
      else
        let last_mtime = (case ks_last_mtime s of None \<Rightarrow> 0 | Some m \<Rightarrow> m);
            s = s\<lparr>ks_last_mtime := Some last_mtime\<rparr>
        in if kf_mtime f > last_mtime then (key_load now f s)\<lparr>ks_last_mtime := Some (kf_mtime f)\<rparr> else s)"

definition key_lookup ::
  "(string \<Rightarrow> string) \<Rightarrow> string \<Rightarrow> string \<Rightarrow> key_file \<Rightarrow> key_store \<Rightarrow> api_key_entry option \<times> key_store" where
  "key_lookup h now raw_key f s =
     (let s = reload_if_changed now f s; key_hash = h raw_key in
      case dget (ks_entries s) key_hash of
        None \<Rightarrow> (None, s)
      | Some entry \<Rightarrow>
          if ke_revoked entry then (None, s)
          else let entry = entry\<lparr>ke_last_used_at := Some now\<rparr> in
            (Some entry, s\<lparr>ks_entries := dset key_hash entry (ks_entries s)\<rparr>))"

definition flush_usage :: "int \<Rightarrow> key_store \<Rightarrow> key_file \<Rightarrow> key_store \<times> key_file" where
  "flush_usage mtime s f = (if ks_dirty s then (s\<lparr>ks_dirty := False\<rparr>, key_save mtime s f) else (s, f))"

definition key_revoke :: "int \<Rightarrow> string \<Rightarrow> key_store \<Rightarrow> key_file \<Rightarrow> bool \<times> key_store \<times> key_file" where
  "key_revoke mtime key_hash s f =
     (case dget (ks_entries s) key_hash of
        None \<Rightarrow> (False, s, f)
      | Some entry \<Rightarrow>
          let s = s\<lparr>ks_entries := dset key_hash (entry\<lparr>ke_revoked := True\<rparr>) (ks_entries s), ks_dirty := True\<rparr>
          in (True, s, key_save mtime s f))"

definition list_keys :: "key_store \<Rightarrow> api_key_entry list" where
  "list_keys s = dvalues (ks_entries s)"

definition find_by_prefix :: "string \<Rightarrow> key_store \<Rightarrow> api_key_entry option" where
  "find_by_prefix prefix s = find (\<lambda>e. ke_prefix e = prefix) (dvalues (ks_entries s))"

section \<open>AuthContext and the middleware\<close>

text \<open>\<^verbatim>\<open>HTTPException\<close> with its status code and detail, or a Python exception a handler lets through.\<close>

datatype api_exc = HTTP_Exception int pydict | Uncaught exc

record auth_context =
  ac_actor :: string
  ac_scopes :: "string list"

definition auth_context_init :: "string \<Rightarrow> string list option \<Rightarrow> auth_context" where
  "auth_context_init actor scopes =
     \<lparr>ac_actor = actor, ac_scopes = (case scopes of None \<Rightarrow> wildcard | Some xs \<Rightarrow> if xs = [] then wildcard else xs)\<rparr>"

definition require_scope :: "string \<Rightarrow> auth_context \<Rightarrow> api_exc + unit" where
  "require_scope scope ctx =
     (if ''*'' \<in> set (ac_scopes ctx) then Inr ()
      else if scope \<notin> set (ac_scopes ctx)
      then Inl (HTTP_Exception 403
        [(''code'', PStr ''forbidden''),
         (''message'', PStr (''Caller '' @ quote1 @ ac_actor ctx @ quote1 @ '' lacks required scope '' @
            quote1 @ scope @ quote1)),
         (''required_scope'', PStr scope), (''caller_scopes'', PList (map PStr (ac_scopes ctx)))])
      else Inr ())"

definition open_context :: auth_context where
  "open_context = auth_context_init ''api'' (Some wildcard)"

definition get_auth_context :: "auth_context option \<Rightarrow> auth_context" where
  "get_auth_context state = (case state of Some ctx \<Rightarrow> ctx | None \<Rightarrow> open_context)"

definition public_paths :: "string list" where
  "public_paths = [''/'', ''/docs'', ''/redoc'', ''/openapi.json'', ''/v1/health'']"

definition path_is_public :: "string \<Rightarrow> bool" where
  "path_is_public path \<longleftrightarrow> path \<in> set public_paths \<or>
     prefix_of ''/docs/'' path \<or> prefix_of ''/redoc/'' path \<or> prefix_of ''/openapi.json'' path"

text \<open>What \<^verbatim>\<open>dispatch\<close> does: answer 401 with a message, or call the route with a context.\<close>

datatype auth_outcome = Unauthorized string | Call_Next auth_context

definition missing_header :: string where
  "missing_header = ''Missing or invalid Authorization header''"

definition invalid_key :: string where
  "invalid_key = ''Invalid or revoked API key''"

definition auth_dispatch ::
  "(string \<Rightarrow> string) \<Rightarrow> string \<Rightarrow> string \<Rightarrow> string option \<Rightarrow> key_file \<Rightarrow> key_store \<Rightarrow> auth_outcome \<times> key_store" where
  "auth_dispatch h now path authorization f s =
     (if \<not> auth_enabled s \<or> path_is_public path then (Call_Next open_context, s)
      else
        let auth_header = (case authorization of None \<Rightarrow> [] | Some v \<Rightarrow> v) in
        if \<not> prefix_of ''Bearer '' auth_header then (Unauthorized missing_header, s)
        else
          let raw_key = py_strip (drop 7 auth_header) in
          case key_lookup h now raw_key f s of
            (None, s) \<Rightarrow> (Unauthorized invalid_key, s)
          | (Some entry, s) \<Rightarrow> (Call_Next (auth_context_init (ke_actor entry) (Some (ke_scopes entry))), s))"

section \<open>Invariant of the store\<close>

text \<open>Every entry stands under its own hash, has a scope and a creation time.\<close>

definition key_entry_ok :: "string \<Rightarrow> api_key_entry \<Rightarrow> bool" where
  "key_entry_ok kh e \<longleftrightarrow> ke_key_hash e = kh \<and> ke_scopes e \<noteq> [] \<and> ke_created_at e \<noteq> []"

definition keys_ok :: "key_store \<Rightarrow> bool" where
  "keys_ok s \<longleftrightarrow> dict_ok (ks_entries s) \<and> list_all (\<lambda>(kh, e). key_entry_ok kh e) (ks_entries s)"

definition key_file_ok :: "key_file \<Rightarrow> bool" where
  "key_file_ok f \<longleftrightarrow> (case kf_data f of Stored d \<Rightarrow> dict_ok d | _ \<Rightarrow> True)"

lemma entry_init_ok: "now \<noteq> [] \<Longrightarrow> key_entry_ok kh (entry_init now kh prefix actor scopes created used revoked)"
  by (auto simp: key_entry_ok_def entry_init_def wildcard_def opt_or_def split: option.splits)

lemma keys_ok_dset: "keys_ok s \<Longrightarrow> key_entry_ok kh e \<Longrightarrow> keys_ok (s\<lparr>ks_entries := dset kh e (ks_entries s)\<rparr>)"
  by (auto simp: keys_ok_def list_all_iff dset_in_set)

lemma keys_ok_fields [simp]:
  "keys_ok (s\<lparr>ks_dirty := b\<rparr>) = keys_ok s" "keys_ok (s\<lparr>ks_last_mtime := m\<rparr>) = keys_ok s"
  by (simp_all add: keys_ok_def)

lemma keys_ok_get: "keys_ok s \<Longrightarrow> dget (ks_entries s) kh = Some e \<Longrightarrow> key_entry_ok kh e"
  by (auto simp: keys_ok_def dget_Some_iff list_all_iff)

lemma entries_from_ok:
  "now \<noteq> [] \<Longrightarrow> entries_from now ds = Inr es \<Longrightarrow> map fst es = map fst ds \<and> list_all (\<lambda>(kh, e). key_entry_ok kh e) es"
proof (induction ds arbitrary: es rule: entries_from.induct)
  case (2 now kh d ds)
  then show ?case
    by (auto simp: from_dict_def entry_init_ok split: sum.splits option.splits)
qed simp

lemma key_load_ok: "now \<noteq> [] \<Longrightarrow> key_file_ok f \<Longrightarrow> keys_ok (key_load now f s)"
  by (cases "kf_data f")
     (auto simp: key_load_def keys_ok_def key_file_ok_def dict_ok_def split: sum.splits dest: entries_from_ok)

lemma key_save_ok: "keys_ok s \<Longrightarrow> key_file_ok f \<Longrightarrow> key_file_ok (key_save m s f)"
  by (simp add: key_save_def key_file_ok_def keys_ok_def dict_ok_def case_prod_beta' comp_def)

lemma key_init_ok: "now \<noteq> [] \<Longrightarrow> key_file_ok f \<Longrightarrow> keys_ok (key_store_init now f)"
  by (simp add: key_store_init_def key_load_ok)

lemma key_generate_ok:
  "now \<noteq> [] \<Longrightarrow> keys_ok s \<Longrightarrow> key_file_ok f \<Longrightarrow> key_generate h now m hex actor scopes s f = (r, s', f') \<Longrightarrow>
     keys_ok s' \<and> key_file_ok f'"
  by (auto simp: key_generate_def Let_def keys_ok_dset entry_init_ok intro!: key_save_ok)

lemma key_revoke_ok:
  "keys_ok s \<Longrightarrow> key_file_ok f \<Longrightarrow> key_revoke m kh s f = (r, s', f') \<Longrightarrow> keys_ok s' \<and> key_file_ok f'"
  using keys_ok_get [of s kh]
  by (auto simp: key_revoke_def Let_def key_entry_ok_def intro!: key_save_ok keys_ok_dset split: option.splits)

lemma reload_ok: "now \<noteq> [] \<Longrightarrow> keys_ok s \<Longrightarrow> key_file_ok f \<Longrightarrow> keys_ok (reload_if_changed now f s)"
  by (simp add: reload_if_changed_def key_load_ok Let_def)

lemma key_lookup_ok:
  "now \<noteq> [] \<Longrightarrow> keys_ok s \<Longrightarrow> key_file_ok f \<Longrightarrow> key_lookup h now raw f s = (r, s') \<Longrightarrow> keys_ok s'"
  using reload_ok [of now s f] keys_ok_get [of "reload_if_changed now f s" "h raw"]
  by (auto simp: key_lookup_def Let_def key_entry_ok_def intro!: keys_ok_dset split: option.splits if_splits)

text \<open>Saving and loading give the entries back.\<close>

lemma from_to_dict: "key_entry_ok kh e \<Longrightarrow> from_dict now kh (to_dict e) = Inr e"
  by (simp add: from_dict_def to_dict_def entry_init_def key_entry_ok_def opt_or_def)

lemma entries_from_to:
  "list_all (\<lambda>(kh, e). key_entry_ok kh e) es \<Longrightarrow>
     entries_from now (map (\<lambda>(kh, e). (kh, to_dict e)) es) = Inr es"
  by (induction es) (auto simp: from_to_dict)

lemma load_save:
  "keys_ok s \<Longrightarrow> ks_has_path s \<Longrightarrow> ks_entries (key_load now (key_save m s f) s') = ks_entries s"
  by (simp add: key_load_def key_save_def keys_ok_def entries_from_to)

end
