(* ===== verification/Auth_Properties.thy ===== *)
theory Auth_Properties
  imports Auth
begin

text \<open>
  What the API-key store and the middleware promise, over every interleaving of requests to a server
  and of \<^verbatim>\<open>cond api-key\<close> commands, each a process of its own on the same key file.  The file clock
  moves on at every write, which is what the \<^verbatim>\<open>mtime\<close> check of the server relies on.
\<close>

section \<open>The system\<close>

inductive key_system :: "(string \<Rightarrow> string) \<Rightarrow> key_store \<Rightarrow> key_file \<Rightarrow> bool" for h where
  start: "now \<noteq> [] \<Longrightarrow> key_file_ok f \<Longrightarrow> 0 < kf_mtime f \<Longrightarrow> key_system h (key_store_init now f) f"
| request: "key_system h s f \<Longrightarrow> now \<noteq> [] \<Longrightarrow> auth_dispatch h now path authorization f s = (r, s') \<Longrightarrow>
    key_system h s' f"
| cli_generate: "key_system h s f \<Longrightarrow> now \<noteq> [] \<Longrightarrow> kf_mtime f < m \<Longrightarrow>
    key_generate h now m hex actor scopes (key_store_init now f) f = (r, c, f') \<Longrightarrow> key_system h s f'"
| cli_revoke: "key_system h s f \<Longrightarrow> now \<noteq> [] \<Longrightarrow> kf_mtime f < m \<Longrightarrow>
    key_revoke m kh (key_store_init now f) f = (True, c, f') \<Longrightarrow> key_system h s f'"

inductive_cases key_system_cases: "key_system h s f"

text \<open>What matters of an entry for a decision, and the entries the file holds now.\<close>

definition entry_core :: "api_key_entry \<Rightarrow> string \<times> string list \<times> bool" where
  "entry_core e = (ke_actor e, ke_scopes e, ke_revoked e)"

definition file_core :: "key_file \<Rightarrow> string \<Rightarrow> (string \<times> string list \<times> bool) option" where
  "file_core f kh = map_option entry_core (dget (ks_entries (key_store_init ''now'' f)) kh)"

definition synced :: "key_store \<Rightarrow> key_file \<Rightarrow> bool" where
  "synced s f \<longleftrightarrow> (\<forall>kh. map_option entry_core (dget (ks_entries s) kh) = file_core f kh)"

text \<open>The time a process reads does not matter for what it decides.\<close>

lemma entries_from_core:
  "case entries_from now ds of
     Inl e \<Rightarrow> isl (entries_from now' ds)
   | Inr es \<Rightarrow> (\<exists>es'. entries_from now' ds = Inr es' \<and>
       map (\<lambda>(kh, e). (kh, entry_core e)) es' = map (\<lambda>(kh, e). (kh, entry_core e)) es)"
proof (induction ds)
  case (Cons p ds)
  obtain kh d where p: "p = (kh, d)" by (cases p)
  show ?case
  proof (cases "kd_prefix d")
    case None
    then show ?thesis by (simp add: p from_dict_def)
  next
    case (Some x)
    then obtain e e' where e: "from_dict now kh d = Inr e" "from_dict now' kh d = Inr e'" "entry_core e = entry_core e'"
      by (auto simp: from_dict_def entry_core_def entry_init_def)
    with Cons show ?thesis by (auto simp: p split: sum.splits)
  qed
qed simp

lemma dget_map_core:
  "map_option entry_core (dget es kh) = map_of (map (\<lambda>(kh, e). (kh, entry_core e)) es) kh"
  by (induction es) (auto simp: dget_def)

lemma load_core:
  "map_option entry_core (dget (ks_entries (key_load now f s)) kh) =
   map_option entry_core (dget (ks_entries (key_load now' f s')) kh)"
proof (cases "jread (kf_data f)")
  case (Inr data)
  with entries_from_core [of now data now'] show ?thesis
    by (cases "entries_from now data"; cases "entries_from now' data")
       (auto simp: key_load_def dget_map_core)
qed (simp add: key_load_def)

lemma load_synced: "synced (key_load now f s) f"
  by (simp add: synced_def file_core_def key_store_init_def load_core)

lemma init_synced: "synced (key_store_init now f) f"
  by (simp add: key_store_init_def load_synced)

lemma synced_update:
  "synced s f \<Longrightarrow> dget (ks_entries s) kh = Some e \<Longrightarrow> entry_core e' = entry_core e \<Longrightarrow>
     synced (s\<lparr>ks_entries := dset kh e' (ks_entries s)\<rparr>) f"
  unfolding synced_def by (metis (no_types, lifting) dget_dset key_store.select_convs(2) key_store.surjective
      key_store.update_convs(2) option.map(2))

section \<open>The invariant\<close>

definition server_ok :: "key_store \<Rightarrow> key_file \<Rightarrow> bool" where
  "server_ok s f \<longleftrightarrow> keys_ok s \<and> key_file_ok f \<and> ks_has_path s \<and> \<not> ks_dirty s \<and> 0 < kf_mtime f \<and>
     (kf_data f = Absent \<longrightarrow> synced s f) \<and>
     (case ks_last_mtime s of None \<Rightarrow> True | Some m \<Rightarrow> m \<le> kf_mtime f \<and> (m = kf_mtime f \<longrightarrow> synced s f))"

lemma load_fields [simp]:
  "ks_has_path (key_load now f s) = ks_has_path s" "ks_dirty (key_load now f s) = ks_dirty s"
  "ks_last_mtime (key_load now f s) = ks_last_mtime s"
  by (auto simp: key_load_def split: sum.splits)

lemma init_fields [simp]:
  "ks_has_path (key_store_init now f)" "\<not> ks_dirty (key_store_init now f)"
  "ks_last_mtime (key_store_init now f) = None"
  by (simp_all add: key_store_init_def)

lemma synced_fields [simp]:
  "synced (s\<lparr>ks_last_mtime := m\<rparr>) f = synced s f" "synced (s\<lparr>ks_dirty := b\<rparr>) f = synced s f"
  by (simp_all add: synced_def)

lemma reload_server_ok:
  assumes "server_ok s f" and "now \<noteq> []"
  shows "server_ok (reload_if_changed now f s) f \<and> synced (reload_if_changed now f s) f"
proof -
  have "keys_ok (reload_if_changed now f s)"
    using assms by (intro reload_ok) (auto simp: server_ok_def)
  with assms load_synced [of now f] show ?thesis
    by (auto simp: server_ok_def reload_if_changed_def Let_def split: option.splits)
qed

lemma lookup_server_ok:
  assumes "server_ok s f" and "now \<noteq> []" and "key_lookup h now raw f s = (r, s')"
  shows "server_ok s' f \<and> synced s' f \<and>
    (case r of
       None \<Rightarrow> file_core f (h raw) = None \<or> (\<exists>a sc. file_core f (h raw) = Some (a, sc, True))
     | Some e \<Rightarrow> file_core f (h raw) = Some (ke_actor e, ke_scopes e, False))"
proof -
  define t where "t = reload_if_changed now f s"
  from reload_server_ok [OF assms(1,2)] have t: "server_ok t f" "synced t f" by (simp_all add: t_def)
  then have core: "file_core f (h raw) = map_option entry_core (dget (ks_entries t) (h raw))"
    by (simp add: synced_def)
  show ?thesis
  proof (cases "dget (ks_entries t) (h raw)")
    case None
    with assms(3) t core show ?thesis by (auto simp: key_lookup_def t_def [symmetric] Let_def)
  next
    case (Some e)
    show ?thesis
    proof (cases "ke_revoked e")
      case True
      with Some assms(3) t core show ?thesis
        by (auto simp: key_lookup_def t_def [symmetric] Let_def entry_core_def)
    next
      case False
      define e' where "e' = e\<lparr>ke_last_used_at := Some now\<rparr>"
      have core': "entry_core e' = entry_core e" by (simp add: e'_def entry_core_def)
      from Some False assms(3) have r: "r = Some e'" "s' = t\<lparr>ks_entries := dset (h raw) e' (ks_entries t)\<rparr>"
        by (auto simp: key_lookup_def t_def [symmetric] Let_def e'_def)
      from synced_update [OF t(2) Some core'] have "synced s' f" by (simp add: r)
      moreover have "keys_ok s'"
        using t(1) keys_ok_get [of t "h raw" e] Some
        by (auto simp: r server_ok_def e'_def key_entry_ok_def intro!: keys_ok_dset)
      ultimately show ?thesis
        using t(1) r core Some False core' by (auto simp: server_ok_def entry_core_def split: option.splits)
    qed
  qed
qed

lemma dispatch_server_ok:
  assumes "server_ok s f" and "now \<noteq> []" and "auth_dispatch h now path authorization f s = (r, s')"
  shows "server_ok s' f"
  using assms lookup_server_ok [OF assms(1,2)]
  by (auto simp: auth_dispatch_def Let_def split: if_splits prod.splits option.splits)

lemma save_synced_absent: "ks_has_path c \<Longrightarrow> kf_data (key_save m c f) \<noteq> Absent"
  by (simp add: key_save_def)

lemma new_file_ok:
  "server_ok s f \<Longrightarrow> key_file_ok f' \<Longrightarrow> kf_mtime f < kf_mtime f' \<Longrightarrow> kf_data f' \<noteq> Absent \<Longrightarrow> server_ok s f'"
  by (auto simp: server_ok_def split: option.splits)

lemma cli_generate_file:
  assumes "key_generate h now m hex actor scopes (key_store_init now f) f = (r, c, f')"
    and "now \<noteq> []" and "key_file_ok f"
  shows "key_file_ok f' \<and> kf_mtime f' = m \<and> kf_data f' \<noteq> Absent"
  using assms key_generate_ok [OF assms(2) key_init_ok [OF assms(2,3)] assms(3,1)]
  by (auto simp: key_generate_def Let_def key_save_def)

lemma cli_revoke_file:
  assumes "key_revoke m kh (key_store_init now f) f = (True, c, f')" and "now \<noteq> []" and "key_file_ok f"
  shows "key_file_ok f' \<and> kf_mtime f' = m \<and> kf_data f' \<noteq> Absent"
  using assms key_revoke_ok [OF key_init_ok [OF assms(2,3)] assms(3,1)]
  by (auto simp: key_revoke_def Let_def key_save_def split: option.splits)

lemma key_system_ok: "key_system h s f \<Longrightarrow> server_ok s f"
proof (induction rule: key_system.induct)
  case (start now f)
  then show ?case by (simp add: server_ok_def key_init_ok init_synced)
next
  case (request s f now path authorization r s')
  then show ?case by (blast intro: dispatch_server_ok)
next
  case (cli_generate s f now m hex actor scopes r c f')
  then have "key_file_ok f" by (simp add: server_ok_def)
  with cli_generate cli_generate_file [OF cli_generate(4,2)] show ?case by (auto intro: new_file_ok)
next
  case (cli_revoke s f now m kh c f')
  then have "key_file_ok f" by (simp add: server_ok_def)
  with cli_revoke cli_revoke_file [OF cli_revoke(4,2)] show ?case by (auto intro: new_file_ok)
qed

section \<open>Decisions\<close>


definition demo_hash :: "string \<Rightarrow> string" where
  "demo_hash raw = rev raw"

definition demo_key_file :: key_file where
  "demo_key_file = \<lparr>kf_data = Stored [(demo_hash ''cond_aa'',
     \<lparr>kd_prefix = Some ''cond_aa'', kd_actor = Some ''bot'', kd_scopes = Some [''task:read''],
      kd_created_at = Some ''2026'', kd_last_used_at = None, kd_revoked = Some False\<rparr>)], kf_mtime = 1\<rparr>"

definition demo_key_store :: key_store where
  "demo_key_store = key_store_init ''now'' demo_key_file"

lemma demo_key_file_ok: "key_file_ok demo_key_file" "0 < kf_mtime demo_key_file"
  by (simp_all add: key_file_ok_def demo_key_file_def dict_ok_def)

lemma demo_key_system: "key_system demo_hash demo_key_store demo_key_file"
  unfolding demo_key_store_def by (rule key_system.start) (simp_all add: demo_key_file_ok)

lemma demo_entries: "ks_entries demo_key_store = [(demo_hash ''cond_aa'',
    \<lparr>ke_key_hash = demo_hash ''cond_aa'', ke_prefix = ''cond_aa'', ke_actor = ''bot'', ke_scopes = [''task:read''],
     ke_created_at = ''2026'', ke_last_used_at = None, ke_revoked = False\<rparr>)]"
  by (simp add: demo_key_store_def key_store_init_def key_load_def demo_key_file_def from_dict_def
      entry_init_def opt_or_def)

lemma demo_enabled: "auth_enabled demo_key_store"
  by (simp add: auth_enabled_def has_keys_def dvalues_def demo_entries)

lemma demo_file_core: "file_core demo_key_file (demo_hash ''cond_aa'') = Some (''bot'', [''task:read''], False)"
  using demo_entries by (simp add: file_core_def demo_key_store_def dget_def entry_core_def)

lemma strip_demo: "py_strip ''cond_aa'' = ''cond_aa''"
  by (simp add: py_strip_def is_ws_def)

lemma tasks_not_public: "\<not> path_is_public ''/v1/tasks''"
  by (simp add: path_is_public_def public_paths_def)


text \<open>
  Usage times never reach the file: after any history of requests and key commands the server has
  nothing to flush, so \<^verbatim>\<open>flush_usage\<close>, which it calls at shutdown to persist them, leaves the file as
  it is.
\<close>

theorem usage_is_never_persisted:
  assumes "key_system h s f"
  shows "flush_usage m s f = (s, f)"
  using key_system_ok [OF assms] by (simp add: server_ok_def flush_usage_def)

theorem usage_is_never_persisted_witness:
  "\<exists>e s'. auth_dispatch demo_hash ''later'' ''/v1/tasks'' (Some (''Bearer '' @ ''cond_aa'')) demo_key_file demo_key_store =
     (e, s') \<and> flush_usage 7 s' demo_key_file = (s', demo_key_file)"
proof -
  obtain r s' where d: "auth_dispatch demo_hash ''later'' ''/v1/tasks'' (Some (''Bearer '' @ ''cond_aa'')) demo_key_file
      demo_key_store = (r, s')" by (meson surj_pair)
  have "key_system demo_hash s' demo_key_file"
    by (rule key_system.request [OF demo_key_system _ d]) simp
  from usage_is_never_persisted [OF this] d show ?thesis by blast
qed

section \<open>Open mode\<close>

text \<open>What a server that is not enforcing does with requests while others run key commands.\<close>

inductive later :: "(string \<Rightarrow> string) \<Rightarrow> key_store \<times> key_file \<Rightarrow> key_store \<times> key_file \<Rightarrow> bool" for h where
  refl: "later h x x"
| request: "later h x (s, f) \<Longrightarrow> auth_dispatch h now path authorization f s = (r, s') \<Longrightarrow> later h x (s', f)"
| other_process: "later h x (s, f) \<Longrightarrow> later h x (s, f')"

lemma later_open: "later h x y \<Longrightarrow> \<not> auth_enabled (fst x) \<Longrightarrow> fst y = fst x"
  by (induction rule: later.induct) (auto simp: auth_dispatch_def)

text \<open>
  Open mode lasts: once a server finds no unrevoked key in its store (for instance because it was
  started before the first key was generated), it lets every request through with all scopes, however
  many requests it serves and whatever other processes write to the key file: a key generated later
  does not turn enforcement on until a restart.
\<close>

theorem open_mode_lasts:
  assumes "\<not> auth_enabled s" and "later h (s, f) (s', f')"
  shows "auth_dispatch h now path authorization f' s' = (Call_Next open_context, s') \<and>
    require_scope scope open_context = Inr ()"
proof -
  have "s' = s" using later_open [OF assms(2)] assms(1) by simp
  with assms(1) show ?thesis
    by (simp add: auth_dispatch_def require_scope_def open_context_def auth_context_init_def wildcard_def)
qed

theorem open_mode_lasts_witness:
  "auth_dispatch demo_hash ''now'' ''/v1/tasks'' None demo_key_file
     (key_store_init ''now'' \<lparr>kf_data = Absent, kf_mtime = 0\<rparr>) =
     (Call_Next open_context, key_store_init ''now'' \<lparr>kf_data = Absent, kf_mtime = 0\<rparr>)"
proof -
  let ?f = "\<lparr>kf_data = Absent, kf_mtime = 0\<rparr> :: key_file"
  have "\<not> auth_enabled (key_store_init ''now'' ?f)"
    by (simp add: auth_enabled_def has_keys_def dvalues_def key_store_init_def key_load_def)
  moreover have "later demo_hash (key_store_init ''now'' ?f, ?f) (key_store_init ''now'' ?f, demo_key_file)"
    by (rule later.other_process [OF later.refl])
  ultimately show ?thesis using open_mode_lasts by blast
qed

lemma file_core_revoked:
  assumes "key_revoke m kh (key_store_init now f) f = (True, c, f')" and "now \<noteq> []" and "key_file_ok f"
  shows "file_core f' k = (if k = kh then map_option (\<lambda>(a, sc, r). (a, sc, True)) (file_core f k) else file_core f k)"
proof -
  from assms(1) obtain e where e: "dget (ks_entries (key_store_init now f)) kh = Some e"
    and c: "c = (key_store_init now f)\<lparr>ks_entries := dset kh (e\<lparr>ke_revoked := True\<rparr>) (ks_entries (key_store_init now f)),
      ks_dirty := True\<rparr>" and f': "f' = key_save m c f"
    by (auto simp: key_revoke_def Let_def split: option.splits)
  have "keys_ok c"
    using key_revoke_ok [OF key_init_ok [OF assms(2,3)] assms(3,1)] by simp
  moreover have "ks_has_path c" by (simp add: c)
  ultimately have "ks_entries (key_store_init ''now'' f') = ks_entries c"
    by (simp add: f' key_store_init_def load_save)
  then have "file_core f' k = map_option entry_core (dget (ks_entries c) k)" by (simp add: file_core_def)
  moreover have "file_core f k = map_option entry_core (dget (ks_entries (key_store_init now f)) k)"
    using init_synced [of now f] by (simp add: synced_def)
  ultimately show ?thesis using e by (auto simp: c entry_core_def)
qed

lemma synced_open:
  assumes "keys_ok s" and "synced s f"
  shows "auth_enabled s \<longleftrightarrow> (\<exists>kh a sc. file_core f kh = Some (a, sc, False))"
proof -
  have "auth_enabled s \<longleftrightarrow> (\<exists>kh e. dget (ks_entries s) kh = Some e \<and> \<not> ke_revoked e)"
  proof -
    have "auth_enabled s \<longleftrightarrow> (\<exists>kh e. (kh, e) \<in> set (ks_entries s) \<and> \<not> ke_revoked e)"
      by (force simp: auth_enabled_def has_keys_def list_ex_iff dvalues_def)
    with assms(1) show ?thesis by (simp add: keys_ok_def dget_Some_iff)
  qed
  also have "\<dots> \<longleftrightarrow> (\<exists>kh a sc. map_option entry_core (dget (ks_entries s) kh) = Some (a, sc, False))"
    by (auto simp: entry_core_def)
  also have "\<dots> \<longleftrightarrow> (\<exists>kh a sc. file_core f kh = Some (a, sc, False))"
    using assms(2) unfolding synced_def by metis
  finally show ?thesis .
qed

text \<open>
  Revoking the last key opens the API: when another process revokes the only unrevoked key, the
  server refuses the next request that brings any key, and from then on lets every request through
  without a key and with all scopes, although keys exist.
\<close>

theorem revoking_the_last_key_opens_the_api:
  assumes "key_system h s f" and "now \<noteq> []" and "auth_enabled s" and "\<not> path_is_public path"
    and "\<forall>k a sc. file_core f k = Some (a, sc, False) \<longrightarrow> k = kh"
    and "kf_mtime f < m" and "key_revoke m kh (key_store_init now f) f = (True, c, f')"
    and "auth_dispatch h now path (Some (''Bearer '' @ key)) f' s = (r, s')"
    and "later h (s', f') (s'', f'')"
  shows "r = Unauthorized invalid_key \<and>
    auth_dispatch h now' path' None f'' s'' = (Call_Next open_context, s'')"
proof -
  from key_system.cli_revoke [OF assms(1,2,6,7)] have sys: "key_system h s f'" .
  have ok: "key_file_ok f" using key_system_ok [OF assms(1)] by (simp add: server_ok_def)
  have none: "\<not> (\<exists>k a sc. file_core f' k = Some (a, sc, False))"
    using assms(5) by (auto simp: file_core_revoked [OF assms(7,2) ok])
  obtain x t where l: "key_lookup h now (py_strip key) f' s = (x, t)" by (meson surj_pair)
  from lookup_server_ok [OF key_system_ok [OF sys] assms(2) l] none
  have x: "x = None" and t: "keys_ok t" "synced t f'"
    by (auto simp: server_ok_def split: option.splits)
  have "prefix_of ''Bearer '' (''Bearer '' @ key)" by simp
  with assms(3,4,8) l x have r: "r = Unauthorized invalid_key" "s' = t"
    by (auto simp: auth_dispatch_def Let_def)
  have "\<not> auth_enabled t" using synced_open [OF t] none by simp
  then have "\<not> auth_enabled s''" using later_open [OF assms(9)] r by simp
  with r show ?thesis by (simp add: auth_dispatch_def)
qed

definition demo_key_file_revoked :: key_file where
  "demo_key_file_revoked = snd (snd (key_revoke 2 (demo_hash ''cond_aa'') demo_key_store demo_key_file))"

theorem revoking_the_last_key_opens_the_api_witness:
  "\<exists>s'. auth_dispatch demo_hash ''now'' ''/v1/tasks'' (Some (''Bearer '' @ ''cond_aa'')) demo_key_file_revoked
         demo_key_store = (Unauthorized invalid_key, s') \<and>
     auth_dispatch demo_hash ''now'' ''/v1/tasks'' None demo_key_file_revoked s' = (Call_Next open_context, s')"
proof -
  obtain r s' where d: "auth_dispatch demo_hash ''now'' ''/v1/tasks'' (Some (''Bearer '' @ ''cond_aa''))
      demo_key_file_revoked demo_key_store = (r, s')" by (meson surj_pair)
  have "dget (ks_entries demo_key_store) (demo_hash ''cond_aa'') \<noteq> None"
    by (simp add: demo_entries dget_def)
  then obtain c where rv: "key_revoke 2 (demo_hash ''cond_aa'') (key_store_init ''now'' demo_key_file) demo_key_file =
      (True, c, demo_key_file_revoked)"
    by (auto simp: demo_key_file_revoked_def demo_key_store_def [symmetric] key_revoke_def Let_def)
  have only: "\<forall>k a sc. file_core demo_key_file k = Some (a, sc, False) \<longrightarrow> k = demo_hash ''cond_aa''"
    using demo_entries by (auto simp: file_core_def demo_key_store_def dget_def split: if_splits)
  have m: "kf_mtime demo_key_file < 2" by (simp add: demo_key_file_def)
  from revoking_the_last_key_opens_the_api [OF demo_key_system _ demo_enabled tasks_not_public only m rv d later.refl] d
  show ?thesis by auto
qed

section \<open>A key's life\<close>

text \<open>What generating a key leaves in the file.\<close>

lemma generated_entry:
  assumes "keys_ok s" and "ks_has_path s" and "key_file_ok f" and "now \<noteq> []"
    and g: "key_generate h now m hex actor scopes s f = ((raw, e), s', f')"
  shows "raw = generate_raw_key hex" "e = entry_init now (h raw) (take 12 raw) actor scopes None None False"
    and "ks_entries (key_store_init t f') = dset (h raw) e (ks_entries s)" and "key_file_ok f'"
proof -
  show "raw = generate_raw_key hex" and e: "e = entry_init now (h raw) (take 12 raw) actor scopes None None False"
    using g by (auto simp: key_generate_def Let_def)
  have s': "s' = s\<lparr>ks_entries := dset (h raw) e (ks_entries s), ks_dirty := True\<rparr>" and f': "f' = key_save m s' f"
    using g e by (auto simp: key_generate_def Let_def)
  from key_generate_ok [OF assms(4,1,3) g] have ok: "keys_ok s'" and "key_file_ok f'" by auto
  then show "key_file_ok f'" by simp
  have path: "ks_has_path s'" using assms(2) by (simp add: s')
  have "ks_entries (key_store_init t f') = ks_entries s'"
    using load_save [OF ok path] by (simp add: f' key_store_init_def)
  then show "ks_entries (key_store_init t f') = dset (h raw) e (ks_entries s)" by (simp add: s')
qed

lemma reload_init:
  "ks_entries (reload_if_changed now g (key_store_init now g)) = ks_entries (key_store_init now g)"
  by (simp add: reload_if_changed_def Let_def key_store_init_def key_load_def split: sum.splits)

lemma generated_key_found:
  assumes "keys_ok s" and "ks_has_path s" and "key_file_ok f" and "now \<noteq> []"
    and "key_generate h now m hex actor scopes s f = ((raw, e), s', f')"
  shows "\<exists>t. key_lookup h now raw f' (key_store_init now f') = (Some (e\<lparr>ke_last_used_at := Some now\<rparr>), t)"
    and "auth_enabled (key_store_init now f')"
proof -
  note ge = generated_entry [OF assms]
  have get: "dget (ks_entries (key_store_init now f')) (h raw) = Some e" by (simp add: ge(3))
  have "\<not> ke_revoked e" by (simp add: ge(2) entry_init_def)
  with get show "\<exists>t. key_lookup h now raw f' (key_store_init now f') = (Some (e\<lparr>ke_last_used_at := Some now\<rparr>), t)"
    by (simp add: key_lookup_def Let_def reload_init)
  from get \<open>\<not> ke_revoked e\<close> show "auth_enabled (key_store_init now f')"
    by (auto simp: auth_enabled_def has_keys_def list_ex_iff dvalues_def dget_def dest!: map_of_SomeD
        intro!: bexI [of _ "(h raw, e)"])
qed

text \<open>
  C17. A key lives from its generation to its revocation: a freshly generated key is accepted, with its
  actor and with its scopes (all scopes when none or an empty list was given), by every process that
  loads the file written by \<^verbatim>\<open>generate\<close>, other keys staying as they were; and once any process has
  revoked its hash, every process that loads the file refuses it.
\<close>

theorem key_life_cycle:
  assumes "keys_ok s" and "ks_has_path s" and "key_file_ok f" and "now \<noteq> []"
    and "key_generate h now m hex actor scopes s f = ((raw, e), s', f')"
    and "key_revoke m' (h raw) (key_store_init now f') f' = (b, c, f'')"
  shows "(\<exists>x t. key_lookup h now raw f' (key_store_init now f') = (Some x, t) \<and> ke_actor x = actor \<and>
       ke_scopes x = (if scopes = None \<or> scopes = Some [] then [''*''] else the scopes)) \<and>
    (\<forall>kh. kh \<noteq> h raw \<longrightarrow> file_core f' kh = map_option entry_core (dget (ks_entries s) kh)) \<and>
    b \<and> (\<exists>t. key_lookup h now raw f'' (key_store_init now f'') = (None, t))"
proof -
  note ge = generated_entry [OF assms(1-5)]
  have get: "dget (ks_entries (key_store_init t f')) (h raw) = Some e" for t by (simp add: ge(3))
  have 2: "file_core f' kh = map_option entry_core (dget (ks_entries s) kh)" if "kh \<noteq> h raw" for kh
    using that by (simp add: file_core_def ge(3))
  from get assms(6) have b: b by (auto simp: key_revoke_def Let_def)
  with assms(6) have rv: "key_revoke m' (h raw) (key_store_init now f') f' = (True, c, f'')" by simp
  have "file_core f' (h raw) = Some (entry_core e)" by (simp add: file_core_def get)
  with file_core_revoked [OF rv assms(4) ge(4), of "h raw"]
  have "file_core f'' (h raw) = Some (ke_actor e, ke_scopes e, True)" by (simp add: entry_core_def)
  then have "map_option entry_core (dget (ks_entries (key_store_init now f'')) (h raw)) =
      Some (ke_actor e, ke_scopes e, True)"
    using init_synced [of now f''] by (simp add: synced_def)
  then have "\<exists>t. key_lookup h now raw f'' (key_store_init now f'') = (None, t)"
    by (auto simp: key_lookup_def Let_def reload_init entry_core_def)
  with generated_key_found(1) [OF assms(1-5)] 2 b show ?thesis
    by (auto simp: ge(2) entry_init_def wildcard_def split: option.splits)
qed

theorem key_life_cycle_witness:
  "\<exists>raw e s' f' x t. key_generate demo_hash ''now'' 2 ''bb'' ''ci'' (Some []) demo_key_store demo_key_file =
     ((raw, e), s', f') \<and> key_lookup demo_hash ''now'' raw f' (key_store_init ''now'' f') = (Some x, t) \<and>
     ke_actor x = ''ci'' \<and> ke_scopes x = [''*'']"
proof -
  obtain raw e s' f' where g: "key_generate demo_hash ''now'' 2 ''bb'' ''ci'' (Some []) demo_key_store demo_key_file =
     ((raw, e), s', f')" by (metis prod_cases3 surj_pair)
  obtain b c f'' where r: "key_revoke 3 (demo_hash raw) (key_store_init ''now'' f') f' = (b, c, f'')"
    by (metis prod_cases3)
  have "keys_ok demo_key_store" "ks_has_path demo_key_store"
    unfolding demo_key_store_def by (simp_all add: key_init_ok demo_key_file_ok)
  from key_life_cycle [OF this demo_key_file_ok(1) _ g r] g show ?thesis by auto
qed

end
