(* ===== verification/Grouping.thy ===== *)
theory Grouping
  imports Prelude
begin

text \<open>
  The idiom \<^verbatim>\<open>groups.setdefault(key(x), []).append(x)\<close> over a list, which the control plane uses for
  workflows and the guild meeting for roles and capabilities, and its laws: the groups are the
  filtered list, and the keys are those that occur, in the order of their first occurrence.
\<close>

fun group_append :: "('a \<Rightarrow> string) \<Rightarrow> 'a list \<Rightarrow> 'a list dict \<Rightarrow> 'a list dict" where
  "group_append key [] d = d"
| "group_append key (x # xs) d =
     group_append key xs (dset (key x) (case dget d (key x) of None \<Rightarrow> [x] | Some ys \<Rightarrow> ys @ [x]) d)"

definition group_by :: "('a \<Rightarrow> string) \<Rightarrow> 'a list \<Rightarrow> 'a list dict" where
  "group_by key xs = group_append key xs []"

lemma group_append_get:
  "dget (group_append key xs d) k =
     (case dget d k of
        Some ys \<Rightarrow> Some (ys @ filter (\<lambda>x. key x = k) xs)
      | None \<Rightarrow> if k \<in> key ` set xs then Some (filter (\<lambda>x. key x = k) xs) else None)"
  by (induction xs arbitrary: d) (auto split: option.splits)

lemma group_append_ok: "dict_ok d \<Longrightarrow> dict_ok (group_append key xs d)"
  by (induction xs arbitrary: d) auto

lemma dict_ok_group_by [simp]: "dict_ok (group_by key xs)"
  by (simp add: group_by_def group_append_ok)

lemma group_by_get:
  "dget (group_by key xs) k = (if k \<in> key ` set xs then Some (filter (\<lambda>x. key x = k) xs) else None)"
  by (simp add: group_by_def group_append_get)

lemma group_by_member:
  "(k, ys) \<in> set (group_by key xs) \<longleftrightarrow> k \<in> key ` set xs \<and> ys = filter (\<lambda>x. key x = k) xs"
  by (auto simp: dget_Some_iff [symmetric] group_by_get)

lemma group_by_keys: "set (dkeys (group_by key xs)) = key ` set xs"
proof -
  have "set (dkeys (group_by key xs)) = {k. dget (group_by key xs) k \<noteq> None}"
    by (auto simp: dget_None_iff)
  then show ?thesis by (auto simp: group_by_get)
qed

text \<open>\<^verbatim>\<open>sorted(groups.items())\<close>: by key, since keys are distinct.\<close>

lemma sorted_group_keys:
  "sorted_wrt (<) (dkeys (sort_key fst (group_by key xs)))" "set (dkeys (sort_key fst (group_by key xs))) = key ` set xs"
proof -
  have "sorted (map fst (sort_key fst (group_by key xs)))" by simp
  moreover have "distinct (map fst (sort_key fst (group_by key xs)))"
    using dict_ok_sort_key [of "group_by key xs"] dict_ok_group_by by (simp add: dict_ok_def)
  ultimately show "sorted_wrt (<) (dkeys (sort_key fst (group_by key xs)))"
    by (simp add: dkeys_def strict_sorted_iff)
  show "set (dkeys (sort_key fst (group_by key xs))) = key ` set xs"
    using group_by_keys [of key xs] by (simp add: dkeys_def)
qed

lemma dget_sorted_group:
  "dget (sort_key fst (group_by key xs)) k = (if k \<in> key ` set xs then Some (filter (\<lambda>x. key x = k) xs) else None)"
  by (simp add: group_by_get)

text \<open>Every element is in exactly one group.\<close>

lemma group_sum:
  "sum_list (map (\<lambda>(k, ys). sum_list (map f ys)) (group_by key xs)) = sum_list (map f xs)"
  for f :: "'a \<Rightarrow> int"
proof -
  have step: "sum_list (map (\<lambda>(k, ys). sum_list (map f ys)) (dset k (case dget d k of None \<Rightarrow> [x] | Some ys \<Rightarrow> ys @ [x]) d)) =
      sum_list (map (\<lambda>(k, ys). sum_list (map f ys)) d) + f x" for k x and d :: "'a list dict"
    by (induction d) (auto simp: dset_def dget_def split: option.splits)
  have "sum_list (map (\<lambda>(k, ys). sum_list (map f ys)) (group_append key xs d)) =
      sum_list (map (\<lambda>(k, ys). sum_list (map f ys)) d) + sum_list (map f xs)" for d
    by (induction xs arbitrary: d) (auto simp: step)
  from this [of "[]"] show ?thesis by (simp add: group_by_def)
qed

end
