(* ===== verification/ControlPlane.thy ===== *)
theory ControlPlane
  imports Registry Workflow Grouping
begin

text \<open>
  \<^verbatim>\<open>engine/control_plane/contracts.py\<close>: the versioned views of tasks, approvals, workflow traces,
  capabilities and events, the status of a workflow from its tasks, and the snapshot.  A component of
  the health report is given by what its \<^verbatim>\<open>health_check\<close> returns, \<open>None\<close> when it has none.
\<close>

section \<open>Views\<close>

definition cp_status_value :: "task_status option \<Rightarrow> string option" where
  "cp_status_value v = map_option status_value v"

record cp_audit_entry =
  cpa_timestamp :: int
  cpa_actor :: string
  cpa_action :: string
  cpa_from_status :: "string option"
  cpa_to_status :: "string option"
  cpa_metadata :: pydict

definition cp_from_audit_entry :: "audit_entry \<Rightarrow> cp_audit_entry" where
  "cp_from_audit_entry e =
     \<lparr>cpa_timestamp = au_timestamp e, cpa_actor = au_actor e, cpa_action = au_action e,
      cpa_from_status = cp_status_value (au_from e), cpa_to_status = cp_status_value (au_to e),
      cpa_metadata = au_metadata e\<rparr>"

record cp_result =
  cpr_success :: bool
  cpr_output :: pyval
  cpr_error :: "string option"
  cpr_metadata :: pydict
  cpr_started_at :: "int option"
  cpr_completed_at :: "int option"

definition cp_from_result :: "task_result \<Rightarrow> cp_result" where
  "cp_from_result r =
     \<lparr>cpr_success = res_success r, cpr_output = res_output r, cpr_error = res_error r,
      cpr_metadata = res_metadata r, cpr_started_at = res_started_at r, cpr_completed_at = res_completed_at r\<rparr>"

record cp_task =
  cpt_task_id :: string
  cpt_name :: string
  cpt_capability :: string
  cpt_status :: string
  cpt_attempt :: int
  cpt_max_retries :: int
  cpt_workflow_id :: "string option"
  cpt_input :: pydict
  cpt_metadata :: pydict
  cpt_result :: "cp_result option"
  cpt_audit_trail :: "cp_audit_entry list"
  cpt_created_at :: int
  cpt_updated_at :: int
  cpt_archived_at :: "int option"

definition cp_from_task :: "task_record \<Rightarrow> cp_task" where
  "cp_from_task t =
     \<lparr>cpt_task_id = task_id t, cpt_name = task_name t, cpt_capability = task_capability t,
      cpt_status = status_value (task_status t), cpt_attempt = task_attempt t,
      cpt_max_retries = task_max_retries t, cpt_workflow_id = task_workflow_id t,
      cpt_input = task_input t, cpt_metadata = task_metadata t,
      cpt_result = map_option cp_from_result (task_result t),
      cpt_audit_trail = map cp_from_audit_entry (task_audit_trail t),
      cpt_created_at = task_created_at t, cpt_updated_at = task_updated_at t,
      cpt_archived_at = task_archived_at t\<rparr>"

record cp_approval =
  cpp_task_id :: string
  cpp_task_name :: string
  cpp_capability :: string
  cpp_workflow_id :: "string option"
  cpp_requested_at :: int
  cpp_audit_entries :: "cp_audit_entry list"

definition cp_approval_from_task :: "task_record \<Rightarrow> cp_approval" where
  "cp_approval_from_task t =
     \<lparr>cpp_task_id = task_id t, cpp_task_name = task_name t, cpp_capability = task_capability t,
      cpp_workflow_id = task_workflow_id t, cpp_requested_at = task_updated_at t,
      cpp_audit_entries = map cp_from_audit_entry (task_audit_trail t)\<rparr>"

record cp_step =
  cps_task_id :: string
  cps_name :: string
  cps_capability :: string
  cps_status :: string
  cps_attempt :: int
  cps_created_at :: int
  cps_updated_at :: int

definition cp_step_from_task :: "task_record \<Rightarrow> cp_step" where
  "cp_step_from_task t =
     \<lparr>cps_task_id = task_id t, cps_name = task_name t, cps_capability = task_capability t,
      cps_status = status_value (task_status t), cps_attempt = task_attempt t,
      cps_created_at = task_created_at t, cps_updated_at = task_updated_at t\<rparr>"

section \<open>Workflow traces\<close>

definition active_statuses :: "task_status set" where
  "active_statuses = {PENDING, RUNNING, APPROVED, AWAITING_APPROVAL}"

definition failed_statuses :: "task_status set" where
  "failed_statuses = {FAILED, POLICY_DENIED, CANCELLED, ESCALATED}"

definition cp_workflow_status :: "task_record list \<Rightarrow> workflow_status" where
  "cp_workflow_status records =
     (if records = [] then WF_PENDING
      else
        let statuses = set (map task_status records) in
        if statuses = {PENDING} then WF_PENDING
        else if statuses = {COMPLETED} then WF_COMPLETED
        else if statuses \<inter> active_statuses \<noteq> {} then WF_RUNNING
        else if statuses \<subseteq> failed_statuses then WF_FAILED
        else if statuses \<inter> failed_statuses \<noteq> {} then WF_PARTIAL
        else WF_PARTIAL)"

record cp_trace =
  cpw_workflow_id :: string
  cpw_status :: string
  cpw_task_count :: int
  cpw_tasks :: "cp_step list"

definition by_creation :: "task_record list \<Rightarrow> task_record list" where
  "by_creation ts = sort_key (\<lambda>t. (task_created_at t, task_id t)) ts"

definition cp_trace_from_records :: "string \<Rightarrow> task_record list \<Rightarrow> cp_trace" where
  "cp_trace_from_records workflow_id records =
     (let ordered_records = by_creation records in
      \<lparr>cpw_workflow_id = workflow_id,
       cpw_status = workflow_status_value (cp_workflow_status ordered_records),
       cpw_task_count = int (length ordered_records),
       cpw_tasks = map cp_step_from_task ordered_records\<rparr>)"

section \<open>Capabilities, events, health\<close>

record cp_controls =
  cpc_timeout_seconds :: "rat option"
  cpc_min_interval_seconds :: "rat option"

definition cp_from_controls :: "exec_controls \<Rightarrow> cp_controls" where
  "cp_from_controls c = \<lparr>cpc_timeout_seconds = ec_timeout_seconds c, cpc_min_interval_seconds = ec_min_interval_seconds c\<rparr>"

record cp_capability =
  cpb_name :: string
  cpb_description :: string
  cpb_risk_level :: string
  cpb_tags :: "string list"
  cpb_execution_controls :: cp_controls

definition cp_from_descriptor :: "cap_descriptor \<Rightarrow> exec_controls \<Rightarrow> cp_capability" where
  "cp_from_descriptor d controls =
     \<lparr>cpb_name = cd_name d, cpb_description = cd_description d, cpb_risk_level = risk_value (cd_risk_level d),
      cpb_tags = cd_tags d, cpb_execution_controls = cp_from_controls controls\<rparr>"

record cp_health =
  cph_name :: string
  cph_healthy :: bool
  cph_detail :: string
  cph_issues :: "string list"

definition component_issues :: "string list option \<Rightarrow> string list" where
  "component_issues checker = (case checker of None \<Rightarrow> [] | Some issues \<Rightarrow> issues)"

definition build_health_components :: "(string \<times> string list option \<times> string) list \<Rightarrow> cp_health list" where
  "build_health_components components =
     map (\<lambda>(name, component, detail).
       let issues = component_issues component in
       \<lparr>cph_name = name, cph_healthy = (issues = []), cph_detail = detail, cph_issues = issues\<rparr>) components"

record cp_event =
  cpe_schema_version :: string
  cpe_timestamp :: int
  cpe_event_type :: string
  cpe_task_id :: string
  cpe_task_name :: string
  cpe_capability :: string
  cpe_status :: string
  cpe_attempt :: int
  cpe_workflow_id :: "string option"
  cpe_error :: "string option"
  cpe_metadata :: pydict

definition cp_from_task_event :: "task_event \<Rightarrow> cp_event" where
  "cp_from_task_event e =
     \<lparr>cpe_schema_version = ''v1'', cpe_timestamp = ev_timestamp e, cpe_event_type = event_value (ev_event_type e),
      cpe_task_id = ev_task_id e, cpe_task_name = ev_task_name e, cpe_capability = ev_capability e,
      cpe_status = status_value (ev_status e), cpe_attempt = ev_attempt e,
      cpe_workflow_id = ev_workflow_id e, cpe_error = ev_error e, cpe_metadata = ev_metadata e\<rparr>"

section \<open>The snapshot\<close>

record cp_snapshot =
  sn_schema_version :: string
  sn_generated_at :: int
  sn_tasks :: "cp_task list"
  sn_approvals :: "cp_approval list"
  sn_workflows :: "cp_trace list"
  sn_capabilities :: "cp_capability list"
  sn_health :: "cp_health list"

fun capability_views :: "registry \<Rightarrow> cap_descriptor list \<Rightarrow> exc + cp_capability list" where
  "capability_views r [] = Inr []"
| "capability_views r (d # ds) =
     (case reg_execution_controls_of r (cd_name d) of
        Inl e \<Rightarrow> Inl e
      | Inr controls \<Rightarrow> (case capability_views r ds of
          Inl e \<Rightarrow> Inl e
        | Inr views \<Rightarrow> Inr (cp_from_descriptor d controls # views)))"

text \<open>\<^verbatim>\<open>workflows_by_id\<close>: the tasks without a workflow are skipped.\<close>

definition workflows_by_id :: "task_record list \<Rightarrow> task_record list dict" where
  "workflows_by_id ts = group_by (\<lambda>t. the (task_workflow_id t)) (filter (\<lambda>t. task_workflow_id t \<noteq> None) ts)"

definition build_control_plane_snapshot ::
  "int \<Rightarrow> task_record list \<Rightarrow> registry \<Rightarrow> cp_health list \<Rightarrow> exc + cp_snapshot" where
  "build_control_plane_snapshot now tasks r health =
     (let ordered_tasks = by_creation tasks in
      case capability_views r (reg_list r) of
        Inl e \<Rightarrow> Inl e
      | Inr capabilities \<Rightarrow>
          Inr \<lparr>sn_schema_version = ''v1'', sn_generated_at = now,
               sn_tasks = map cp_from_task ordered_tasks,
               sn_approvals = map cp_approval_from_task (filter (\<lambda>t. task_status t = AWAITING_APPROVAL) ordered_tasks),
               sn_workflows = map (\<lambda>(wid, records). cp_trace_from_records wid records)
                 (sort_key fst (workflows_by_id ordered_tasks)),
               sn_capabilities = capabilities, sn_health = health\<rparr>)"

section \<open>Facts\<close>

lemma mset_by_creation [simp]: "mset (by_creation ts) = mset ts"
  by (simp add: by_creation_def)

lemma set_by_creation [simp]: "set (by_creation ts) = set ts"
  by (simp add: by_creation_def)

lemma length_by_creation [simp]: "length (by_creation ts) = length ts"
  by (simp add: by_creation_def)

lemma sorted_by_creation: "sorted (map (\<lambda>t. (task_created_at t, task_id t)) (by_creation ts))"
  by (simp add: by_creation_def)

lemma by_creation_filter [simp]: "by_creation (filter P (by_creation ts)) = filter P (by_creation ts)"
  by (simp add: by_creation_def sort_key_id_if_sorted sorted_filter)

lemma capability_views_ok:
  assumes "\<And>d. d \<in> set ds \<Longrightarrow> dget (reg_capabilities r) (cd_name d) \<noteq> None"
  shows "\<exists>views. capability_views r ds = Inr views \<and> map cpb_name views = map cd_name ds"
  using assms
proof (induction ds)
  case (Cons d ds)
  then obtain c where "reg_execution_controls_of r (cd_name d) = Inr c"
    by (fastforce simp: reg_execution_controls_of_def split: option.splits)
  with Cons show ?case by (auto simp: cp_from_descriptor_def)
qed simp

end
