(* ===== verification/ControlPlane_Properties.thy ===== *)
theory ControlPlane_Properties
  imports ControlPlane Workflow_Properties
begin

text \<open>
  What the control plane promises: its task views lose nothing, the status of a workflow says what its
  tasks say, and the snapshot holds every task exactly where it belongs; with the place where it and
  the orchestrator disagree.
\<close>

section \<open>Task views\<close>

text \<open>Reading a view back.\<close>

definition status_of_value :: "string \<Rightarrow> task_status option" where
  "status_of_value v = find (\<lambda>s. status_value s = v) all_statuses"

lemma status_of_value [simp]: "status_of_value (status_value s) = Some s"
  by (cases s) (simp_all add: status_of_value_def all_statuses_def)

definition audit_of_view :: "cp_audit_entry \<Rightarrow> audit_entry" where
  "audit_of_view e =
     \<lparr>au_timestamp = cpa_timestamp e, au_actor = cpa_actor e, au_action = cpa_action e,
      au_from = Option.bind (cpa_from_status e) status_of_value,
      au_to = Option.bind (cpa_to_status e) status_of_value, au_metadata = cpa_metadata e\<rparr>"

definition result_of_view :: "cp_result \<Rightarrow> task_result" where
  "result_of_view r =
     \<lparr>res_success = cpr_success r, res_output = cpr_output r, res_error = cpr_error r,
      res_metadata = cpr_metadata r, res_started_at = cpr_started_at r, res_completed_at = cpr_completed_at r\<rparr>"

definition task_of_view :: "cp_task \<Rightarrow> task_record option" where
  "task_of_view v =
     (case status_of_value (cpt_status v) of
        None \<Rightarrow> None
      | Some s \<Rightarrow> Some
          \<lparr>task_id = cpt_task_id v, task_name = cpt_name v, task_capability = cpt_capability v,
           task_input = cpt_input v, task_metadata = cpt_metadata v, task_status = s,
           task_result = map_option result_of_view (cpt_result v), task_attempt = cpt_attempt v,
           task_max_retries = cpt_max_retries v, task_workflow_id = cpt_workflow_id v,
           task_archived_at = cpt_archived_at v, task_audit_trail = map audit_of_view (cpt_audit_trail v),
           task_created_at = cpt_created_at v, task_updated_at = cpt_updated_at v\<rparr>)"

lemma bind_status_of_value [simp]: "Option.bind (map_option status_value x) status_of_value = x"
  by (cases x) simp_all

lemma audit_of_view [simp]: "audit_of_view (cp_from_audit_entry e) = e"
  by (cases e) (auto simp: audit_of_view_def cp_from_audit_entry_def cp_status_value_def)

lemma result_of_view [simp]: "result_of_view (cp_from_result r) = r"
  by (simp add: result_of_view_def cp_from_result_def)

text \<open>
  A task view loses nothing: the task record, with its result and its whole audit trail, can be
  read back from the \<^verbatim>\<open>v1\<close> view the API returns; so two tasks with the same view are the same task.
\<close>

theorem task_view_loses_nothing:
  "task_of_view (cp_from_task t) = Some t \<and> inj cp_from_task"
proof -
  have reads_back: "task_of_view (cp_from_task t) = Some t" for t
    by (simp add: task_of_view_def cp_from_task_def comp_def option.map_comp option.map_ident)
  then have "inj cp_from_task" by (metis injI option.inject)
  with reads_back show ?thesis by blast
qed

section \<open>Workflow status\<close>

text \<open>
  The status of a workflow says what its tasks say: pending when there are none or all are
  pending; otherwise running exactly while some task can still move without a new submission;
  completed when all completed; failed when none completed and none can move; and partial exactly when
  it settled with completed and failed tasks.  It depends only on which statuses occur.
\<close>

theorem workflow_status_meaning:
  "(cp_workflow_status ts = WF_PENDING \<longleftrightarrow> list_all (\<lambda>t. task_status t = PENDING) ts) \<and>
   (cp_workflow_status ts = WF_RUNNING \<longleftrightarrow>
      list_ex (\<lambda>t. task_status t \<in> active_statuses) ts \<and> \<not> list_all (\<lambda>t. task_status t = PENDING) ts) \<and>
   (cp_workflow_status ts = WF_COMPLETED \<longleftrightarrow> ts \<noteq> [] \<and> list_all (\<lambda>t. task_status t = COMPLETED) ts) \<and>
   (cp_workflow_status ts = WF_FAILED \<longleftrightarrow> ts \<noteq> [] \<and> list_all (\<lambda>t. task_status t \<in> failed_statuses) ts) \<and>
   (cp_workflow_status ts = WF_PARTIAL \<longleftrightarrow> \<not> list_ex (\<lambda>t. task_status t \<in> active_statuses) ts \<and>
      list_ex (\<lambda>t. task_status t = COMPLETED) ts \<and> list_ex (\<lambda>t. task_status t \<in> failed_statuses) ts)"
proof (cases ts)
  case Nil
  then show ?thesis by (simp add: cp_workflow_status_def)
next
  case (Cons t0 rest)
  define S where "S = set (map task_status ts)"
  have ne: "S \<noteq> {}" using Cons by (simp add: S_def)
  have st: "list_all (\<lambda>t. P (task_status t)) ts \<longleftrightarrow> (\<forall>s\<in>S. P s)"
    "list_ex (\<lambda>t. P (task_status t)) ts \<longleftrightarrow> (\<exists>s\<in>S. P s)" for P
    by (auto simp: S_def list_all_iff list_ex_iff)
  have single: "S = {x} \<longleftrightarrow> (\<forall>s\<in>S. s = x)" for x using ne by auto
  have three: "s = COMPLETED \<or> s \<in> active_statuses \<or> s \<in> failed_statuses" for s
    by (cases s) (simp_all add: active_statuses_def failed_statuses_def)
  have apart: "COMPLETED \<notin> active_statuses" "COMPLETED \<notin> failed_statuses" "PENDING \<in> active_statuses"
    "active_statuses \<inter> failed_statuses = {}"
    by (auto simp: active_statuses_def failed_statuses_def)
  have eq: "cp_workflow_status ts =
      (if \<forall>s\<in>S. s = PENDING then WF_PENDING
       else if \<forall>s\<in>S. s = COMPLETED then WF_COMPLETED
       else if \<exists>s\<in>S. s \<in> active_statuses then WF_RUNNING
       else if \<forall>s\<in>S. s \<in> failed_statuses then WF_FAILED else WF_PARTIAL)"
    using Cons unfolding cp_workflow_status_def S_def [symmetric] Let_def single by auto
  show ?thesis
    unfolding st [of "\<lambda>s. s = PENDING"] st [of "\<lambda>s. s = COMPLETED"] st [of "\<lambda>s. s \<in> active_statuses"]
      st [of "\<lambda>s. s \<in> failed_statuses"] eq
    using ne three apart Cons by (simp add: disjoint_iff) (metis equals0I)
qed

section \<open>The snapshot\<close>

text \<open>
  The snapshot is complete and consistent: it holds the view of every task exactly once, in order
  of creation; its approvals are exactly the tasks that await approval; its traces are one for each
  workflow id in use, in order of the ids, each made of exactly the tasks of that workflow with their
  number and status; and its capabilities are all registered ones, each with its controls.
\<close>

theorem snapshot_is_complete:
  assumes "registry_ok r"
  shows "\<exists>sn. build_control_plane_snapshot now tasks r health = Inr sn \<and>
    sn_tasks sn = map cp_from_task (by_creation tasks) \<and> mset (by_creation tasks) = mset tasks \<and>
    sorted (map (\<lambda>t. (task_created_at t, task_id t)) (by_creation tasks)) \<and>
    map cpp_task_id (sn_approvals sn) = map task_id (filter (\<lambda>t. task_status t = AWAITING_APPROVAL) (by_creation tasks)) \<and>
    sorted_wrt (<) (map cpw_workflow_id (sn_workflows sn)) \<and>
    set (sn_workflows sn) = (\<lambda>wid. cp_trace_from_records wid (filter (\<lambda>t. task_workflow_id t = Some wid) (by_creation tasks))) `
      {wid. \<exists>t \<in> set tasks. task_workflow_id t = Some wid} \<and>
    map cpb_name (sn_capabilities sn) = reg_names r"
proof -
  let ?key = "\<lambda>t. the (task_workflow_id t)"
  let ?ts = "filter (\<lambda>t. task_workflow_id t \<noteq> None) (by_creation tasks)"
  let ?groups = "sort_key fst (group_by ?key ?ts)"
  have "\<exists>views. capability_views r (reg_list r) = Inr views \<and> map cpb_name views = map cd_name (reg_list r)"
  proof (rule capability_views_ok)
    fix d
    assume "d \<in> set (reg_list r)"
    then obtain name cap where nc: "(name, cap) \<in> set (reg_capabilities r)" "d = cap_descriptor cap"
      by (auto simp: reg_list_def)
    with assms have "cd_name d = name" by (auto simp: registry_ok_def list_all_iff)
    with nc show "dget (reg_capabilities r) (cd_name d) \<noteq> None"
      by (auto simp: dget_def map_of_eq_None_iff intro: rev_image_eqI)
  qed
  then obtain views where v: "capability_views r (reg_list r) = Inr views"
    "map cpb_name views = map cd_name (reg_list r)" by blast
  have filt: "filter (\<lambda>t. ?key t = wid) ?ts = filter (\<lambda>t. task_workflow_id t = Some wid) (by_creation tasks)" for wid
    by (auto intro!: filter_cong)
  have ids: "map cpw_workflow_id (map (\<lambda>(wid, records). cp_trace_from_records wid records) gs) = dkeys gs" for gs
    by (induction gs) (auto simp: dkeys_def cp_trace_from_records_def Let_def)
  have keys: "?key ` set ?ts = {wid. \<exists>t \<in> set tasks. task_workflow_id t = Some wid}"
    by (force simp: image_iff)
  have members: "set ?groups = (\<lambda>wid. (wid, filter (\<lambda>t. task_workflow_id t = Some wid) (by_creation tasks))) `
      {wid. \<exists>t \<in> set tasks. task_workflow_id t = Some wid}"
    using group_by_member [of _ _ ?key ?ts] unfolding filt keys by auto
  have traces: "set (map (\<lambda>(wid, records). cp_trace_from_records wid records) ?groups) =
      (\<lambda>wid. cp_trace_from_records wid (filter (\<lambda>t. task_workflow_id t = Some wid) (by_creation tasks))) `
      {wid. \<exists>t \<in> set tasks. task_workflow_id t = Some wid}"
    unfolding set_map members image_image by simp
  have sorted: "sorted_wrt (<) (map cpw_workflow_id (map (\<lambda>(wid, records). cp_trace_from_records wid records) ?groups))"
    unfolding ids by (rule sorted_group_keys)
  show ?thesis
    using v traces sorted sorted_by_creation
    by (simp add: build_control_plane_snapshot_def workflows_by_id_def Let_def cp_approval_from_task_def
        reg_names_def comp_def)
qed

definition sample_task :: "string \<Rightarrow> string option \<Rightarrow> int \<Rightarrow> task_record" where
  "sample_task tid wid created = (new_task_record tid ''n'' ''echo'' created)\<lparr>task_workflow_id := wid\<rparr>"

theorem snapshot_is_complete_witness:
  "\<exists>sn. build_control_plane_snapshot 9 [sample_task ''b'' (Some ''w'') 2, sample_task ''a'' None 1] reg_init [] = Inr sn \<and>
     sn_tasks sn = [cp_from_task (sample_task ''a'' None 1), cp_from_task (sample_task ''b'' (Some ''w'') 2)]"
proof -
  have "registry_ok reg_init" by (simp add: registry_ok_def reg_init_def dict_ok_def dkeys_def)
  moreover have "by_creation [sample_task ''b'' (Some ''w'') 2, sample_task ''a'' None 1] =
      [sample_task ''a'' None 1, sample_task ''b'' (Some ''w'') 2]"
    by (simp add: by_creation_def sample_task_def new_task_record_def)
  ultimately show ?thesis
    using snapshot_is_complete [of reg_init 9 "[sample_task ''b'' (Some ''w'') 2, sample_task ''a'' None 1]" "[]"]
    by auto
qed

section \<open>Orchestrator and control plane\<close>

text \<open>
  The two workflow statuses disagree: a non-empty sequential workflow whose capabilities all
  require approval is \<^verbatim>\<open>completed\<close> for the orchestrator, while the trace that \<^verbatim>\<open>POST /v1/workflows\<close>
  builds from the same records says \<^verbatim>\<open>running\<close>.
\<close>

theorem orchestrator_and_trace_disagree:
  assumes "sequential steps" and "steps \<noteq> []"
    and "\<forall>s\<in>set steps. \<exists>c. validate_task_submission (step_submission (wg_workflow_id goal) s) (sv_registry sv) = Inr c \<and>
      cd_require_approval (cap_descriptor c)"
  shows "\<exists>r w'. workflow_run (bundled sv steps) orders goal w = (Inr r, w') \<and> wr_status r = WF_COMPLETED \<and>
    cpw_status (cp_trace_from_records (wg_workflow_id goal) (wr_records r)) = ''running''"
proof -
  from gated_workflow [OF assms(1,3)] obtain r w' where
    r: "workflow_run (bundled sv steps) orders goal w = (Inr r, w')" "wr_status r = WF_COMPLETED"
      "length (wr_records r) = length steps" "list_all (\<lambda>t. task_status t = AWAITING_APPROVAL) (wr_records r)"
    by blast
  then have "set (map task_status (by_creation (wr_records r))) = {AWAITING_APPROVAL}" "by_creation (wr_records r) \<noteq> []"
    using assms(2) by (cases "wr_records r"; fastforce simp: list_all_iff simp flip: length_0_conv)+
  then have "cp_workflow_status (by_creation (wr_records r)) = WF_RUNNING"
    unfolding cp_workflow_status_def Let_def by (simp add: active_statuses_def)
  with r show ?thesis by (auto simp: cp_trace_from_records_def Let_def)
qed

theorem orchestrator_and_trace_disagree_witness:
  "\<exists>r w'. workflow_run (bundled gated_supervisor [demo_step]) (\<lambda>k. []) demo_goal demo_init = (Inr r, w') \<and>
     wr_status r = WF_COMPLETED \<and> cpw_status (cp_trace_from_records ''wf'' (wr_records r)) = ''running''"
proof -
  have "sequential [demo_step]" by (simp add: sequential_def demo_step_def)
  from orchestrator_and_trace_disagree [OF this, of demo_goal gated_supervisor "\<lambda>k. []" demo_init]
  show ?thesis
    by (auto simp: validate_task_submission_def step_submission_def demo_step_def gated_supervisor_def
        reg_get_def dget_def demo_capability_def py_strip_def is_ws_def demo_goal_def)
qed

end
