(* ===== verification/Api.thy ===== *)
theory Api
  imports Auth ControlPlane Supervisor Scheduler
begin

text \<open>
  \<^verbatim>\<open>engine/api/routes/\<close>, \<^verbatim>\<open>engine/api/models.py\<close> and the rest of \<^verbatim>\<open>engine/api/dependencies.py\<close> and
  \<^verbatim>\<open>engine/api/app.py\<close>: the HTTP routes over the supervisor, the registry, the orchestrator and the
  triggers, as functions from a validated request to a value or to what the route raises, with the
  exception handlers of the application.

  Decoding the request and checking it against the request models is FastAPI's work: a request body
  here is a value of its model.  The event bus itself is in \<open>Events\<close>, the cluster routes in
  \<open>Cluster\<close>.
\<close>

section \<open>Errors\<close>

definition http_error :: "int \<Rightarrow> string \<Rightarrow> string \<Rightarrow> api_exc" where
  "http_error status code message = HTTP_Exception status [(''code'', PStr code), (''message'', PStr message)]"

definition not_found_message :: "string \<Rightarrow> bool" where
  "not_found_message msg \<longleftrightarrow> contains ''not found'' (to_lower msg)"

definition value_error_handler :: "exc \<Rightarrow> int \<times> pydict" where
  "value_error_handler e =
     (let msg = exc_str e in
      (if not_found_message msg then 404 else 400, [(''code'', PStr ''invalid_request''), (''message'', PStr msg)]))"

definition key_error_handler :: "exc \<Rightarrow> int \<times> pydict" where
  "key_error_handler e = (404, [(''code'', PStr ''not_found''), (''message'', PStr (exc_str e))])"

text \<open>The status of the response to what a route raises: an \<^verbatim>\<open>HTTPException\<close> carries its own, the two
  handlers take their classes, anything else is the framework's 500.\<close>

fun error_status :: "api_exc \<Rightarrow> int" where
  "error_status (HTTP_Exception status detail) = status"
| "error_status (Uncaught e) =
     (if is_value_error e then fst (value_error_handler e)
      else if is_key_error e then fst (key_error_handler e) else 500)"

section \<open>Request models\<close>

record page_meta =
  pm_limit :: "int option"
  pm_offset :: int
  pm_total :: int

record submit_request =
  sr_name :: string
  sr_capability :: string
  sr_input :: pydict
  sr_metadata :: pydict
  sr_max_retries :: int
  sr_workflow_id :: "string option"

record approve_request =
  ar_actor :: string
  ar_run :: bool
  ar_metadata :: pydict

definition approve_request_default :: approve_request where
  "approve_request_default = \<lparr>ar_actor = ''api'', ar_run = True, ar_metadata = []\<rparr>"

record cancel_request =
  cr_actor :: string
  cr_reason :: "string option"
  cr_cancel_metadata :: pydict

section \<open>routes/tasks.py\<close>

definition api_list_tasks ::
  "world \<Rightarrow> string option \<Rightarrow> int option \<Rightarrow> int \<Rightarrow> api_exc + cp_task list \<times> page_meta" where
  "api_list_tasks w status limit offset =
     (if (case status of None \<Rightarrow> False | Some v \<Rightarrow> \<not> list_ex (\<lambda>s. status_value s = v) all_statuses)
      then Inl (http_error 400 ''invalid_status'' (''Unknown status: '' @ py_repr (the status)))
      else
        let all_tasks = list_tasks w None 0 status;
            page = (case limit of
                Some n \<Rightarrow> py_from offset (py_upto (offset + n) all_tasks)
              | None \<Rightarrow> py_from offset all_tasks)
        in Inr (map cp_from_task page, \<lparr>pm_limit = limit, pm_offset = offset, pm_total = int (length all_tasks)\<rparr>))"

definition request_submission :: "submit_request \<Rightarrow> auth_context \<Rightarrow> task_submission" where
  "request_submission body ctx =
     \<lparr>sub_name = sr_name body, sub_capability = sr_capability body, sub_input = sr_input body,
      sub_metadata = dset ''submitted_by'' (PStr (ac_actor ctx)) (sr_metadata body),
      sub_max_retries = sr_max_retries body, sub_workflow_id = sr_workflow_id body\<rparr>"

fun submit_error :: "exc \<Rightarrow> api_exc" where
  "submit_error (Queue_Full m) = http_error 429 ''queue_full'' m"
| "submit_error e =
     (if is_value_error e \<or> is_key_error e then http_error 400 ''submit_failed'' (exc_str e) else Uncaught e)"

definition api_submit_task ::
  "supervisor \<Rightarrow> submit_request \<Rightarrow> auth_context \<Rightarrow> world \<Rightarrow> (api_exc + cp_task) \<times> world" where
  "api_submit_task sv body ctx w =
     (case submit sv (request_submission body ctx) w of
        (Inl e, w) \<Rightarrow> (Inl (submit_error e), w)
      | (Inr task, w) \<Rightarrow> (Inr (cp_from_task task), w))"

definition api_run_task_inline ::
  "supervisor \<Rightarrow> submit_request \<Rightarrow> auth_context \<Rightarrow> world \<Rightarrow> (api_exc + cp_task) \<times> world" where
  "api_run_task_inline sv body ctx w =
     (case run_submission sv (request_submission body ctx) w of
        (Inl e, w) \<Rightarrow>
          (Inl (if is_value_error e \<or> is_key_error e then http_error 400 ''submit_failed'' (exc_str e) else Uncaught e), w)
      | (Inr task, w) \<Rightarrow> (Inr (cp_from_task task), w))"

definition api_get_task :: "world \<Rightarrow> string \<Rightarrow> api_exc + cp_task" where
  "api_get_task w tid =
     (case get_task w tid of
        Inl e \<Rightarrow>
          Inl (if is_value_error e then http_error 404 ''not_found'' (''Task '' @ py_repr tid @ '' not found'') else Uncaught e)
      | Inr task \<Rightarrow> Inr (cp_from_task task))"

definition api_run_queued_task :: "supervisor \<Rightarrow> string \<Rightarrow> world \<Rightarrow> (api_exc + cp_task) \<times> world" where
  "api_run_queued_task sv tid w =
     (case run_task sv tid w of
        (Inl e, w) \<Rightarrow> (Inl (if is_value_error e then http_error 404 ''not_found'' (exc_str e) else Uncaught e), w)
      | (Inr task, w) \<Rightarrow> (Inr (cp_from_task task), w))"

definition decision_error :: "string \<Rightarrow> exc \<Rightarrow> api_exc" where
  "decision_error code e =
     (if is_value_error e then http_error (if not_found_message (exc_str e) then 404 else 400) code (exc_str e) else Uncaught e)"

definition body_or_caller :: "string \<Rightarrow> auth_context \<Rightarrow> string" where
  "body_or_caller actor ctx = (if actor = [] then ac_actor ctx else actor)"

definition api_approve_task ::
  "supervisor \<Rightarrow> string \<Rightarrow> approve_request \<Rightarrow> auth_context \<Rightarrow> world \<Rightarrow> (api_exc + cp_task) \<times> world" where
  "api_approve_task sv tid body ctx w =
     (case approve_task sv tid (body_or_caller (ar_actor body) ctx) (Some (ar_metadata body)) (ar_run body) w of
        (Inl e, w) \<Rightarrow> (Inl (decision_error ''approve_failed'' e), w)
      | (Inr task, w) \<Rightarrow> (Inr (cp_from_task task), w))"

definition api_cancel_task ::
  "supervisor \<Rightarrow> string \<Rightarrow> cancel_request \<Rightarrow> auth_context \<Rightarrow> world \<Rightarrow> (api_exc + cp_task) \<times> world" where
  "api_cancel_task sv tid body ctx w =
     (case cancel_task sv tid (body_or_caller (cr_actor body) ctx) (cr_reason body) (Some (cr_cancel_metadata body)) w of
        (Inl e, w) \<Rightarrow> (Inl (decision_error ''cancel_failed'' e), w)
      | (Inr task, w) \<Rightarrow> (Inr (cp_from_task task), w))"

section \<open>routes/workflows.py\<close>

definition get_orchestrator :: "'w orchestrator option \<Rightarrow> api_exc + 'w orchestrator" where
  "get_orchestrator o1 = (case o1 of
       None \<Rightarrow> Inl (http_error 501 ''not_implemented'' ''Workflow orchestrator is not configured on this server instance'')
     | Some x \<Rightarrow> Inr x)"

definition api_run_workflow ::
  "'w orchestrator option \<Rightarrow> (nat \<Rightarrow> nat list) \<Rightarrow> workflow_goal \<Rightarrow> 'w \<Rightarrow> (api_exc + cp_trace) \<times> 'w" where
  "api_run_workflow o1 orders body w =
     (case get_orchestrator o1 of
        Inl e \<Rightarrow> (Inl e, w)
      | Inr orchestrator \<Rightarrow>
          (case workflow_run orchestrator orders body w of
             (Inl e, w) \<Rightarrow>
               (Inl (if is_value_error e \<or> is_key_error e then http_error 400 ''workflow_failed'' (exc_str e) else Uncaught e), w)
           | (Inr result, w) \<Rightarrow> (Inr (cp_trace_from_records (wg_workflow_id body) (wr_records result)), w)))"

definition api_get_workflow_trace :: "world \<Rightarrow> string \<Rightarrow> api_exc + cp_trace" where
  "api_get_workflow_trace w workflow_id =
     (let all_tasks = list_tasks w None 0 None;
          workflow_tasks = filter (\<lambda>t. task_workflow_id t = Some workflow_id) all_tasks
      in if workflow_tasks = []
         then Inl (http_error 404 ''not_found'' (''No tasks found for workflow '' @ py_repr workflow_id))
         else Inr (cp_trace_from_records workflow_id workflow_tasks))"

section \<open>routes/capabilities.py\<close>

definition api_list_capabilities :: "registry \<Rightarrow> api_exc + cp_capability list" where
  "api_list_capabilities r = (case capability_views r (reg_list r) of Inl e \<Rightarrow> Inl (Uncaught e) | Inr views \<Rightarrow> Inr views)"

definition api_get_capability :: "registry \<Rightarrow> string \<Rightarrow> api_exc + cp_capability" where
  "api_get_capability r name =
     (case reg_get r name of
        Inl e \<Rightarrow>
          Inl (if is_key_error e then http_error 404 ''not_found'' (''Capability '' @ py_repr name @ '' not found'') else Uncaught e)
      | Inr capability \<Rightarrow>
          (case reg_execution_controls_of r name of
             Inl e \<Rightarrow> Inl (Uncaught e)
           | Inr controls \<Rightarrow> Inr (cp_from_descriptor (cap_descriptor capability) controls)))"

section \<open>routes/health.py\<close>

text \<open>What the health of the parts depends on outside the engine: the working directory, the OPA
  server's answer, and the task store, given by its \<^verbatim>\<open>path\<close> or class name and its issues.\<close>

record health_env =
  he_workdir_exists :: bool
  he_workdir_is_dir :: bool
  he_opa_status :: "string \<Rightarrow> exc + int"
  he_bus_name :: string
  he_store_detail :: string
  he_store_issues :: "string list"

definition op_health_check :: "(string \<Rightarrow> exc + int) \<Rightarrow> opa_policy \<Rightarrow> string list" where
  "op_health_check status p =
     (case status (op_url p @ ''/health'') of
        Inr code \<Rightarrow> if code \<noteq> 200 then [''opa: health endpoint returned '' @ show_int code] else []
      | Inl e \<Rightarrow> [''opa: cannot reach server at '' @ py_repr (op_url p) @ '': '' @ exc_str e])"

fun policy_health_check :: "(string \<Rightarrow> exc + int) \<Rightarrow> policy_engine \<Rightarrow> string list" where
  "policy_health_check status Null_Policy = []"
| "policy_health_check status (Deny_By_Default p) = dp_health_check p"
| "policy_health_check status (Risk_Level p) = []"
| "policy_health_check status (OPA p) = op_health_check status p"

definition get_health_components :: "health_env \<Rightarrow> supervisor \<Rightarrow> world \<Rightarrow> cp_health list" where
  "get_health_components env sv w =
     (let r = sv_registry sv in
      build_health_components
        [(''registry'', Some (reg_health_check r), show_nat (length (reg_names r)) @ '' capabilities loaded''),
         (''supervisor'', Some (supervisor_health_check (he_workdir_exists env) (he_workdir_is_dir env) sv), sv_workdir sv),
         (''queue'', Some (tq_health_check (w_queue w)), show_nat (length (tq_list (w_queue w))) @ '' queued''),
         (''event_bus'', Some [], he_bus_name env),
         (''policy'', Some (policy_health_check (he_opa_status env) (sv_policy sv)), policy_type_name (sv_policy sv)),
         (''task_store'', Some (he_store_issues env), he_store_detail env)])"

definition api_health_check :: "health_env \<Rightarrow> supervisor \<Rightarrow> world \<Rightarrow> int \<times> bool \<times> cp_health list" where
  "api_health_check env sv w =
     (let components = get_health_components env sv w;
          overall_healthy = list_all cph_healthy components
      in (if overall_healthy then 200 else 503, overall_healthy, components))"

definition api_get_snapshot :: "health_env \<Rightarrow> supervisor \<Rightarrow> world \<Rightarrow> (api_exc + cp_snapshot) \<times> world" where
  "api_get_snapshot env sv w =
     (let health = get_health_components env sv w; (t, w) = now_utc sv w in
      case build_control_plane_snapshot t (list_tasks w None 0 None) (sv_registry sv) health of
        Inl e \<Rightarrow> (Inl (Uncaught e), w)
      | Inr sn \<Rightarrow> (Inr sn, w))"

section \<open>routes/triggers.py\<close>

definition service_unavailable :: "int \<times> pydict" where
  "service_unavailable = (503, [(''code'', PStr ''trigger_service_unavailable''),
     (''message'', PStr ''Trigger service is not configured on this server instance'')])"

text \<open>The body is \<open>None\<close> when it is not JSON; the service is \<open>None\<close> when it is not configured.\<close>

definition ingest_webhook ::
  "py_datetime \<Rightarrow> string \<Rightarrow> pydict option \<Rightarrow> trigger_adapter list option \<Rightarrow>
   (int \<times> pydict) \<times> trigger_adapter list option" where
  "ingest_webhook clock trigger_name body service =
     (case service of
        None \<Rightarrow> (service_unavailable, None)
      | Some adapters \<Rightarrow>
          let payload = (case body of None \<Rightarrow> [] | Some p \<Rightarrow> p); received_at = clock in
          (case ingest clock trigger_name payload (Some received_at) adapters of
             Inl e \<Rightarrow> ((404, [(''code'', PStr ''unknown_trigger''), (''message'', PStr (exc_str e))]), Some adapters)
           | Inr adapters' \<Rightarrow>
               ((202, [(''accepted'', PBool True), (''trigger_name'', PStr trigger_name),
                       (''received_at'', PStr (isofmt received_at))]), Some adapters')))"

text \<open>\<^verbatim>\<open>_adapters_by_name.values()\<close>: one adapter for each webhook name, in the order of the names' first
  occurrence; webhook adapters always report themselves healthy.\<close>

fun webhook_names :: "trigger_adapter list \<Rightarrow> string list" where
  "webhook_names [] = []"
| "webhook_names (Webhook_Adapter a # as) = wa_name a # filter (\<lambda>n. n \<noteq> wa_name a) (webhook_names as)"
| "webhook_names (Cron_Adapter a # as) = webhook_names as"

definition list_triggers :: "trigger_adapter list option \<Rightarrow> int \<times> pyval" where
  "list_triggers service =
     (case service of
        None \<Rightarrow> (fst service_unavailable, PDict (snd service_unavailable))
      | Some adapters \<Rightarrow>
          (200, PList (map (\<lambda>n. let issues = [] :: pyval list in
             PDict [(''name'', PStr n), (''healthy'', PBool (issues = [])), (''issues'', PList issues)])
               (webhook_names adapters))))"

end
