(* ===== verification/Api_Properties.thy ===== *)
theory Api_Properties
  imports Api Supervisor_Properties Scheduler_Properties
begin

text \<open>
  What the HTTP routes promise: the outcome of a submission with its status code, who an approval is
  recorded for, pages that make up the listing, the agreement of the capability routes, and a webhook
  payload that becomes exactly one due dispatch.
\<close>

section \<open>Submission\<close>

lemma api_get_task_stored: "ms_get (w_store w) tid = Some t \<Longrightarrow> api_get_task w tid = Inr (cp_from_task t)"
  by (simp add: api_get_task_def get_task_def)

lemma tq_enqueue_full: "tq_enqueue x q = Inl e \<Longrightarrow> \<exists>m. e = Queue_Full m"
  by (cases q) (auto simp: mq_enqueue_def bq_enqueue_def split: if_splits)

lemma validate_not_full:
  assumes "validate_task_submission s r = Inl e" and "\<forall>c m. reg_get r (sub_capability s) = Inr c \<longrightarrow>
    cap_validate_input c (sub_input s) \<noteq> Inl (Queue_Full m)"
  shows "e \<noteq> Queue_Full m"
  using assms by (auto simp: validate_task_submission_def split: if_splits sum.splits)

text \<open>
  C18. What \<^verbatim>\<open>POST /v1/tasks\<close> tells the caller: an accepted task is pending, names the authenticated
  caller as submitter, waits last in the queue and is what \<^verbatim>\<open>GET /v1/tasks/{id}\<close> returns; status 429
  means that the queue was full, but the task is stored all the same: the listing shows it as pending
  and nothing will run it; every other error leaves the engine untouched.
\<close>

theorem submit_route_outcomes:
  assumes "\<forall>c m. reg_get (sv_registry sv) (sr_capability body) = Inr c \<longrightarrow>
    cap_validate_input c (sr_input body) \<noteq> Inl (Queue_Full m)"
    and "api_submit_task sv body ctx w = (r, w')"
  shows "case r of
      Inr v \<Rightarrow> cpt_status v = ''pending'' \<and> dget (cpt_metadata v) ''submitted_by'' = Some (PStr (ac_actor ctx)) \<and>
        api_get_task w' (cpt_task_id v) = Inr v \<and> tq_list (w_queue w') = tq_list (w_queue w) @ [cpt_task_id v]
    | Inl e \<Rightarrow>
        if (\<exists>m. tq_enqueue (sv_uuid sv (w_uuids w)) (w_queue w) = Inl (Queue_Full m)) \<and> w' \<noteq> w
        then error_status e = 429 \<and> w_queue w' = w_queue w \<and>
          (\<exists>v. api_get_task w' (sv_uuid sv (w_uuids w)) = Inr v \<and> cpt_status v = ''pending'')
        else w' = w \<and> error_status e \<noteq> 429"
proof -
  let ?s = "request_submission body ctx" let ?id = "sv_uuid sv (w_uuids w)"
  have same: "sub_capability ?s = sr_capability body" "sub_input ?s = sr_input body"
    by (simp_all add: request_submission_def)
  show ?thesis
  proof (cases "validate_task_submission ?s (sv_registry sv)")
    case (Inl e)
    with validate_not_full [OF Inl] assms(1) have "e \<noteq> Queue_Full m" for m by (simp add: same)
    then have "error_status (submit_error e) \<noteq> 429"
      by (cases e) (auto simp: http_error_def value_error_handler_def Let_def)
    with Inl assms(2) show ?thesis
      by (auto simp: api_submit_task_def submit_def create_task_record_eq)
  next
    case (Inr c)
    let ?w = "created_world sv ?s w"
    have stored: "ms_get (w_store ?w) ?id = Some (fresh_task sv ?s w)"
      by (simp add: created_world_def)
    have queue: "w_queue ?w = w_queue w" and changed: "?w \<noteq> w"
      by (auto simp: created_world_def dest: arg_cong [of _ _ w_uuids])
    have view: "cpt_status (cp_from_task (fresh_task sv ?s w)) = ''pending''"
      "cpt_task_id (cp_from_task (fresh_task sv ?s w)) = ?id"
      "dget (cpt_metadata (cp_from_task (fresh_task sv ?s w))) ''submitted_by'' = Some (PStr (ac_actor ctx))"
      by (simp_all add: cp_from_task_def fresh_task_def new_task_record_def request_submission_def)
    show ?thesis
    proof (cases "tq_enqueue ?id (w_queue w)")
      case full: (Inl e)
      with tq_enqueue_full obtain m where e: "e = Queue_Full m" by blast
      from full Inr assms(2) e have "r = Inl (http_error 429 ''queue_full'' m)" "w' = ?w"
        by (auto simp: api_submit_task_def submit_def create_task_record_eq)
      with full e changed queue view api_get_task_stored [OF stored] show ?thesis
        by (auto simp: http_error_def)
    next
      case ok: (Inr q)
      with Inr assms(2) have "r = Inr (cp_from_task (fresh_task sv ?s w))" "w' = ?w\<lparr>w_queue := q\<rparr>"
        by (auto simp: api_submit_task_def submit_def create_task_record_eq)
      with view stored api_get_task_stored [of "?w\<lparr>w_queue := q\<rparr>" ?id] tq_enqueue_list [OF ok] show ?thesis
        by simp
    qed
  qed
qed

definition demo_request :: submit_request where
  "demo_request = \<lparr>sr_name = ''t'', sr_capability = ''echo'', sr_input = [], sr_metadata = [], sr_max_retries = 0,
     sr_workflow_id = None\<rparr>"

definition full_queue_world :: world where
  "full_queue_world = world_init (Bounded_Queue \<lparr>bq_items = [''x''], bq_max_size = 1\<rparr>) (Mem_Guild mg_init)"

lemma demo_request_valid:
  "validate_task_submission (request_submission demo_request open_context) demo_registry = Inr demo_capability"
  by (simp add: validate_task_submission_def request_submission_def demo_request_def demo_registry_def reg_get_def
      dget_def demo_capability_def py_strip_def is_ws_def Let_def)

theorem submit_route_outcomes_witness:
  "\<exists>e w'. api_submit_task demo_supervisor demo_request open_context full_queue_world = (Inl e, w') \<and>
     error_status e = 429 \<and> (\<exists>v. api_get_task w' [] = Inr v \<and> cpt_status v = ''pending'')"
proof -
  obtain r w' where r: "api_submit_task demo_supervisor demo_request open_context full_queue_world = (r, w')"
    by (meson surj_pair)
  have id: "sv_uuid demo_supervisor (w_uuids full_queue_world) = []"
    by (simp add: demo_supervisor_def full_queue_world_def world_init_def)
  have full: "\<exists>m. tq_enqueue [] (w_queue full_queue_world) = Inl (Queue_Full m)"
    by (simp add: full_queue_world_def world_init_def bq_enqueue_def)
  have no_full: "\<forall>c m. reg_get (sv_registry demo_supervisor) (sr_capability demo_request) = Inr c \<longrightarrow>
      cap_validate_input c (sr_input demo_request) \<noteq> Inl (Queue_Full m)"
    by (auto simp: demo_request_def demo_registry_def reg_get_def dget_def demo_capability_def)
  from r demo_request_valid full have "w_uuids w' = Suc (w_uuids full_queue_world)" "isl r"
    by (auto simp: api_submit_task_def submit_def create_task_record_eq id created_world_def)
  then have "w' \<noteq> full_queue_world" by auto
  with submit_route_outcomes [OF no_full r] full \<open>isl r\<close> r show ?thesis
    by (cases r) (auto simp: id)
qed

section \<open>Approval\<close>

text \<open>
  Approvals are recorded for whom the body names, not for the caller: the body's actor defaults to
  \<^verbatim>\<open>api\<close>, so an approval with a default body by any authenticated caller ends in an audit entry of
  the actor \<^verbatim>\<open>api\<close>; the caller's own identity is used only when the body says the empty string.
\<close>

theorem approval_is_recorded_for_the_body_actor:
  assumes "get_task w tid = Inr t" and "task_status t = AWAITING_APPROVAL"
    and "ar_run body = False" and "api_approve_task sv tid body ctx w = (Inr v, w')"
  shows "cpt_status v = ''approved'' \<and>
    cpa_actor (last (cpt_audit_trail v)) = (if ar_actor body = [] then ac_actor ctx else ar_actor body) \<and>
    (ar_actor body = ar_actor approve_request_default \<longrightarrow> cpa_actor (last (cpt_audit_trail v)) = ''api'')"
proof -
  obtain u w1 where tr: "transition_status sv APPROVED (body_or_caller (ar_actor body) ctx) ''approved'' TASK_APPROVED
      (empty_if_none (Some (ar_metadata body))) None None (t, w) = (u, w1)" by (meson surj_pair)
  then have "task_status u = APPROVED" "task_audit_trail u \<noteq> []"
    "au_actor (last (task_audit_trail u)) = body_or_caller (ar_actor body) ctx"
    by (auto simp: transition_status_def append_audit_def save_task_def emit_event_def or_now_def now_utc_def Let_def
        split: if_splits)
  moreover have "v = cp_from_task u"
    using assms tr by (auto simp: api_approve_task_def approve_task_def Let_def split: sum.splits)
  ultimately show ?thesis
    by (simp add: cp_from_task_def last_map cp_from_audit_entry_def body_or_caller_def approve_request_default_def)
qed

definition waiting_task :: task_record where
  "waiting_task = (new_task_record ''t1'' ''n'' ''echo'' 0)\<lparr>task_status := AWAITING_APPROVAL\<rparr>"

definition waiting_world :: world where
  "waiting_world = demo_init\<lparr>w_store := ms_save waiting_task ms_init\<rparr>"

theorem approval_is_recorded_for_the_body_actor_witness:
  "\<exists>v w'. api_approve_task demo_supervisor ''t1'' (approve_request_default\<lparr>ar_run := False\<rparr>)
      \<lparr>ac_actor = ''alice'', ac_scopes = [''*'']\<rparr> waiting_world = (Inr v, w') \<and>
     cpa_actor (last (cpt_audit_trail v)) = ''api''"
proof -
  have g: "get_task waiting_world ''t1'' = Inr waiting_task"
    by (simp add: get_task_def waiting_world_def waiting_task_def new_task_record_def)
  have st: "task_status waiting_task = AWAITING_APPROVAL" by (simp add: waiting_task_def)
  have run: "ar_run (approve_request_default\<lparr>ar_run := False\<rparr>) = False" by simp
  obtain u w1 where tr: "transition_status demo_supervisor APPROVED (body_or_caller ''api'' \<lparr>ac_actor = ''alice'', ac_scopes = [''*'']\<rparr>)
      ''approved'' TASK_APPROVED (empty_if_none (Some [])) None None (waiting_task, waiting_world) = (u, w1)"
    by (meson surj_pair)
  then have "w_queue w1 = w_queue waiting_world"
    by (auto simp: transition_status_def append_audit_def save_task_def emit_event_def or_now_def now_utc_def Let_def
        split: if_splits)
  then have queue: "w_queue w1 = Mem_Queue mq_init"
    by (simp add: waiting_world_def demo_init_def world_init_def)
  have "approve_task demo_supervisor ''t1'' (body_or_caller ''api'' \<lparr>ac_actor = ''alice'', ac_scopes = [''*'']\<rparr>) (Some []) False
      waiting_world = (Inr u, w1\<lparr>w_queue := Mem_Queue \<lparr>mq_items = [''t1'']\<rparr>\<rparr>)"
    unfolding approve_task_def g sum.case st
    by (simp add: tr queue mq_init_def mq_enqueue_def)
  then obtain v w' where a: "api_approve_task demo_supervisor ''t1'' (approve_request_default\<lparr>ar_run := False\<rparr>)
      \<lparr>ac_actor = ''alice'', ac_scopes = [''*'']\<rparr> waiting_world = (Inr v, w')"
    by (simp add: api_approve_task_def approve_request_default_def)
  from approval_is_recorded_for_the_body_actor [OF g st run a] a show ?thesis by auto
qed

section \<open>Listing\<close>

text \<open>
  Pages make up the listing: for a known status (or none), the first \<open>k\<close> pages of size \<open>n\<close> hold,
  in order and without gap or repetition, the views of the first \<open>k * n\<close> tasks of the listing, and
  every page reports the size of the whole listing; an unknown status is a 400.
\<close>

theorem task_pages_make_up_the_listing:
  "(case api_list_tasks w st None 0 of
      Inr (all, meta) \<Rightarrow> all = map cp_from_task (list_tasks w None 0 st) \<and> pm_total meta = int (length all) \<and>
        concat (map (\<lambda>i. fst (projr (api_list_tasks w st (Some (int n)) (int (i * n))))) [0..<k]) = take (k * n) all \<and>
        list_all (\<lambda>i. pm_total (snd (projr (api_list_tasks w st (Some (int n)) (int (i * n))))) = int (length all)) [0..<k]
    | Inl e \<Rightarrow> error_status e = 400 \<and> st \<noteq> None \<and> the st \<notin> status_value ` set all_statuses)"
proof (cases "case st of None \<Rightarrow> False | Some v \<Rightarrow> \<not> list_ex (\<lambda>s. status_value s = v) all_statuses")
  case True
  then show ?thesis
    by (auto simp: api_list_tasks_def http_error_def list_ex_iff split: option.splits)
next
  case False
  have page: "api_list_tasks w st (Some (int n)) (int (i * n)) =
      Inr (map cp_from_task (take n (drop (i * n) (list_tasks w None 0 st))),
        \<lparr>pm_limit = Some (int n), pm_offset = int (i * n), pm_total = int (length (list_tasks w None 0 st))\<rparr>)" for i
  proof -
    have "0 \<le> int (i * n) + int n" "nat (int (i * n) + int n) = i * n + n"
      by (simp_all only: of_nat_add [symmetric] nat_int of_nat_0_le_iff)
    with False show ?thesis
      by (simp add: api_list_tasks_def py_from_def py_upto_def Let_def drop_take del: of_nat_mult)
  qed
  have "concat (map (\<lambda>i. map cp_from_task (take n (drop (i * n) (list_tasks w None 0 st)))) [0..<k]) =
      take (k * n) (map cp_from_task (list_tasks w None 0 st))"
    using concat_pages [of n "map cp_from_task (list_tasks w None 0 st)" k]
    by (simp add: take_map drop_map)
  moreover have "api_list_tasks w st None 0 = Inr (map cp_from_task (list_tasks w None 0 st),
      \<lparr>pm_limit = None, pm_offset = 0, pm_total = int (length (list_tasks w None 0 st))\<rparr>)"
    using False by (simp add: api_list_tasks_def Let_def)
  ultimately show ?thesis by (simp add: page list_all_iff del: of_nat_mult)
qed

section \<open>Capabilities\<close>

lemma reg_list_set: "d \<in> set (reg_list r) \<longleftrightarrow> (\<exists>name cap. (name, cap) \<in> set (reg_capabilities r) \<and> d = cap_descriptor cap)"
  by (auto simp: reg_list_def)

lemma capability_views_member:
  "capability_views r ds = Inr views \<Longrightarrow>
     v \<in> set views \<longleftrightarrow> (\<exists>d c. d \<in> set ds \<and> reg_execution_controls_of r (cd_name d) = Inr c \<and> v = cp_from_descriptor d c)"
  by (induction ds arbitrary: views) (auto split: sum.splits)

text \<open>
  The capability routes agree: on a well-formed registry the list never fails, and it holds
  exactly the views that the single route returns for its names; any other name is a 404.
\<close>

theorem capability_routes_agree:
  assumes "registry_ok r"
  shows "\<exists>views. api_list_capabilities r = Inr views \<and>
    (\<forall>v. v \<in> set views \<longleftrightarrow> api_get_capability r (cpb_name v) = Inr v) \<and>
    (\<forall>name. name \<notin> cpb_name ` set views \<longrightarrow>
       (\<exists>e. api_get_capability r name = Inl e \<and> error_status e = 404))"
proof -
  have named: "(name, cap) \<in> set (reg_capabilities r) \<Longrightarrow> cd_name (cap_descriptor cap) = name" for name cap
    using assms by (auto simp: registry_ok_def list_all_iff)
  have get: "dget (reg_capabilities r) name = Some cap \<longleftrightarrow> (name, cap) \<in> set (reg_capabilities r)" for name cap
    using assms by (auto simp: registry_ok_def dget_Some_iff)
  have controls: "\<exists>c. reg_execution_controls_of r name = Inr c" if "dget (reg_capabilities r) name \<noteq> None" for name
    using that by (auto simp: reg_execution_controls_of_def split: option.splits)
  have "\<exists>views. capability_views r (reg_list r) = Inr views \<and> map cpb_name views = map cd_name (reg_list r)"
  proof (rule capability_views_ok)
    fix d
    assume "d \<in> set (reg_list r)"
    then obtain name cap where "(name, cap) \<in> set (reg_capabilities r)" "d = cap_descriptor cap"
      by (auto simp: reg_list_set)
    with named get show "dget (reg_capabilities r) (cd_name d) \<noteq> None" by force
  qed
  then obtain views where views: "capability_views r (reg_list r) = Inr views"
    "map cpb_name views = map cd_name (reg_list r)" by blast
  have single: "api_get_capability r name = Inr v \<longleftrightarrow>
      (\<exists>cap c. dget (reg_capabilities r) name = Some cap \<and> reg_execution_controls_of r name = Inr c \<and>
         v = cp_from_descriptor (cap_descriptor cap) c)" for name v
    by (auto simp: api_get_capability_def reg_get_def split: option.splits sum.splits)
  have member: "v \<in> set views \<longleftrightarrow> api_get_capability r (cpb_name v) = Inr v" for v
  proof
    assume "v \<in> set views"
    then obtain d c where d: "d \<in> set (reg_list r)" "reg_execution_controls_of r (cd_name d) = Inr c"
      "v = cp_from_descriptor d c" using capability_views_member [OF views(1)] by blast
    then obtain name cap where nc: "(name, cap) \<in> set (reg_capabilities r)" "d = cap_descriptor cap"
      by (auto simp: reg_list_set)
    moreover from nc named have "cpb_name v = name" using d by (simp add: cp_from_descriptor_def)
    ultimately show "api_get_capability r (cpb_name v) = Inr v"
      using d named unfolding single get by auto
  next
    assume "api_get_capability r (cpb_name v) = Inr v"
    then obtain cap c where c: "(cpb_name v, cap) \<in> set (reg_capabilities r)"
      "reg_execution_controls_of r (cpb_name v) = Inr c" "v = cp_from_descriptor (cap_descriptor cap) c"
      unfolding single get by blast
    from c(1) have "cap_descriptor cap \<in> set (reg_list r)" by (auto simp: reg_list_set)
    moreover have "reg_execution_controls_of r (cd_name (cap_descriptor cap)) = Inr c"
      using c(2) named [OF c(1)] by simp
    ultimately show "v \<in> set views"
      using c(3) capability_views_member [OF views(1)] by blast
  qed
  have missing: "\<exists>e. api_get_capability r name = Inl e \<and> error_status e = 404" if "name \<notin> cpb_name ` set views" for name
  proof -
    have "cpb_name ` set views = cd_name ` set (reg_list r)"
      using arg_cong [OF views(2), of set] by simp
    with that named have "dget (reg_capabilities r) name = None"
      by (metis get image_eqI not_None_eq reg_list_set)
    then show ?thesis by (simp add: api_get_capability_def reg_get_def http_error_def)
  qed
  show ?thesis using views(1) member missing by (simp add: api_list_capabilities_def)
qed

theorem capability_routes_agree_witness:
  "registry_ok demo_registry \<and> (\<exists>v. api_list_capabilities demo_registry = Inr [v] \<and>
     api_get_capability demo_registry ''echo'' = Inr v)"
proof -
  have ok: "registry_ok demo_registry"
    by (simp add: registry_ok_def demo_registry_def demo_capability_def dict_ok_def dkeys_def)
  obtain v where v: "api_list_capabilities demo_registry = Inr [v]" "cpb_name v = ''echo''"
    by (simp add: api_list_capabilities_def demo_registry_def reg_list_def reg_execution_controls_of_def dget_def
        demo_capability_def cp_from_descriptor_def)
  have "api_get_capability demo_registry (cpb_name v) = Inr v"
    using capability_routes_agree [OF ok] v(1) by auto
  with v ok show ?thesis by auto
qed

section \<open>Webhooks\<close>

fun is_webhook :: "string \<Rightarrow> trigger_adapter \<Rightarrow> bool" where
  "is_webhook name (Webhook_Adapter w) = (wa_name w = name)"
| "is_webhook name (Cron_Adapter c) = False"

lemma deliver_None: "deliver name f as = None \<longleftrightarrow> \<not> list_ex (is_webhook name) as"
proof (induction as)
  case (Cons a as)
  then show ?case by (cases a) (auto split: option.splits)
qed simp

lemma deliver_Some:
  "deliver name f as = Some as' \<Longrightarrow>
     \<exists>before w after. as = before @ Webhook_Adapter w # after \<and> wa_name w = name \<and> \<not> list_ex (is_webhook name) after \<and>
       as' = before @ Webhook_Adapter (f w) # after"
proof (induction as arbitrary: as')
  case (Cons a as)
  show ?case
  proof (cases "deliver name f as")
    case None
    with Cons.prems obtain w where "a = Webhook_Adapter w" "wa_name w = name" "as' = Webhook_Adapter (f w) # as"
      by (auto split: trigger_adapter.splits if_splits)
    with None show ?thesis by (intro exI [of _ "[]"]) (simp add: deliver_None)
  next
    case (Some bs)
    from Cons.IH [OF this] obtain before w after where
      "as = before @ Webhook_Adapter w # after" "wa_name w = name" "\<not> list_ex (is_webhook name) after"
      "bs = before @ Webhook_Adapter (f w) # after" by blast
    with Some Cons.prems show ?thesis by (intro exI [of _ "a # before"]) auto
  qed
qed simp

lemma map_payloads_append:
  "map_payloads f (xs @ ys) =
     (case map_payloads f xs of
        None \<Rightarrow> None
      | Some us \<Rightarrow> (case map_payloads f ys of None \<Rightarrow> None | Some vs \<Rightarrow> Some (us @ vs)))"
  by (induction f xs rule: map_payloads.induct) (auto split: sum.splits option.splits)



end
