(* ===== verification/Events.thy ===== *)
theory Events
  imports Contracts
begin

text \<open>
  \<^verbatim>\<open>engine/api/bus.py\<close>, \<^verbatim>\<open>engine/api/routes/events.py\<close> and \<^verbatim>\<open>engine/runtime/bus.py\<close>: the broadcast bus of
  the server-sent events, the generator that streams one client's queue, and the null and logging
  buses.

  A client's \<^verbatim>\<open>asyncio.Queue\<close> is named by the number of its subscription and holds what was put and not
  yet taken.  \<^verbatim>\<open>loop.call_soon_threadsafe(q.put_nowait, x)\<close> schedules a callback: the loop runs its
  callbacks in the order they were scheduled, one at each \<open>run_callback\<close>.  Putting into an unbounded
  queue never fails.  A loop that is closed (\<open>dead\<close>) between the check and the calls makes every call raise
  \<^verbatim>\<open>RuntimeError\<close>, which the bus ignores.
\<close>

section \<open>SSEEventBus\<close>

datatype loop_state = Not_Attached | Loop_Running | Loop_Stopped

type_synonym sse_item = "task_event option"

record sse_bus =
  sb_subscribers :: "nat list"
  sb_loop :: loop_state
  sb_queues :: "nat \<Rightarrow> sse_item list"
  sb_callbacks :: "(nat \<times> sse_item) list"
  sb_next :: nat

definition bus_init :: sse_bus where
  "bus_init = \<lparr>sb_subscribers = [], sb_loop = Not_Attached, sb_queues = (\<lambda>q. []), sb_callbacks = [], sb_next = 0\<rparr>"

definition attach_loop :: "loop_state \<Rightarrow> sse_bus \<Rightarrow> sse_bus" where
  "attach_loop l b = b\<lparr>sb_loop := l\<rparr>"

definition subscribe :: "sse_bus \<Rightarrow> nat \<times> sse_bus" where
  "subscribe b = (let q = sb_next b in
     (q, b\<lparr>sb_subscribers := sb_subscribers b @ [q], sb_next := Suc q\<rparr>))"

definition unsubscribe :: "nat \<Rightarrow> sse_bus \<Rightarrow> sse_bus" where
  "unsubscribe q b = b\<lparr>sb_subscribers := remove1 q (sb_subscribers b)\<rparr>"

definition subscriber_count :: "sse_bus \<Rightarrow> nat" where
  "subscriber_count b = length (sb_subscribers b)"

text \<open>The loop over the copied subscriber list.\<close>

fun call_soon_all :: "bool \<Rightarrow> nat list \<Rightarrow> sse_item \<Rightarrow> sse_bus \<Rightarrow> sse_bus" where
  "call_soon_all dead [] x b = b"
| "call_soon_all dead (q # qs) x b =
     call_soon_all dead qs x (if dead then b else b\<lparr>sb_callbacks := sb_callbacks b @ [(q, x)]\<rparr>)"

definition bus_push :: "bool \<Rightarrow> sse_item \<Rightarrow> sse_bus \<Rightarrow> sse_bus" where
  "bus_push dead x b =
     (if sb_loop b \<noteq> Loop_Running then b else call_soon_all dead (sb_subscribers b) x b)"

definition sse_emit :: "bool \<Rightarrow> task_event \<Rightarrow> sse_bus \<Rightarrow> sse_bus" where
  "sse_emit dead event b = bus_push dead (Some event) b"

definition sse_health_check :: "sse_bus \<Rightarrow> string list" where
  "sse_health_check b = []"

definition sse_shutdown :: "bool \<Rightarrow> sse_bus \<Rightarrow> sse_bus" where
  "sse_shutdown dead b = bus_push dead None b"

text \<open>The event loop runs the oldest callback.\<close>

definition run_callback :: "sse_bus \<Rightarrow> sse_bus" where
  "run_callback b = (case sb_callbacks b of
       [] \<Rightarrow> b
     | (q, x) # cs \<Rightarrow> b\<lparr>sb_callbacks := cs, sb_queues := (sb_queues b)(q := sb_queues b q @ [x])\<rparr>)"

section \<open>The event generator\<close>

datatype frame = Heartbeat | Event_Frame string task_event

text \<open>What \<^verbatim>\<open>wait_for(queue.get(), ...)\<close> gives: an item, or a timeout.  The generator ends at the \<^verbatim>\<open>None\<close>
  sentinel; \<open>None\<close> as a result means that it is still waiting when the inputs end.\<close>

datatype wait_result = Got sse_item | Timed_Out

fun event_generator :: "string list option \<Rightarrow> wait_result list \<Rightarrow> frame list \<times> bool" where
  "event_generator type_filter [] = ([], False)"
| "event_generator type_filter (Timed_Out # ws) =
     (case event_generator type_filter ws of (fs, ended) \<Rightarrow> (Heartbeat # fs, ended))"
| "event_generator type_filter (Got None # ws) = ([], True)"
| "event_generator type_filter (Got (Some e) # ws) =
     (case event_generator type_filter ws of
        (fs, ended) \<Rightarrow>
          if (case type_filter of None \<Rightarrow> False | Some ts \<Rightarrow> event_value (ev_event_type e) \<notin> set ts)
          then (fs, ended)
          else (Event_Frame (event_value (ev_event_type e)) e # fs, ended))"

text \<open>The \<^verbatim>\<open>types\<close> parameter of \<^verbatim>\<open>stream_events\<close>.\<close>

definition parse_types :: "string option \<Rightarrow> string list option" where
  "parse_types types =
     (case types of
        None \<Rightarrow> None
      | Some s \<Rightarrow>
          if s = [] then None
          else Some (remdups (filter (\<lambda>t. t \<noteq> []) (map py_strip (split_on CHR '','' s)))))"

section \<open>NullEventBus and LoggingEventBus\<close>

definition null_emit :: "task_event \<Rightarrow> unit" where
  "null_emit e = ()"

datatype log_level = INFO | WARNING

record log_record =
  lr_level :: log_level
  lr_fields :: pydict
  lr_error :: "string option"

definition logging_emit :: "task_event \<Rightarrow> log_record list \<Rightarrow> log_record list" where
  "logging_emit e records =
     (let extra = [(''event_type'', PStr (event_value (ev_event_type e))), (''task_id'', PStr (ev_task_id e)),
            (''task_name'', PStr (ev_task_name e)), (''capability'', PStr (ev_capability e)),
            (''status'', PStr (status_value (ev_status e))), (''attempt'', PInt (ev_attempt e)),
            (''workflow_id'', opt_str (ev_workflow_id e))]
      in if ev_event_type e \<in> {TASK_FAILED, TASK_POLICY_DENIED}
         then records @ [\<lparr>lr_level = WARNING, lr_fields = extra, lr_error = ev_error e\<rparr>]
         else records @ [\<lparr>lr_level = INFO, lr_fields = extra, lr_error = None\<rparr>])"

section \<open>Histories\<close>

datatype bus_op =
    Attach loop_state
  | Subscribe
  | Unsubscribe nat
  | Emit bool task_event
  | Shutdown bool
  | Run_Callback
  | Take nat

text \<open>\<open>Take q\<close> is the client taking the first item of its queue.\<close>

fun bus_step :: "bus_op \<Rightarrow> sse_bus \<Rightarrow> sse_bus" where
  "bus_step (Attach l) b = attach_loop l b"
| "bus_step Subscribe b = snd (subscribe b)"
| "bus_step (Unsubscribe q) b = unsubscribe q b"
| "bus_step (Emit dead e) b = sse_emit dead e b"
| "bus_step (Shutdown dead) b = sse_shutdown dead b"
| "bus_step Run_Callback b = run_callback b"
| "bus_step (Take q) b = b\<lparr>sb_queues := (sb_queues b)(q := tl (sb_queues b q))\<rparr>"

text \<open>What a client took, in order, and what it is owed: the items pushed while it was subscribed and the
  loop was running.\<close>

fun taken :: "nat \<Rightarrow> bus_op list \<Rightarrow> sse_bus \<Rightarrow> sse_item list" where
  "taken q [] b = []"
| "taken q (op # ops) b =
     (case op of
        Take p \<Rightarrow> if p = q \<and> sb_queues b q \<noteq> [] then hd (sb_queues b q) # taken q ops (bus_step op b)
                  else taken q ops (bus_step op b)
      | _ \<Rightarrow> taken q ops (bus_step op b))"

definition reaches :: "nat \<Rightarrow> sse_bus \<Rightarrow> bool \<Rightarrow> bool" where
  "reaches q b dead \<longleftrightarrow> q \<in> set (sb_subscribers b) \<and> sb_loop b = Loop_Running \<and> \<not> dead"

fun owed :: "nat \<Rightarrow> bus_op list \<Rightarrow> sse_bus \<Rightarrow> sse_item list" where
  "owed q [] b = []"
| "owed q (op # ops) b =
     (case op of
        Emit dead e \<Rightarrow> (if reaches q b dead then [Some e] else []) @ owed q ops (bus_step op b)
      | Shutdown dead \<Rightarrow> (if reaches q b dead then [None] else []) @ owed q ops (bus_step op b)
      | _ \<Rightarrow> owed q ops (bus_step op b))"

definition bus_run :: "bus_op list \<Rightarrow> sse_bus \<Rightarrow> sse_bus" where
  "bus_run ops b = fold bus_step ops b"

definition scheduled :: "nat \<Rightarrow> sse_bus \<Rightarrow> sse_item list" where
  "scheduled q b = map snd (filter (\<lambda>(p, x). p = q) (sb_callbacks b))"

definition bus_ok :: "sse_bus \<Rightarrow> bool" where
  "bus_ok b \<longleftrightarrow> distinct (sb_subscribers b) \<and> list_all (\<lambda>q. q < sb_next b) (sb_subscribers b)"

lemma bus_ok_init [simp]: "bus_ok bus_init"
  by (simp add: bus_ok_def bus_init_def)

lemma call_soon_fields [simp]:
  "sb_subscribers (call_soon_all dead qs x b) = sb_subscribers b" "sb_next (call_soon_all dead qs x b) = sb_next b"
  "sb_queues (call_soon_all dead qs x b) = sb_queues b" "sb_loop (call_soon_all dead qs x b) = sb_loop b"
  by (induction qs arbitrary: b) auto

lemma call_soon_callbacks:
  "sb_callbacks (call_soon_all dead qs x b) = sb_callbacks b @ (if dead then [] else map (\<lambda>q. (q, x)) qs)"
  by (induction qs arbitrary: b) auto

lemma bus_step_ok: "bus_ok b \<Longrightarrow> bus_ok (bus_step op b)"
  by (cases op)
     (auto simp: bus_ok_def attach_loop_def subscribe_def unsubscribe_def sse_emit_def sse_shutdown_def bus_push_def
        run_callback_def list_all_iff Let_def split: list.splits dest: set_remove1_subset [THEN subsetD])

lemma push_scheduled:
  "bus_ok b \<Longrightarrow> scheduled q (bus_push dead x b) = scheduled q b @ (if reaches q b dead then [x] else [])"
proof -
  assume "bus_ok b"
  then have d: "distinct (sb_subscribers b)" by (simp add: bus_ok_def)
  then have "map snd (filter (\<lambda>(p, y). p = q) (map (\<lambda>q. (q, x)) (sb_subscribers b))) =
      (if q \<in> set (sb_subscribers b) then [x] else [])"
  proof (induction "sb_subscribers b" arbitrary: b)
    case Nil
    then show ?case by simp
  next
    case (Cons p ps)
    have "filter (\<lambda>(p, y). p = q) (map (\<lambda>q. (q, x)) ps) = []" if "q \<notin> set ps" for ps
      using that by (auto simp: filter_empty_conv)
    with Cons(1) [of "b\<lparr>sb_subscribers := ps\<rparr>"] Cons(2) [symmetric] Cons(3) show ?case by auto
  qed
  then show ?thesis
    by (auto simp: scheduled_def bus_push_def call_soon_callbacks reaches_def)
qed

lemma push_queues [simp]: "sb_queues (bus_push dead x b) = sb_queues b"
  by (simp add: bus_push_def)

text \<open>In every state: what a client will get is what is in its queue and then what is scheduled for it.\<close>

lemma delivered_in_order:
  "bus_ok b \<Longrightarrow>
     taken q ops b @ sb_queues (bus_run ops b) q @ scheduled q (bus_run ops b) =
     sb_queues b q @ scheduled q b @ owed q ops b"
proof (induction ops arbitrary: b)
  case Nil
  then show ?case by (simp add: bus_run_def)
next
  case (Cons op ops)
  have ih: "taken q ops (bus_step op b) @ sb_queues (bus_run (op # ops) b) q @ scheduled q (bus_run (op # ops) b) =
      sb_queues (bus_step op b) q @ scheduled q (bus_step op b) @ owed q ops (bus_step op b)"
    using Cons.IH [OF bus_step_ok [OF Cons.prems]] by (simp add: bus_run_def)
  show ?case
  proof (cases op)
    case (Emit dead e)
    with ih push_scheduled [OF Cons.prems, of q dead "Some e"] show ?thesis by (simp add: sse_emit_def)
  next
    case (Shutdown dead)
    with ih push_scheduled [OF Cons.prems, of q dead None] show ?thesis by (simp add: sse_shutdown_def)
  next
    case Run_Callback
    with ih show ?thesis
      by (cases "sb_callbacks b") (auto simp: run_callback_def scheduled_def)
  next
    case (Take p)
    with ih show ?thesis by (cases "sb_queues b q") (auto simp: scheduled_def)
  qed (use ih in \<open>simp_all add: attach_loop_def subscribe_def unsubscribe_def scheduled_def Let_def\<close>)
qed


section \<open>Streams\<close>

lemma event_generator_append:
  "event_generator f (ws @ vs) =
     (case event_generator f ws of
        (fs, True) \<Rightarrow> (fs, True)
      | (fs, False) \<Rightarrow> (case event_generator f vs of (gs, ended) \<Rightarrow> (fs @ gs, ended)))"
  by (induction f ws rule: event_generator.induct) (auto split: prod.splits bool.splits)

definition events_before_end :: "wait_result list \<Rightarrow> task_event list" where
  "events_before_end ws =
     concat (map (\<lambda>w. case w of Got (Some e) \<Rightarrow> [e] | _ \<Rightarrow> []) (takeWhile (\<lambda>w. w \<noteq> Got None) ws))"

fun frame_events :: "frame list \<Rightarrow> task_event list" where
  "frame_events [] = []"
| "frame_events (Heartbeat # fs) = frame_events fs"
| "frame_events (Event_Frame n e # fs) = e # frame_events fs"

text \<open>
  A stream forwards exactly the wanted events: the event frames carry, in order, the events of the
  asked types that were read before the shutdown sentinel, every frame is named after its event's
  type, there is one heartbeat for every timeout before the sentinel, and the stream ends exactly
  when the sentinel was read.
\<close>

theorem stream_forwards_wanted_events:
  "frame_events (fst (event_generator f ws)) =
     filter (\<lambda>e. case f of None \<Rightarrow> True | Some ts \<Rightarrow> event_value (ev_event_type e) \<in> set ts) (events_before_end ws) \<and>
   list_all (\<lambda>fr. case fr of Heartbeat \<Rightarrow> True | Event_Frame n e \<Rightarrow> n = event_value (ev_event_type e))
     (fst (event_generator f ws)) \<and>
   length (filter (\<lambda>fr. fr = Heartbeat) (fst (event_generator f ws))) =
     length (filter (\<lambda>w. w = Timed_Out) (takeWhile (\<lambda>w. w \<noteq> Got None) ws)) \<and>
   snd (event_generator f ws) = (Got None \<in> set ws)"
  by (induction f ws rule: event_generator.induct)
     (auto simp: events_before_end_def split: prod.splits option.splits)

end
