(* ===== verification/Cluster.thy ===== *)
theory Cluster
  imports Api
begin

text \<open>
  \<^verbatim>\<open>engine/api/cluster/\<close>: the coordinator's registry of engine nodes and the routes that manage and
  use it.  The HTTP client is a parameter: \<open>he_get\<close> and \<open>he_post\<close> say what a request to an address
  gives, either a response (its status, its decoded body, and the message \<^verbatim>\<open>raise_for_status\<close> would
  raise with) or an exception, which is one of \<^verbatim>\<open>httpx.HTTPError\<close> or another one.

  Nodes are values here.  The code hands out the stored objects themselves, but only \<^verbatim>\<open>heartbeat\<close>
  writes to one, under the lock, and the routes turn a node into a response before they return.
\<close>

section \<open>registry.py\<close>

record engine_node =
  en_id :: string
  en_name :: string
  en_base_url :: string
  en_tags :: "string dict"
  en_capabilities :: "string list"
  en_registered_at :: int
  en_last_seen :: int
  en_healthy :: bool

definition matches_tags :: "engine_node \<Rightarrow> string dict \<Rightarrow> bool" where
  "matches_tags n required = list_all (\<lambda>(k, v). dget (en_tags n) k = Some v) required"

definition has_capability :: "engine_node \<Rightarrow> string \<Rightarrow> bool" where
  "has_capability n name = (name \<in> set (en_capabilities n))"

type_synonym engine_registry = "engine_node dict"

definition er_init :: engine_registry where
  "er_init = []"

definition er_register :: "engine_node \<Rightarrow> engine_registry \<Rightarrow> engine_node \<times> engine_registry" where
  "er_register n r = (n, dset (en_id n) n r)"

definition er_deregister :: "string \<Rightarrow> engine_registry \<Rightarrow> engine_registry" where
  "er_deregister i r = ddel i r"

definition er_get :: "string \<Rightarrow> engine_registry \<Rightarrow> engine_node option" where
  "er_get i r = dget r i"

definition er_list :: "engine_registry \<Rightarrow> engine_node list" where
  "er_list r = sort_key en_name (dvalues r)"

definition er_heartbeat :: "int \<Rightarrow> string \<Rightarrow> bool \<Rightarrow> engine_registry \<Rightarrow> engine_node option \<times> engine_registry" where
  "er_heartbeat now i healthy r =
     (case dget r i of
        None \<Rightarrow> (None, r)
      | Some n \<Rightarrow> let n = n\<lparr>en_last_seen := now, en_healthy := healthy\<rparr> in (Some n, dset i n r))"

definition er_select :: "string dict option \<Rightarrow> engine_registry \<Rightarrow> engine_node list" where
  "er_select tags r =
     (let healthy = filter en_healthy (dvalues r);
          healthy = (case tags of
              None \<Rightarrow> healthy
            | Some required \<Rightarrow> if required = [] then healthy else filter (\<lambda>n. matches_tags n required) healthy)
      in sort_key_desc en_last_seen healthy)"

section \<open>routes.py\<close>

record coordinator =
  co_nodes :: engine_registry
  co_ticks :: nat
  co_ids :: nat

datatype http_failure = Httpx_Error string | Other_Failure exc

record http_response =
  hr_status :: int
  hr_json :: "exc + pyval"
  hr_status_error :: string

record cluster_env =
  ce_clock :: "nat \<Rightarrow> int"
  ce_uuid :: "nat \<Rightarrow> string"
  ce_iso :: "int \<Rightarrow> string"
  he_get :: "string \<Rightarrow> http_failure + http_response"
  he_post :: "string \<Rightarrow> pydict \<Rightarrow> http_failure + http_response"

record node_response =
  nr_id :: string
  nr_name :: string
  nr_base_url :: string
  nr_tags :: "string dict"
  nr_capabilities :: "string list"
  nr_registered_at :: string
  nr_last_seen :: string
  nr_healthy :: bool

definition node_to_response :: "cluster_env \<Rightarrow> engine_node \<Rightarrow> node_response" where
  "node_to_response env n =
     \<lparr>nr_id = en_id n, nr_name = en_name n, nr_base_url = en_base_url n, nr_tags = en_tags n,
      nr_capabilities = en_capabilities n, nr_registered_at = ce_iso env (en_registered_at n),
      nr_last_seen = ce_iso env (en_last_seen n), nr_healthy = en_healthy n\<rparr>"

definition not_registered :: "string \<Rightarrow> api_exc" where
  "not_registered i = http_error 404 ''not_found'' (''Engine '' @ py_repr i @ '' is not registered'')"

definition get_node_or_404 :: "engine_registry \<Rightarrow> string \<Rightarrow> api_exc + engine_node" where
  "get_node_or_404 r i = (case er_get i r of None \<Rightarrow> Inl (not_registered i) | Some n \<Rightarrow> Inr n)"

text \<open>\<^verbatim>\<open>t.split("=", 1)\<close>, for a \<open>t\<close> with the separator in it.\<close>

definition split_once :: "char \<Rightarrow> string \<Rightarrow> string \<times> string" where
  "split_once sep s = (takeWhile (\<lambda>c. c \<noteq> sep) s, tl (dropWhile (\<lambda>c. c \<noteq> sep) s))"

fun parse_tags :: "string list \<Rightarrow> string dict \<Rightarrow> api_exc + string dict" where
  "parse_tags [] tag_filter = Inr tag_filter"
| "parse_tags (t # ts) tag_filter =
     (if CHR ''='' \<notin> set t
      then Inl (http_error 400 ''invalid_tag'' (''Tag must be key=value, got: '' @ py_repr t))
      else let (k, v) = split_once CHR ''='' t in parse_tags ts (dset k v tag_filter))"

definition list_engines ::
  "cluster_env \<Rightarrow> string list option \<Rightarrow> coordinator \<Rightarrow> api_exc + node_response list \<times> nat" where
  "list_engines env tag co =
     (case parse_tags (case tag of None \<Rightarrow> [] | Some ts \<Rightarrow> ts) [] of
        Inl e \<Rightarrow> Inl e
      | Inr tag_filter \<Rightarrow>
          let nodes = er_select (if tag_filter = [] then None else Some tag_filter) (co_nodes co);
              items = map (node_to_response env) nodes
          in Inr (items, length items))"

record register_request =
  rg_name :: string
  rg_base_url :: string
  rg_tags :: "string dict"
  rg_capabilities :: "string list"

definition register_engine :: "cluster_env \<Rightarrow> register_request \<Rightarrow> coordinator \<Rightarrow> node_response \<times> coordinator" where
  "register_engine env body co =
     (let n = \<lparr>en_id = ce_uuid env (co_ids co), en_name = rg_name body,
               en_base_url = rstrip_char CHR ''/'' (rg_base_url body), en_tags = rg_tags body,
               en_capabilities = rg_capabilities body, en_registered_at = ce_clock env (co_ticks co),
               en_last_seen = ce_clock env (Suc (co_ticks co)), en_healthy = True\<rparr>;
          (n, nodes) = er_register n (co_nodes co)
      in (node_to_response env n,
          \<lparr>co_nodes = nodes, co_ticks = Suc (Suc (co_ticks co)), co_ids = Suc (co_ids co)\<rparr>))"

definition get_engine :: "cluster_env \<Rightarrow> string \<Rightarrow> coordinator \<Rightarrow> api_exc + node_response" where
  "get_engine env i co = map_sum id (node_to_response env) (get_node_or_404 (co_nodes co) i)"

definition deregister_engine :: "string \<Rightarrow> coordinator \<Rightarrow> (api_exc + unit) \<times> coordinator" where
  "deregister_engine i co =
     (case get_node_or_404 (co_nodes co) i of
        Inl e \<Rightarrow> (Inl e, co)
      | Inr n \<Rightarrow> (Inr (), co\<lparr>co_nodes := er_deregister i (co_nodes co)\<rparr>))"

definition engine_heartbeat ::
  "cluster_env \<Rightarrow> string \<Rightarrow> bool \<Rightarrow> coordinator \<Rightarrow> (api_exc + node_response) \<times> coordinator" where
  "engine_heartbeat env i healthy co =
     (case er_heartbeat (ce_clock env (co_ticks co)) i healthy (co_nodes co) of
        (None, nodes) \<Rightarrow> (Inl (not_registered i), co)
      | (Some n, nodes) \<Rightarrow> (Inr (node_to_response env n), co\<lparr>co_nodes := nodes, co_ticks := Suc (co_ticks co)\<rparr>))"

text \<open>
  \<^verbatim>\<open>response.raise_for_status()\<close> and \<^verbatim>\<open>response.json()\<close>: only a 2xx status passes, and the body
  decodes or raises, which is not an \<^verbatim>\<open>httpx.HTTPError\<close>.
\<close>

definition json_of_response :: "http_failure + http_response \<Rightarrow> http_failure + pyval" where
  "json_of_response x =
     (case x of
        Inl e \<Rightarrow> Inl e
      | Inr resp \<Rightarrow>
          if 200 \<le> hr_status resp \<and> hr_status resp < 300 then map_sum Other_Failure id (hr_json resp)
          else Inl (Httpx_Error (hr_status_error resp)))"

definition proxied :: "(string \<Rightarrow> string) \<Rightarrow> http_failure + pyval \<Rightarrow> api_exc + pyval" where
  "proxied describe x =
     (case x of
        Inl (Httpx_Error m) \<Rightarrow> Inl (http_error 502 ''proxy_error'' (describe m))
      | Inl (Other_Failure e) \<Rightarrow> Inl (Uncaught e)
      | Inr v \<Rightarrow> Inr v)"

definition could_not_reach :: "string \<Rightarrow> string \<Rightarrow> string" where
  "could_not_reach i m = ''Could not reach engine '' @ py_repr i @ '': '' @ m"

definition get_engine_health :: "cluster_env \<Rightarrow> string \<Rightarrow> coordinator \<Rightarrow> api_exc + pyval" where
  "get_engine_health env i co =
     (case get_node_or_404 (co_nodes co) i of
        Inl e \<Rightarrow> Inl e
      | Inr n \<Rightarrow>
          proxied (could_not_reach i) (json_of_response (he_get env (en_base_url n @ ''/v1/health''))))"

definition get_engine_snapshot :: "cluster_env \<Rightarrow> string \<Rightarrow> coordinator \<Rightarrow> api_exc + pyval" where
  "get_engine_snapshot env i co =
     (case get_node_or_404 (co_nodes co) i of
        Inl e \<Rightarrow> Inl e
      | Inr n \<Rightarrow>
          proxied (could_not_reach i) (json_of_response (he_get env (en_base_url n @ ''/v1/snapshot''))))"

record engine_task_request =
  et_task :: submit_request
  et_engine_tags :: "string dict"

text \<open>\<^verbatim>\<open>body.model_dump(exclude={"engine_tags"})\<close>.\<close>

definition dump_submit :: "submit_request \<Rightarrow> pydict" where
  "dump_submit r =
     [(''name'', PStr (sr_name r)), (''capability'', PStr (sr_capability r)), (''input'', PDict (sr_input r)),
      (''metadata'', PDict (sr_metadata r)), (''max_retries'', PInt (sr_max_retries r)),
      (''workflow_id'', case sr_workflow_id r of None \<Rightarrow> PNone | Some i \<Rightarrow> PStr i)]"

definition run_task_on_engine :: "cluster_env \<Rightarrow> string \<Rightarrow> engine_task_request \<Rightarrow> coordinator \<Rightarrow> api_exc + pyval" where
  "run_task_on_engine env i body co =
     (case get_node_or_404 (co_nodes co) i of
        Inl e \<Rightarrow> Inl e
      | Inr n \<Rightarrow>
          proxied (could_not_reach i)
            (json_of_response (he_post env (en_base_url n @ ''/v1/tasks/run'') (dump_submit (et_task body)))))"

text \<open>What \<^verbatim>\<open>v["routed_to"] = ...\<close> says of a value that is no dict.\<close>

definition no_item_assignment :: "string \<Rightarrow> string" where
  "no_item_assignment c = quote1 @ c @ quote1 @ '' object does not support item assignment''"

fun item_assignment_error :: "pyval \<Rightarrow> string" where
  "item_assignment_error PNone = no_item_assignment ''NoneType''"
| "item_assignment_error (PBool b) = no_item_assignment ''bool''"
| "item_assignment_error (PInt i) = no_item_assignment ''int''"
| "item_assignment_error (PFloat x) = no_item_assignment ''float''"
| "item_assignment_error (PStr s) = no_item_assignment ''str''"
| "item_assignment_error (PTime t) = no_item_assignment ''datetime.datetime''"
| "item_assignment_error (PList vs) = ''list indices must be integers or slices, not str''"
| "item_assignment_error (PDict d) = []"

text \<open>\<^verbatim>\<open>repr\<close> of a dict of strings, and the routing metadata put into a result; a result whose
  \<^verbatim>\<open>metadata\<close> is there and no dict raises \<^verbatim>\<open>TypeError\<close>.\<close>

definition repr_tags :: "string dict \<Rightarrow> string" where
  "repr_tags d = ''{'' @ join_with '', '' (map (\<lambda>(k, v). py_repr k @ '': '' @ py_repr v) d) @ ''}''"

definition routed_to :: "engine_node \<Rightarrow> pyval" where
  "routed_to n =
     PDict [(''engine_id'', PStr (en_id n)), (''name'', PStr (en_name n)), (''base_url'', PStr (en_base_url n))]"

definition annotate_route :: "engine_node \<Rightarrow> pyval \<Rightarrow> http_failure + pyval" where
  "annotate_route n result =
     (case result of
        PDict d \<Rightarrow>
          (case (case dget d ''metadata'' of None \<Rightarrow> PDict [] | Some m \<Rightarrow> m) of
             PDict m \<Rightarrow> Inr (PDict (dset ''metadata'' (PDict (dset ''routed_to'' (routed_to n) m)) d))
           | v \<Rightarrow> Inl (Other_Failure (Other_Exception ''TypeError'' (item_assignment_error v))))
      | v \<Rightarrow> Inr v)"

definition unreachable_engine :: "engine_node \<Rightarrow> string \<Rightarrow> string" where
  "unreachable_engine n m = ''Engine '' @ py_repr (en_id n) @ '' ('' @ en_name n @ '') is unreachable: '' @ m"

definition no_engines :: "string dict \<Rightarrow> api_exc" where
  "no_engines tags = http_error 400 ''no_available_engines''
     (''No healthy engine nodes available'' @ (if tags = [] then [] else '' matching tags '' @ repr_tags tags))"

definition run_task_auto_route :: "cluster_env \<Rightarrow> engine_task_request \<Rightarrow> coordinator \<Rightarrow> api_exc + pyval" where
  "run_task_auto_route env body co =
     (let tags = et_engine_tags body;
          candidates = er_select (if tags = [] then None else Some tags) (co_nodes co)
      in case candidates of
        [] \<Rightarrow> Inl (no_engines tags)
      | n # _ \<Rightarrow>
          proxied (unreachable_engine n)
            (case json_of_response (he_post env (en_base_url n @ ''/v1/tasks/run'') (dump_submit (et_task body))) of
               Inl e \<Rightarrow> Inl e
             | Inr result \<Rightarrow> annotate_route n result))"

end
