(* ===== verification/Cluster_Properties.thy ===== *)
theory Cluster_Properties
  imports Cluster
begin

text \<open>
  What the fleet routes guarantee: which node a routed task goes to, that a node which is gone or has
  reported itself unhealthy gets no more of them, what a tag query lists, and what the proxies make
  of a remote response.
\<close>

section \<open>Selection\<close>

lemma matches_no_tags [simp]: "matches_tags n []"
  by (simp add: matches_tags_def)

definition eligible :: "string dict \<Rightarrow> engine_node \<Rightarrow> bool" where
  "eligible tags n \<longleftrightarrow> en_healthy n \<and> matches_tags n tags"

lemma er_select_eligible:
  "er_select (if tags = [] then None else Some tags) r = sort_key_desc en_last_seen (filter (eligible tags) (dvalues r))"
  by (simp add: er_select_def eligible_def [abs_def] conj_commute)

lemma er_select_healthy: "er_select None r = sort_key_desc en_last_seen (filter en_healthy (dvalues r))"
  by (simp add: er_select_def)

lemma no_engines_status: "error_status (no_engines tags) = 400"
  by (simp add: no_engines_def http_error_def)

section \<open>Routing\<close>

text \<open>
  Auto-routing picks the most recently seen eligible node and no other: when no registered node is
  healthy with all the requested tags, the route answers 400 and sends nothing; otherwise the task is
  posted to one node that is healthy, has every requested tag and was seen no earlier than any other
  such node, and the answer is that node's answer, stamped with the node, or its failure.
\<close>

theorem auto_route_choice:
  "if filter (eligible (et_engine_tags body)) (dvalues (co_nodes co)) = []
   then run_task_auto_route env body co = Inl (no_engines (et_engine_tags body)) \<and>
        error_status (no_engines (et_engine_tags body)) = 400
   else \<exists>n \<in> set (dvalues (co_nodes co)). eligible (et_engine_tags body) n \<and>
        (\<forall>m \<in> set (dvalues (co_nodes co)). eligible (et_engine_tags body) m \<longrightarrow> en_last_seen m \<le> en_last_seen n) \<and>
        run_task_auto_route env body co =
          proxied (unreachable_engine n)
            (case json_of_response (he_post env (en_base_url n @ ''/v1/tasks/run'') (dump_submit (et_task body))) of
               Inl e \<Rightarrow> Inl e
             | Inr result \<Rightarrow> annotate_route n result)"
proof (cases "filter (eligible (et_engine_tags body)) (dvalues (co_nodes co))")
  case Nil
  then show ?thesis
    by (simp add: run_task_auto_route_def er_select_eligible no_engines_status sort_key_desc_def)
next
  case (Cons x xs)
  let ?xs = "filter (eligible (et_engine_tags body)) (dvalues (co_nodes co))"
  obtain n ns where n: "sort_key_desc en_last_seen ?xs = n # ns"
    using Cons by (metis list.exhaust sort_key_desc_Nil_iff list.distinct(1))
  then have "n \<in> set ?xs" by (metis list.set_intros(1) set_sort_key_desc)
  then have "n \<in> set (dvalues (co_nodes co))" and "eligible (et_engine_tags body) n" by auto
  moreover have "\<forall>m \<in> set (dvalues (co_nodes co)). eligible (et_engine_tags body) m \<longrightarrow> en_last_seen m \<le> en_last_seen n"
    using sort_key_desc_first_max [OF n] by simp
  ultimately show ?thesis
    using n Cons by (simp add: run_task_auto_route_def er_select_eligible) (use n Cons in auto)
qed

section \<open>The fleet over time\<close>

datatype fleet_op = Register_Op register_request | Deregister_Op string | Heartbeat_Op string bool

fun fleet_exec :: "cluster_env \<Rightarrow> fleet_op \<Rightarrow> coordinator \<Rightarrow> coordinator" where
  "fleet_exec env (Register_Op body) co = snd (register_engine env body co)"
| "fleet_exec env (Deregister_Op i) co = snd (deregister_engine i co)"
| "fleet_exec env (Heartbeat_Op i h) co = snd (engine_heartbeat env i h co)"

definition fleet_run :: "cluster_env \<Rightarrow> fleet_op list \<Rightarrow> coordinator \<Rightarrow> coordinator" where
  "fleet_run env ops co = fold (fleet_exec env) ops co"

definition fleet_init :: coordinator where
  "fleet_init = \<lparr>co_nodes = er_init, co_ticks = 0, co_ids = 0\<rparr>"

definition fleet_ok :: "cluster_env \<Rightarrow> coordinator \<Rightarrow> bool" where
  "fleet_ok env co \<longleftrightarrow> dict_ok (co_nodes co) \<and>
     (\<forall>i n. dget (co_nodes co) i = Some n \<longrightarrow> en_id n = i \<and> i \<in> ce_uuid env ` {..<co_ids co})"

lemma fleet_step_simps [step_simps]:
  "co_nodes (fleet_exec env (Register_Op body) co) =
     dset (ce_uuid env (co_ids co))
       \<lparr>en_id = ce_uuid env (co_ids co), en_name = rg_name body,
        en_base_url = rstrip_char CHR ''/'' (rg_base_url body), en_tags = rg_tags body,
        en_capabilities = rg_capabilities body, en_registered_at = ce_clock env (co_ticks co),
        en_last_seen = ce_clock env (Suc (co_ticks co)), en_healthy = True\<rparr> (co_nodes co)"
  "co_ids (fleet_exec env (Register_Op body) co) = Suc (co_ids co)"
  "co_nodes (fleet_exec env (Deregister_Op i) co) =
     (if dget (co_nodes co) i = None then co_nodes co else ddel i (co_nodes co))"
  "co_ids (fleet_exec env (Deregister_Op i) co) = co_ids co"
  "co_nodes (fleet_exec env (Heartbeat_Op i h) co) =
     (case dget (co_nodes co) i of
        None \<Rightarrow> co_nodes co
      | Some n \<Rightarrow> dset i (n\<lparr>en_last_seen := ce_clock env (co_ticks co), en_healthy := h\<rparr>) (co_nodes co))"
  "co_ids (fleet_exec env (Heartbeat_Op i h) co) = co_ids co"
  by (simp_all add: register_engine_def er_register_def deregister_engine_def get_node_or_404_def er_get_def
      er_deregister_def engine_heartbeat_def er_heartbeat_def Let_def split: option.split)

declare fleet_exec.simps [simp del]

lemma fleet_exec_ok: "fleet_ok env co \<Longrightarrow> fleet_ok env (fleet_exec env op co)"
  by (cases op) (auto simp: fleet_ok_def step_simps lessThan_Suc split: if_splits option.split)

lemma fleet_run_ok: "fleet_ok env co \<Longrightarrow> fleet_ok env (fleet_run env ops co)"
  unfolding fleet_run_def by (induction ops arbitrary: co) (simp_all add: fleet_exec_ok)

lemma fleet_init_ok: "fleet_ok env fleet_init"
  by (simp add: fleet_ok_def fleet_init_def er_init_def)

text \<open>A node out of service: issued before, and now unknown or unhealthy.\<close>

definition out_of_service :: "cluster_env \<Rightarrow> string \<Rightarrow> coordinator \<Rightarrow> bool" where
  "out_of_service env i co \<longleftrightarrow> i \<in> ce_uuid env ` {..<co_ids co} \<and>
     (case dget (co_nodes co) i of None \<Rightarrow> True | Some n \<Rightarrow> \<not> en_healthy n)"

lemma out_of_service_exec:
  assumes "inj (ce_uuid env)" and "out_of_service env i co" and "op \<noteq> Heartbeat_Op i True"
  shows "out_of_service env i (fleet_exec env op co)"
proof (cases op)
  case (Register_Op body)
  have "ce_uuid env (co_ids co) \<noteq> i"
    using assms(1,2) by (auto simp: out_of_service_def dest: injD)
  with assms(2) Register_Op show ?thesis by (auto simp: out_of_service_def step_simps less_Suc_eq)
qed (use assms in \<open>auto simp: out_of_service_def step_simps split: option.splits\<close>)

lemma out_of_service_run:
  assumes "inj (ce_uuid env)" and "out_of_service env i co" and "Heartbeat_Op i True \<notin> set ops"
  shows "out_of_service env i (fleet_run env ops co)"
  using assms(2,3) unfolding fleet_run_def
proof (induction ops arbitrary: co)
  case (Cons op ops)
  then have "op \<noteq> Heartbeat_Op i True" by auto
  with Cons out_of_service_exec [OF assms(1)] show ?case by simp
qed simp

lemma retired:
  assumes "fleet_ok env co" and "dget (co_nodes co) i \<noteq> None"
  shows "out_of_service env i (fleet_exec env (Deregister_Op i) co)"
    and "out_of_service env i (fleet_exec env (Heartbeat_Op i False) co)"
  using assms by (auto simp: out_of_service_def fleet_ok_def step_simps split: option.splits)

lemma dvalues_ddel: "dvalues (ddel i d) = map snd (filter (\<lambda>p. fst p \<noteq> i) d)"
  by (simp add: dvalues_def ddel_def AList.delete_eq case_prod_unfold eq_commute)

lemma eligible_ddel:
  assumes "dict_ok d" and "\<And>n. dget d i = Some n \<Longrightarrow> \<not> en_healthy n"
  shows "filter (eligible tags) (dvalues (ddel i d)) = filter (eligible tags) (dvalues d)"
proof -
  have "fst p \<noteq> i" if "p \<in> set d" "eligible tags (snd p)" for p
    using assms that dget_Some_iff [OF assms(1), of i "snd p"] by (cases p) (auto simp: eligible_def)
  then have "filter (\<lambda>p. fst p \<noteq> i \<and> eligible tags (snd p)) d = filter (\<lambda>p. eligible tags (snd p)) d"
    by (intro filter_cong) auto
  then show ?thesis unfolding dvalues_ddel unfolding dvalues_def by (simp add: filter_map comp_def)
qed

lemma route_without:
  assumes "fleet_ok env co" and "out_of_service env i co"
  shows "run_task_auto_route env body co = run_task_auto_route env body (co\<lparr>co_nodes := ddel i (co_nodes co)\<rparr>)"
proof -
  have "\<not> en_healthy n" if "dget (co_nodes co) i = Some n" for n
    using assms(2) that by (simp add: out_of_service_def)
  with eligible_ddel [of "co_nodes co" i] assms(1) show ?thesis
    by (simp add: run_task_auto_route_def er_select_eligible fleet_ok_def Let_def)
qed

text \<open>
  C12. An engine that is taken out of service gets no routed tasks until it reports back: after a
  \<^verbatim>\<open>DELETE\<close> of a registered node, or a heartbeat that says it is unhealthy, and whatever registrations,
  removals and heartbeats follow, as long as none is a healthy heartbeat of that node, auto-routing
  answers every request exactly as if the node were not registered, and no tag query selects it.
\<close>

theorem retired_engine_gets_no_traffic:
  assumes "inj (ce_uuid env)" and "er_get i (co_nodes (fleet_run env before fleet_init)) \<noteq> None"
    and "op = Deregister_Op i \<or> op = Heartbeat_Op i False" and "Heartbeat_Op i True \<notin> set ops"
    and "co = fleet_run env (before @ op # ops) fleet_init"
  shows "run_task_auto_route env body co = run_task_auto_route env body (co\<lparr>co_nodes := ddel i (co_nodes co)\<rparr>) \<and>
    i \<notin> en_id ` set (er_select tags (co_nodes co))"
proof -
  let ?co = "fleet_run env before fleet_init"
  have co: "co = fleet_run env ops (fleet_exec env op ?co)" by (simp add: assms(5) fleet_run_def)
  have ok: "fleet_ok env co" by (simp add: assms(5) fleet_run_ok fleet_init_ok)
  have "out_of_service env i (fleet_exec env op ?co)"
    using retired [OF fleet_run_ok [OF fleet_init_ok]] assms(2,3) by (auto simp: er_get_def)
  then have out: "out_of_service env i co"
    unfolding co by (rule out_of_service_run [OF assms(1) _ assms(4)])
  have route: "run_task_auto_route env body co = run_task_auto_route env body (co\<lparr>co_nodes := ddel i (co_nodes co)\<rparr>)"
    using ok out by (rule route_without)
  have "en_healthy n" "n \<in> set (dvalues (co_nodes co))" if "n \<in> set (er_select tags (co_nodes co))" for n
    using that by (auto simp: er_select_def Let_def split: option.splits if_splits)
  moreover have "dget (co_nodes co) (en_id n) = Some n" if "n \<in> set (dvalues (co_nodes co))" for n
    using that ok dget_Some_iff [of "co_nodes co"] by (auto simp: fleet_ok_def dvalues_def)
  ultimately have "i \<notin> en_id ` set (er_select tags (co_nodes co))"
    using out by (fastforce simp: out_of_service_def)
  with route show ?thesis ..
qed

definition demo_fleet_env :: cluster_env where
  "demo_fleet_env = \<lparr>ce_clock = int, ce_uuid = \<lambda>n. replicate n CHR ''e'', ce_iso = show_int,
     he_get = \<lambda>u. Inr \<lparr>hr_status = 503, hr_json = Inr (PDict []), hr_status_error = ''503''\<rparr>,
     he_post = \<lambda>u d. Inr \<lparr>hr_status = 200, hr_json = Inr (PDict d), hr_status_error = []\<rparr>\<rparr>"

definition demo_node :: "string \<Rightarrow> register_request" where
  "demo_node url = \<lparr>rg_name = ''gpu'', rg_base_url = url, rg_tags = [(''pool'', ''gpu'')], rg_capabilities = []\<rparr>"

theorem retired_engine_gets_no_traffic_witness:
  "[] \<notin> en_id ` set (er_select None
     (co_nodes (fleet_run demo_fleet_env
        ([Register_Op (demo_node ''http://a'')] @ Heartbeat_Op [] False # [Register_Op (demo_node ''http://b'')]) fleet_init)))"
proof -
  have inj: "inj (ce_uuid demo_fleet_env)" by (rule injI) (simp add: demo_fleet_env_def)
  have "er_get [] (co_nodes (fleet_run demo_fleet_env [Register_Op (demo_node ''http://a'')] fleet_init)) \<noteq> None"
    by (simp add: fleet_run_def step_simps er_get_def demo_fleet_env_def fleet_init_def)
  from retired_engine_gets_no_traffic [OF inj this, of "Heartbeat_Op [] False" "[Register_Op (demo_node ''http://b'')]"]
  show ?thesis by simp
qed

definition fleet_of_two :: coordinator where
  "fleet_of_two = fleet_run demo_fleet_env
     [Register_Op (demo_node ''http://a''), Register_Op (demo_node ''http://b'')] fleet_init"

theorem auto_route_choice_witness:
  "filter (eligible [(''pool'', ''gpu'')]) (dvalues (co_nodes fleet_of_two)) \<noteq> [] \<and>
   (\<exists>n \<in> set (dvalues (co_nodes fleet_of_two)). eligible [(''pool'', ''gpu'')] n \<and>
      (\<forall>m \<in> set (dvalues (co_nodes fleet_of_two)). en_last_seen m \<le> en_last_seen n))"
proof -
  let ?body = "\<lparr>et_task = \<lparr>sr_name = ''t'', sr_capability = ''echo'', sr_input = [], sr_metadata = [],
      sr_max_retries = 0, sr_workflow_id = None\<rparr>, et_engine_tags = [(''pool'', ''gpu'')]\<rparr>"
  have nodes: "dvalues (co_nodes fleet_of_two) =
    [\<lparr>en_id = [], en_name = ''gpu'', en_base_url = ''http://a'', en_tags = [(''pool'', ''gpu'')],
      en_capabilities = [], en_registered_at = 0, en_last_seen = 1, en_healthy = True\<rparr>,
     \<lparr>en_id = ''e'', en_name = ''gpu'', en_base_url = ''http://b'', en_tags = [(''pool'', ''gpu'')],
      en_capabilities = [], en_registered_at = 2, en_last_seen = 3, en_healthy = True\<rparr>]"
    by (simp add: fleet_of_two_def fleet_run_def fleet_exec.simps register_engine_def er_register_def fleet_init_def
        er_init_def demo_fleet_env_def demo_node_def dvalues_def dset_def rstrip_char_def Let_def)
  have el: "eligible [(''pool'', ''gpu'')] n" if "n \<in> set (dvalues (co_nodes fleet_of_two))" for n
    using that by (auto simp: nodes eligible_def matches_tags_def dget_def)
  have some: "filter (eligible [(''pool'', ''gpu'')]) (dvalues (co_nodes fleet_of_two)) \<noteq> []"
    using el [of "hd (dvalues (co_nodes fleet_of_two))"] by (simp add: nodes)
  from auto_route_choice [of ?body fleet_of_two demo_fleet_env] some obtain n where
    "n \<in> set (dvalues (co_nodes fleet_of_two))"
    "\<forall>m \<in> set (dvalues (co_nodes fleet_of_two)). eligible [(''pool'', ''gpu'')] m \<longrightarrow> en_last_seen m \<le> en_last_seen n"
    by auto
  with some el show ?thesis by blast
qed

section \<open>Tag queries\<close>

lemma split_once_key: "CHR ''='' \<notin> set k \<Longrightarrow> split_once CHR ''='' (k @ ''='' @ v) = (k, v)"
  by (induction k) (auto simp: split_once_def)

lemma dset_new: "dget d k = None \<Longrightarrow> dset k v d = d @ [(k, v)]"
  by (induction d) (auto simp: dset_def dget_def split: if_splits)

lemma parse_tags_query:
  assumes "list_all (\<lambda>(k, v). CHR ''='' \<notin> set k) kvs" and "distinct (map fst (acc @ kvs))"
  shows "parse_tags (map (\<lambda>(k, v). k @ ''='' @ v) kvs) acc = Inr (acc @ kvs)"
  using assms
proof (induction kvs arbitrary: acc)
  case (Cons p kvs)
  obtain k v where p: "p = (k, v)" by fastforce
  have "dget acc k = None" using Cons.prems(2) p by (force simp: dget_None_iff dkeys_def)
  moreover have "distinct (map fst ((acc @ [(k, v)]) @ kvs))" using Cons.prems(2) p by simp
  ultimately show ?case
    using Cons.IH [of "acc @ [(k, v)]"] Cons.prems(1) split_once_key [of k v] p by (simp add: dset_new)
qed simp

lemma parse_tags_invalid:
  "\<not> list_all (\<lambda>t. CHR ''='' \<in> set t) ts \<Longrightarrow>
     \<exists>t \<in> set ts. parse_tags ts acc = Inl (http_error 400 ''invalid_tag'' (''Tag must be key=value, got: '' @ py_repr t))"
  by (induction ts arbitrary: acc) (auto split: prod.split)

text \<open>
  A tag query lists the healthy nodes that have every tag, most recently seen first: for distinct
  keys without \<^verbatim>\<open>=\<close>, the query \<^verbatim>\<open>tag=k=v\<close> for each pair returns exactly the eligible nodes and their
  number, also when there are no pairs, so an unhealthy node is not in the listing of \<^verbatim>\<open>all registered\<close>
  nodes although it can still be fetched by its id.
\<close>

theorem tag_query_lists_eligible_engines:
  assumes "list_all (\<lambda>(k, v). CHR ''='' \<notin> set k) kvs" and "distinct (map fst kvs)"
  shows "(\<exists>nodes. list_engines env (Some (map (\<lambda>(k, v). k @ ''='' @ v) kvs)) co =
       Inr (map (node_to_response env) nodes, length nodes) \<and>
     mset nodes = mset (filter (eligible kvs) (dvalues (co_nodes co))) \<and>
     sorted_wrt (\<lambda>x y. en_last_seen y \<le> en_last_seen x) nodes) \<and>
   (\<forall>n. dget (co_nodes co) i = Some n \<longrightarrow> get_engine env i co = Inr (node_to_response env n))"
proof -
  let ?nodes = "sort_key_desc en_last_seen (filter (eligible kvs) (dvalues (co_nodes co)))"
  have "parse_tags (map (\<lambda>(k, v). k @ ''='' @ v) kvs) [] = Inr kvs"
    using parse_tags_query [OF assms(1), of "[]"] assms(2) by simp
  then have "list_engines env (Some (map (\<lambda>(k, v). k @ ''='' @ v) kvs)) co =
      Inr (map (node_to_response env) ?nodes, length ?nodes)"
    by (simp only: list_engines_def option.simps sum.simps er_select_eligible Let_def length_map)
  moreover have "\<forall>n. dget (co_nodes co) i = Some n \<longrightarrow> get_engine env i co = Inr (node_to_response env n)"
    by (simp add: get_engine_def get_node_or_404_def er_get_def)
  ultimately show ?thesis by (metis mset_sort_key_desc sorted_sort_key_desc)
qed

theorem tag_query_lists_eligible_engines_witness:
  "\<exists>nodes. list_engines demo_fleet_env (Some [''pool=gpu'', ''expr=a=b'']) fleet_of_two =
     Inr (map (node_to_response demo_fleet_env) nodes, length nodes) \<and>
     mset nodes = mset (filter (eligible [(''pool'', ''gpu''), (''expr'', ''a=b'')]) (dvalues (co_nodes fleet_of_two)))"
  using tag_query_lists_eligible_engines [of "[(''pool'', ''gpu''), (''expr'', ''a=b'')]" demo_fleet_env fleet_of_two]
  by auto

section \<open>Proxies\<close>

text \<open>
  What a proxied health check answers: 404 for an unknown node; the remote body, as it is, when the
  remote answered 2xx; and a 502 that says the node could not be reached in every other case the HTTP
  client reports, also when the node was reached and answered 503 because it is degraded, so that its
  health body is lost and it cannot be told from a node that is down.
\<close>

theorem proxied_health_outcomes:
  "dget (co_nodes co) i = None \<Longrightarrow> get_engine_health env i co = Inl (not_registered i)"
  "dget (co_nodes co) i = Some n \<Longrightarrow> he_get env (en_base_url n @ ''/v1/health'') = Inr resp \<Longrightarrow>
     hr_json resp = Inr v \<Longrightarrow> 200 \<le> hr_status resp \<Longrightarrow>
     get_engine_health env i co =
       (if hr_status resp < 300 then Inr v
        else Inl (http_error 502 ''proxy_error'' (could_not_reach i (hr_status_error resp))))"
  "dget (co_nodes co) i = Some n \<Longrightarrow> he_get env (en_base_url n @ ''/v1/health'') = Inl (Httpx_Error m) \<Longrightarrow>
     get_engine_health env i co = Inl (http_error 502 ''proxy_error'' (could_not_reach i m))"
  by (simp_all add: get_engine_health_def get_node_or_404_def er_get_def json_of_response_def proxied_def)

theorem proxied_health_outcomes_witness:
  "get_engine_health demo_fleet_env ''e'' fleet_of_two =
     Inl (http_error 502 ''proxy_error'' (could_not_reach ''e'' ''503''))"
proof -
  have "\<exists>n. dget (co_nodes fleet_of_two) ''e'' = Some n"
    by (simp add: fleet_of_two_def fleet_run_def step_simps demo_fleet_env_def fleet_init_def)
  then obtain n where n: "dget (co_nodes fleet_of_two) ''e'' = Some n" ..
  from proxied_health_outcomes(2) [OF n, of demo_fleet_env] show ?thesis
    by (simp add: demo_fleet_env_def)
qed

end
