(* ===== verification/Capabilities.thy ===== *)
theory Capabilities
  imports Contracts
begin

text \<open>
  \<^verbatim>\<open>engine/capabilities/\<close> and \<^verbatim>\<open>ensure_local_path\<close> of \<^verbatim>\<open>engine/guardrails/validation.py\<close>: the bundled
  echo, filesystem, HTTP and MCP capabilities.

  The file system is a state: the files with their bytes and the directories.  How the operating
  system resolves a path (\<^verbatim>\<open>Path.resolve\<close>, with its symbolic links), when it refuses to open one, and
  the text codecs are a parameter.  A path is the list of its components; a text that starts with
  two slashes is taken as starting with one.  Validation against the input models follows pydantic
  for the field types they have (text fields take text only, unknown fields are dropped); the text
  of a \<^verbatim>\<open>ValidationError\<close> is a parameter.
\<close>

section \<open>echo.py\<close>

definition echo_validate :: "(pydict \<Rightarrow> string) \<Rightarrow> pydict \<Rightarrow> exc + pyval" where
  "echo_validate pydantic_error payload =
     (case dget payload ''message'' of
        Some (PStr m) \<Rightarrow> Inr (PDict [(''message'', PStr m)])
      | _ \<Rightarrow> Inl (Validation_Error (pydantic_error payload)))"

definition echo_descriptor :: cap_descriptor where
  "echo_descriptor = \<lparr>cd_name = ''echo'', cd_description = ''Return the provided message unchanged.'',
     cd_risk_level = LOW, cd_tags = [''testing'', ''utility''], cd_require_approval = False\<rparr>"

definition echo_execute :: "(pydict \<Rightarrow> string) \<Rightarrow> pyval \<Rightarrow> cap_context \<Rightarrow> exc + cap_result" where
  "echo_execute pydantic_error payload ctx =
     (case payload of
        PDict d \<Rightarrow> map_sum id (\<lambda>out. \<lparr>cr_output = out, cr_metadata = [(''task_id'', PStr (cc_task_id ctx))]\<rparr>)
          (echo_validate pydantic_error d)
      | _ \<Rightarrow> Inl (Validation_Error (pydantic_error [])))"

definition echo_capability :: "(pydict \<Rightarrow> string) \<Rightarrow> (nat \<Rightarrow> rat) \<Rightarrow> capability" where
  "echo_capability pydantic_error elapsed =
     \<lparr>cap_descriptor = echo_descriptor, cap_validate_input = echo_validate pydantic_error,
      cap_execute = (\<lambda>n payload ctx. (elapsed n, echo_execute pydantic_error payload ctx))\<rparr>"

section \<open>Paths\<close>

type_synonym fpath = "string list"

definition path_components :: "string \<Rightarrow> fpath" where
  "path_components s = filter (\<lambda>p. p \<noteq> [] \<and> p \<noteq> ''.'') (split_on CHR ''/'' s)"

definition is_absolute :: "string \<Rightarrow> bool" where
  "is_absolute s = prefix_of ''/'' s"

definition path_text :: "fpath \<Rightarrow> string" where
  "path_text p = ''/'' @ join_with ''/'' p"

definition path_parent :: "fpath \<Rightarrow> fpath" where
  "path_parent p = butlast p"

definition is_under :: "fpath \<Rightarrow> fpath \<Rightarrow> bool" where
  "is_under base p \<longleftrightarrow> take (length base) p = base"

definition ensure_local_path :: "(fpath \<Rightarrow> fpath) \<Rightarrow> string \<Rightarrow> fpath \<Rightarrow> exc + fpath" where
  "ensure_local_path resolve path base_path =
     (let resolved = resolve (if is_absolute path then path_components path else base_path @ path_components path);
          base = resolve base_path
      in if is_under base resolved then Inr resolved
         else Inl (Value_Error (''Path '' @ quote1 @ path @ quote1 @ '' escapes the configured filesystem root'')))"

section \<open>filesystem.py\<close>

datatype fs_action = Read_Text | Write_Text | List_Dir

record fs_input =
  fi_action :: fs_action
  fi_path :: string
  fi_content :: "string option"
  fi_encoding :: string

definition action_of :: "pyval option \<Rightarrow> fs_action option" where
  "action_of v =
     (if v = Some (PStr ''read_text'') then Some Read_Text
      else if v = Some (PStr ''write_text'') then Some Write_Text
      else if v = Some (PStr ''list_dir'') then Some List_Dir else None)"

definition content_of :: "pyval option \<Rightarrow> string option option" where
  "content_of v = (case v of None \<Rightarrow> Some None | Some PNone \<Rightarrow> Some None | Some (PStr s) \<Rightarrow> Some (Some s) | _ \<Rightarrow> None)"

definition encoding_of :: "pyval option \<Rightarrow> string option" where
  "encoding_of v = (case v of None \<Rightarrow> Some ''utf-8'' | Some (PStr s) \<Rightarrow> Some s | _ \<Rightarrow> None)"

definition fs_input_validate :: "(pydict \<Rightarrow> string) \<Rightarrow> pydict \<Rightarrow> exc + fs_input" where
  "fs_input_validate pydantic_error payload =
     (case (action_of (dget payload ''action''), dget payload ''path'', content_of (dget payload ''content''),
            encoding_of (dget payload ''encoding'')) of
        (Some a, Some (PStr p), Some c, Some e) \<Rightarrow>
          Inr \<lparr>fi_action = a, fi_path = p, fi_content = c, fi_encoding = e\<rparr>
      | _ \<Rightarrow> Inl (Validation_Error (pydantic_error payload)))"

record fs_state =
  fs_files :: "(fpath \<times> string) list"
  fs_dirs :: "fpath list"

text \<open>What the operating system and the codecs do: resolve a path, refuse to open one for reading or
  writing or to make directories (in a state), encode and decode.\<close>

record fs_env =
  fe_resolve :: "fpath \<Rightarrow> fpath"
  fe_refuses :: "fs_action \<Rightarrow> fpath \<Rightarrow> fs_state \<Rightarrow> exc option"
  fe_mkdir_refuses :: "fpath \<Rightarrow> fs_state \<Rightarrow> exc option"
  fe_encode :: "string \<Rightarrow> string \<Rightarrow> exc + string"
  fe_decode :: "string \<Rightarrow> string \<Rightarrow> exc + string"
  fe_pydantic_error :: "pydict \<Rightarrow> string"

definition fs_validate_input :: "fs_env \<Rightarrow> fpath \<Rightarrow> pydict \<Rightarrow> exc + fs_input" where
  "fs_validate_input env base_path payload =
     (case fs_input_validate (fe_pydantic_error env) payload of
        Inl e \<Rightarrow> Inl e
      | Inr request \<Rightarrow>
          (case ensure_local_path (fe_resolve env) (fi_path request) base_path of
             Inl e \<Rightarrow> Inl e
           | Inr target \<Rightarrow> Inr request))"

text \<open>\<^verbatim>\<open>target.read_text(encoding=...)\<close>.\<close>

definition read_text :: "fs_env \<Rightarrow> fpath \<Rightarrow> string \<Rightarrow> fs_state \<Rightarrow> exc + string" where
  "read_text env target encoding s =
     (case fe_refuses env Read_Text target s of
        Some e \<Rightarrow> Inl e
      | None \<Rightarrow>
          (case map_of (fs_files s) target of
             None \<Rightarrow> Inl (OS_Error (''No such file or directory: '' @ path_text target))
           | Some bytes \<Rightarrow> fe_decode env encoding bytes))"

text \<open>\<^verbatim>\<open>mkdir(parents=True, exist_ok=True)\<close>: every prefix of the path becomes a directory.\<close>

fun prefixes_of :: "fpath \<Rightarrow> fpath list" where
  "prefixes_of [] = [[]]"
| "prefixes_of (c # p) = [] # map (\<lambda>q. c # q) (prefixes_of p)"

definition mkdir_parents :: "fs_env \<Rightarrow> fpath \<Rightarrow> fs_state \<Rightarrow> (exc + unit) \<times> fs_state" where
  "mkdir_parents env p s =
     (case fe_mkdir_refuses env p s of
        Some e \<Rightarrow> (Inl e, s)
      | None \<Rightarrow> (Inr (), s\<lparr>fs_dirs := fs_dirs s @ filter (\<lambda>q. q \<notin> set (fs_dirs s)) (prefixes_of p)\<rparr>))"

text \<open>\<^verbatim>\<open>target.write_text(text, encoding=...)\<close>: opening truncates the file, so a text that does not
  encode leaves it empty.\<close>

definition write_text :: "fs_env \<Rightarrow> fpath \<Rightarrow> string \<Rightarrow> string \<Rightarrow> fs_state \<Rightarrow> (exc + unit) \<times> fs_state" where
  "write_text env target encoding text s =
     (case fe_refuses env Write_Text target s of
        Some e \<Rightarrow> (Inl e, s)
      | None \<Rightarrow>
          (case fe_encode env encoding text of
             Inl e \<Rightarrow> (Inl e, s\<lparr>fs_files := AList.update target [] (fs_files s)\<rparr>)
           | Inr bytes \<Rightarrow> (Inr (), s\<lparr>fs_files := AList.update target bytes (fs_files s)\<rparr>)))"

text \<open>\<^verbatim>\<open>sorted(item.name for item in target.iterdir())\<close>.\<close>

definition child_names :: "fpath \<Rightarrow> fs_state \<Rightarrow> string list" where
  "child_names target s =
     sort (remdups (map last (filter (\<lambda>p. p \<noteq> [] \<and> butlast p = target) (map fst (fs_files s) @ fs_dirs s))))"

definition list_dir :: "fs_env \<Rightarrow> fpath \<Rightarrow> fs_state \<Rightarrow> exc + string list" where
  "list_dir env target s =
     (case fe_refuses env List_Dir target s of
        Some e \<Rightarrow> Inl e
      | None \<Rightarrow>
          if target \<in> set (fs_dirs s) then Inr (child_names target s)
          else Inl (OS_Error (''Not a directory: '' @ path_text target)))"

definition fs_execute ::
  "fs_env \<Rightarrow> fpath \<Rightarrow> fs_input \<Rightarrow> cap_context \<Rightarrow> fs_state \<Rightarrow> (exc + cap_result) \<times> fs_state" where
  "fs_execute env base_path request ctx s =
     (case ensure_local_path (fe_resolve env) (fi_path request) base_path of
        Inl e \<Rightarrow> (Inl e, s)
      | Inr target \<Rightarrow>
          (case fi_action request of
             Read_Text \<Rightarrow>
               (map_sum id (\<lambda>content. \<lparr>cr_output = PDict [(''path'', PStr (path_text target)), (''content'', PStr content)],
                    cr_metadata = []\<rparr>)
                 (read_text env target (fi_encoding request) s), s)
           | Write_Text \<Rightarrow>
               let text = (case fi_content request of None \<Rightarrow> [] | Some c \<Rightarrow> c) in
               (case mkdir_parents env (path_parent target) s of
                  (Inl e, s) \<Rightarrow> (Inl e, s)
                | (Inr u, s) \<Rightarrow>
                    (case write_text env target (fi_encoding request) text s of
                       (Inl e, s) \<Rightarrow> (Inl e, s)
                     | (Inr u, s) \<Rightarrow>
                         (Inr \<lparr>cr_output = PDict [(''path'', PStr (path_text target)),
                                 (''bytes_written'', PInt (int (length text)))],
                               cr_metadata = [(''actor'', PStr (cc_task_name ctx))]\<rparr>, s)))
           | List_Dir \<Rightarrow>
               (map_sum id (\<lambda>entries. \<lparr>cr_output = PDict [(''path'', PStr (path_text target)),
                    (''entries'', PList (map PStr entries))], cr_metadata = []\<rparr>)
                 (list_dir env target s), s)))"

definition fs_descriptor :: cap_descriptor where
  "fs_descriptor = \<lparr>cd_name = ''filesystem'',
     cd_description = ''Read, write, and list files under a configured root path.'',
     cd_risk_level = MEDIUM, cd_tags = [''io'', ''local''], cd_require_approval = False\<rparr>"

section \<open>http.py\<close>

text \<open>The descriptor; validating the input and sending the request are pydantic's and httpx's work.  A
  response is its address, its status and its text, or the error \<^verbatim>\<open>raise_for_status\<close> raises.\<close>

definition http_descriptor :: cap_descriptor where
  "http_descriptor = \<lparr>cd_name = ''http'', cd_description = ''Perform simple HTTP GET or POST requests.'',
     cd_risk_level = MEDIUM, cd_tags = [''network'', ''api''], cd_require_approval = False\<rparr>"

definition http_execute ::
  "('i \<Rightarrow> exc + string \<times> int \<times> string) \<Rightarrow> 'i \<Rightarrow> cap_context \<Rightarrow> exc + cap_result" where
  "http_execute send request ctx =
     (case send request of
        Inl e \<Rightarrow> Inl e
      | Inr (url, status_code, text) \<Rightarrow>
          Inr \<lparr>cr_output = PDict [(''url'', PStr url), (''status_code'', PInt status_code), (''text'', PStr text)],
               cr_metadata = [(''task_id'', PStr (cc_task_id ctx))]\<rparr>)"

section \<open>mcp.py\<close>

text \<open>What an injected executor may return: a \<^verbatim>\<open>CapabilityResult\<close>, or any value.  \<open>mc_dict\<close> is Python's
  \<^verbatim>\<open>dict(v)\<close> for a \<open>v\<close> that is no dict.\<close>

datatype mcp_reply = Capability_Result cap_result | Plain_Value pyval

record mcp_capability =
  mc_tool_name :: string
  mc_executor :: "string \<Rightarrow> pydict \<Rightarrow> cap_context \<Rightarrow> exc + mcp_reply"
  mc_dict :: "pyval \<Rightarrow> exc + pydict"
  mc_descriptor :: cap_descriptor

definition mcp_init ::
  "string \<Rightarrow> (string \<Rightarrow> pydict \<Rightarrow> cap_context \<Rightarrow> exc + mcp_reply) \<Rightarrow> (pyval \<Rightarrow> exc + pydict) \<Rightarrow>
   string option \<Rightarrow> string option \<Rightarrow> risk_level \<Rightarrow> string list option \<Rightarrow> mcp_capability" where
  "mcp_init tool_name executor pydict_of name description risk_level tags =
     \<lparr>mc_tool_name = tool_name, mc_executor = executor, mc_dict = pydict_of,
      mc_descriptor =
        \<lparr>cd_name = opt_or name tool_name,
         cd_description = opt_or description
           (''Invoke MCP tool '' @ quote1 @ tool_name @ quote1 @ '' via an injected executor.''),
         cd_risk_level = risk_level,
         cd_tags = (case tags of None \<Rightarrow> [''mcp''] | Some ts \<Rightarrow> if ts = [] then [''mcp''] else ts),
         cd_require_approval = False\<rparr>\<rparr>"

definition mcp_validate :: "(pydict \<Rightarrow> string) \<Rightarrow> pydict \<Rightarrow> exc + pydict" where
  "mcp_validate pydantic_error payload =
     (case dget payload ''arguments'' of
        None \<Rightarrow> Inr []
      | Some (PDict d) \<Rightarrow> Inr d
      | _ \<Rightarrow> Inl (Validation_Error (pydantic_error payload)))"

definition mcp_result :: "(pyval \<Rightarrow> exc + pydict) \<Rightarrow> pyval \<Rightarrow> exc + cap_result" where
  "mcp_result pydict_of result =
     (case result of
        PDict d \<Rightarrow>
          if set (dkeys d) \<subseteq> {''output'', ''metadata''}
          then (case (case dget d ''metadata'' of None \<Rightarrow> Inr [] | Some (PDict m) \<Rightarrow> Inr m | Some v \<Rightarrow> pydict_of v) of
                  Inl e \<Rightarrow> Inl e
                | Inr metadata \<Rightarrow>
                    Inr \<lparr>cr_output = (case dget d ''output'' of None \<Rightarrow> PNone | Some v \<Rightarrow> v), cr_metadata = metadata\<rparr>)
          else Inr \<lparr>cr_output = result, cr_metadata = []\<rparr>
      | v \<Rightarrow> Inr \<lparr>cr_output = v, cr_metadata = []\<rparr>)"

definition mcp_execute :: "mcp_capability \<Rightarrow> pydict \<Rightarrow> cap_context \<Rightarrow> exc + cap_result" where
  "mcp_execute c arguments ctx =
     (case mc_executor c (mc_tool_name c) arguments ctx of
        Inl e \<Rightarrow> Inl e
      | Inr (Capability_Result r) \<Rightarrow> Inr r
      | Inr (Plain_Value v) \<Rightarrow> mcp_result (mc_dict c) v)"

section \<open>The filesystem capability stays inside its root\<close>

lemma ensure_local_path_under:
  "ensure_local_path resolve path base = Inr p \<Longrightarrow> is_under (resolve base) p"
  by (auto simp: ensure_local_path_def Let_def split: if_splits)

lemma map_of_update_other: "q \<noteq> p \<Longrightarrow> map_of (AList.update p v xs) q = map_of xs q"
  by (simp add: update_conv')

lemma write_text_elsewhere:
  "write_text env target enc text s = (r, s') \<Longrightarrow>
     (\<forall>q. q \<noteq> target \<longrightarrow> map_of (fs_files s') q = map_of (fs_files s) q) \<and> fs_dirs s' = fs_dirs s"
  by (auto simp: write_text_def map_of_update_other split: option.splits sum.splits)

lemma prefixes_of_iff: "q \<in> set (prefixes_of p) \<longleftrightarrow> take (length q) p = q"
proof (induction p arbitrary: q)
  case Nil
  show ?case by auto
next
  case (Cons c p)
  show ?case by (cases q) (auto simp: Cons)
qed

lemma mkdir_parents_effect:
  "mkdir_parents env p s = (r, s') \<Longrightarrow>
     fs_files s' = fs_files s \<and> set (fs_dirs s) \<subseteq> set (fs_dirs s') \<and>
     (\<forall>q. q \<in> set (fs_dirs s') \<longrightarrow> q \<in> set (fs_dirs s) \<or> take (length q) p = q)"
  by (auto simp: mkdir_parents_def prefixes_of_iff split: option.splits)


text \<open>A file system without links (\<open>resolve\<close> removes \<open>..\<close>), in which nothing is refused and text is
  stored as it is.\<close>

definition lexical_resolve :: "fpath \<Rightarrow> fpath" where
  "lexical_resolve p = rev (fold (\<lambda>c acc. if c = ''..'' then tl acc else c # acc) p [])"

definition plain_fs :: fs_env where
  "plain_fs = \<lparr>fe_resolve = lexical_resolve, fe_refuses = \<lambda>a p s. None, fe_mkdir_refuses = \<lambda>p s. None,
     fe_encode = \<lambda>e t. Inr t, fe_decode = \<lambda>e b. Inr b, fe_pydantic_error = \<lambda>d. ''invalid''\<rparr>"

definition demo_fs :: fs_state where
  "demo_fs = \<lparr>fs_files = [([''etc'', ''passwd''], ''secret'')], fs_dirs = [[], [''etc'']]\<rparr>"

definition demo_ctx :: cap_context where
  "demo_ctx = \<lparr>cc_task_id = ''1'', cc_task_name = ''t'', cc_workdir = ''/w''\<rparr>"

definition write_request :: "string \<Rightarrow> fs_input" where
  "write_request p = \<lparr>fi_action = Write_Text, fi_path = p, fi_content = Some ''hi'', fi_encoding = ''utf-8''\<rparr>"


text \<open>
  What was written is what is read: after a successful \<^verbatim>\<open>write_text\<close> of a text, reading the same
  path with the same encoding gives that text back (where the operating system does not refuse the
  read and the codec decodes what it encodes), also when the text was absent, which writes an empty
  file; and the reported number of bytes is the length of the UTF-8 text, whatever the encoding.
\<close>

theorem written_text_reads_back:
  assumes "fs_execute env base \<lparr>fi_action = Write_Text, fi_path = path, fi_content = content, fi_encoding = enc\<rparr> ctx s =
      (Inr res, s')"
    and "fe_encode env enc text = Inr bytes" and "fe_decode env enc bytes = Inr text"
    and "text = (case content of None \<Rightarrow> [] | Some c \<Rightarrow> c)" and "fe_refuses env Read_Text = (\<lambda>p s. None)"
  shows "\<exists>p. fs_execute env base \<lparr>fi_action = Read_Text, fi_path = path, fi_content = other, fi_encoding = enc\<rparr> ctx' s' =
       (Inr \<lparr>cr_output = PDict [(''path'', PStr p), (''content'', PStr text)], cr_metadata = []\<rparr>, s') \<and>
     cr_output res = PDict [(''path'', PStr p), (''bytes_written'', PInt (int (length text)))]"
  using assms
  by (auto simp: fs_execute_def write_text_def read_text_def update_conv' Let_def split: sum.splits prod.splits option.splits)

theorem written_text_reads_back_witness:
  "\<exists>p s'. snd (fs_execute plain_fs [''w''] (write_request ''a'') demo_ctx demo_fs) = s' \<and>
     fst (fs_execute plain_fs [''w''] \<lparr>fi_action = Read_Text, fi_path = ''a'', fi_content = None, fi_encoding = ''utf-8''\<rparr>
       demo_ctx s') =
     Inr \<lparr>cr_output = PDict [(''path'', PStr p), (''content'', PStr ''hi'')], cr_metadata = []\<rparr>"
proof -
  have "case fst (fs_execute plain_fs [''w''] (write_request ''a'') demo_ctx demo_fs) of Inl e \<Rightarrow> False | Inr r \<Rightarrow> True"
    by code_simp
  then obtain r s' where r: "fs_execute plain_fs [''w''] (write_request ''a'') demo_ctx demo_fs = (Inr r, s')"
    by (metis (no_types, lifting) prod.collapse sum.case_eq_if sum.collapse(2))
  from written_text_reads_back [OF r [unfolded write_request_def], of "''hi''" "''hi''" None demo_ctx] r
  show ?thesis by (auto simp: plain_fs_def)
qed

end
