(* ===== verification/Loader.thy ===== *)
theory Loader
  imports Registry Capabilities Policies
begin

text \<open>
  \<^verbatim>\<open>engine/loader.py\<close>: building the capability registry from a YAML file.  Reading and parsing the
  file, importing a class, pydantic's validation of the controls, \<^verbatim>\<open>dict(v)\<close> of a value that is no
  dict and the resolution of paths are parameters.

  \<^verbatim>\<open>Capability.descriptor\<close> is a property.  The bundled capabilities build a new descriptor on every
  access, and \<^verbatim>\<open>MCPCapability\<close> returns the one it keeps: which of the two an instance does decides what
  an assignment to an attribute of \<^verbatim>\<open>cap_instance.descriptor\<close> changes.
\<close>

record cap_instance =
  ci_capability :: capability
  ci_keeps_descriptor :: bool

definition assign_require_approval :: "cap_instance \<Rightarrow> cap_instance" where
  "assign_require_approval i =
     (if ci_keeps_descriptor i
      then i\<lparr>ci_capability := (ci_capability i)
             \<lparr>cap_descriptor := (cap_descriptor (ci_capability i))\<lparr>cd_require_approval := True\<rparr>\<rparr>\<rparr>
      else i)"

datatype imported = Capability_Class "pydict \<Rightarrow> exc + cap_instance" | Not_A_Capability

type_synonym behaviour = "(pydict \<Rightarrow> exc + pyval) \<times> (nat \<Rightarrow> pyval \<Rightarrow> cap_context \<Rightarrow> rat \<times> (exc + cap_result))"

record loader_env =
  le_exists :: "string \<Rightarrow> bool"
  le_safe_load :: "string \<Rightarrow> exc + pyval"
  le_import :: "string \<Rightarrow> string \<Rightarrow> exc + imported"
  le_resolve :: "string \<Rightarrow> string"
  le_resolve_beside :: "string \<Rightarrow> string \<Rightarrow> string"
  le_controls :: "pyval \<Rightarrow> exc + exec_controls"
  le_dict :: "pyval \<Rightarrow> exc + pydict"
  le_echo :: behaviour
  le_filesystem :: "string \<Rightarrow> behaviour"
  le_http :: behaviour

section \<open>Importing a class\<close>

definition partition_colon :: "string \<Rightarrow> string \<times> string" where
  "partition_colon s = (takeWhile (\<lambda>c. c \<noteq> CHR '':'') s, tl (dropWhile (\<lambda>c. c \<noteq> CHR '':'') s))"

definition import_object :: "loader_env \<Rightarrow> string \<Rightarrow> exc + (pydict \<Rightarrow> exc + cap_instance)" where
  "import_object env import_path =
     (let (module_name, attribute) = partition_colon import_path in
      if module_name = [] \<or> attribute = []
      then Inl (Value_Error (''Invalid import path '' @ quote1 @ import_path @ quote1 @ ''. Expected format '' @
             quote1 @ ''package.module:ClassName'' @ quote1))
      else case le_import env module_name attribute of
          Inl e \<Rightarrow> Inl e
        | Inr (Capability_Class f) \<Rightarrow> Inr f
        | Inr Not_A_Capability \<Rightarrow>
            Inl (Value_Error (''Imported object '' @ quote1 @ import_path @ quote1 @ '' is not a Capability subclass'')))"

section \<open>Built-ins\<close>

definition bundled_instance :: "cap_descriptor \<Rightarrow> behaviour \<Rightarrow> cap_instance" where
  "bundled_instance d b =
     \<lparr>ci_capability = \<lparr>cap_descriptor = d, cap_validate_input = fst b, cap_execute = snd b\<rparr>,
      ci_keeps_descriptor = False\<rparr>"

definition builtin_instances :: "loader_env \<Rightarrow> string \<Rightarrow> cap_instance list" where
  "builtin_instances env base_path =
     [bundled_instance echo_descriptor (le_echo env),
      bundled_instance fs_descriptor (le_filesystem env base_path),
      bundled_instance http_descriptor (le_http env)]"

definition load_builtin_capabilities :: "loader_env \<Rightarrow> string \<Rightarrow> exc + registry" where
  "load_builtin_capabilities env base_path =
     reg_register_all (map (\<lambda>i. (ci_capability i, None)) (builtin_instances env base_path)) reg_init"

section \<open>Entries of the file\<close>

text \<open>\<^verbatim>\<open>TypeError\<close> and \<^verbatim>\<open>AttributeError\<close> for values of the wrong type.\<close>

definition type_error :: "string \<Rightarrow> exc" where
  "type_error m = Other_Exception ''TypeError'' m"

definition attribute_error :: "string \<Rightarrow> exc" where
  "attribute_error m = Other_Exception ''AttributeError'' m"

definition entry_import_path :: "pydict \<Rightarrow> exc + string" where
  "entry_import_path entry =
     (case dget entry ''import_path'' of
        None \<Rightarrow> Inl (Key_Error ''import_path'')
      | Some (PStr s) \<Rightarrow> Inr s
      | Some v \<Rightarrow> Inl (attribute_error ''partition''))"

definition entry_config :: "loader_env \<Rightarrow> string \<Rightarrow> pydict \<Rightarrow> exc + pydict" where
  "entry_config env config_path entry =
     (case (case dget entry ''config'' of None \<Rightarrow> Inr [] | Some (PDict d) \<Rightarrow> Inr d | Some v \<Rightarrow> le_dict env v) of
        Inl e \<Rightarrow> Inl e
      | Inr config \<Rightarrow>
          (case dget config ''base_path'' of
             None \<Rightarrow> Inr config
           | Some (PStr p) \<Rightarrow> Inr (dset ''base_path'' (PStr (le_resolve_beside env config_path p)) config)
           | Some v \<Rightarrow> Inl (type_error ''unsupported operand type(s) for /'')))"

definition entry_controls :: "loader_env \<Rightarrow> pydict \<Rightarrow> exc + exec_controls option" where
  "entry_controls env entry =
     (case dget entry ''execution'' of None \<Rightarrow> Inr None | Some v \<Rightarrow> map_sum id Some (le_controls env v))"

text \<open>The body of the loop over the entries, up to the registration: the capability and its controls.\<close>

definition entry_capability :: "loader_env \<Rightarrow> string \<Rightarrow> pyval \<Rightarrow> exc + capability \<times> exec_controls option" where
  "entry_capability env config_path v =
     (case v of
        PDict entry \<Rightarrow>
          (case entry_import_path entry of
             Inl e \<Rightarrow> Inl e
           | Inr import_path \<Rightarrow>
          (case entry_config env config_path entry of
             Inl e \<Rightarrow> Inl e
           | Inr config \<Rightarrow>
          (case import_object env import_path of
             Inl e \<Rightarrow> Inl e
           | Inr capability_class \<Rightarrow>
          (case entry_controls env entry of
             Inl e \<Rightarrow> Inl e
           | Inr controls \<Rightarrow>
          (case capability_class config of
             Inl e \<Rightarrow> Inl e
           | Inr instance \<Rightarrow>
               let instance = (if truthy_opt (dget entry ''require_approval'') then assign_require_approval instance
                               else instance)
               in Inr (ci_capability instance, controls))))))
      | _ \<Rightarrow> Inl (type_error ''entry is not a mapping''))"

definition load_entry :: "loader_env \<Rightarrow> string \<Rightarrow> pyval \<Rightarrow> registry \<Rightarrow> exc + registry" where
  "load_entry env config_path v r =
     (case entry_capability env config_path v of
        Inl e \<Rightarrow> Inl e
      | Inr (capability, controls) \<Rightarrow> reg_register capability controls r)"

fun load_entries :: "loader_env \<Rightarrow> string \<Rightarrow> pyval list \<Rightarrow> registry \<Rightarrow> exc + registry" where
  "load_entries env config_path [] r = Inr r"
| "load_entries env config_path (v # vs) r =
     (case load_entry env config_path v r of Inl e \<Rightarrow> Inl e | Inr r \<Rightarrow> load_entries env config_path vs r)"

text \<open>What iterating over \<^verbatim>\<open>data.get("capabilities", [])\<close> yields: a mapping gives its keys and a text its
  characters, none of which is an entry; anything else but a list does not iterate.\<close>

definition entries_of :: "pydict \<Rightarrow> exc + pyval list" where
  "entries_of data =
     (case dget data ''capabilities'' of
        None \<Rightarrow> Inr []
      | Some (PList vs) \<Rightarrow> Inr vs
      | Some (PDict d) \<Rightarrow> Inr (map PStr (dkeys d))
      | Some (PStr s) \<Rightarrow> Inr (map (\<lambda>c. PStr [c]) s)
      | Some v \<Rightarrow> Inl (type_error ''object is not iterable''))"

fun apply_controls :: "loader_env \<Rightarrow> pydict \<Rightarrow> registry \<Rightarrow> exc + registry" where
  "apply_controls env [] r = Inr r"
| "apply_controls env ((name, v) # rest) r =
     (case le_controls env v of
        Inl e \<Rightarrow> Inl e
      | Inr controls \<Rightarrow>
          (case reg_set_execution_controls name controls r of
             Inl e \<Rightarrow> Inl e
           | Inr r \<Rightarrow> apply_controls env rest r))"

definition controls_of :: "pydict \<Rightarrow> exc + pydict" where
  "controls_of data =
     (case dget data ''execution_controls'' of
        None \<Rightarrow> Inr []
      | Some (PDict d) \<Rightarrow> Inr d
      | Some v \<Rightarrow> Inl (attribute_error ''items''))"

section \<open>Files\<close>

definition load_capabilities_from_file :: "loader_env \<Rightarrow> string \<Rightarrow> string \<Rightarrow> exc + registry" where
  "load_capabilities_from_file env config_path base_path =
     (case le_safe_load env config_path of
        Inl e \<Rightarrow> Inl e
      | Inr v \<Rightarrow>
          (case (if truthy v then v else PDict []) of
             PDict data \<Rightarrow>
               (case (if (case dget data ''include_builtins'' of None \<Rightarrow> True | Some b \<Rightarrow> truthy b)
                      then load_builtin_capabilities env (le_resolve env base_path) else Inr reg_init) of
                  Inl e \<Rightarrow> Inl e
                | Inr r \<Rightarrow>
               (case entries_of data of
                  Inl e \<Rightarrow> Inl e
                | Inr entries \<Rightarrow>
               (case load_entries env config_path entries r of
                  Inl e \<Rightarrow> Inl e
                | Inr r \<Rightarrow>
               (case controls_of data of
                  Inl e \<Rightarrow> Inl e
                | Inr controls \<Rightarrow> apply_controls env controls r))))
           | _ \<Rightarrow> Inl (attribute_error ''get'')))"

definition load_capabilities :: "loader_env \<Rightarrow> string option \<Rightarrow> string \<Rightarrow> exc + registry" where
  "load_capabilities env config_path base_path =
     (case config_path of
        None \<Rightarrow> load_builtin_capabilities env (le_resolve env base_path)
      | Some candidate \<Rightarrow>
          if \<not> le_exists env candidate
          then Inl (Other_Exception ''FileNotFoundError'' (''Capability config file not found: '' @ candidate))
          else load_capabilities_from_file env candidate base_path)"

section \<open>What a loaded registry holds\<close>

lemma load_entry_Inr:
  "load_entry env cp v r = Inr r' \<Longrightarrow>
     \<exists>c ec. entry_capability env cp v = Inr (c, ec) \<and> reg_register c ec r = Inr r'"
  by (auto simp: load_entry_def split: sum.splits)

lemma load_entries_Cons:
  "load_entries env cp (v # vs) r = Inr r' \<Longrightarrow>
     \<exists>c ec r1. entry_capability env cp v = Inr (c, ec) \<and> reg_register c ec r = Inr r1 \<and>
       load_entries env cp vs r1 = Inr r'"
  using load_entry_Inr by (fastforce split: sum.splits)

lemma registry_ok_load_entries:
  "registry_ok r \<Longrightarrow> load_entries env cp vs r = Inr r' \<Longrightarrow> registry_ok r'"
proof (induction vs arbitrary: r)
  case (Cons v vs)
  from load_entries_Cons [OF Cons.prems(2)] registry_ok_register [OF Cons.prems(1)] Cons.IH show ?case by blast
qed simp

lemma registry_ok_apply_controls:
  "registry_ok r \<Longrightarrow> apply_controls env d r = Inr r' \<Longrightarrow> registry_ok r'"
  by (induction env d r rule: apply_controls.induct) (auto split: sum.splits dest: registry_ok_set_controls)

lemma load_entries_keep:
  "load_entries env cp vs r = Inr r' \<Longrightarrow> dget (reg_capabilities r) n = Some c \<Longrightarrow>
   dget (reg_capabilities r') n = Some c"
proof (induction vs arbitrary: r)
  case (Cons v vs)
  from load_entries_Cons [OF Cons.prems(1)] reg_register_keeps [OF _ Cons.prems(2)] Cons.IH show ?case by blast
qed simp

lemma reg_register_gets:
  "reg_register c ec r = Inr r' \<Longrightarrow> dget (reg_capabilities r') (cd_name (cap_descriptor c)) = Some c"
  by (auto simp: reg_register_def Let_def split: if_splits option.splits)

lemma load_entries_hold:
  "load_entries env cp vs r = Inr r' \<Longrightarrow> v \<in> set vs \<Longrightarrow>
     \<exists>c ec. entry_capability env cp v = Inr (c, ec) \<and>
       dget (reg_capabilities r') (cd_name (cap_descriptor c)) = Some c"
proof (induction vs arbitrary: r)
  case (Cons w vs)
  from load_entries_Cons [OF Cons.prems(1)] obtain c ec r1 where
    c: "entry_capability env cp w = Inr (c, ec)" "reg_register c ec r = Inr r1" "load_entries env cp vs r1 = Inr r'"
    by blast
  show ?case
  proof (cases "v = w")
    case True
    with c load_entries_keep [OF c(3) reg_register_gets [OF c(2)]] show ?thesis by blast
  next
    case False
    with Cons.prems(2) Cons.IH [OF c(3)] show ?thesis by simp
  qed
qed simp

lemma set_controls_effect:
  "reg_set_execution_controls n c r = Inr r' \<Longrightarrow>
     dget (reg_capabilities r) n \<noteq> None \<and> reg_capabilities r' = reg_capabilities r \<and>
     reg_execution_controls r' = dset n c (reg_execution_controls r)"
  by (auto simp: reg_set_execution_controls_def split: if_splits)

lemma apply_controls_Cons:
  "apply_controls env ((n, v) # d) r = Inr r' \<Longrightarrow>
     \<exists>c r1. le_controls env v = Inr c \<and> reg_set_execution_controls n c r = Inr r1 \<and> apply_controls env d r1 = Inr r'"
  by (simp split: sum.splits)

lemma apply_controls_frame:
  "apply_controls env d r = Inr r' \<Longrightarrow> reg_capabilities r' = reg_capabilities r \<and>
   (\<forall>n. n \<notin> set (dkeys d) \<longrightarrow> dget (reg_execution_controls r') n = dget (reg_execution_controls r) n)"
proof (induction d arbitrary: r)
  case (Cons p d)
  obtain n v where p: "p = (n, v)" by fastforce
  from apply_controls_Cons Cons.prems p obtain c r1 where
    "reg_set_execution_controls n c r = Inr r1" "apply_controls env d r1 = Inr r'" by blast
  with Cons.IH [of r1] set_controls_effect show ?case by (force simp: p dkeys_def)
qed simp

lemmas apply_controls_capabilities = apply_controls_frame [THEN conjunct1]
lemmas apply_controls_other = apply_controls_frame [THEN conjunct2, rule_format]

lemma apply_controls_set:
  "apply_controls env d r = Inr r' \<Longrightarrow> dict_ok d \<Longrightarrow> dget d n = Some v \<Longrightarrow>
    \<exists>c. le_controls env v = Inr c \<and> reg_execution_controls_of r' n = Inr c"
proof (induction d arbitrary: r)
  case (Cons p d)
  obtain m w where p: "p = (m, w)" by fastforce
  from apply_controls_Cons Cons.prems(1) p obtain c r1 where
    c: "le_controls env w = Inr c" "reg_set_execution_controls m c r = Inr r1" "apply_controls env d r1 = Inr r'"
    by blast
  show ?case
  proof (cases "m = n")
    case True
    with Cons.prems(2,3) p have "n \<notin> set (dkeys d)" "w = v" by (auto simp: dict_ok_def dkeys_def dget_def)
    with apply_controls_frame [OF c(3)] set_controls_effect [OF c(2)] True c(1) show ?thesis
      by (simp add: reg_execution_controls_of_def)
  next
    case False
    with Cons.prems(2,3) p have "dict_ok d" "dget d n = Some v" by (auto simp: dict_ok_def dget_def)
    with Cons.IH [OF c(3)] show ?thesis by blast
  qed
qed simp

lemma load_builtin_Inr:
  "\<exists>r. load_builtin_capabilities env base = Inr r \<and> registry_ok r \<and>
     list_all (\<lambda>i. dget (reg_capabilities r) (cd_name (cap_descriptor (ci_capability i))) = Some (ci_capability i))
       (builtin_instances env base)"
proof -
  obtain r where r: "load_builtin_capabilities env base = Inr r"
    by (simp add: load_builtin_capabilities_def builtin_instances_def bundled_instance_def reg_register_def reg_init_def
        echo_descriptor_def fs_descriptor_def http_descriptor_def Let_def)
  moreover have "registry_ok r"
    using r registry_ok_register_all [OF registry_ok_init] by (simp add: load_builtin_capabilities_def)
  moreover have "list_all (\<lambda>i. dget (reg_capabilities r) (cd_name (cap_descriptor (ci_capability i))) = Some (ci_capability i))
       (builtin_instances env base)"
    using r by (auto simp: load_builtin_capabilities_def builtin_instances_def bundled_instance_def reg_register_def
        reg_init_def echo_descriptor_def fs_descriptor_def http_descriptor_def Let_def)
  ultimately show ?thesis by blast
qed

text \<open>
  C33. A configuration file that loads gives a registry that is as configured: it is well formed; the
  built-ins are there unless they were switched off; the capability of every entry is registered under
  its descriptor's name; and for every name under \<^verbatim>\<open>execution_controls\<close> the supervisor reads exactly
  the controls given there, whatever the entry's own \<^verbatim>\<open>execution\<close> said.
\<close>

theorem loaded_registry_is_configured:
  assumes "load_capabilities_from_file env path base = Inr r" and "le_safe_load env path = Inr (PDict data)"
  shows "registry_ok r \<and>
     ((case dget data ''include_builtins'' of None \<Rightarrow> True | Some b \<Rightarrow> truthy b) \<longrightarrow>
        list_all (\<lambda>i. reg_get r (cd_name (cap_descriptor (ci_capability i))) = Inr (ci_capability i))
          (builtin_instances env (le_resolve env base))) \<and>
     (\<exists>vs. entries_of data = Inr vs \<and>
        (\<forall>v \<in> set vs. \<exists>c ec. entry_capability env path v = Inr (c, ec) \<and>
           reg_get r (cd_name (cap_descriptor c)) = Inr c)) \<and>
     (\<exists>d. controls_of data = Inr d \<and> (dict_ok d \<longrightarrow> (\<forall>n v. dget d n = Some v \<longrightarrow>
        (\<exists>c. le_controls env v = Inr c \<and> reg_execution_controls_of r n = Inr c))))"
proof -
  let ?on = "case dget data ''include_builtins'' of None \<Rightarrow> True | Some b \<Rightarrow> truthy b"
  have data: "(if truthy (PDict data) then PDict data else PDict []) = PDict data" by simp
  obtain r0 vs r1 d where r0: "(if ?on then load_builtin_capabilities env (le_resolve env base) else Inr reg_init) = Inr r0"
    and vs: "entries_of data = Inr vs" and r1: "load_entries env path vs r0 = Inr r1"
    and d: "controls_of data = Inr d" and r: "apply_controls env d r1 = Inr r"
    using assms(1) unfolding load_capabilities_from_file_def assms(2) sum.case data pyval.case
    by (auto split: sum.splits)
  obtain rb where rb: "load_builtin_capabilities env (le_resolve env base) = Inr rb" "registry_ok rb"
    "list_all (\<lambda>i. dget (reg_capabilities rb) (cd_name (cap_descriptor (ci_capability i))) = Some (ci_capability i))
       (builtin_instances env (le_resolve env base))"
    using load_builtin_Inr by blast
  have ok: "registry_ok r0" using r0 rb registry_ok_init by (auto split: if_splits)
  have caps: "reg_capabilities r = reg_capabilities r1" by (rule apply_controls_capabilities [OF r])
  have get: "reg_get r n = Inr c" if "dget (reg_capabilities r1) n = Some c" for n c
    using that by (simp add: reg_get_def caps)
  have "registry_ok r" using registry_ok_apply_controls [OF registry_ok_load_entries [OF ok r1] r] .
  moreover have "?on \<longrightarrow> list_all (\<lambda>i. reg_get r (cd_name (cap_descriptor (ci_capability i))) = Inr (ci_capability i))
       (builtin_instances env (le_resolve env base))"
    using r0 rb load_entries_keep [OF r1] get by (auto simp: list_all_iff split: if_splits)
  moreover have "\<forall>v \<in> set vs. \<exists>c ec. entry_capability env path v = Inr (c, ec) \<and>
      reg_get r (cd_name (cap_descriptor c)) = Inr c"
    using load_entries_hold [OF r1] get by blast
  moreover have "dict_ok d \<longrightarrow> (\<forall>n v. dget d n = Some v \<longrightarrow>
        (\<exists>c. le_controls env v = Inr c \<and> reg_execution_controls_of r n = Inr c))"
    using apply_controls_set r by blast
  ultimately show ?thesis using vs d by blast
qed

section \<open>The approval flag\<close>

text \<open>
  The approval flag of the configuration reaches only capabilities that keep their descriptor: for
  an entry that loads with \<^verbatim>\<open>require_approval: true\<close>, the registered capability requires approval
  exactly when its instance returns the descriptor object it keeps (or required approval anyway); for
  one that builds its descriptor on every access, as all bundled capabilities but the MCP one do, the
  flag is silently lost, and the registered capability is the one that loads without the flag.
\<close>

theorem approval_flag_needs_a_kept_descriptor:
  assumes "entry_import_path entry = Inr p" and "entry_config env path entry = Inr config"
    and "import_object env p = Inr capability_class" and "entry_controls env entry = Inr ec"
    and "capability_class config = Inr i" and "truthy_opt (dget entry ''require_approval'')"
  shows "\<exists>c. entry_capability env path (PDict entry) = Inr (c, ec) \<and>
     cd_require_approval (cap_descriptor c) =
       (ci_keeps_descriptor i \<or> cd_require_approval (cap_descriptor (ci_capability i))) \<and>
     (\<not> ci_keeps_descriptor i \<longrightarrow>
        entry_capability env path (PDict (ddel ''require_approval'' entry)) = Inr (c, ec))"
  using assms
  by (simp add: entry_capability_def assign_require_approval_def entry_import_path_def entry_config_def
      entry_controls_def truthy_opt_def)

text \<open>A file that registers the echo capability and asks for approval.\<close>

definition demo_behaviour :: behaviour where
  "demo_behaviour = (\<lambda>d. Inr (PDict d), \<lambda>n p ctx. (0, Inr \<lparr>cr_output = p, cr_metadata = []\<rparr>))"

definition gated_echo_entry :: pydict where
  "gated_echo_entry = [(''import_path'', PStr ''engine.capabilities:EchoCapability''), (''require_approval'', PBool True)]"

definition demo_loader_env :: loader_env where
  "demo_loader_env =
     \<lparr>le_exists = \<lambda>p. True,
      le_safe_load = \<lambda>p. Inr (PDict [(''include_builtins'', PBool False),
        (''capabilities'', PList [PDict gated_echo_entry]),
        (''execution_controls'', PDict [(''echo'', PDict [])])]),
      le_import = \<lambda>m a. Inr (Capability_Class (\<lambda>config. Inr (bundled_instance echo_descriptor demo_behaviour))),
      le_resolve = id, le_resolve_beside = \<lambda>c p. p, le_controls = \<lambda>v. Inr new_exec_controls,
      le_dict = \<lambda>v. Inr [], le_echo = demo_behaviour, le_filesystem = \<lambda>b. demo_behaviour, le_http = demo_behaviour\<rparr>"

theorem approval_flag_needs_a_kept_descriptor_witness:
  "\<exists>c. entry_capability demo_loader_env ''c.yaml'' (PDict gated_echo_entry) = Inr (c, None) \<and>
     \<not> cd_require_approval (cap_descriptor c)"
proof -
  have "entry_import_path gated_echo_entry = Inr ''engine.capabilities:EchoCapability''"
    and "entry_config demo_loader_env ''c.yaml'' gated_echo_entry = Inr []"
    and "import_object demo_loader_env ''engine.capabilities:EchoCapability'' =
      Inr (\<lambda>config. Inr (bundled_instance echo_descriptor demo_behaviour))"
    and "entry_controls demo_loader_env gated_echo_entry = Inr None"
    and "truthy_opt (dget gated_echo_entry ''require_approval'')"
    by (simp_all add: gated_echo_entry_def entry_import_path_def entry_config_def import_object_def partition_colon_def
        demo_loader_env_def entry_controls_def truthy_opt_def dget_def)
  note loads = this
  show ?thesis
    using approval_flag_needs_a_kept_descriptor [OF loads(1-4) refl loads(5)]
    by (auto simp: bundled_instance_def echo_descriptor_def)
qed

theorem loaded_registry_is_configured_witness:
  "\<exists>r. load_capabilities_from_file demo_loader_env ''c.yaml'' ''/w'' = Inr r \<and> registry_ok r \<and>
     reg_execution_controls_of r ''echo'' = Inr new_exec_controls"
proof -
  obtain r where r: "load_capabilities_from_file demo_loader_env ''c.yaml'' ''/w'' = Inr r"
    by (simp add: load_capabilities_from_file_def demo_loader_env_def dget_def reg_init_def entries_of_def load_entry_def
        entry_capability_def gated_echo_entry_def entry_import_path_def entry_config_def import_object_def
        partition_colon_def entry_controls_def truthy_opt_def assign_require_approval_def bundled_instance_def
        echo_descriptor_def reg_register_def controls_of_def reg_set_execution_controls_def dset_def Let_def)
  have data: "le_safe_load demo_loader_env ''c.yaml'' = Inr (PDict [(''include_builtins'', PBool False),
        (''capabilities'', PList [PDict gated_echo_entry]), (''execution_controls'', PDict [(''echo'', PDict [])])])"
    by (simp add: demo_loader_env_def)
  have c: "controls_of [(''include_builtins'', PBool False), (''capabilities'', PList [PDict gated_echo_entry]),
      (''execution_controls'', PDict [(''echo'', PDict [])])] = Inr [(''echo'', PDict [])]"
    by (simp add: controls_of_def dget_def)
  have "dget [(''echo'', PDict [])] ''echo'' = Some (PDict [])" "dict_ok [(''echo'', PDict [])]"
    by (simp_all add: dget_def dict_ok_def)
  with loaded_registry_is_configured [OF r data] r c show ?thesis
    by (auto simp: demo_loader_env_def)
qed

end
