(* ===== verification/Meeting.thy ===== *)
theory Meeting
  imports Guild Grouping
begin

text \<open>
  \<^verbatim>\<open>engine/guild/meeting.py\<close>: the guild meeting, a report over all guild records by capability and by
  role, with the insights drawn from it, and what the report promises: nothing is lost or counted
  twice, and the insights are raised by exact thresholds.

  The wall clock is a function of how often it was read, \<open>isofmt\<close> is \<^verbatim>\<open>isoformat()\<close>; a rate is an exact
  rational.
\<close>

section \<open>The report\<close>

record capability_profile =
  mp_capability :: string
  mp_total_successes :: int
  mp_total_failures :: int
  mp_distinct_error_types :: "string list"
  mp_roles :: "string list"
  mp_top_failures :: "pydict list"
  mp_top_successes :: "pydict list"

record role_digest =
  mr_role :: string
  mr_total_records :: nat
  mr_capabilities_encountered :: "string list"
  mr_top_failure_patterns :: "pydict list"
  mr_top_success_patterns :: "pydict list"

record cross_role_insight =
  mi_description :: string
  mi_capabilities :: "string list"
  mi_roles :: "string list"
  mi_severity :: string

record meeting_report =
  mt_meeting_id :: string
  mt_held_at :: int
  mt_total_records :: nat
  mt_roles_present :: "string list"
  mt_capability_profiles :: "capability_profile list"
  mt_role_digests :: "role_digest list"
  mt_cross_role_insights :: "cross_role_insight list"
  mt_summary :: string

section \<open>Pieces\<close>

abbreviation gr_capability :: "guild_record \<Rightarrow> string" where
  "gr_capability r \<equiv> fp_capability (gr_fingerprint r)"

definition role_or_unassigned :: "guild_record \<Rightarrow> string" where
  "role_or_unassigned r = opt_or (gr_role r) ''unassigned''"

text \<open>\<^verbatim>\<open>sorted({r.role for r in records if r.role})\<close>.\<close>

definition roles_of :: "guild_record list \<Rightarrow> string list" where
  "roles_of records =
     sort (remdups (concat (map (\<lambda>r. case gr_role r of None \<Rightarrow> [] | Some s \<Rightarrow> if s = [] then [] else [s]) records)))"

definition is_success :: "guild_record \<Rightarrow> bool" where
  "is_success r \<longleftrightarrow> fp_error_type (gr_fingerprint r) = success_error_type"

definition top_failing :: "nat \<Rightarrow> guild_record list \<Rightarrow> guild_record list" where
  "top_failing n records = take n (sort_key_desc gr_failure_count (filter (\<lambda>r. \<not> is_success r) records))"

definition top_succeeding :: "nat \<Rightarrow> guild_record list \<Rightarrow> guild_record list" where
  "top_succeeding n records = take n (sort_key_desc gr_success_count (filter is_success records))"

definition successes :: "guild_record list \<Rightarrow> int" where
  "successes records = sum_list (map gr_success_count records)"

definition failures :: "guild_record list \<Rightarrow> int" where
  "failures records = sum_list (map gr_failure_count records)"

definition profile_of :: "string \<times> guild_record list \<Rightarrow> capability_profile" where
  "profile_of g = (case g of (cap, records) \<Rightarrow>
     \<lparr>mp_capability = cap, mp_total_successes = successes records, mp_total_failures = failures records,
      mp_distinct_error_types =
        sort (remdups (map (\<lambda>r. fp_error_type (gr_fingerprint r)) (filter (\<lambda>r. \<not> is_success r) records))),
      mp_roles = roles_of records,
      mp_top_failures = map (\<lambda>r.
        [(''error_type'', PStr (fp_error_type (gr_fingerprint r))),
         (''input_fingerprint'', PStr (fp_input (gr_fingerprint r))), (''count'', PInt (gr_failure_count r)),
         (''hint'', opt_str (gr_resolution_hint r))]) (top_failing 3 records),
      mp_top_successes = map (\<lambda>r.
        [(''input_fingerprint'', PStr (fp_input (gr_fingerprint r))), (''count'', PInt (gr_success_count r)),
         (''adjustment'', PDict (gr_approach_adjustment r))]) (top_succeeding 3 records)\<rparr>)"

definition digest_of :: "string \<times> guild_record list \<Rightarrow> role_digest" where
  "digest_of g = (case g of (role, records) \<Rightarrow>
     \<lparr>mr_role = role, mr_total_records = length records,
      mr_capabilities_encountered = sort (remdups (map gr_capability records)),
      mr_top_failure_patterns = map (\<lambda>r.
        [(''capability'', PStr (gr_capability r)), (''error_type'', PStr (fp_error_type (gr_fingerprint r))),
         (''count'', PInt (gr_failure_count r)), (''hint'', opt_str (gr_resolution_hint r))]) (top_failing 5 records),
      mr_top_success_patterns = map (\<lambda>r.
        [(''capability'', PStr (gr_capability r)), (''input_fingerprint'', PStr (fp_input (gr_fingerprint r))),
         (''count'', PInt (gr_success_count r))]) (top_succeeding 5 records)\<rparr>)"

section \<open>Insights\<close>

definition quoted_capability :: "string \<Rightarrow> string" where
  "quoted_capability cap = ''Capability '' @ quote1 @ cap @ quote1"

definition widest_insight :: "guild_record list dict \<Rightarrow> cross_role_insight list" where
  "widest_insight by_capability =
     (case sort_key_desc (\<lambda>item. length (roles_of (snd item))) by_capability of
        [] \<Rightarrow> []
      | (top_cap, top_records) # _ \<Rightarrow>
          let roles_using = roles_of top_records in
          if length roles_using > 1
          then [\<lparr>mi_description = quoted_capability top_cap @ '' is used across '' @ show_nat (length roles_using) @
                  '' roles: '' @ join_with '', '' roles_using @
                  ''. Knowledge about this capability benefits the widest audience.'',
                 mi_capabilities = [top_cap], mi_roles = roles_using, mi_severity = ''info''\<rparr>]
          else [])"

definition rate :: "int \<Rightarrow> int \<Rightarrow> rat" where
  "rate part whole = of_int part / of_int whole * 100"

definition failing_insight :: "string \<times> guild_record list \<Rightarrow> cross_role_insight list" where
  "failing_insight g = (case g of (cap, records) \<Rightarrow>
     let total_success = successes records; total_failure = failures records; total = total_success + total_failure in
     if total \<ge> 5 \<and> total_failure > total_success
     then let failure_rate = rate total_failure total in
       [\<lparr>mi_description = quoted_capability cap @ '' has a '' @ fmt_fixed 0 failure_rate @ ''% failure rate ('' @
           show_int total_failure @ '' failures in '' @ show_int total @
           '' attempts). Consider reviewing inputs or approach adjustments.'',
         mi_capabilities = [cap], mi_roles = roles_of records,
         mi_severity = (if failure_rate > 75 then ''warning'' else ''info'')\<rparr>]
     else [])"

definition reliable_insight :: "string \<times> guild_record list \<Rightarrow> cross_role_insight list" where
  "reliable_insight g = (case g of (cap, records) \<Rightarrow>
     let total_success = successes records; total_failure = failures records; total = total_success + total_failure in
     if total \<ge> 5 \<and> total_success > total_failure * 3
     then [\<lparr>mi_description = quoted_capability cap @ '' has a '' @ fmt_fixed 0 (rate total_success total) @
           ''% success rate ('' @ show_int total_success @ '' successes in '' @ show_int total @
           '' attempts). Approach adjustments for this capability are well-established.'',
         mi_capabilities = [cap], mi_roles = roles_of records, mi_severity = ''info''\<rparr>]
     else [])"

definition insights_of :: "guild_record list dict \<Rightarrow> cross_role_insight list" where
  "insights_of by_capability =
     widest_insight by_capability @ concat (map failing_insight by_capability) @
     concat (map reliable_insight by_capability)"

section \<open>The meeting\<close>

definition summary_text ::
  "string \<Rightarrow> guild_record list \<Rightarrow> string list \<Rightarrow> cross_role_insight list \<Rightarrow> string" where
  "summary_text now records roles_present insights =
     join_with '' ''
       ([''Guild meeting held at '' @ now @ ''.'',
         ''Reviewed '' @ show_nat (length records) @ '' knowledge records across '' @ show_nat (length roles_present) @
           '' role(s).'',
         ''Total tracked: '' @ show_int (successes records) @ '' successes, '' @ show_int (failures records) @
           '' failures.''] @
        (let warnings = length (filter (\<lambda>i. mi_severity i = ''warning'') insights) in
         if warnings = 0 then []
         else [show_nat warnings @ '' warning(s) detected '' @ em_dash @ '' see cross-role insights.'']) @
        [''Next meeting: run '' @ quote1 @ ''cond guild meet'' @ quote1 @ '' or schedule via cron trigger.''])"

definition empty_report :: "(nat \<Rightarrow> int) \<Rightarrow> (int \<Rightarrow> string) \<Rightarrow> nat \<Rightarrow> meeting_report" where
  "empty_report clock isofmt n =
     \<lparr>mt_meeting_id = isofmt (clock n), mt_held_at = clock (Suc n), mt_total_records = 0, mt_roles_present = [],
      mt_capability_profiles = [], mt_role_digests = [], mt_cross_role_insights = [],
      mt_summary = ''No guild records to review. The guild is empty.''\<rparr>"

definition report_of :: "(nat \<Rightarrow> int) \<Rightarrow> (int \<Rightarrow> string) \<Rightarrow> nat \<Rightarrow> guild_record list \<Rightarrow> meeting_report" where
  "report_of clock isofmt n all_records =
     (let by_role = group_by role_or_unassigned all_records;
          by_capability = group_by gr_capability all_records;
          roles_present = sort (filter (\<lambda>r. r \<noteq> ''unassigned'') (dkeys by_role));
          insights = insights_of by_capability
      in \<lparr>mt_meeting_id = isofmt (clock (Suc n)), mt_held_at = clock (Suc (Suc n)), mt_total_records = length all_records,
          mt_roles_present = roles_present,
          mt_capability_profiles = map profile_of (sort_key fst by_capability),
          mt_role_digests = map digest_of (filter (\<lambda>g. fst g \<noteq> ''unassigned'') (sort_key fst by_role)),
          mt_cross_role_insights = insights,
          mt_summary = summary_text (isofmt (clock n)) all_records roles_present insights\<rparr>)"

definition hold_meeting ::
  "guild_config option \<Rightarrow> (nat \<Rightarrow> int) \<Rightarrow> (int \<Rightarrow> string) \<Rightarrow> nat \<Rightarrow> guild_store \<Rightarrow> exc + meeting_report option" where
  "hold_meeting config clock isofmt n store =
     (if \<not> gc_enabled (case config of None \<Rightarrow> guild_config_default | Some c \<Rightarrow> c) then Inr None
      else case gs_list store None None of
        Inl e \<Rightarrow> Inl e
      | Inr all_records \<Rightarrow>
          Inr (Some (if all_records = [] then empty_report clock isofmt n else report_of clock isofmt n all_records)))"

section \<open>What a report promises\<close>

lemma sort_distinct: "distinct xs \<Longrightarrow> sort xs = sorted_list_of_set (set xs)"
  by (simp add: sorted_list_of_set_sort_remdups distinct_remdups_id)

lemma filter_sorted_keys: "filter P (dkeys (sort_key fst d)) = sort (filter P (dkeys d))"
proof (rule properties_for_sort [symmetric])
  show "mset (filter P (dkeys (sort_key fst d))) = mset (filter P (dkeys d))" by (simp add: dkeys_def)
  show "sorted (filter P (dkeys (sort_key fst d)))" by (rule sorted_wrt_filter) (simp add: dkeys_def)
qed

lemma roles_present_eq:
  "sort (filter (\<lambda>r. r \<noteq> ''unassigned'') (dkeys (group_by role_or_unassigned rs))) =
     sorted_list_of_set ({role_or_unassigned r |r. r \<in> set rs} - {''unassigned''})"
proof -
  let ?ks = "filter (\<lambda>r. r \<noteq> ''unassigned'') (dkeys (group_by role_or_unassigned rs))"
  have "distinct ?ks" using dict_ok_group_by [of role_or_unassigned rs] by (simp add: dict_ok_def dkeys_def)
  moreover have "set ?ks = {role_or_unassigned r |r. r \<in> set rs} - {''unassigned''}"
    using group_by_keys [of role_or_unassigned rs] by auto
  ultimately show ?thesis by (simp only: sort_distinct)
qed

lemma sum_list_group_sorted:
  "sum_list (map (\<lambda>(k, ys). sum_list (map f ys)) (sort_key fst (group_by key xs))) = sum_list (map f xs)"
  for f :: "'a \<Rightarrow> int"
proof -
  have "mset (map (\<lambda>(k, ys). sum_list (map f ys)) (sort_key fst (group_by key xs))) =
      mset (map (\<lambda>(k, ys). sum_list (map f ys)) (group_by key xs))" by simp
  then have "sum_mset (mset (map (\<lambda>(k, ys). sum_list (map f ys)) (sort_key fst (group_by key xs)))) =
      sum_mset (mset (map (\<lambda>(k, ys). sum_list (map f ys)) (group_by key xs)))" by (simp only:)
  then show ?thesis by (simp only: sum_mset_sum_list group_sum)
qed

lemma profile_totals:
  "sum_list (map mp_total_successes (map profile_of (sort_key fst (group_by gr_capability rs)))) = successes rs"
  "sum_list (map mp_total_failures (map profile_of (sort_key fst (group_by gr_capability rs)))) = failures rs"
  using sum_list_group_sorted [of gr_success_count gr_capability rs]
    sum_list_group_sorted [of gr_failure_count gr_capability rs]
  by (simp_all add: comp_def profile_of_def successes_def failures_def case_prod_unfold)

lemma digest_members:
  assumes "d \<in> set (map digest_of (filter (\<lambda>g. fst g \<noteq> ''unassigned'') (sort_key fst (group_by role_or_unassigned rs))))"
  shows "mr_total_records d = length (filter (\<lambda>r. role_or_unassigned r = mr_role d) rs) \<and>
    mr_capabilities_encountered d = sorted_list_of_set {gr_capability r |r. r \<in> set rs \<and> role_or_unassigned r = mr_role d}"
proof -
  from assms obtain k ys where g: "(k, ys) \<in> set (group_by role_or_unassigned rs)" and d: "d = digest_of (k, ys)"
    by auto
  then have ys: "ys = filter (\<lambda>r. role_or_unassigned r = k) rs" by (simp add: group_by_member)
  have "sort (remdups (map gr_capability ys)) = sorted_list_of_set (gr_capability ` set ys)"
    by (simp flip: sorted_list_of_set_sort_remdups)
  also have "gr_capability ` set ys = {gr_capability r |r. r \<in> set rs \<and> role_or_unassigned r = k}"
    using ys by auto
  finally show ?thesis using ys by (simp add: d digest_of_def)
qed

text \<open>
  C34. A meeting report counts every record exactly once: on an enabled guild with records, the
  capability profiles are one for each capability, in strict order of name, with totals that add up to
  the successes and failures of all records; each role digest counts exactly the records of its role
  and lists exactly their capabilities; and there is a digest for exactly the roles present, in order,
  where records without a role, and those of a role literally named \<^verbatim>\<open>unassigned\<close>, have none.
\<close>

theorem meeting_counts_every_record_once:
  assumes "gs_list store None None = Inr records" and "records \<noteq> []" and "gc_enabled config"
  shows "\<exists>rep. hold_meeting (Some config) clock isofmt n store = Inr (Some rep) \<and>
     mt_total_records rep = length records \<and>
     sorted_wrt (<) (map mp_capability (mt_capability_profiles rep)) \<and>
     mp_capability ` set (mt_capability_profiles rep) = gr_capability ` set records \<and>
     sum_list (map mp_total_successes (mt_capability_profiles rep)) = sum_list (map gr_success_count records) \<and>
     sum_list (map mp_total_failures (mt_capability_profiles rep)) = sum_list (map gr_failure_count records) \<and>
     map mr_role (mt_role_digests rep) = mt_roles_present rep \<and>
     mt_roles_present rep = sorted_list_of_set ({role_or_unassigned r |r. r \<in> set records} - {''unassigned''}) \<and>
     (\<forall>d \<in> set (mt_role_digests rep).
        mr_total_records d = length (filter (\<lambda>r. role_or_unassigned r = mr_role d) records) \<and>
        mr_capabilities_encountered d =
          sorted_list_of_set {gr_capability r |r. r \<in> set records \<and> role_or_unassigned r = mr_role d})"
proof -
  let ?rep = "report_of clock isofmt n records"
  have caps: "map mp_capability (map profile_of gs) = dkeys gs" for gs
    by (simp add: dkeys_def profile_of_def comp_def case_prod_unfold)
  have "mr_role (digest_of g) = fst g" for g by (cases g) (simp add: digest_of_def)
  then have "map mr_role (mt_role_digests ?rep) =
      filter (\<lambda>r. r \<noteq> ''unassigned'') (dkeys (sort_key fst (group_by role_or_unassigned records)))"
    by (simp add: report_of_def Let_def dkeys_def filter_map comp_def)
  also have "\<dots> = sort (filter (\<lambda>r. r \<noteq> ''unassigned'') (dkeys (group_by role_or_unassigned records)))"
    by (rule filter_sorted_keys)
  finally have roles: "map mr_role (mt_role_digests ?rep) = mt_roles_present ?rep"
    by (simp add: report_of_def Let_def)
  have profiles: "mt_capability_profiles ?rep = map profile_of (sort_key fst (group_by gr_capability records))"
    by (simp add: report_of_def Let_def)
  have "sorted_wrt (<) (map mp_capability (mt_capability_profiles ?rep))"
    unfolding profiles caps by (rule sorted_group_keys)
  moreover have "mp_capability ` set (mt_capability_profiles ?rep) = gr_capability ` set records"
    using sorted_group_keys(2) [of gr_capability records] caps [of "sort_key fst (group_by gr_capability records)"]
    unfolding profiles by (metis list.set_map)
  moreover note profile_totals [of records, folded profiles, unfolded successes_def failures_def]
  moreover have "mt_roles_present ?rep = sorted_list_of_set ({role_or_unassigned r |r. r \<in> set records} - {''unassigned''})"
    using roles_present_eq [of records] by (simp add: report_of_def Let_def)
  moreover have "mt_role_digests ?rep =
      map digest_of (filter (\<lambda>g. fst g \<noteq> ''unassigned'') (sort_key fst (group_by role_or_unassigned records)))"
    by (simp add: report_of_def Let_def)
  moreover have "hold_meeting (Some config) clock isofmt n store = Inr (Some ?rep)" "mt_total_records ?rep = length records"
    using assms by (simp_all add: hold_meeting_def report_of_def Let_def)
  ultimately show ?thesis using roles digest_members [of _ records] by (intro exI [of _ ?rep]) simp
qed

section \<open>What the insights say\<close>

lemma rate_above_75:
  assumes "s + f \<ge> 5"
  shows "rate f (s + f) > 75 \<longleftrightarrow> f > 3 * s"
proof -
  have pos: "(0 :: rat) < of_int (s + f)" using assms by simp
  have "rate f (s + f) > 75 \<longleftrightarrow> 75 * of_int (s + f) < of_int f * (100 :: rat)"
    using pos by (simp add: rate_def field_simps del: of_int_add)
  also have "\<dots> \<longleftrightarrow> 75 * (s + f) < f * 100"
    by (metis of_int_less_iff of_int_mult of_int_numeral)
  also have "\<dots> \<longleftrightarrow> f > 3 * s" by auto
  finally show ?thesis .
qed

definition attempts_on :: "string \<Rightarrow> guild_record list \<Rightarrow> int \<times> int" where
  "attempts_on c records =
     (successes (filter (\<lambda>r. gr_capability r = c) records), failures (filter (\<lambda>r. gr_capability r = c) records))"

definition mark :: "cross_role_insight \<Rightarrow> string \<times> string" where
  "mark i = (hd (mi_capabilities i), mi_severity i)"

lemma failing_mark:
  "map mark (failing_insight (c, ys)) =
     (if successes ys + failures ys \<ge> 5 \<and> failures ys > successes ys
      then [(c, if failures ys > 3 * successes ys then ''warning'' else ''info'')] else [])"
  using rate_above_75 [of "successes ys" "failures ys"] by (simp add: failing_insight_def mark_def Let_def)

lemma reliable_mark:
  "map mark (reliable_insight (c, ys)) =
     (if successes ys + failures ys \<ge> 5 \<and> successes ys > failures ys * 3 then [(c, ''info'')] else [])"
  by (simp add: reliable_insight_def mark_def Let_def)

lemma map_over_groups:
  "concat (map h (group_by key rs)) = concat (map (\<lambda>c. h (c, filter (\<lambda>r. key r = c) rs)) (dkeys (group_by key rs)))"
proof -
  have "h g = h (fst g, filter (\<lambda>r. key r = fst g) rs)" if "g \<in> set (group_by key rs)" for g
    using that group_by_member [of "fst g" "snd g" key rs] by (metis prod.collapse)
  then have "map h (group_by key rs) = map (\<lambda>g. h (fst g, filter (\<lambda>r. key r = fst g) rs)) (group_by key rs)" by simp
  then have "concat (map h (group_by key rs)) =
      concat (map (\<lambda>g. h (fst g, filter (\<lambda>r. key r = fst g) rs)) (group_by key rs))" by (simp only:)
  then show ?thesis by (simp add: dkeys_def comp_def)
qed

lemma widest_info: "length (widest_insight g) \<le> 1" "list_all (\<lambda>i. mi_severity i = ''info'') (widest_insight g)"
  by (simp_all add: widest_insight_def Let_def split: list.split prod.split)

text \<open>
  The insights of a meeting follow exact thresholds: after at most one note about the capability
  used by most roles, there is one insight for every capability with at least five attempts and more
  failures than successes, a warning exactly when it failed more than three times as often as it
  succeeded, and then one for every capability with at least five attempts that succeeded more than
  three times as often as it failed, each in the order in which the capabilities first occur.
\<close>

theorem meeting_insights_thresholds:
  assumes "gs_list store None None = Inr records" and "records \<noteq> []" and "gc_enabled config"
  shows "\<exists>rep widest. hold_meeting (Some config) clock isofmt n store = Inr (Some rep) \<and>
     length widest \<le> 1 \<and> list_all (\<lambda>i. mi_severity i = ''info'') widest \<and>
     map mark (mt_cross_role_insights rep) = map mark widest @
       concat (map (\<lambda>c. case attempts_on c records of (s, f) \<Rightarrow>
         if s + f \<ge> 5 \<and> f > s then [(c, if f > 3 * s then ''warning'' else ''info'')] else [])
         (dkeys (group_by gr_capability records))) @
       concat (map (\<lambda>c. case attempts_on c records of (s, f) \<Rightarrow>
         if s + f \<ge> 5 \<and> s > f * 3 then [(c, ''info'')] else []) (dkeys (group_by gr_capability records)))"
proof -
  let ?g = "group_by gr_capability records"
  have "map mark (insights_of ?g) = map mark (widest_insight ?g) @
      concat (map (\<lambda>g. map mark (failing_insight g)) ?g) @ concat (map (\<lambda>g. map mark (reliable_insight g)) ?g)"
    by (simp add: insights_of_def map_concat comp_def)
  also have "\<dots> = map mark (widest_insight ?g) @
       concat (map (\<lambda>c. case attempts_on c records of (s, f) \<Rightarrow>
         if s + f \<ge> 5 \<and> f > s then [(c, if f > 3 * s then ''warning'' else ''info'')] else [])
         (dkeys ?g)) @
       concat (map (\<lambda>c. case attempts_on c records of (s, f) \<Rightarrow>
         if s + f \<ge> 5 \<and> s > f * 3 then [(c, ''info'')] else []) (dkeys ?g))"
    unfolding map_over_groups failing_mark reliable_mark attempts_on_def prod.case ..
  finally show ?thesis
    using assms widest_info [of ?g]
    by (intro exI [of _ "report_of clock isofmt n records"] exI [of _ "widest_insight ?g"])
      (simp add: hold_meeting_def report_of_def Let_def)
qed

text \<open>A guild with one capability that fails nine times out of ten, used by two roles and once by none.\<close>

definition flaky_record :: "string \<Rightarrow> string option \<Rightarrow> int \<Rightarrow> guild_record" where
  "flaky_record e role fails =
     \<lparr>gr_fingerprint = \<lparr>fp_capability = ''http'', fp_error_type = e, fp_input = ''x''\<rparr>, gr_resolution_hint = None,
      gr_approach_adjustment = [], gr_role = role, gr_project = None,
      gr_success_count = (if e = ''_success'' then 1 else 0), gr_failure_count = fails,
      gr_created_at = 0, gr_updated_at = 0, gr_metadata = []\<rparr>"

definition flaky_records :: "guild_record list" where
  "flaky_records = [flaky_record ''Timeout'' (Some ''worker'') 5, flaky_record ''OSError'' (Some ''planner'') 4,
     flaky_record ''_success'' None 0]"

definition flaky_guild :: guild_store where
  "flaky_guild = Mem_Guild \<lparr>mg_records = map (\<lambda>r. (gr_key r, r)) flaky_records\<rparr>"

definition meeting_config :: guild_config where
  "meeting_config = guild_config_default\<lparr>gc_enabled := True\<rparr>"

lemma flaky_guild_list:
  "gs_list flaky_guild None None = Inr flaky_records" "flaky_records \<noteq> []" "gc_enabled meeting_config"
  by (simp_all add: flaky_guild_def mg_list_def filter_guild_records_def dvalues_def comp_def flaky_records_def
      meeting_config_def)

theorem meeting_counts_every_record_once_witness:
  "\<exists>rep. hold_meeting (Some meeting_config) (\<lambda>n. 0) (\<lambda>t. []) 0 flaky_guild = Inr (Some rep) \<and>
     mt_total_records rep = 3 \<and> sum_list (map mp_total_failures (mt_capability_profiles rep)) = 9"
proof -
  have "sum_list (map gr_failure_count flaky_records) = 9" "length flaky_records = 3"
    by (simp_all add: flaky_records_def flaky_record_def)
  with meeting_counts_every_record_once [OF flaky_guild_list, of "\<lambda>n. 0" "\<lambda>t. []" 0] show ?thesis by auto
qed

theorem meeting_insights_thresholds_witness:
  "\<exists>rep widest. hold_meeting (Some meeting_config) (\<lambda>n. 0) (\<lambda>t. []) 0 flaky_guild = Inr (Some rep) \<and>
     map mark (mt_cross_role_insights rep) = map mark widest @ [(''http'', ''warning'')]"
proof -
  have "dkeys (group_by gr_capability flaky_records) = [''http'']" "attempts_on ''http'' flaky_records = (1, 9)"
    by (simp_all add: group_by_def flaky_records_def flaky_record_def dget_def dset_def dkeys_def attempts_on_def
        successes_def failures_def)
  with meeting_insights_thresholds [OF flaky_guild_list, of "\<lambda>n. 0" "\<lambda>t. []" 0] show ?thesis by auto
qed

end
