(* ===== verification/Cli.thy ===== *)
theory Cli
  imports Loader Workflow_Properties Api Meeting
begin

text \<open>
  \<^verbatim>\<open>cli/cond.py\<close>: the commands of \<^verbatim>\<open>cond\<close> that work on the engine in the process of the command, and
  what one process leaves for the next: the task file, the guild file and nothing else.  The task file
  is the world's task store (\<open>Stores\<close> shows that a file store answers as the in-memory one does); the
  clock and the id source go on from process to process.

  A command has the parsed arguments, what the file it reads validates to (or raises), and what it
  prints is a value; \<open>Cli_Parser\<close> parses the arguments and reads the files, \<open>Cli_Render\<close> prints.
\<close>

section \<open>One process\<close>

definition cli_supervisor :: "supervisor \<Rightarrow> registry \<Rightarrow> string \<Rightarrow> supervisor" where
  "cli_supervisor env r workdir =
     env\<lparr>sv_registry := r, sv_workdir := workdir, sv_policy := Null_Policy, sv_retry_strategy := default_retry,
         sv_escalation_policy := None, sv_guild_knowledge := None, sv_peer_suggestions := None,
         sv_bus_raises := (\<lambda>n e. False)\<rparr>"

definition new_process :: "world \<Rightarrow> world" where
  "new_process w = w\<lparr>w_queue := Mem_Queue mq_init, w_last_start := [], w_events := []\<rparr>"

definition default_config :: string where
  "default_config = ''config/conductor.capabilities.yaml''"

definition resolve_registry :: "loader_env \<Rightarrow> string option \<Rightarrow> string \<Rightarrow> exc + registry" where
  "resolve_registry env config_path workdir =
     (case config_path of
        Some p \<Rightarrow> if p \<noteq> [] then load_capabilities env (Some p) workdir
                  else if le_exists env default_config then load_capabilities env (Some default_config) workdir
                  else load_capabilities env None workdir
      | None \<Rightarrow> if le_exists env default_config then load_capabilities env (Some default_config) workdir
                else load_capabilities env None workdir)"

section \<open>Finding a task and a guild record\<close>

definition resolve_task :: "world \<Rightarrow> string \<Rightarrow> exc + task_record" where
  "resolve_task w s =
     (case get_task w s of
        Inr t \<Rightarrow> Inr t
      | Inl e \<Rightarrow>
          if \<not> is_value_error e then Inl e
          else case filter (\<lambda>t. prefix_of s (task_id t)) (list_tasks w None 0 None) of
            [] \<Rightarrow> Inl (Value_Error (''Task '' @ quote1 @ s @ quote1 @ '' was not found''))
          | [t] \<Rightarrow> get_task w (task_id t)
          | _ \<Rightarrow> Inl (Value_Error (''Task id prefix '' @ quote1 @ s @ quote1 @ '' is ambiguous; provide more characters'')))"

definition resolve_guild_record :: "guild_store \<Rightarrow> string \<Rightarrow> exc + guild_record" where
  "resolve_guild_record g s =
     (case gs_list g None None of
        Inl e \<Rightarrow> Inl e
      | Inr records \<Rightarrow>
          (case filter (\<lambda>r. prefix_of s (gr_key r)) records of
             [] \<Rightarrow> Inl (Value_Error (''Guild record '' @ quote1 @ s @ quote1 @ '' was not found''))
           | [r] \<Rightarrow> Inr r
           | _ \<Rightarrow> Inl (Value_Error (''Fingerprint prefix '' @ quote1 @ s @ quote1 @
                    '' is ambiguous; provide more characters''))))"

section \<open>Commands\<close>

datatype shown =
    Run_Panel task_record
  | Capability_Table "cap_descriptor list"
  | Task_Table "task_record list" nat
  | Task_Detail task_record
  | Workflow_Panel workflow_result
  | Health_Panel "cp_health list"
  | Snapshot cp_snapshot
  | Guild_Table "guild_record list"
  | Guild_Detail guild_record
  | Guild_Cleared
  | No_Guild_Records
  | Guild_Meeting meeting_report
  | Error_Line string

record guild_filters =
  gf_capability :: "string option"
  gf_error_type :: "string option"
  gf_role :: "string option"
  gf_limit :: "int option"
  gf_offset :: int

datatype command =
    Cmd_Run "exc + task_submission"
  | Cmd_Capability_List
  | Cmd_Task_List "int option" int "string option"
  | Cmd_Task_Show string
  | Cmd_Task_Approve string string bool
  | Cmd_Task_Cancel string string "string option"
  | Cmd_Workflow_Run "exc + workflow_goal \<times> plan_step list" "nat \<Rightarrow> nat list"
  | Cmd_Health health_env
  | Cmd_Snapshot health_env
  | Cmd_Guild_List guild_filters
  | Cmd_Guild_Show string
  | Cmd_Guild_Clear
  | Cmd_Guild_Meet

definition cli_health_components :: "health_env \<Rightarrow> supervisor \<Rightarrow> world \<Rightarrow> cp_health list" where
  "cli_health_components env sv w =
     (let r = sv_registry sv in
      build_health_components
        [(''registry'', Some (reg_health_check r), show_nat (length (reg_names r)) @ '' capabilities loaded''),
         (''task_store'', Some (he_store_issues env), he_store_detail env),
         (''queue'', Some (tq_health_check (w_queue w)), show_nat (length (tq_list (w_queue w))) @ '' queued''),
         (''event_bus'', Some [], he_bus_name env),
         (''policy'', Some (policy_health_check (he_opa_status env) (sv_policy sv)), policy_type_name (sv_policy sv)),
         (''supervisor'', Some (supervisor_health_check (he_workdir_exists env) (he_workdir_is_dir env) sv), sv_workdir sv)])"

definition health_exit :: "cp_health list \<Rightarrow> int" where
  "health_exit components = (if list_ex (\<lambda>c. cph_issues c \<noteq> []) components then 1 else 0)"

text \<open>\<^verbatim>\<open>_guild_list_table\<close> takes the store only: the parsed filters are not passed on.\<close>

definition guild_list_table :: "guild_store \<Rightarrow> exc + shown" where
  "guild_list_table g =
     map_sum id (\<lambda>records. if records = [] then No_Guild_Records else Guild_Table records) (gs_list g None None)"

fun guild_clear :: "guild_store \<Rightarrow> guild_store" where
  "guild_clear (Mem_Guild s) = Mem_Guild (mg_clear s)"
| "guild_clear (Local_Guild s) = Local_Guild (lg_clear s)"

text \<open>What a returned record becomes: exit code 0 and what is shown, whatever its status.\<close>

definition shows_task :: "(task_record \<Rightarrow> shown) \<Rightarrow> (exc + task_record) \<times> world \<Rightarrow> (exc + int \<times> shown) \<times> world" where
  "shows_task panel rw = (case rw of (r, w) \<Rightarrow> (map_sum id (\<lambda>t. (0, panel t)) r, w))"

text \<open>How often a meeting reads the clock.\<close>

definition meeting_reads :: "guild_store \<Rightarrow> nat" where
  "meeting_reads g = (case gs_list g None None of Inl e \<Rightarrow> 0 | Inr records \<Rightarrow> if records = [] then 2 else 3)"

fun exec_command :: "supervisor \<Rightarrow> (int \<Rightarrow> string) \<Rightarrow> command \<Rightarrow> world \<Rightarrow> (exc + int \<times> shown) \<times> world" where
  "exec_command sv iso_text (Cmd_Run file) w =
     (case file of
        Inl e \<Rightarrow> (Inl e, w)
      | Inr submission \<Rightarrow> shows_task Run_Panel (run_submission sv submission w))"
| "exec_command sv iso_text Cmd_Capability_List w = (Inr (0, Capability_Table (reg_list (sv_registry sv))), w)"
| "exec_command sv iso_text (Cmd_Task_List limit offset status) w =
     (Inr (0, Task_Table (list_tasks w limit offset status) (length (list_tasks w None 0 status))), w)"
| "exec_command sv iso_text (Cmd_Task_Show s) w = (map_sum id (\<lambda>t. (0, Task_Detail t)) (resolve_task w s), w)"
| "exec_command sv iso_text (Cmd_Task_Approve s actor no_run) w =
     (case resolve_task w s of
        Inl e \<Rightarrow> (Inl e, w)
      | Inr t \<Rightarrow> shows_task Task_Detail (approve_task sv (task_id t) actor None (\<not> no_run) w))"
| "exec_command sv iso_text (Cmd_Task_Cancel s actor reason) w =
     (case resolve_task w s of
        Inl e \<Rightarrow> (Inl e, w)
      | Inr t \<Rightarrow> shows_task Task_Detail (cancel_task sv (task_id t) actor reason None w))"
| "exec_command sv iso_text (Cmd_Workflow_Run file orders) w =
     (case file of
        Inl e \<Rightarrow> (Inl e, w)
      | Inr (goal, steps) \<Rightarrow>
          (case workflow_run (bundled sv steps) orders goal w of
             (r, w) \<Rightarrow> (map_sum id (\<lambda>x. (0, Workflow_Panel x)) r, w)))"
| "exec_command sv iso_text (Cmd_Health env) w =
     (let components = cli_health_components env sv w in (Inr (health_exit components, Health_Panel components), w))"
| "exec_command sv iso_text (Cmd_Snapshot env) w =
     (let (t, w) = now_utc sv w in
      (map_sum id (\<lambda>x. (0, Snapshot x))
        (build_control_plane_snapshot t (list_tasks w None 0 None) (sv_registry sv) (cli_health_components env sv w)), w))"
| "exec_command sv iso_text (Cmd_Guild_List filters) w = (map_sum id (\<lambda>x. (0, x)) (guild_list_table (w_guild w)), w)"
| "exec_command sv iso_text (Cmd_Guild_Show s) w =
     (map_sum id (\<lambda>r. (0, Guild_Detail r)) (resolve_guild_record (w_guild w) s), w)"
| "exec_command sv iso_text Cmd_Guild_Clear w = (Inr (0, Guild_Cleared), w\<lparr>w_guild := guild_clear (w_guild w)\<rparr>)"
| "exec_command sv iso_text Cmd_Guild_Meet w =
     (map_sum id
        (\<lambda>report. (0, case report of
            None \<Rightarrow> No_Guild_Records
          | Some rep \<Rightarrow> if mt_total_records rep = 0 then No_Guild_Records else Guild_Meeting rep))
        (hold_meeting (Some (guild_config_default\<lparr>gc_enabled := True\<rparr>)) (sv_clock sv) iso_text (w_tick w) (w_guild w)),
      w\<lparr>w_tick := w_tick w + meeting_reads (w_guild w)\<rparr>)"

text \<open>The exceptions \<^verbatim>\<open>main\<close> turns into a line on stderr and exit code 2.\<close>

definition handled_by_main :: "exc \<Rightarrow> bool" where
  "handled_by_main e \<longleftrightarrow> is_value_error e \<or> is_key_error e \<or> exc_type e \<in> {''FileNotFoundError'', ''YAMLError''}"

definition cli_main ::
  "supervisor \<Rightarrow> loader_env \<Rightarrow> (int \<Rightarrow> string) \<Rightarrow> string option \<Rightarrow> string \<Rightarrow> command \<Rightarrow> world \<Rightarrow>
   (exc + int \<times> shown) \<times> world" where
  "cli_main env lenv iso_text config workdir cmd w =
     (case (case resolve_registry lenv config workdir of
              Inl e \<Rightarrow> (Inl e, new_process w)
            | Inr r \<Rightarrow> exec_command (cli_supervisor env r workdir) iso_text cmd (new_process w)) of
        (Inr x, w) \<Rightarrow> (Inr x, w)
      | (Inl e, w) \<Rightarrow> if handled_by_main e then (Inr (2, Error_Line (exc_str e)), w) else (Inl e, w))"

section \<open>API keys\<close>

text \<open>\<^verbatim>\<open>cond api-key\<close>: the store is loaded from its file for every command.\<close>

datatype key_command = Key_Generate string "string list option" | Key_List | Key_Revoke string

datatype key_shown = New_Key string api_key_entry | Key_Table "api_key_entry list" | Revoked_Key string string | No_Such_Key string

definition api_key_handler ::
  "(string \<Rightarrow> string) \<Rightarrow> string \<Rightarrow> int \<Rightarrow> string \<Rightarrow> key_command \<Rightarrow> key_file \<Rightarrow> (int \<times> key_shown) \<times> key_file" where
  "api_key_handler h now mtime token_hex cmd f =
     (let store = key_store_init now f in
      case cmd of
        Key_Generate actor scopes \<Rightarrow>
          (case key_generate h now mtime token_hex actor (if scopes = Some [] then None else scopes) store f of
             ((raw, entry), store, f) \<Rightarrow> ((0, New_Key raw entry), f))
      | Key_List \<Rightarrow> ((0, Key_Table (list_keys store)), f)
      | Key_Revoke prefix \<Rightarrow>
          (case find_by_prefix prefix store of
             None \<Rightarrow> ((1, No_Such_Key prefix), f)
           | Some entry \<Rightarrow>
               (case key_revoke mtime (ke_key_hash entry) store f of
                  (_, store, f) \<Rightarrow> ((0, Revoked_Key prefix (ke_actor entry)), f))))"

end
