(* ===== verification/Cli_Properties.thy ===== *)
theory Cli_Properties
  imports Cli
begin

text \<open>
  What the \<^verbatim>\<open>cond\<close> commands do across processes: how a task is found, and what becomes of a task that
  was approved without being run.
\<close>

section \<open>Finding a task\<close>

lemma listed_iff:
  assumes "ms_ok (w_store w)"
  shows "t \<in> set (list_tasks w None 0 None) \<longleftrightarrow> ms_get (w_store w) (task_id t) = Some t"
    and "distinct (map task_id (list_tasks w None 0 None))"
  using mts.listed_ok [OF assms] by (simp_all add: list_tasks_def)

text \<open>
  An id or a unique prefix names a task: \<^verbatim>\<open>cond\<close> resolves a text to a stored task exactly when it
  is that task's id, or when it is no task's id and that task's is the only stored id it is a prefix
  of; in every other case it raises \<^verbatim>\<open>ValueError\<close>, which ends the command with exit code 2.
\<close>

theorem resolve_task_iff:
  assumes "ms_ok (w_store w)"
  shows "(case resolve_task w s of
      Inr t \<Rightarrow> ms_get (w_store w) (task_id t) = Some t \<and>
        (s = task_id t \<or> ms_get (w_store w) s = None \<and>
          {k. ms_get (w_store w) k \<noteq> None \<and> prefix_of s k} = {task_id t})
    | Inl e \<Rightarrow> handled_by_main e \<and> ms_get (w_store w) s = None \<and>
        (\<nexists>k. {k. ms_get (w_store w) k \<noteq> None \<and> prefix_of s k} = {k}))"
proof (cases "get_task w s")
  case (Inr t)
  then have "resolve_task w s = Inr t" by (simp add: resolve_task_def)
  with get_task_id [OF assms Inr] Inr show ?thesis by (simp add: get_task_Inr)
next
  case (Inl e)
  then have none: "ms_get (w_store w) s = None" and val: "is_value_error e"
    by (auto simp: get_task_def split: option.splits)
  let ?ms = "filter (\<lambda>t. prefix_of s (task_id t)) (list_tasks w None 0 None)"
  have ids: "{k. ms_get (w_store w) k \<noteq> None \<and> prefix_of s k} = task_id ` set ?ms"
  proof -
    have "k \<in> task_id ` set ?ms" if "ms_get (w_store w) k = Some t" "prefix_of s k" for k t
    proof -
      have "task_id t = k" using that(1) get_task_id [OF assms, of k t] by (simp add: get_task_Inr)
      with that listed_iff(1) [OF assms, of t] show ?thesis by (auto intro!: image_eqI [of _ _ t])
    qed
    moreover have "ms_get (w_store w) (task_id t) \<noteq> None" if "t \<in> set ?ms" for t
      using that listed_iff(1) [OF assms, of t] by simp
    ultimately show ?thesis by auto
  qed
  have dist: "distinct (map task_id ?ms)"
    using listed_iff(2) [OF assms] by (rule distinct_map_filter)
  show ?thesis
  proof (cases ?ms)
    case Nil
    then have "resolve_task w s = Inl (Value_Error (''Task '' @ quote1 @ s @ quote1 @ '' was not found''))"
      using Inl val by (simp add: resolve_task_def)
    moreover have "\<nexists>k. task_id ` set ?ms = {k}" using Nil by simp
    ultimately show ?thesis using none ids by (simp add: handled_by_main_def)
  next
    case (Cons t ts)
    then have t: "ms_get (w_store w) (task_id t) = Some t" "prefix_of s (task_id t)"
      using listed_iff(1) [OF assms, of t] by (auto simp: filter_eq_Cons_iff)
    show ?thesis
    proof (cases ts)
      case Nil
      then have "resolve_task w s = Inr t"
        using Inl val Cons t by (simp add: resolve_task_def get_task_def)
      with t none ids Cons Nil show ?thesis by simp
    next
      case (Cons u us)
      with \<open>?ms = t # ts\<close> have r: "resolve_task w s =
          Inl (Value_Error (''Task id prefix '' @ quote1 @ s @ quote1 @ '' is ambiguous; provide more characters''))"
        using Inl val by (simp add: resolve_task_def)
      have "task_id t \<noteq> task_id u" using dist \<open>?ms = t # ts\<close> Cons by simp
      then have "\<nexists>k. task_id ` set ?ms = {k}" using \<open>?ms = t # ts\<close> Cons by auto
      with r none ids show ?thesis by (simp add: handled_by_main_def)
    qed
  qed
qed

section \<open>A task at rest\<close>

text \<open>A stored task nothing is done to: its record stays, and so do its executions.\<close>

definition at_rest :: "supervisor \<Rightarrow> task_record \<Rightarrow> (string \<times> string \<times> rat) list \<Rightarrow> world \<Rightarrow> bool" where
  "at_rest sv t xs w \<longleftrightarrow> world_ok sv w \<and> ms_get (w_store w) (task_id t) = Some t \<and>
     filter (\<lambda>x. fst x = task_id t) (w_executions w) = xs"

lemma at_rest_frame:
  assumes "at_rest sv t xs w" and "run_frame (t1, w) (t2, w')" and "task_id t1 \<noteq> task_id t" and "world_ok sv w'"
  shows "at_rest sv t xs w'"
proof -
  from assms(2) obtain ys where ys: "w_executions w' = w_executions w @ ys" "\<forall>x \<in> set ys. fst x = task_id t1"
    by (auto simp: run_frame_def)
  with assms(3) have "filter (\<lambda>x. fst x = task_id t) ys = []" by (auto simp: filter_empty_conv)
  with assms ys show ?thesis by (auto simp: at_rest_def run_frame_def)
qed

lemma world_ok_cong:
  assumes "w_store w' = w_store w" and "gs_ok (w_guild w) \<Longrightarrow> gs_ok (w_guild w')"
    and "w_uuids w' = w_uuids w" and "w_executions w' = w_executions w"
  shows "world_ok sv w \<Longrightarrow> world_ok sv w'"
  using assms by (simp add: world_ok_def)

lemma at_rest_run_task:
  assumes rest: "at_rest sv t xs w" and run: "run_task sv i w = (r, w')" and other: "i \<noteq> task_id t"
    and ok: "world_ok sv w'"
  shows "at_rest sv t xs w'"
proof (cases "get_task w i")
  case (Inl e)
  with run rest show ?thesis by (simp add: run_task_def)
next
  case (Inr t1)
  have "task_id t1 = i" using rest get_task_id [OF _ Inr] by (simp add: at_rest_def world_ok_def)
  with run_task_frame [OF run Inr] at_rest_frame [OF rest] other ok show ?thesis by blast
qed

lemma at_rest_run_submission:
  assumes rest: "at_rest sv t xs w" and inj: "inj (sv_uuid sv)" and run: "run_submission sv sub w = (r, w')"
  shows "at_rest sv t xs w'"
proof (cases "validate_task_submission sub (sv_registry sv)")
  case (Inl e)
  with run rest show ?thesis by (simp add: run_submission_def create_task_record_eq)
next
  case (Inr c)
  let ?i = "sv_uuid sv (w_uuids w)"
  have ok: "world_ok sv w" using rest by (simp add: at_rest_def)
  have fresh: "?i \<noteq> task_id t" using fresh_id [OF ok inj] rest by (auto simp: at_rest_def)
  have "world_ok sv w'"
    using sup_exec_ok [OF ok inj, of "Run_Submission sub" r w'] run by (simp add: run_ok_def)
  moreover have "run_task sv ?i (created_world sv sub w) = (r, w')"
    using run Inr by (simp add: run_submission_def create_task_record_eq)
  moreover have "at_rest sv t xs (created_world sv sub w)"
    using rest fresh created_world_ok [OF ok inj] by (simp add: at_rest_def created_world_def)
  ultimately show ?thesis using at_rest_run_task fresh by metis
qed

lemma at_rest_approve:
  assumes rest: "at_rest sv t xs w" and inj: "inj (sv_uuid sv)" and st: "task_status t \<noteq> AWAITING_APPROVAL"
    and ap: "approve_task sv i actor md run w = (r, w')"
  shows "at_rest sv t xs w'"
proof -
  have ok: "world_ok sv w" using rest by (simp add: at_rest_def)
  have ok': "world_ok sv w'"
    using sup_exec_ok [OF ok inj, of "Approve i actor md run" r w'] ap by (simp add: run_ok_def)
  from ap show ?thesis
  proof (cases rule: approve_task_stages)
    case refused
    with rest show ?thesis by simp
  next
    case (approved t0 t1 w1)
    have i: "task_id t0 = i" using get_task_id [OF _ approved(1)] ok by (simp add: world_ok_def)
    have other: "i \<noteq> task_id t"
      using approved(1,2) rest st by (auto simp: at_rest_def get_task_Inr)
    have "run_frame (t0, w) (t1, w1)" using transition_frame [of "(t0, w)"] approved(3) by metis
    moreover have "world_ok sv w1"
      using approve_live [OF ok approved(1-3)] live_world by blast
    ultimately have rest1: "at_rest sv t xs w1" using at_rest_frame [OF rest] i other by blast
    from approved(4) show ?thesis
    proof (elim disjE conjE exE)
      assume "run_task sv i w1 = (r, w')"
      then show ?thesis using at_rest_run_task [OF rest1 _ other ok'] by blast
    qed (use rest1 ok' in \<open>simp_all add: at_rest_def\<close>)
  qed
qed

lemma at_rest_cancel:
  assumes rest: "at_rest sv t xs w" and inj: "inj (sv_uuid sv)" and st: "task_status t \<noteq> AWAITING_APPROVAL"
    and ca: "cancel_task sv i actor reason md w = (r, w')"
  shows "at_rest sv t xs w'"
proof -
  have ok: "world_ok sv w" using rest by (simp add: at_rest_def)
  have ok': "world_ok sv w'"
    using sup_exec_ok [OF ok inj, of "Cancel i actor reason md" r w'] ca by (simp add: run_ok_def)
  from ca show ?thesis
  proof (cases rule: cancel_task_stages)
    case refused
    with rest show ?thesis by simp
  next
    case (cancelled t0 res x w1 t1 m err)
    have i: "task_id t0 = i" using get_task_id [OF _ cancelled(1)] ok by (simp add: world_ok_def)
    have other: "i \<noteq> task_id t"
      using cancelled(1,2) rest st by (auto simp: at_rest_def get_task_Inr)
    have "run_frame (t0, w) (t0\<lparr>task_result := res\<rparr>, w1)"
      by (rule run_frame_trans [OF now_utc_frame [OF cancelled(3)] run_frame_task(2)])
    then have "run_frame (t0, w) (t1, w')"
      unfolding cancelled(4) [symmetric] by (rule run_frame_trans) (rule transition_frame)
    from at_rest_frame [OF rest this _ ok'] i other show ?thesis by simp
  qed
qed

text \<open>A workflow of the bundled agents keeps what its submissions keep.\<close>

lemma run_in_order_keeps:
  assumes "\<And>s w r w'. P w \<Longrightarrow> f s w = (r, w') \<Longrightarrow> P w'"
  shows "P w \<Longrightarrow> run_in_order f batch is w = (rs, w') \<Longrightarrow> P w'"
proof (induction "is" arbitrary: w rs)
  case (Cons i "is")
  obtain r w1 rs1 w2 where "f (batch ! i) w = (r, w1)" "run_in_order f batch is w1 = (rs1, w2)"
    by (meson surj_pair)
  moreover have "P w1" using assms [OF Cons.prems(1)] calculation(1) .
  ultimately show ?case using Cons.IH [of w1 rs1] Cons.prems(2) by simp
qed simp

lemma run_batch_keeps:
  assumes step: "\<And>pr s w r w'. P w \<Longrightarrow> run_step o1 wid pr s w = (r, w') \<Longrightarrow> P w'"
    and P: "P w" and b: "run_batch o1 wid pr order batch w = (r, w')"
  shows "P w'"
proof -
  have many: "P w''" if "run_in_order (run_step o1 wid pr) ss is w = (rs, w'')" for ss "is" rs w''
    by (rule run_in_order_keeps [where P = P, OF _ P that]) (rule step)
  show ?thesis
  proof (cases "length batch = 1")
    case True
    then obtain s where "batch = [s]" by (cases batch) auto
    moreover obtain x w1 where "run_step o1 wid pr s w = (x, w1)" by fastforce
    moreover from this have "P w1" by (rule step [OF P])
    ultimately show ?thesis using b by (auto simp: run_batch_def split: sum.splits)
  next
    case False
    obtain rs w1 where "run_in_order (run_step o1 wid pr) batch order w = (rs, w1)" by fastforce
    with b False many [OF this] show ?thesis by (auto simp: run_batch_def split: list.splits)
  qed
qed

lemma run_batches_keeps:
  assumes step: "\<And>pr s w r w'. P w \<Longrightarrow> run_step o1 wid pr s w = (r, w') \<Longrightarrow> P w'"
  shows "P w \<Longrightarrow> run_batches o1 wid orders batches records w = (r, w') \<Longrightarrow> P w'"
proof (induction batches arbitrary: orders records w)
  case (Cons b bs)
  obtain r1 w1 where b: "run_batch o1 wid records (orders 0) b w = (r1, w1)" by fastforce
  have "P w1" by (rule run_batch_keeps [where P = P, OF _ Cons.prems(1) b]) (rule step)
  with Cons.IH [of w1] Cons.prems b show ?case by (auto split: sum.splits if_splits)
qed simp

lemma bundled_workflow_keeps:
  assumes sub: "\<And>sub w r w'. P w \<Longrightarrow> run_submission sv sub w = (r, w') \<Longrightarrow> P w'"
    and P: "P w" and run: "workflow_run (bundled sv steps) orders goal w = (r, w')"
  shows "P w'"
proof -
  have step: "P w \<Longrightarrow> run_step (bundled sv steps) wid pr s w = (r, w') \<Longrightarrow> P w'" for wid pr s w r w'
    using sub by (simp add: bundled_step)
  obtain r1 w1 where b: "run_batches (bundled sv steps) (wg_workflow_id goal) orders (step_batches steps) [] w = (r1, w1)"
    by fastforce
  have "P w1" by (rule run_batches_keeps [where P = P, OF _ P b]) (rule step)
  moreover have "w' = w1"
    using run b
    by (auto simp: workflow_run_def bundled_def linear_plan_def passthrough_validate_def split: sum.splits prod.splits if_splits)
  ultimately show ?thesis by simp
qed

section \<open>Approval without a run\<close>

lemma world_ok_process [simp]:
  "world_ok (cli_supervisor env r d) w = world_ok env w" "world_ok env (new_process w) = world_ok env w"
  by (simp_all add: world_ok_def cli_supervisor_def new_process_def)

lemma at_rest_process:
  "sv_uuid (cli_supervisor env r d) = sv_uuid env" "at_rest (cli_supervisor env r d) t xs w = at_rest env t xs w" "at_rest env t xs (new_process w) = at_rest env t xs w"
  by (simp_all add: at_rest_def) (simp_all add: new_process_def cli_supervisor_def)

lemma guild_clear_ok: "gs_ok g \<Longrightarrow> gs_ok (guild_clear g)"
  by (cases g) (auto simp: mg_clear_def lg_clear_def mg_ok_def lg_ok_def mg_init_def lg_read_all_def dict_ok_def)

lemma exec_command_at_rest:
  assumes rest: "at_rest sv t xs w" and inj: "inj (sv_uuid sv)" and st: "task_status t \<noteq> AWAITING_APPROVAL"
    and ex: "exec_command sv f cmd w = (r, w')"
  shows "at_rest sv t xs w'"
proof (cases cmd)
  case (Cmd_Run x)
  then show ?thesis
    using ex rest at_rest_run_submission [OF rest inj] by (auto simp: shows_task_def split: sum.splits prod.splits)
next
  case (Cmd_Task_Approve s actor no_run)
  then show ?thesis
    using ex rest at_rest_approve [OF rest inj st] by (auto simp: shows_task_def split: sum.splits prod.splits)
next
  case (Cmd_Task_Cancel s actor reason)
  then show ?thesis
    using ex rest at_rest_cancel [OF rest inj st] by (auto simp: shows_task_def split: sum.splits prod.splits)
next
  case (Cmd_Workflow_Run x orders)
  have "at_rest sv t xs w2" if "workflow_run (bundled sv steps) orders goal w = (y, w2)" for steps goal y w2
    by (rule bundled_workflow_keeps [where P = "at_rest sv t xs", OF _ rest that])
      (rule at_rest_run_submission [OF _ inj])
  then show ?thesis using ex rest Cmd_Workflow_Run by (auto split: sum.splits prod.splits)
qed (use ex rest guild_clear_ok [of "w_guild w"] world_ok_cong [of _ w sv] in \<open>auto simp: at_rest_def now_utc_def Let_def\<close>)

lemma cli_main_at_rest:
  assumes "at_rest env t xs w" and "inj (sv_uuid env)" and "task_status t \<noteq> AWAITING_APPROVAL"
    and "cli_main env lenv f config d cmd w = (r, w')"
  shows "at_rest env t xs w'"
proof (cases "resolve_registry lenv config d")
  case (Inl e)
  with assms show ?thesis by (auto simp: cli_main_def at_rest_process split: if_splits)
next
  case (Inr reg)
  obtain r1 w1 where e: "exec_command (cli_supervisor env reg d) f cmd (new_process w) = (r1, w1)" by fastforce
  have "at_rest (cli_supervisor env reg d) t xs w1"
    by (rule exec_command_at_rest [OF _ _ assms(3) e])
      (use assms(1,2) in \<open>simp_all add: at_rest_process\<close>)
  with assms(4) Inr e show ?thesis by (auto simp: cli_main_def at_rest_process split: sum.splits if_splits)
qed

text \<open>A series of processes: configuration, working directory and command of each.\<close>

type_synonym invocation = "loader_env \<times> string option \<times> string \<times> command"

fun run_invocations :: "supervisor \<Rightarrow> (int \<Rightarrow> string) \<Rightarrow> invocation list \<Rightarrow> world \<Rightarrow> world" where
  "run_invocations env f [] w = w"
| "run_invocations env f ((lenv, config, d, cmd) # xs) w =
     run_invocations env f xs (snd (cli_main env lenv f config d cmd w))"

lemma run_invocations_at_rest:
  assumes "inj (sv_uuid env)" and "task_status t \<noteq> AWAITING_APPROVAL"
  shows "at_rest env t xs w \<Longrightarrow> at_rest env t xs (run_invocations env f invs w)"
proof (induction invs arbitrary: w)
  case (Cons x invs)
  obtain lenv config d cmd where x: "x = (lenv, config, d, cmd)" by (cases x)
  obtain r w' where "cli_main env lenv f config d cmd w = (r, w')" by fastforce
  with cli_main_at_rest [OF Cons.prems assms this] Cons.IH x show ?case by simp
qed simp

text \<open>What an approval that exits with 0 leaves behind.\<close>

lemma approved_no_run:
  assumes ok: "world_ok sv w" and ap: "approve_task sv i actor md False w = (Inr t1, w')"
  obtains t where "get_task w i = Inr t" "task_id t1 = i" "task_status t1 = APPROVED"
    "at_rest sv t1 (filter (\<lambda>x. fst x = i) (w_executions w)) w'"
  using ap
proof (cases rule: approve_task_stages)
  case refused
  then show thesis by simp
next
  case (approved t t2 w1)
  from approved(4) obtain q where t2: "t2 = t1" "w' = w1\<lparr>w_queue := q\<rparr>" by auto
  have i: "task_id t = i" using get_task_id [OF _ approved(1)] ok by (simp add: world_ok_def)
  have tr: "transition_status sv APPROVED actor ''approved'' TASK_APPROVED (empty_if_none md) None None (t, w) = (t1, w1)"
    using approved(3) t2 by simp
  have "live sv APPROVED True (t1, w1)" "stored (t1, w1)" using approve_live [OF ok approved(1,2) tr] .
  moreover have "task_id t1 = i" 
    using transition_frame [of "(t, w)" sv APPROVED actor "''approved''" TASK_APPROVED "empty_if_none md" None None] tr i
    by (simp add: run_frame_def)
  moreover have "w_executions w1 = w_executions w"
    using transition_executions [of sv APPROVED actor "''approved''" TASK_APPROVED "empty_if_none md" None None "(t, w)"] tr by simp
  ultimately show thesis
    using that [OF approved(1)] t2(2) by (simp add: live_def stored_def at_rest_def world_ok_def)
qed

text \<open>
  C31. A task approved with \<^verbatim>\<open>--no-run\<close> is stranded: when \<^verbatim>\<open>cond task approve TASK --no-run\<close> exits with 0
  the shown task is \<^verbatim>\<open>APPROVED\<close>, and whatever \<^verbatim>\<open>cond\<close> commands on the engine (all but \<^verbatim>\<open>serve\<close>,
  \<^verbatim>\<open>help\<close> and \<^verbatim>\<open>api-key\<close>) are run afterwards, with whatever configuration, its record stays exactly
  that and its capability is not called: it was queued in a queue that died with the process, and no
  such command runs an approved task.
\<close>

theorem approved_without_run_is_stranded:
  assumes "world_ok env w" and "inj (sv_uuid env)"
    and "cli_main env lenv f config d (Cmd_Task_Approve s actor True) w = (Inr (0, Task_Detail t), w1)"
    and "run_invocations env f invs w1 = w2"
  shows "task_status t = APPROVED \<and> ms_get (w_store w2) (task_id t) = Some t \<and>
    filter (\<lambda>x. fst x = task_id t) (w_executions w2) = filter (\<lambda>x. fst x = task_id t) (w_executions w)"
proof -
  obtain reg where reg: "resolve_registry lenv config d = Inr reg"
    using assms(3) by (cases "resolve_registry lenv config d") (auto simp: cli_main_def split: if_splits)
  let ?sv = "cli_supervisor env reg d" and ?w = "new_process w"
  obtain t0 where t0: "resolve_task ?w s = Inr t0"
    using assms(3) reg by (cases "resolve_task ?w s") (auto simp: cli_main_def split: if_splits)
  obtain r w' where ap: "approve_task ?sv (task_id t0) actor None False ?w = (r, w')" by fastforce
  with assms(3) reg t0 have "r = Inr t" "w' = w1"
    by (auto simp: cli_main_def shows_task_def split: sum.splits if_splits)
  with ap have ap: "approve_task ?sv (task_id t0) actor None False ?w = (Inr t, w1)" by simp
  have ok: "world_ok ?sv ?w" using assms(1) by simp
  obtain t' where t: "task_id t = task_id t0" "task_status t = APPROVED"
      "at_rest ?sv t (filter (\<lambda>x. fst x = task_id t0) (w_executions ?w)) w1"
    by (rule approved_no_run [OF ok ap])
  then have "at_rest env t (filter (\<lambda>x. fst x = task_id t) (w_executions w)) w1"
    by (simp add: at_rest_process) (simp add: new_process_def)
  from run_invocations_at_rest [OF assms(2) _ this, of f invs] t assms(4) show ?thesis
    by (simp add: at_rest_def)
qed

section \<open>Witnesses\<close>

definition waiting_world :: world where
  "waiting_world = snd (run_submission gated_supervisor demo_submission demo_init)"

lemma gated_demo_valid: "\<exists>c. validate_task_submission demo_submission (sv_registry gated_supervisor) = Inr c \<and>
    cd_require_approval (cap_descriptor c)"
  by (simp add: validate_task_submission_def demo_submission_def gated_supervisor_def reg_get_def dget_def
      demo_capability_def py_strip_def is_ws_def)

lemma gated_inj: "inj (sv_uuid gated_supervisor)"
  using demo_inj by (simp add: gated_supervisor_def)

lemma waiting_world_ok: "world_ok gated_supervisor waiting_world"
proof -
  have "world_ok gated_supervisor demo_init"
    using demo_init_reachable reachable_ok [OF demo_init_reachable demo_inj]
    by (simp add: world_ok_def gated_supervisor_def)
  from sup_exec_ok [OF this gated_inj, of "Run_Submission demo_submission"] show ?thesis
    by (simp add: waiting_world_def run_ok_def prod_eq_iff)
qed

lemma waiting_task:
  "\<exists>t. ms_get (w_store waiting_world) [] = Some t \<and> task_id t = [] \<and> task_status t = AWAITING_APPROVAL"
proof -
  obtain c where c: "validate_task_submission demo_submission (sv_registry gated_supervisor) = Inr c"
    "cd_require_approval (cap_descriptor c)" using gated_demo_valid by blast
  have id: "sv_uuid gated_supervisor (w_uuids demo_init) = []"
    by (simp add: gated_supervisor_def demo_supervisor_def demo_init_def world_init_def)
  have "ms_get (w_store (created_world gated_supervisor demo_submission demo_init)) [] =
      Some (fresh_task gated_supervisor demo_submission demo_init)"
    by (simp add: created_world_def id)
  then show ?thesis
    using c id
    by (auto simp: waiting_world_def run_submission_def create_task_record_eq run_task_def get_task_def fresh_submission
        executable_status_def transition_status_def append_audit_def save_task_def emit_event_def or_now_def
        now_utc_def created_world_def Let_def split: prod.splits)
qed

text \<open>In a fresh process the queue takes every task.\<close>

lemma approve_no_run_succeeds:
  assumes "get_task w i = Inr t" and "task_status t = AWAITING_APPROVAL" and "w_queue w = Mem_Queue q"
  shows "\<exists>t1 w'. approve_task sv i actor md False w = (Inr t1, w')"
proof -
  obtain t1 w1 where tr: "transition_status sv APPROVED actor ''approved'' TASK_APPROVED (empty_if_none md)
      None None (t, w) = (t1, w1)" by fastforce
  have "w_queue w1 = Mem_Queue q"
    using transition_frame [of "(t, w)" sv APPROVED actor "''approved''" TASK_APPROVED "empty_if_none md" None None]
      tr assms(3) by (simp add: run_frame_def)
  moreover obtain q' where "mq_enqueue i q = Inr q'" by (auto simp: mq_enqueue_def)
  ultimately show ?thesis using assms tr by (simp add: approve_task_def)
qed

lemma demo_registry_loads: "\<exists>r. resolve_registry demo_loader_env (Some ''c.yaml'') ''/w'' = Inr r"
  by (simp add: resolve_registry_def load_capabilities_def demo_loader_env_def load_capabilities_from_file_def dget_def
      reg_init_def entries_of_def load_entry_def entry_capability_def gated_echo_entry_def entry_import_path_def
      entry_config_def import_object_def partition_colon_def entry_controls_def truthy_opt_def
      assign_require_approval_def bundled_instance_def echo_descriptor_def reg_register_def controls_of_def
      reg_set_execution_controls_def dset_def Let_def)

theorem approved_without_run_is_stranded_witness:
  "\<exists>t w1. cli_main gated_supervisor demo_loader_env (\<lambda>n. []) (Some ''c.yaml'') ''/w''
       (Cmd_Task_Approve [] ''bob'' True) waiting_world = (Inr (0, Task_Detail t), w1) \<and>
     task_status t = APPROVED \<and>
     ms_get (w_store (run_invocations gated_supervisor (\<lambda>n. [])
       [(demo_loader_env, Some ''c.yaml'', ''/w'', Cmd_Task_Approve [] ''bob'' False)] w1)) (task_id t) = Some t"
proof -
  obtain r where r: "resolve_registry demo_loader_env (Some ''c.yaml'') ''/w'' = Inr r"
    using demo_registry_loads by blast
  obtain t where t: "get_task (new_process waiting_world) [] = Inr t" "task_id t = []" "task_status t = AWAITING_APPROVAL"
    using waiting_task by (auto simp: get_task_def new_process_def)
  have q: "w_queue (new_process waiting_world) = Mem_Queue mq_init" by (simp add: new_process_def)
  obtain t1 w1 where a: "approve_task (cli_supervisor gated_supervisor r ''/w'') [] ''bob'' None False
      (new_process waiting_world) = (Inr t1, w1)"
    using approve_no_run_succeeds [OF t(1,3) q] by blast
  have "resolve_task (new_process waiting_world) [] = Inr t" using t(1) by (simp add: resolve_task_def)
  then have "cli_main gated_supervisor demo_loader_env (\<lambda>n. []) (Some ''c.yaml'') ''/w''
       (Cmd_Task_Approve [] ''bob'' True) waiting_world = (Inr (0, Task_Detail t1), w1)"
    using r a t(2) by (simp add: cli_main_def shows_task_def)
  with approved_without_run_is_stranded [OF waiting_world_ok gated_inj this refl] show ?thesis by blast
qed

theorem resolve_task_iff_witness:
  "\<exists>t. resolve_task waiting_world [] = Inr t \<and> ms_get (w_store waiting_world) (task_id t) = Some t \<and> task_id t = []"
proof -
  have ok: "ms_ok (w_store waiting_world)" using waiting_world_ok by (simp add: world_ok_def)
  show ?thesis
    using resolve_task_iff [OF ok, of "[]"] waiting_task by (auto simp: resolve_task_def get_task_def)
qed

end
