(* ===== verification/Cli_Render.thy ===== *)
theory Cli_Render
  imports Cli_Properties
begin

text \<open>
  What \<^verbatim>\<open>cond\<close> prints (\<^verbatim>\<open>cli/cond.py\<close>): the formatting of values, times and ids, the panels and tables
  of every command, and the help pages.

  Rich is not in the repository: a printed block is the value handed to \<^verbatim>\<open>console.print\<close>, which keeps
  apart a plain \<^verbatim>\<open>str\<close> (Rich reads markup in it) from a \<^verbatim>\<open>Text\<close> with a style (Rich shows it as it is).
  \<^verbatim>\<open>json.dumps\<close> is written out; the shortest decimal of a float and \<^verbatim>\<open>isoformat(timespec="seconds")\<close>
  are parameters, as are \<^verbatim>\<open>str\<close> of other values and the input models and manual pages of the capabilities.  \<^verbatim>\<open>len\<close> and slices
  count code points, of which a \<open>string\<close> holds the UTF-8 bytes.
\<close>

section \<open>Code points\<close>

definition starts_point :: "char \<Rightarrow> bool" where
  "starts_point c \<longleftrightarrow> (let n = (of_char c :: nat) in n < 128 \<or> 192 \<le> n)"

definition py_len :: "string \<Rightarrow> nat" where
  "py_len s = length (filter starts_point s)"

text \<open>\<^verbatim>\<open>s[:n]\<close> for a count that is not negative.\<close>

fun take_points :: "nat \<Rightarrow> string \<Rightarrow> string" where
  "take_points n [] = []"
| "take_points n (c # s) =
     (if starts_point c then (case n of 0 \<Rightarrow> [] | Suc m \<Rightarrow> c # take_points m s) else c # take_points n s)"

lemma py_len_append [simp]: "py_len (s @ t) = py_len s + py_len t"
  by (simp add: py_len_def)

lemma take_points_prefix: "\<exists>t. s = take_points n s @ t"
  by (induction n s rule: take_points.induct) (auto split: nat.split)

lemma py_len_take_points: "py_len (take_points n s) = min n (py_len s)"
  by (induction n s rule: take_points.induct) (auto simp: py_len_def split: nat.split)

lemma ascii_points: "list_all (\<lambda>c. (of_char c :: nat) < 128) s \<Longrightarrow> py_len s = length s \<and> take_points n s = take n s"
  by (induction s arbitrary: n) (auto simp: py_len_def starts_point_def take_Cons split: nat.split)

section \<open>json.dumps\<close>

definition nl :: string where "nl = [CHR 0x0A]"

text \<open>The code points of UTF-8 bytes.\<close>

definition point_tail :: "nat \<Rightarrow> nat" where
  "point_tail b = (if b < 192 then 0 else if b < 224 then 1 else if b < 240 then 2 else 3)"

definition point_head :: "nat \<Rightarrow> nat" where
  "point_head b = (if b < 192 then b else if b < 224 then b - 192 else if b < 240 then b - 224 else b - 240)"

fun utf8_points :: "nat list \<Rightarrow> nat list" where
  "utf8_points [] = []"
| "utf8_points (b # bs) =
     foldl (\<lambda>n c. n * 64 + (c - 128)) (point_head b) (take (point_tail b) bs) # utf8_points (drop (point_tail b) bs)"

definition hex4 :: "nat \<Rightarrow> string" where
  "hex4 n = map hex_digit [n div 4096 mod 16, n div 256 mod 16, n div 16 mod 16, n mod 16]"

definition json_escape :: "nat \<Rightarrow> string" where
  "json_escape n =
     (if n = 34 then [CHR 0x5C, CHR 0x22] else if n = 92 then [CHR 0x5C, CHR 0x5C]
      else if n = 8 then [CHR 0x5C, CHR ''b''] else if n = 9 then [CHR 0x5C, CHR ''t'']
      else if n = 10 then [CHR 0x5C, CHR ''n''] else if n = 12 then [CHR 0x5C, CHR ''f'']
      else if n = 13 then [CHR 0x5C, CHR ''r'']
      else if 32 \<le> n \<and> n \<le> 126 then [char_of n]
      else if n < 65536 then [CHR 0x5C, CHR ''u''] @ hex4 n
      else [CHR 0x5C, CHR ''u''] @ hex4 (55296 + (n - 65536) div 1024) @
           [CHR 0x5C, CHR ''u''] @ hex4 (56320 + (n - 65536) mod 1024))"

definition json_string :: "string \<Rightarrow> string" where
  "json_string s = quote2 @ concat (map json_escape (utf8_points (map of_char s))) @ quote2"

text \<open>Compact output has the separators \<^verbatim>\<open>,\<close> and \<^verbatim>\<open>:\<close>; an indent of \<open>n\<close> puts every item on a line.\<close>

definition json_wrap :: "nat option \<Rightarrow> nat \<Rightarrow> string \<Rightarrow> string \<Rightarrow> string list \<Rightarrow> string" where
  "json_wrap indent level opening closing items =
     (if items = [] then opening @ closing
      else case indent of
        None \<Rightarrow> opening @ join_with '','' items @ closing
      | Some n \<Rightarrow>
          let pad = nl @ replicate (n * Suc level) CHR '' '' in
          opening @ pad @ join_with ('','' @ pad) items @ nl @ replicate (n * level) CHR '' '' @ closing)"

primrec json_text :: "(rat \<Rightarrow> string) \<Rightarrow> nat option \<Rightarrow> pyval \<Rightarrow> nat \<Rightarrow> string" where
  "json_text float indent PNone = (\<lambda>level. ''null'')"
| "json_text float indent (PBool b) = (\<lambda>level. if b then ''true'' else ''false'')"
| "json_text float indent (PInt i) = (\<lambda>level. show_int i)"
| "json_text float indent (PFloat x) = (\<lambda>level. float x)"
| "json_text float indent (PStr s) = (\<lambda>level. json_string s)"
| "json_text float indent (PTime t) = (\<lambda>level. [])"
| "json_text float indent (PList xs) = (\<lambda>level.
     json_wrap indent level ''['' '']'' (map (\<lambda>f. f (Suc level)) (map (json_text float indent) xs)))"
| "json_text float indent (PDict d) = (\<lambda>level.
     json_wrap indent level ''{'' ''}''
       (map (\<lambda>(k, f). json_string k @ (if indent = None then '':'' else '': '') @ f (Suc level))
         (map (map_prod id (json_text float indent)) d)))"

text \<open>\<^verbatim>\<open>json.dumps(value, sort_keys=True)\<close>, which raises \<^verbatim>\<open>TypeError\<close> at a \<^verbatim>\<open>datetime\<close>.\<close>

definition not_json :: exc where
  "not_json = Other_Exception ''TypeError'' ''Object of type datetime is not JSON serializable''"

definition dumps_sorted :: "(rat \<Rightarrow> string) \<Rightarrow> nat option \<Rightarrow> pyval \<Rightarrow> exc + string" where
  "dumps_sorted float indent v =
     (if json_able v then Inr (json_text float indent (json_sorted v) 0) else Inl not_json)"

section \<open>Formatting\<close>

record render_env =
  re_float :: "rat \<Rightarrow> string"
  re_iso_seconds :: "int \<Rightarrow> string"
  re_str :: "pyval \<Rightarrow> string"

definition format_output :: "render_env \<Rightarrow> pyval \<Rightarrow> nat option \<Rightarrow> exc + string" where
  "format_output env value max_length =
     (let shorten = (\<lambda>text. case max_length of
            None \<Rightarrow> text
          | Some n \<Rightarrow> if py_len text > n then take_points (n - 3) text @ ''...'' else text)
      in case value of
        PNone \<Rightarrow> Inr []
      | PStr s \<Rightarrow> Inr (shorten s)
      | v \<Rightarrow> map_sum id shorten (dumps_sorted (re_float env) None v))"

definition format_block :: "render_env \<Rightarrow> pyval \<Rightarrow> exc + string" where
  "format_block env value = (case value of
       PNone \<Rightarrow> Inr []
     | PStr s \<Rightarrow> Inr s
     | v \<Rightarrow> dumps_sorted (re_float env) (Some 2) v)"

text \<open>\<^verbatim>\<open>s.replace(old, new)\<close> for a non-empty \<open>old\<close>.\<close>

function py_replace :: "string \<Rightarrow> string \<Rightarrow> string \<Rightarrow> string" where
  "py_replace old new [] = []"
| "py_replace old new (c # s) =
     (if old \<noteq> [] \<and> prefix_of old (c # s) then new @ py_replace old new (drop (length old) (c # s))
      else c # py_replace old new s)"
  by pat_completeness auto
termination by (relation "measure (\<lambda>(old, new, s). length s)") (auto simp: neq_Nil_conv)

definition format_timestamp :: "render_env \<Rightarrow> int option \<Rightarrow> string" where
  "format_timestamp env value = (case value of
       None \<Rightarrow> ''-''
     | Some t \<Rightarrow> py_replace ''+00:00'' ''Z'' (re_iso_seconds env t))"

definition attempts_display :: "int \<Rightarrow> int \<Rightarrow> string" where
  "attempts_display attempt max_retries =
     (if max_retries > 0 then show_int attempt @ '' / '' @ show_int (max_retries + 1) else show_int attempt)"

definition task_id_display :: "string \<Rightarrow> string" where
  "task_id_display tid = (if py_len tid \<le> 8 then tid else take_points 8 tid @ ''...'')"

fun status_style :: "task_status \<Rightarrow> string" where
  "status_style PENDING = ''yellow''"
| "status_style RUNNING = ''cyan''"
| "status_style COMPLETED = ''green''"
| "status_style FAILED = ''red''"
| "status_style AWAITING_APPROVAL = ''yellow''"
| "status_style APPROVED = ''green''"
| "status_style POLICY_DENIED = ''red''"
| "status_style CANCELLED = ''red''"
| "status_style ESCALATED = ''bold yellow''"

fun status_label :: "task_status \<Rightarrow> string" where
  "status_label PENDING = ''pending''"
| "status_label RUNNING = ''running''"
| "status_label COMPLETED = ''completed''"
| "status_label FAILED = ''failed''"
| "status_label AWAITING_APPROVAL = ''awaiting approval''"
| "status_label APPROVED = ''approved''"
| "status_label POLICY_DENIED = ''policy denied''"
| "status_label CANCELLED = ''cancelled''"
| "status_label ESCALATED = [CHR 0xE2, CHR 0x9A, CHR 0xA0] @ '' escalated''"

section \<open>What is printed\<close>

datatype cell = Plain string | Styled string string

datatype content =
    Text_Body string
  | Grid_Body "cell list list"
  | Table_Body "string list" "cell list list"

datatype block =
    Panel content "string option" "string option"
  | Table_Block "string list" "cell list list"
  | Text_Line string
  | Json_Snapshot cp_snapshot
  | Err_Line string

text \<open>Blocks are built and printed one after the other; an exception leaves the earlier ones printed.\<close>

fun print_all :: "(exc + block) list \<Rightarrow> exc option \<times> block list" where
  "print_all [] = (None, [])"
| "print_all (Inl e # bs) = (Some e, [])"
| "print_all (Inr b # bs) = (case print_all bs of (x, ps) \<Rightarrow> (x, b # ps))"

fun sequence :: "(exc + 'a) list \<Rightarrow> exc + 'a list" where
  "sequence [] = Inr []"
| "sequence (Inl e # xs) = Inl e"
| "sequence (Inr x # xs) = (case sequence xs of Inl e \<Rightarrow> Inl e | Inr ys \<Rightarrow> Inr (x # ys))"

definition bold_row :: "string \<Rightarrow> cell \<Rightarrow> cell list" where
  "bold_row label v = [Styled label ''bold'', v]"

definition status_text :: "task_status \<Rightarrow> cell" where
  "status_text s = Styled (status_label s) (status_style s)"

text \<open>\<^verbatim>\<open>x or "-"\<close>\<close>

definition or_dash :: "string \<Rightarrow> string" where
  "or_dash s = (if s = [] then ''-'' else s)"

section \<open>Tasks and workflows\<close>

definition result_output :: "task_record \<Rightarrow> pyval" where
  "result_output t = (case task_result t of None \<Rightarrow> PNone | Some r \<Rightarrow> res_output r)"

definition result_error :: "task_record \<Rightarrow> string" where
  "result_error t = (case task_result t of None \<Rightarrow> [] | Some r \<Rightarrow> (case res_error r of None \<Rightarrow> [] | Some e \<Rightarrow> e))"

definition result_metadata :: "task_record \<Rightarrow> pydict" where
  "result_metadata t = (case task_result t of None \<Rightarrow> [] | Some r \<Rightarrow> res_metadata r)"

definition task_overview_panel :: "render_env \<Rightarrow> bool \<Rightarrow> bool \<Rightarrow> task_record \<Rightarrow> exc + block" where
  "task_overview_panel env show_identity show_timestamps task =
     (case (if result_output task = PNone then Inr []
            else map_sum id (\<lambda>s. [bold_row ''output'' (Plain s)]) (format_output env (result_output task) (Some 120))) of
        Inl e \<Rightarrow> Inl e
      | Inr output_row \<Rightarrow>
          Inr (Panel (Grid_Body
            ([bold_row ''status'' (status_text (task_status task))] @
             (if show_identity then
                [bold_row ''task id'' (Plain (task_id task)),
                 bold_row ''workflow'' (Plain (opt_or (task_workflow_id task) ''-''))] else []) @
             [bold_row ''capability'' (Plain (task_capability task)),
              bold_row ''attempts'' (Plain (attempts_display (task_attempt task) (task_max_retries task)))] @
             (if show_timestamps then
                [bold_row ''created'' (Plain (format_timestamp env (Some (task_created_at task)))),
                 bold_row ''updated'' (Plain (format_timestamp env (Some (task_updated_at task))))] @
                (if task_archived_at task \<noteq> None
                 then [bold_row ''archived'' (Plain (format_timestamp env (task_archived_at task)))] else [])
              else []) @
             output_row @
             (if result_error task \<noteq> [] then [bold_row ''error'' (Plain (result_error task))] else [])))
            (Some (task_name task)) (Some (status_style (task_status task)))))"

definition run_panel :: "render_env \<Rightarrow> task_record \<Rightarrow> exc + block" where
  "run_panel env task = task_overview_panel env False False task"

definition workflow_result_panel :: "render_env \<Rightarrow> workflow_result \<Rightarrow> (exc + block) list" where
  "workflow_result_panel env result =
     (let is_success = (wr_status result = WF_COMPLETED);
          style = (if is_success then ''green'' else ''red'')
      in Inr (Panel (Grid_Body
           [bold_row ''goal'' (Plain (wr_goal result)),
            bold_row ''status'' (Styled (workflow_status_value (wr_status result)) style),
            bold_row ''steps'' (Plain (show_nat (length (wr_records result)))),
            bold_row ''workflow'' (Plain (wr_workflow_id result))])
           (Some ''workflow'') (Some style))
         # map (run_panel env) (wr_records result))"

definition capability_list_table :: "cap_descriptor list \<Rightarrow> block" where
  "capability_list_table ds = Table_Block [''Name'', ''Risk'', ''Tags'']
     (map (\<lambda>d. [Plain (cd_name d), Plain (risk_value (cd_risk_level d)), Plain (join_with '', '' (cd_tags d))]) ds)"

definition task_list_row :: "task_record \<Rightarrow> cell list" where
  "task_list_row task =
     [Plain (task_id_display (task_id task)), Plain (task_name task), status_text (task_status task),
      Plain (task_capability task), Plain (attempts_display (task_attempt task) (task_max_retries task))]"

definition task_list_table ::
  "int option \<Rightarrow> int \<Rightarrow> string option \<Rightarrow> task_record list \<Rightarrow> nat \<Rightarrow> block list" where
  "task_list_table limit offset status tasks matched_total =
     Panel (Grid_Body
       [bold_row ''matched'' (Plain (show_nat matched_total)),
        bold_row ''shown'' (Plain (show_nat (length tasks))),
        bold_row ''offset'' (Plain (show_int offset)),
        bold_row ''limit'' (Plain (case limit of None \<Rightarrow> ''-'' | Some n \<Rightarrow> show_int n)),
        bold_row ''status'' (Plain (opt_or status ''all''))])
       (Some ''task list'') (Some ''blue'')
     # (if tasks = [] then [Panel (Text_Body ''No tasks matched the current filters.'') None (Some ''yellow'')]
        else [Table_Block [''ID'', ''Name'', ''Status'', ''Capability'', ''Attempts''] (map task_list_row tasks)])"

definition audit_row :: "render_env \<Rightarrow> audit_entry \<Rightarrow> exc + cell list" where
  "audit_row env entry =
     (let name = (\<lambda>s. case s of None \<Rightarrow> ''-'' | Some x \<Rightarrow> status_value x) in
      case format_output env (PDict (au_metadata entry)) (Some 80) of
        Inl e \<Rightarrow> Inl e
      | Inr metadata \<Rightarrow>
          Inr [Plain (format_timestamp env (Some (au_timestamp entry))), Plain (au_actor entry),
               Plain (au_action entry), Plain (name (au_from entry) @ '' -> '' @ name (au_to entry)),
               Plain (or_dash metadata)])"

definition text_panel :: "string \<Rightarrow> string \<Rightarrow> exc + string \<Rightarrow> exc + block" where
  "text_panel title border text = map_sum id (\<lambda>s. Panel (Text_Body s) (Some title) (Some border)) text"

definition task_detail :: "render_env \<Rightarrow> task_record \<Rightarrow> (exc + block) list" where
  "task_detail env task =
     [task_overview_panel env True True task,
      text_panel ''input'' ''cyan'' (format_block env (PDict (task_input task)))] @
     (if task_metadata task \<noteq> []
      then [text_panel ''metadata'' ''blue'' (format_block env (PDict (task_metadata task)))] else []) @
     (if result_output task \<noteq> PNone
      then [text_panel ''output'' ''green'' (format_block env (result_output task))] else []) @
     (if result_metadata task \<noteq> []
      then [text_panel ''result metadata'' ''cyan'' (format_block env (PDict (result_metadata task)))] else []) @
     (if result_error task \<noteq> []
      then [text_panel ''error'' ''red'' (Inr (result_error task))] else []) @
     [if task_audit_trail task = []
      then Inr (Panel (Text_Body ''No audit entries recorded.'') (Some ''audit trail'') (Some ''yellow''))
      else map_sum id
        (\<lambda>rows. Panel (Table_Body [''Time'', ''Actor'', ''Action'', ''Transition'', ''Metadata''] rows)
           (Some ''audit trail'') (Some ''blue''))
        (sequence (map (audit_row env) (task_audit_trail task)))]"

section \<open>Guild\<close>

definition opt_value :: "string option \<Rightarrow> pyval" where
  "opt_value x = (case x of None \<Rightarrow> PNone | Some s \<Rightarrow> PStr s)"

definition guild_row :: "render_env \<Rightarrow> guild_record \<Rightarrow> exc + cell list" where
  "guild_row env r =
     (case format_output env (opt_value (gr_resolution_hint r)) (Some 60) of
        Inl e \<Rightarrow> Inl e
      | Inr hint \<Rightarrow>
          Inr [Plain (fp_capability (gr_fingerprint r)), Plain (fp_error_type (gr_fingerprint r)),
               Plain (task_id_display (fp_input (gr_fingerprint r))), Plain (opt_or (gr_role r) ''-''),
               Plain (show_int (gr_failure_count r)), Plain (or_dash hint)])"

definition guild_list_blocks :: "render_env \<Rightarrow> guild_record list \<Rightarrow> (exc + block) list" where
  "guild_list_blocks env records =
     (if records = [] then [Inr (Panel (Text_Body ''No guild records found.'') None (Some ''yellow''))]
      else [Inr (Panel (Grid_Body [bold_row ''total records'' (Plain (show_nat (length records)))])
              (Some ''guild knowledge'') (Some ''blue'')),
            map_sum id
              (Table_Block [''Capability'', ''Error Type'', ''Input FP'', ''Role'', ''Failures'', ''Hint''])
              (sequence (map (guild_row env) records))])"

definition guild_detail :: "render_env \<Rightarrow> guild_record \<Rightarrow> (exc + block) list" where
  "guild_detail env r =
     Inr (Panel (Grid_Body
       [bold_row ''capability'' (Plain (fp_capability (gr_fingerprint r))),
        bold_row ''error type'' (Plain (fp_error_type (gr_fingerprint r))),
        bold_row ''input fp'' (Plain (fp_input (gr_fingerprint r))),
        bold_row ''role'' (Plain (opt_or (gr_role r) ''-'')),
        bold_row ''project'' (Plain (opt_or (gr_project r) ''-'')),
        bold_row ''failures'' (Plain (show_int (gr_failure_count r))),
        bold_row ''successes'' (Plain (show_int (gr_success_count r))),
        bold_row ''created'' (Plain (format_timestamp env (Some (gr_created_at r)))),
        bold_row ''updated'' (Plain (format_timestamp env (Some (gr_updated_at r))))])
       (Some ''guild record'') (Some ''blue''))
     # (case gr_resolution_hint r of None \<Rightarrow> []
        | Some h \<Rightarrow> if h = [] then [] else [text_panel ''resolution hint'' ''green'' (Inr h)]) @
     (if gr_approach_adjustment r \<noteq> []
      then [text_panel ''approach adjustment'' ''cyan'' (format_block env (PDict (gr_approach_adjustment r)))] else []) @
     (if gr_metadata r \<noteq> []
      then [text_panel ''metadata'' ''blue'' (format_block env (PDict (gr_metadata r)))] else [])"

text \<open>\<^verbatim>\<open>f"{p[k]}"\<close>.\<close>

definition pattern_field :: "render_env \<Rightarrow> pydict \<Rightarrow> string \<Rightarrow> exc + string" where
  "pattern_field env p k = (case dget p k of
       None \<Rightarrow> Inl (Key_Error k)
     | Some (PStr s) \<Rightarrow> Inr s
     | Some (PInt i) \<Rightarrow> Inr (show_int i)
     | Some v \<Rightarrow> Inr (re_str env v))"

definition failure_pattern :: "render_env \<Rightarrow> pydict \<Rightarrow> exc + string" where
  "failure_pattern env p = map_sum id (\<lambda>xs. case xs of [c, e, n] \<Rightarrow> c @ '':'' @ e @ '' ('' @ n @ '')'' | _ \<Rightarrow> [])
     (sequence [pattern_field env p ''capability'', pattern_field env p ''error_type'', pattern_field env p ''count''])"

definition success_pattern :: "render_env \<Rightarrow> pydict \<Rightarrow> exc + string" where
  "success_pattern env p = map_sum id (\<lambda>xs. case xs of [c, n] \<Rightarrow> c @ '' ('' @ n @ ''x)'' | _ \<Rightarrow> [])
     (sequence [pattern_field env p ''capability'', pattern_field env p ''count''])"

definition pattern_row :: "string \<Rightarrow> (pydict \<Rightarrow> exc + string) \<Rightarrow> pydict list \<Rightarrow> exc + cell list list" where
  "pattern_row label show ps =
     (if ps = [] then Inr []
      else map_sum id (\<lambda>xs. [bold_row label (Plain (join_with ''; '' xs))]) (sequence (map show (take 3 ps))))"

definition digest_panel :: "render_env \<Rightarrow> role_digest \<Rightarrow> exc + block" where
  "digest_panel env digest =
     map_sum id
       (\<lambda>patterns. Panel (Grid_Body
          ([bold_row ''role'' (Plain (mr_role digest)),
            bold_row ''records'' (Plain (show_nat (mr_total_records digest))),
            bold_row ''capabilities''
              (Plain (or_dash (join_with '', '' (take 5 (mr_capabilities_encountered digest)))))] @ concat patterns))
          (Some (''@'' @ mr_role digest)) (Some ''cyan''))
       (sequence [pattern_row ''top failures'' (failure_pattern env) (mr_top_failure_patterns digest),
                  pattern_row ''top successes'' (success_pattern env) (mr_top_success_patterns digest)])"

definition to_upper :: "string \<Rightarrow> string" where
  "to_upper s = map (\<lambda>c. let n = (of_char c :: nat) in
      if 97 \<le> n \<and> n \<le> 122 then char_of (n - 32) else c) s"

definition severity_style :: "string \<Rightarrow> string" where
  "severity_style severity =
     (if severity = ''critical'' then ''red'' else if severity = ''warning'' then ''yellow'' else ''green'')"

definition insight_panel :: "cross_role_insight \<Rightarrow> block" where
  "insight_panel i =
     Panel (Grid_Body
       [bold_row ''severity'' (Styled (to_upper (mi_severity i)) (''bold '' @ severity_style (mi_severity i))),
        bold_row ''insight'' (Plain (mi_description i)),
        bold_row ''capabilities'' (Plain (or_dash (join_with '', '' (mi_capabilities i)))),
        bold_row ''roles'' (Plain (or_dash (join_with '', '' (mi_roles i))))])
       (Some ''cross-role insight'') (Some (severity_style (mi_severity i)))"

definition profile_row :: "capability_profile \<Rightarrow> cell list" where
  "profile_row p =
     [Plain (mp_capability p), Plain (show_int (mp_total_successes p)), Plain (show_int (mp_total_failures p)),
      Plain (or_dash (join_with '', '' (take 3 (mp_distinct_error_types p)))),
      Plain (or_dash (join_with '', '' (take 3 (mp_roles p))))]"

definition guild_meeting_report :: "render_env \<Rightarrow> meeting_report \<Rightarrow> (exc + block) list" where
  "guild_meeting_report env report =
     Inr (Panel (Text_Body (mt_summary report))
       (Some (''guild meeting '' @ em_dash @ '' '' @ mt_meeting_id report))
       (Some (if list_ex (\<lambda>i. mi_severity i = ''warning'') (mt_cross_role_insights report) then ''yellow'' else ''green'')))
     # (if mt_capability_profiles report \<noteq> []
        then [Inr (Panel (Table_Body [''Capability'', ''Successes'', ''Failures'', ''Error Types'', ''Roles'']
                (map profile_row (mt_capability_profiles report))) (Some ''capability profiles'') (Some ''blue''))]
        else []) @
     map (digest_panel env) (mt_role_digests report) @
     map (\<lambda>i. Inr (insight_panel i)) (mt_cross_role_insights report)"

section \<open>Health and API keys\<close>

definition health_issue_rows :: "cp_health list \<Rightarrow> cell list list" where
  "health_issue_rows components =
     concat (map (\<lambda>c. map (\<lambda>issue. [Plain (cph_name c), Plain issue]) (cph_issues c)) components)"

definition health_panel :: "cp_health list \<Rightarrow> block list" where
  "health_panel components =
     Panel (Table_Body [''Component'', ''Status'', ''Details'']
       (map (\<lambda>c. [Plain (cph_name c),
          (if cph_issues c \<noteq> [] then Styled ''issues found'' ''red'' else Styled ''healthy'' ''green''),
          Plain (cph_detail c)]) components))
       (Some ''cond health'')
       (Some (if list_ex (\<lambda>c. \<not> cph_healthy c) components then ''red'' else ''green''))
     # (if health_issue_rows components \<noteq> []
        then [Table_Block [''Component'', ''Issue''] (health_issue_rows components)]
        else [Panel (Text_Body ''All CLI-facing components passed health_check().'') None (Some ''green'')])"

definition print_key_entry :: "api_key_entry \<Rightarrow> block" where
  "print_key_entry entry = Table_Block [''Field'', ''Value'']
     [[Plain ''Prefix'', Plain (ke_prefix entry)],
      [Plain ''Actor'', Plain (ke_actor entry)],
      [Plain ''Scopes'', Plain (join_with '', '' (ke_scopes entry))],
      [Plain ''Created'', Plain (ke_created_at entry)]]"

definition warning_sign :: string where "warning_sign = [CHR 0xE2, CHR 0x9A, CHR 0xA0]"

fun key_blocks :: "string \<Rightarrow> key_shown \<Rightarrow> block list" where
  "key_blocks path (New_Key raw entry) =
     [Text_Line [],
      Panel (Text_Body (''[bold green]New API key created[/bold green]'' @ nl @ nl @
        ''[bold]Key:[/bold] [yellow]'' @ raw @ ''[/yellow]'' @ nl @
        ''[dim]Store at:[/dim] '' @ path @ nl @ nl @
        ''[bold red]'' @ warning_sign @ ''  This is the only time the raw key is shown.[/bold red]'' @ nl @
        ''[bold red]   Store it securely '' @ em_dash @ '' it cannot be recovered later.[/bold red]''))
        None (Some ''green''),
      print_key_entry entry]"
| "key_blocks path (Key_Table entries) =
     (if entries = [] then [Panel (Text_Body ''No API keys configured.'') None (Some ''yellow'')]
      else [Table_Block [''Prefix'', ''Actor'', ''Scopes'', ''Created'', ''Status'']
        (map (\<lambda>e. [Plain (ke_prefix e), Plain (ke_actor e), Plain (join_with '', '' (ke_scopes e)),
           Plain (if ke_created_at e \<noteq> [] then take_points 10 (ke_created_at e) else ''?''),
           Plain (if ke_revoked e then ''[red]Revoked[/red]'' else ''[green]Active[/green]'')]) entries)])"
| "key_blocks path (Revoked_Key prefix actor) =
     [Text_Line (''[yellow]Revoked[/yellow] API key '' @ quote1 @ prefix @ quote1 @ '' (actor: '' @ actor @ '')'')]"
| "key_blocks path (No_Such_Key prefix) =
     [Err_Line (''No API key found with prefix '' @ quote1 @ prefix @ quote1)]"

section \<open>Help\<close>

definition man_page_hint :: string where
  "man_page_hint = ''See `man cond` for the static CLI reference.''"

record help_topic =
  ht_summary :: string
  ht_usage :: string
  ht_details :: string
  ht_example :: string

definition command_help_topics :: "help_topic dict" where
  "command_help_topics =
    [(''run'',
      \<lparr>ht_summary = ''Execute a single task definition from YAML or JSON.'',
       ht_usage = ''cond run <task-file>'',
       ht_details = ''Task files define a name, capability, and input payload. Use --store to '' @
          ''isolate or inspect a specific local task store.'',
       ht_example = ''name: Echo smoke test'' @ nl @ ''capability: echo'' @ nl @ ''input:'' @ nl @
          ''  message: hello from conductor''\<rparr>),
     (''workflow'',
      \<lparr>ht_summary = ''Execute a workflow YAML through the planner/worker/validator path.'',
       ht_usage = ''cond workflow run <workflow-file>'',
       ht_details = ''Workflow files define a top-level goal and an ordered list of steps. Each '' @
          ''step is converted into a TaskSubmission and executed by the supervisor.'',
       ht_example = ''goal: Echo two messages in sequence'' @ nl @ ''capabilities:'' @ nl @ ''  - echo'' @
          nl @ ''steps:'' @ nl @ ''  - name: echo-hello'' @ nl @ ''    capability: echo'' @ nl @
          ''    input:'' @ nl @ ''      message: hello from workflow''\<rparr>),
     (''capability'',
      \<lparr>ht_summary = ''Inspect registered capabilities.'',
       ht_usage = ''cond capability list'',
       ht_details = ''Lists every loaded capability with its risk level and tags.'',
       ht_example = ''cond capability list''\<rparr>),
     (''task'',
      \<lparr>ht_summary = ''List, inspect, and operate on stored tasks.'',
       ht_usage = ''cond task list [--limit N] [--offset N] [--status STATUS]'' @ nl @
          ''cond task show <task-id-or-prefix>'' @ nl @
          ''cond task approve <task-id-or-prefix> [--actor NAME] [--no-run]'' @ nl @
          ''cond task cancel <task-id-or-prefix> [--actor NAME] [--reason TEXT]'',
       ht_details = ''Task inspection reads from the local store and accepts unique task-id '' @
          ''prefixes from the list view. Detailed task output includes workflow linkage, '' @
          ''timestamps, result data, and the audit trail when present.'',
       ht_example = ''cond task list --status awaiting_approval --limit 10''\<rparr>),
     (''health'',
      \<lparr>ht_summary = ''Run runtime health checks for CLI-facing components.'',
       ht_usage = ''cond health'',
       ht_details = ''Calls health_check() on the registry, store, queue, event bus, policy engine, '' @
          ''and supervisor. Exit code is 0 when healthy and 1 when issues are detected.'',
       ht_example = ''cond --store /tmp/tasks.json health''\<rparr>),
     (''serve'',
      \<lparr>ht_summary = ''Start the Conductor Engine HTTP API server.'',
       ht_usage = ''cond serve [--host HOST] [--port PORT] [--log-level LEVEL]'',
       ht_details = ''Starts a FastAPI/uvicorn HTTP server that exposes the full control-plane API. '' @
          ''Requires: pip install conductor-engine[api]'' @ nl @
          ''Docs are available at http://<host>:<port>/docs once the server is running.'',
       ht_example = ''cond serve --host 0.0.0.0 --port 8080''\<rparr>),
     (''snapshot'',
      \<lparr>ht_summary = ''Emit a versioned control-plane snapshot as JSON.'',
       ht_usage = ''cond snapshot'',
       ht_details = ''Builds a stable v1 snapshot for tasks, approvals, workflow traces, '' @
          ''capabilities, and component health. This is the bootstrap compatibility '' @
          ''surface for local polling until the Phase 4 HTTP/event control plane is exposed.'',
       ht_example = ''cond --store /tmp/tasks.json snapshot''\<rparr>)]"

text \<open>
  An annotation of an input model, by what \<^verbatim>\<open>get_origin\<close> answers: none for a class (which has a
  \<^verbatim>\<open>__name__\<close>) and for a plain string such as an argument of \<^verbatim>\<open>Literal\<close>; a collection class with the
  arguments; or any other origin, of which the code uses \<^verbatim>\<open>str(origin)\<close> and \<^verbatim>\<open>origin.__name__\<close>.
\<close>

datatype annotation =
    Ann_Class string
  | Ann_Text string
  | Ann_Sequence string "annotation list"
  | Ann_Dict "annotation list"
  | Ann_Other string string "annotation list"

definition ends_with :: "string \<Rightarrow> string \<Rightarrow> bool" where
  "ends_with s suffix = prefix_of (rev suffix) (rev s)"

fun type_label :: "annotation \<Rightarrow> string" where
  "type_label (Ann_Class n) = n"
| "type_label (Ann_Text s) = py_replace ''typing.'' [] s"
| "type_label (Ann_Sequence n args) = n @ ''['' @ join_with '', '' (map type_label args) @ '']''"
| "type_label (Ann_Dict args) = ''dict['' @ join_with '', '' (map type_label args) @ '']''"
| "type_label (Ann_Other origin n args) =
     (if ends_with origin ''Literal'' \<or> ends_with origin ''Union'' then join_with '' | '' (map type_label args)
      else n @ ''['' @ join_with '', '' (map type_label args) @ '']'')"

text \<open>\<^verbatim>\<open>repr\<close> of an argument: quoted text, or the way a class is shown.\<close>

fun annotation_repr :: "annotation \<Rightarrow> string" where
  "annotation_repr (Ann_Text s) = py_repr s"
| "annotation_repr a = ''<class '' @ quote1 @ type_label a @ quote1 @ ''>''"

fun is_none_type :: "annotation \<Rightarrow> bool" where
  "is_none_type (Ann_Class n) = (n = ''NoneType'')"
| "is_none_type a = False"

fun example_value :: "annotation \<Rightarrow> string" where
  "example_value (Ann_Sequence n args) = ''[]''"
| "example_value (Ann_Dict args) = ''{}''"
| "example_value (Ann_Other origin n args) =
     (if ends_with origin ''Literal'' \<and> args \<noteq> [] then annotation_repr (hd args)
      else if ends_with origin ''Union''
      then (case filter (\<lambda>(none, text). \<not> none) (map (\<lambda>a. (is_none_type a, example_value a)) args) of
              [] \<Rightarrow> ''null'' | x # xs \<Rightarrow> snd x)
      else ''<value>'')"
| "example_value (Ann_Class n) =
     (if n = ''int'' then ''0'' else if n = ''float'' then ''0.0'' else if n = ''bool'' then ''false'' else ''<value>'')"
| "example_value (Ann_Text s) = ''<value>''"

record field_doc =
  fd_name :: string
  fd_annotation :: annotation
  fd_required :: bool
  fd_default :: "pyval option"

record capability_doc =
  cdoc_fields :: "field_doc list option"
  cdoc_man_page :: "string option"

definition capability_example_yaml :: "string \<Rightarrow> field_doc list option \<Rightarrow> string" where
  "capability_example_yaml name input_fields =
     join_with nl
       ([''name: Example task'', ''capability: '' @ name, ''input:''] @
        (case input_fields of None \<Rightarrow> [''  {}'']
         | Some fs \<Rightarrow> map (\<lambda>f. ''  '' @ fd_name f @ '': '' @ example_value (fd_annotation f)) fs))"

text \<open>
  \<^verbatim>\<open>field.default\<close> of a field with a default factory (\<open>None\<close>) is pydantic's \<^verbatim>\<open>PydanticUndefined\<close>, an
  object \<^verbatim>\<open>json.dumps\<close> cannot write.
\<close>

definition undefined_default :: exc where
  "undefined_default = Other_Exception ''TypeError'' ''Object of type PydanticUndefinedType is not JSON serializable''"

definition field_row :: "render_env \<Rightarrow> field_doc \<Rightarrow> exc + cell list" where
  "field_row env f =
     map_sum id
       (\<lambda>default. [Plain (fd_name f), Plain (type_label (fd_annotation f)),
          Plain (if fd_required f then ''yes'' else ''no''), Plain default])
       (if fd_required f then Inr ''-''
        else case fd_default f of
          None \<Rightarrow> Inl undefined_default
        | Some v \<Rightarrow> format_output env v (Some 120))"

definition see_also :: block where
  "see_also = Panel (Text_Body man_page_hint) (Some ''see also'') (Some ''cyan'')"

text \<open>What \<^verbatim>\<open>_capability_manual\<close> prints; \<open>None\<close> when it returns \<^verbatim>\<open>False\<close>.\<close>

definition capability_manual ::
  "render_env \<Rightarrow> (string \<Rightarrow> capability_doc) \<Rightarrow> string \<Rightarrow> registry \<Rightarrow> (exc + block) list option" where
  "capability_manual env docs topic r =
     (case reg_get r topic of
        Inl e \<Rightarrow> None
      | Inr c \<Rightarrow>
          let d = cap_descriptor c; doc = docs topic in
          Some (Inr (Panel (Grid_Body
              [bold_row ''name'' (Plain (cd_name d)), bold_row ''risk'' (Plain (risk_value (cd_risk_level d))),
               bold_row ''tags'' (Plain (or_dash (join_with '', '' (cd_tags d)))),
               bold_row ''summary'' (Plain (cd_description d))])
              (Some (''help '' @ topic)) (Some ''blue''))
            # (case cdoc_fields doc of None \<Rightarrow> []
               | Some fs \<Rightarrow> [map_sum id (Table_Block [''Field'', ''Type'', ''Required'', ''Default''])
                   (sequence (map (field_row env) fs))]) @
            (case cdoc_man_page doc of None \<Rightarrow> []
             | Some m \<Rightarrow> if m = [] then [] else [text_panel ''details'' ''cyan'' (Inr m)]) @
            [text_panel ''example'' ''green'' (Inr (capability_example_yaml topic (cdoc_fields doc))), Inr see_also]))"

definition command_manual :: "string \<Rightarrow> block list option" where
  "command_manual topic = (case dget command_help_topics topic of
       None \<Rightarrow> None
     | Some m \<Rightarrow> Some
         [Panel (Grid_Body
            [bold_row ''topic'' (Plain topic), bold_row ''usage'' (Plain (ht_usage m)),
             bold_row ''summary'' (Plain (ht_summary m)), bold_row ''details'' (Plain (ht_details m))])
            (Some (''help '' @ topic)) (Some ''blue''),
          Panel (Text_Body (ht_example m)) (Some ''example'') (Some ''green''), see_also])"

definition help_index_rows :: "registry \<Rightarrow> (string \<times> string \<times> string) list" where
  "help_index_rows r =
     map (\<lambda>(topic, m). (topic, ''command'', ht_summary m)) (sort_key fst command_help_topics) @
     map (\<lambda>d. (cd_name d, ''capability'', cd_description d)) (reg_list r)"

definition help_index :: "registry \<Rightarrow> block list" where
  "help_index r =
     [Panel (Table_Body [''Topic'', ''Kind'', ''Summary'']
        (map (\<lambda>(t, k, s). [Plain t, Plain k, Plain s]) (help_index_rows r)))
        (Some ''cond help'') (Some ''blue''), see_also]"

definition render_help ::
  "render_env \<Rightarrow> (string \<Rightarrow> capability_doc) \<Rightarrow> string option \<Rightarrow> registry \<Rightarrow> int \<times> (exc + block) list" where
  "render_help env docs topic r = (case topic of
       None \<Rightarrow> (0, map Inr (help_index r))
     | Some t \<Rightarrow> (case command_manual t of
           Some bs \<Rightarrow> (0, map Inr bs)
         | None \<Rightarrow> (case capability_manual env docs t r of
               Some bs \<Rightarrow> (0, bs)
             | None \<Rightarrow> (2, [Inr (Err_Line (''Unknown help topic: '' @ t))]))))"

text \<open>The input models of the bundled capabilities, whose manual pages are the inherited \<^verbatim>\<open>None\<close>.\<close>

definition literal_of :: "string list \<Rightarrow> annotation" where
  "literal_of xs = Ann_Other ''typing.Literal'' ''Literal'' (map Ann_Text xs)"

text \<open>\<^verbatim>\<open>X | None\<close> in the Python the package asks for (3.14): its origin is the class \<^verbatim>\<open>typing.Union\<close>.\<close>

definition optional_of :: "annotation \<Rightarrow> annotation" where
  "optional_of a = Ann_Other (''<class '' @ quote1 @ ''typing.Union'' @ quote1 @ ''>'') ''Union'' [a, Ann_Class ''NoneType'']"

definition echo_fields :: "field_doc list" where
  "echo_fields = [\<lparr>fd_name = ''message'', fd_annotation = Ann_Class ''str'', fd_required = True, fd_default = None\<rparr>]"

definition filesystem_fields :: "field_doc list" where
  "filesystem_fields =
     [\<lparr>fd_name = ''action'', fd_annotation = literal_of [''read_text'', ''write_text'', ''list_dir''],
       fd_required = True, fd_default = None\<rparr>,
      \<lparr>fd_name = ''path'', fd_annotation = Ann_Class ''str'', fd_required = True, fd_default = None\<rparr>,
      \<lparr>fd_name = ''content'', fd_annotation = optional_of (Ann_Class ''str''), fd_required = False,
       fd_default = Some PNone\<rparr>,
      \<lparr>fd_name = ''encoding'', fd_annotation = Ann_Class ''str'', fd_required = False,
       fd_default = Some (PStr ''utf-8'')\<rparr>]"

definition http_fields :: "field_doc list" where
  "http_fields =
     [\<lparr>fd_name = ''method'', fd_annotation = literal_of [''GET'', ''POST''], fd_required = False,
       fd_default = Some (PStr ''GET'')\<rparr>,
      \<lparr>fd_name = ''url'', fd_annotation = Ann_Class ''str'', fd_required = True, fd_default = None\<rparr>,
      \<lparr>fd_name = ''headers'', fd_annotation = Ann_Dict [Ann_Class ''str'', Ann_Class ''str''], fd_required = False,
       fd_default = None\<rparr>,
      \<lparr>fd_name = ''json_body'', fd_annotation = optional_of (Ann_Dict [Ann_Class ''str'', Ann_Class ''Any'']),
       fd_required = False, fd_default = Some PNone\<rparr>,
      \<lparr>fd_name = ''timeout_seconds'', fd_annotation = Ann_Class ''float'', fd_required = False,
       fd_default = Some (PFloat 10)\<rparr>]"

definition bundled_doc :: "string \<Rightarrow> capability_doc" where
  "bundled_doc name =
     \<lparr>cdoc_fields =
        (if name = ''echo'' then Some echo_fields
         else if name = ''filesystem'' then Some filesystem_fields
         else if name = ''http'' then Some http_fields else None),
      cdoc_man_page = None\<rparr>"

section \<open>A command and what it prints\<close>

fun render :: "render_env \<Rightarrow> command \<Rightarrow> shown \<Rightarrow> (exc + block) list" where
  "render env cmd (Run_Panel t) = [run_panel env t]"
| "render env cmd (Capability_Table ds) = [Inr (capability_list_table ds)]"
| "render env cmd (Task_Table tasks matched) = (case cmd of
       Cmd_Task_List limit offset status \<Rightarrow> map Inr (task_list_table limit offset status tasks matched)
     | _ \<Rightarrow> [])"
| "render env cmd (Task_Detail t) = task_detail env t"
| "render env cmd (Workflow_Panel result) = workflow_result_panel env result"
| "render env cmd (Health_Panel components) = map Inr (health_panel components)"
| "render env cmd (Snapshot s) = [Inr (Json_Snapshot s)]"
| "render env cmd (Guild_Table records) = guild_list_blocks env records"
| "render env cmd (Guild_Detail r) = guild_detail env r"
| "render env cmd Guild_Cleared = [Inr (Text_Line ''All guild records cleared.'')]"
| "render env cmd No_Guild_Records = (case cmd of
       Cmd_Guild_Meet \<Rightarrow>
         [Inr (Panel (Text_Body ''No guild records to review. The guild is empty.'') None (Some ''yellow''))]
     | _ \<Rightarrow> guild_list_blocks env [])"
| "render env cmd (Guild_Meeting report) = guild_meeting_report env report"
| "render env cmd (Error_Line m) = [Inr (Err_Line m)]"

text \<open>
  \<^verbatim>\<open>main\<close> with its printing inside the \<^verbatim>\<open>try\<close>: an exception of the rendering that \<^verbatim>\<open>main\<close> handles
  becomes a line on stderr and exit code 2, any other ends the process, each time after the command
  has done its work.
\<close>

definition cond_run ::
  "supervisor \<Rightarrow> loader_env \<Rightarrow> (int \<Rightarrow> string) \<Rightarrow> render_env \<Rightarrow> string option \<Rightarrow> string \<Rightarrow> command \<Rightarrow> world \<Rightarrow>
   (exc + int) \<times> block list \<times> world" where
  "cond_run env lenv iso_text renv config workdir cmd w =
     (case cli_main env lenv iso_text config workdir cmd w of
        (Inl e, w) \<Rightarrow> (Inl e, [], w)
      | (Inr (code, x), w) \<Rightarrow>
          (case print_all (render renv cmd x) of
             (None, blocks) \<Rightarrow> (Inr code, blocks, w)
           | (Some e, blocks) \<Rightarrow>
               if handled_by_main e then (Inr 2, blocks @ [Err_Line (exc_str e)], w) else (Inl e, blocks, w)))"

definition cond_help ::
  "render_env \<Rightarrow> (string \<Rightarrow> capability_doc) \<Rightarrow> string option \<Rightarrow> registry \<Rightarrow> (exc + int) \<times> block list" where
  "cond_help renv docs topic r =
     (case render_help renv docs topic r of
        (code, bs) \<Rightarrow> (case print_all bs of
            (None, blocks) \<Rightarrow> (Inr code, blocks)
          | (Some e, blocks) \<Rightarrow>
              if handled_by_main e then (Inr 2, blocks @ [Err_Line (exc_str e)]) else (Inl e, blocks)))"

section \<open>Printing, in general\<close>

lemma print_all_map_Inr [simp]: "print_all (map Inr bs) = (None, bs)"
  by (induction bs) simp_all

lemma print_all_append:
  "print_all (xs @ ys) = (case print_all xs of
     (None, bs) \<Rightarrow> (case print_all ys of (e, cs) \<Rightarrow> (e, bs @ cs)) | (Some e, bs) \<Rightarrow> (Some e, bs))"
  by (induction xs rule: print_all.induct) (auto split: prod.splits option.splits)

lemma print_all_None_iff: "fst (print_all xs) = None \<longleftrightarrow> (\<forall>x \<in> set xs. \<exists>b. x = Inr b)"
  by (induction xs rule: print_all.induct) (auto split: prod.splits)

lemma sequence_map_Inr [simp]: "sequence (map Inr ys) = Inr ys"
  by (induction ys) simp_all

lemma sequence_ok_iff: "(\<exists>ys. sequence xs = Inr ys) \<longleftrightarrow> (\<forall>x \<in> set xs. \<exists>y. x = Inr y)"
  by (induction xs rule: sequence.induct) (auto split: sum.splits)

lemma map_sum_id_Ex_Inr: "(\<exists>b. map_sum id f x = Inr b) \<longleftrightarrow> (\<exists>a. x = Inr a)"
  by (cases x) auto

lemma format_output_cases:
  "format_output env v n = (if json_able v then Inr (case format_output env v n of Inr s \<Rightarrow> s) else Inl not_json)"
  by (cases v) (auto simp: format_output_def dumps_sorted_def Let_def)

lemma format_output_ok_iff [simp]: "(\<exists>s. format_output env v n = Inr s) \<longleftrightarrow> json_able v"
  by (cases v) (auto simp: format_output_def dumps_sorted_def Let_def)

lemma format_block_ok_iff [simp]: "(\<exists>s. format_block env v = Inr s) \<longleftrightarrow> json_able v"
  by (cases v) (auto simp: format_block_def dumps_sorted_def)

lemma format_output_error: "\<not> json_able v \<Longrightarrow> format_output env v n = Inl not_json"
  by (cases v) (auto simp: format_output_def dumps_sorted_def Let_def)

lemma not_json_unhandled [simp]: "\<not> handled_by_main not_json" "\<not> handled_by_main undefined_default"
  by (simp_all add: handled_by_main_def not_json_def undefined_default_def)

section \<open>Truncation\<close>

text \<open>
  Truncated output is as long as it may be: for a limit of at least three, what \<^verbatim>\<open>_format_output\<close>
  shows of a value has at most that many characters; a text that fits is shown whole, a longer one as
  a beginning of it followed by three dots, at exactly the limit.
\<close>

theorem format_output_within_limit:
  assumes full: "format_output env v None = Inr text" and n: "3 \<le> n"
  shows "\<exists>s. format_output env v (Some n) = Inr s \<and> py_len s \<le> n \<and>
     (if py_len text \<le> n then s = text
      else py_len s = n \<and> (\<exists>p rest. text = p @ rest \<and> s = p @ ''...''))"
proof -
  have dots: "py_len ''...'' = 3" by (simp add: py_len_def starts_point_def)
  let ?s = "if py_len text > n then take_points (n - 3) text @ ''...'' else text"
  have s: "format_output env v (Some n) = Inr ?s"
    using full by (cases v) (auto simp: format_output_def Let_def py_len_def)
  have "py_len (take_points (n - 3) text @ ''...'') = n" if "py_len text > n"
    using that n dots by (simp add: py_len_take_points)
  with s show ?thesis using take_points_prefix [of "text" "n - 3"] by auto
qed

definition plain_render :: render_env where
  "plain_render = \<lparr>re_float = (\<lambda>_. []), re_iso_seconds = (\<lambda>_. []), re_str = (\<lambda>_. [])\<rparr>"

theorem format_output_within_limit_witness:
  "\<exists>s. format_output plain_render (PStr ''abcdef'') (Some 5) = Inr s \<and> py_len s \<le> 5"
proof -
  have "format_output plain_render (PStr ''abcdef'') None = Inr ''abcdef''"
    by (simp add: format_output_def)
  from format_output_within_limit [OF this, of 5] show ?thesis by auto
qed

section \<open>What a command prints after its work\<close>

lemma task_overview_ok_iff:
  "(\<exists>b. task_overview_panel env i ts t = Inr b) \<longleftrightarrow> json_able (result_output t)"
proof -
  have "(\<exists>b. task_overview_panel env i ts t = Inr b) \<longleftrightarrow>
      result_output t = PNone \<or> (\<exists>s. format_output env (result_output t) (Some 120) = Inr s)"
    by (cases "format_output env (result_output t) (Some 120)") (simp_all add: task_overview_panel_def)
  then show ?thesis by auto
qed

text \<open>
  A run whose output is not JSON is reported as a crash: when \<^verbatim>\<open>cond run\<close> has run its task and the
  output in memory is a value such as a \<^verbatim>\<open>datetime\<close>, which the stores accept, building the panel
  raises \<^verbatim>\<open>TypeError\<close>; nothing is printed, the process ends with a traceback, and the world is the one
  after the run.  Otherwise the exit code is 0, whatever became of the task.
\<close>

theorem cond_run_output_must_be_json:
  assumes r: "resolve_registry lenv config workdir = Inr r"
    and run: "run_submission (cli_supervisor env r workdir) sub (new_process w) = (Inr t, w')"
  shows "cond_run env lenv iso_text renv config workdir (Cmd_Run (Inr sub)) w =
    (if json_able (result_output t) then (Inr 0, [projr (run_panel renv t)], w') else (Inl not_json, [], w'))"
proof -
  have m: "cli_main env lenv iso_text config workdir (Cmd_Run (Inr sub)) w = (Inr (0, Run_Panel t), w')"
    by (simp add: cli_main_def r run shows_task_def)
  show ?thesis
  proof (cases "json_able (result_output t)")
    case True
    then have "\<exists>b. run_panel renv t = Inr b"
      unfolding run_panel_def by (simp only: task_overview_ok_iff)
    then obtain b where "run_panel renv t = Inr b" by blast
    with True show ?thesis by (simp add: cond_run_def m)
  next
    case False
    then have "result_output t \<noteq> PNone" by auto
    with False have "run_panel renv t = Inl not_json"
      by (simp add: run_panel_def task_overview_panel_def format_output_error)
    with False show ?thesis by (simp add: cond_run_def m)
  qed
qed

text \<open>A record that came from a JSON file is always shown in full.\<close>

definition record_json_able :: "task_record \<Rightarrow> bool" where
  "record_json_able t \<longleftrightarrow> json_able (PDict (task_input t)) \<and> json_able (PDict (task_metadata t)) \<and>
     json_able (result_output t) \<and> json_able (PDict (result_metadata t)) \<and>
     list_all (\<lambda>e. json_able (PDict (au_metadata e))) (task_audit_trail t)"

lemma audit_row_ok_iff [simp]: "(\<exists>row. audit_row env e = Inr row) \<longleftrightarrow> json_able (PDict (au_metadata e))"
proof -
  have "(\<exists>row. audit_row env e = Inr row) \<longleftrightarrow> (\<exists>s. format_output env (PDict (au_metadata e)) (Some 80) = Inr s)"
    by (cases "format_output env (PDict (au_metadata e)) (Some 80)") (simp_all add: audit_row_def Let_def)
  then show ?thesis by (simp only: format_output_ok_iff)
qed

theorem task_detail_prints_iff:
  "fst (print_all (task_detail env t)) = None \<longleftrightarrow> record_json_able t"
proof -
  have rows: "(\<exists>rows. sequence (map (audit_row env) (task_audit_trail t)) = Inr rows) \<longleftrightarrow>
      list_all (\<lambda>e. json_able (PDict (au_metadata e))) (task_audit_trail t)"
    by (simp only: sequence_ok_iff set_map ball_simps audit_row_ok_iff list_all_iff)
  have empty: "(d \<noteq> [] \<longrightarrow> json_able (PDict d)) = json_able (PDict d)" for d
    by (cases d) simp_all
  have none: "(v \<noteq> PNone \<longrightarrow> json_able v) = json_able v" for v
    by (cases v) simp_all
  have nil: "task_audit_trail t = [] \<Longrightarrow> list_all P (task_audit_trail t)" for P by simp
  show ?thesis
    using rows nil
    by (simp add: print_all_None_iff task_detail_def record_json_able_def text_panel_def ball_Un
        task_overview_ok_iff map_sum_id_Ex_Inr empty none del: json_able.simps) blast
qed

text \<open>
  The list view names a task by the first eight characters of its id.  When no other stored task
  shares them, \<^verbatim>\<open>cond task show\<close> finds the task by those characters; by the text as it is shown, with
  its three dots, it finds the task only if the id really continues with dots.
\<close>

theorem listed_id_resolves:
  assumes ok: "ms_ok (w_store w)" and t: "ms_get (w_store w) (task_id t) = Some t" and long: "8 < py_len (task_id t)"
    and alone: "\<And>u. ms_get (w_store w) (task_id u) = Some u \<Longrightarrow> prefix_of (take_points 8 (task_id t)) (task_id u) \<Longrightarrow> u = t"
  shows "task_id_display (task_id t) = take_points 8 (task_id t) @ ''...''"
    and "resolve_task w (take_points 8 (task_id t)) = Inr t"
    and "\<not> prefix_of (take_points 8 (task_id t) @ ''...'') (task_id t) \<Longrightarrow>
      \<exists>e. resolve_task w (take_points 8 (task_id t) @ ''...'') = Inl e \<and> handled_by_main e"
proof -
  let ?p = "take_points 8 (task_id t)"
  show "task_id_display (task_id t) = ?p @ ''...''" using long by (simp add: task_id_display_def)
  have own: "task_id u = k" if "ms_get (w_store w) k = Some u" for k u using ms_get_id [OF ok that] .
  have pre: "prefix_of ?p (task_id t)" using take_points_prefix by (simp add: prefix_of_append)
  have only: "k = task_id t" if "ms_get (w_store w) k \<noteq> None" "prefix_of ?p k" for k
    using that own alone by (metis option.exhaust)
  have ids: "{k. ms_get (w_store w) k \<noteq> None \<and> prefix_of ?p k} = {task_id t}" using only t pre by auto
  have "py_len ?p = 8" using long by (simp add: py_len_take_points)
  with long have "?p \<noteq> task_id t" by auto
  with only pre have none: "ms_get (w_store w) ?p = None"
    by (metis append_Nil2 prefix_of_append)
  note spec = resolve_task_iff [OF ok, of ?p]
  show "resolve_task w ?p = Inr t"
  proof (cases "resolve_task w ?p")
    case (Inl e)
    with spec ids show ?thesis by simp
  next
    case (Inr u)
    have r: "case resolve_task w ?p of
        Inr u \<Rightarrow> ms_get (w_store w) (task_id u) = Some u \<and> (?p = task_id u \<or> task_id t = task_id u)
      | Inl e \<Rightarrow> True"
      using spec unfolding ids by (cases "resolve_task w ?p") (simp_all, blast)
    have u: "ms_get (w_store w) (task_id u) = Some u" and "?p = task_id u \<or> task_id t = task_id u"
      using r unfolding Inr sum.case by simp_all
    with none have "task_id t = task_id u" by (metis option.distinct(1))
    with t u have "t = u" by (metis option.inject)
    then show ?thesis unfolding Inr by simp
  qed
  assume no: "\<not> prefix_of (?p @ ''...'') (task_id t)"
  have un: "ms_get (w_store w) k = None" if d: "prefix_of (?p @ ''...'') k" for k
  proof (rule ccontr)
    assume "ms_get (w_store w) k \<noteq> None"
    moreover have "prefix_of ?p k" using d by (auto simp: prefix_of_append)
    ultimately have "k = task_id t" by (rule only)
    with no d show False by simp
  qed
  then have "filter (\<lambda>t. prefix_of (?p @ ''...'') (task_id t)) (list_tasks w None 0 None) = []"
    using listed_iff(1) [OF ok] by (auto simp: filter_empty_conv)
  moreover have "ms_get (w_store w) (?p @ ''...'') = None" by (rule un) (simp add: prefix_of_append)
  ultimately have "resolve_task w (?p @ ''...'') =
      Inl (Value_Error (''Task '' @ quote1 @ (?p @ ''...'') @ quote1 @ '' was not found''))"
    unfolding resolve_task_def get_task_def by simp
  then show "\<exists>e. resolve_task w (?p @ ''...'') = Inl e \<and> handled_by_main e"
    by (simp only: sum.inject ex_simps) (simp add: handled_by_main_def)
qed

section \<open>The help pages\<close>

text \<open>What the Default column of a field runs into.\<close>

definition field_error :: "field_doc \<Rightarrow> exc option" where
  "field_error f =
     (if fd_required f then None
      else case fd_default f of None \<Rightarrow> Some undefined_default
        | Some v \<Rightarrow> if json_able v then None else Some not_json)"

fun first_error :: "field_doc list \<Rightarrow> exc option" where
  "first_error [] = None"
| "first_error (f # fs) = (case field_error f of Some e \<Rightarrow> Some e | None \<Rightarrow> first_error fs)"

lemma field_row_cases:
  "(field_error f = None \<and> (\<exists>row. field_row env f = Inr row)) \<or>
   (\<exists>e. field_error f = Some e \<and> field_row env f = Inl e \<and> \<not> handled_by_main e)"
proof (cases "fd_required f \<or> fd_default f = None")
  case True
  then show ?thesis by (auto simp: field_error_def field_row_def)
next
  case False
  then obtain v where v: "\<not> fd_required f" "fd_default f = Some v" by auto
  show ?thesis
  proof (cases "json_able v")
    case True
    then have "\<exists>s. format_output env v (Some 120) = Inr s" by simp
    with v True show ?thesis by (auto simp: field_error_def field_row_def)
  next
    case False
    with v show ?thesis by (simp add: field_error_def field_row_def format_output_error)
  qed
qed

lemma field_rows:
  "case first_error fs of
     None \<Rightarrow> \<exists>rows. sequence (map (field_row env) fs) = Inr rows
   | Some e \<Rightarrow> sequence (map (field_row env) fs) = Inl e \<and> \<not> handled_by_main e"
proof (induction fs)
  case (Cons f fs)
  with field_row_cases [of f env] show ?case by (auto split: option.splits)
qed simp

lemma help_topics_set:
  assumes "registry_ok r"
  shows "t \<in> fst ` set (help_index_rows r) \<longleftrightarrow>
    dget command_help_topics t \<noteq> None \<or> (\<exists>c. reg_get r t = Inr c)"
proof -
  have "cd_name ` set (reg_list r) = fst ` set (reg_capabilities r)"
    using assms by (force simp: reg_list_def registry_ok_def list_all_iff image_image)
  moreover have "(\<exists>c. reg_get r t = Inr c) \<longleftrightarrow> t \<in> fst ` set (reg_capabilities r)"
    using dget_None_iff [of "reg_capabilities r" t]
    by (auto simp: reg_get_def dkeys_def split: option.splits)
  moreover have "dget command_help_topics t \<noteq> None \<longleftrightarrow> t \<in> fst ` set command_help_topics"
    using dget_None_iff [of command_help_topics t] by (simp add: dkeys_def)
  ultimately show ?thesis
    by (simp add: help_index_rows_def image_Un image_image case_prod_beta)
qed

text \<open>Only the table of the fields can fail.\<close>

lemma capability_manual_shape:
  assumes "reg_get r t = Inr c"
  shows "\<exists>s tl. capability_manual env docs t r =
    Some (Inr s # (case cdoc_fields (docs t) of None \<Rightarrow> []
         | Some fs \<Rightarrow> [map_sum id (Table_Block [''Field'', ''Type'', ''Required'', ''Default''])
             (sequence (map (field_row env) fs))]) @ map Inr tl)"
proof -
  have "\<exists>tl. (case cdoc_man_page (docs t) of None \<Rightarrow> []
     | Some m \<Rightarrow> if m = [] then [] else [text_panel ''details'' ''cyan'' (Inr m)]) @
    [text_panel ''example'' ''green'' (Inr (capability_example_yaml t (cdoc_fields (docs t)))), Inr see_also] =
    (map Inr tl :: (exc + block) list)"
    by (cases "cdoc_man_page (docs t)")
      (auto simp: text_panel_def intro: exI [where x = "[_, _]"] exI [where x = "[_, _, _]"])
  then show ?thesis by (simp add: capability_manual_def assms Let_def)
qed

text \<open>
  What \<^verbatim>\<open>cond help\<close> answers: without a topic, and for the topic of a command, it prints and exits
  with 0; a text that its own index does not list exits with 2; for a capability it exits with 0
  exactly when the default of every optional field of the input model can be written as JSON.  The
  first field where it cannot, for instance one with a default factory, ends the process with
  \<^verbatim>\<open>TypeError\<close>.
\<close>

theorem help_topic_outcome:
  assumes ok: "registry_ok r"
  shows "fst (cond_help renv docs topic r) =
    (case topic of
       None \<Rightarrow> Inr 0
     | Some t \<Rightarrow>
         if t \<notin> fst ` set (help_index_rows r) then Inr 2
         else if dget command_help_topics t \<noteq> None then Inr 0
         else case cdoc_fields (docs t) of
             None \<Rightarrow> Inr 0
           | Some fs \<Rightarrow> (case first_error fs of None \<Rightarrow> Inr 0 | Some e \<Rightarrow> Inl e))"
proof (cases topic)
  case None
  then show ?thesis by (simp add: cond_help_def render_help_def)
next
  case (Some t)
  show ?thesis
  proof (cases "dget command_help_topics t")
    case m: (Some m)
    with Some help_topics_set [OF ok, of t] show ?thesis
      by (simp add: cond_help_def render_help_def command_manual_def)
  next
    case none: None
    then have cm: "command_manual t = None" by (simp add: command_manual_def)
    show ?thesis
    proof (cases "reg_get r t")
      case (Inl e)
      with Some none cm help_topics_set [OF ok, of t] show ?thesis
        by (simp add: cond_help_def render_help_def capability_manual_def)
    next
      case (Inr c)
      with none help_topics_set [OF ok, of t] have listed: "t \<in> fst ` set (help_index_rows r)" by simp
      from capability_manual_shape [OF Inr, of renv docs] obtain s tl where man: "capability_manual renv docs t r =
          Some (Inr s # (case cdoc_fields (docs t) of None \<Rightarrow> []
               | Some fs \<Rightarrow> [map_sum id (Table_Block [''Field'', ''Type'', ''Required'', ''Default''])
                   (sequence (map (field_row renv) fs))]) @ map Inr tl)"
        by blast
      show ?thesis
      proof (cases "cdoc_fields (docs t)")
        case None
        with Some none cm listed man show ?thesis by (simp add: cond_help_def render_help_def)
      next
        case fs: (Some fs)
        show ?thesis
        proof (cases "first_error fs")
          case None
          with field_rows [of renv fs] obtain rows where "sequence (map (field_row renv) fs) = Inr rows" by auto
          with Some none cm listed man fs None show ?thesis by (simp add: cond_help_def render_help_def)
        next
          case e: (Some e)
          with field_rows [of renv fs] have "sequence (map (field_row renv) fs) = Inl e" "\<not> handled_by_main e"
            by auto
          with Some none cm listed man fs e show ?thesis by (simp add: cond_help_def render_help_def)
        qed
      qed
    qed
  qed
qed

text \<open>
  The page of the bundled HTTP capability: its headers have a default factory, so on every registry
  that has the capability, as the one of the built-ins does, \<^verbatim>\<open>cond help http\<close> prints the summary and
  then crashes.  The pages of the other two built-ins are printed.
\<close>

lemma first_error_http [simp]: "first_error http_fields = Some undefined_default"
  by (simp add: http_fields_def field_error_def)

lemma first_error_filesystem [simp]: "first_error filesystem_fields = None"
  by (simp add: filesystem_fields_def field_error_def)

theorem http_help_page_crashes:
  assumes "reg_get r ''http'' = Inr c"
  shows "\<exists>summary. cond_help renv bundled_doc (Some ''http'') r = (Inl undefined_default, [summary])"
proof -
  from field_rows [of renv http_fields] have "sequence (map (field_row renv) http_fields) = Inl undefined_default" by simp
  moreover have "cdoc_fields (bundled_doc ''http'') = Some http_fields" by (simp add: bundled_doc_def)
  moreover have "command_manual ''http'' = None"
    by (simp add: command_manual_def command_help_topics_def dget_def)
  ultimately show ?thesis
    using capability_manual_shape [OF assms, of renv bundled_doc] by (auto simp: cond_help_def render_help_def)
qed

definition help_registry :: registry where
  "help_registry =
     \<lparr>reg_capabilities = [(''http'', demo_capability\<lparr>cap_descriptor := http_descriptor\<rparr>)], reg_execution_controls = []\<rparr>"

theorem help_topic_outcome_witness:
  "registry_ok help_registry \<and>
   fst (cond_help plain_render bundled_doc (Some ''http'') help_registry) = Inl undefined_default"
proof -
  have ok: "registry_ok help_registry"
    by (simp add: registry_ok_def dict_ok_def help_registry_def http_descriptor_def dkeys_def)
  have "reg_get help_registry ''http'' = Inr (demo_capability\<lparr>cap_descriptor := http_descriptor\<rparr>)"
    by (simp add: reg_get_def help_registry_def dget_def)
  then have "''http'' \<in> fst ` set (help_index_rows help_registry)"
    by (simp add: help_topics_set [OF ok])
  moreover have "dget command_help_topics ''http'' = None"
    by (simp add: command_help_topics_def dget_def)
  moreover have "cdoc_fields (bundled_doc ''http'') = Some http_fields" by (simp add: bundled_doc_def)
  ultimately show ?thesis
    using ok help_topic_outcome [OF ok, of plain_render bundled_doc "Some ''http''"] by simp
qed

text \<open>
  An optional field is shown as \<^verbatim>\<open>Union[str, NoneType]\<close>, not as \<^verbatim>\<open>str | NoneType\<close>: the class of
  \<^verbatim>\<open>X | None\<close> does not print with \<^verbatim>\<open>Union\<close> at its end, which is what the code looks for.  For the
  same reason the example of an optional integer is \<^verbatim>\<open><value>\<close> instead of \<^verbatim>\<open>0\<close>.
\<close>

theorem optional_fields_are_not_recognised:
  "type_label (optional_of a) = ''Union['' @ type_label a @ '', NoneType]''"
  "example_value (optional_of a) = ''<value>''"
  by (simp_all add: optional_of_def ends_with_def quote1_def)

text \<open>The commands without a help topic.\<close>

theorem commands_without_topic:
  "dget command_help_topics ''guild'' = None" "dget command_help_topics ''api-key'' = None"
  "dget command_help_topics ''help'' = None"
  by (simp_all add: command_help_topics_def dget_def)

end
