(* ===== verification/Server.thy ===== *)
theory Server
  imports Cli_Properties Events Cluster Auth_Properties
begin

text \<open>
  \<^verbatim>\<open>engine/api/server.py\<close> and \<^verbatim>\<open>create_api_app\<close> of \<^verbatim>\<open>engine/api/app.py\<close>: the engine that
  \<^verbatim>\<open>cond serve\<close> builds from its options, and what that choice of parts means for its clients: which
  policy decides, when an API key is asked for, what a workflow request does.

  The files are a parameter: a path gives a key file, and the loader's environment gives the
  capability configuration.  Starting uvicorn is not modelled; what it is started with is a value.
\<close>

section \<open>serve\<close>

record serve_options =
  so_capabilities_path :: "string option"
  so_api_key_path :: "string option"
  so_workdir :: "string option"
  so_cors_origins :: "string list option"
  so_tls_cert :: "string option"
  so_tls_key :: "string option"
  so_policy :: "string option"

definition serve_workdir :: "loader_env \<Rightarrow> string \<Rightarrow> serve_options \<Rightarrow> string" where
  "serve_workdir lenv cwd opts = le_resolve lenv (opt_or (so_workdir opts) cwd)"

definition serve_registry :: "loader_env \<Rightarrow> serve_options \<Rightarrow> string \<Rightarrow> exc + registry" where
  "serve_registry lenv opts resolved_workdir =
     (case opt_or (so_capabilities_path opts) [] of
        [] \<Rightarrow>
          let default_config = resolved_workdir @ ''/config/conductor.capabilities.yaml'' in
          if le_exists lenv default_config then load_capabilities lenv (Some default_config) resolved_workdir
          else load_capabilities lenv None resolved_workdir
      | path \<Rightarrow> load_capabilities lenv (Some path) resolved_workdir)"

definition serve_policy :: "string option \<Rightarrow> policy_engine" where
  "serve_policy policy =
     (if policy = Some ''deny-all'' \<or> policy = Some ''deny'' then Deny_By_Default (dp_init (Some []))
      else if policy = Some ''null'' \<or> policy = Some ''default'' then Null_Policy
      else Risk_Level \<lparr>rp_deny_above = HIGH, rp_require_approval_at = Some CRITICAL, rp_allowed = None\<rparr>)"

definition serve_queue :: task_queue where
  "serve_queue = Bounded_Queue (bq_init 1024)"

definition served_supervisor :: "supervisor \<Rightarrow> registry \<Rightarrow> string \<Rightarrow> string option \<Rightarrow> supervisor" where
  "served_supervisor env r resolved_workdir policy =
     env\<lparr>sv_registry := r, sv_workdir := resolved_workdir, sv_policy := serve_policy policy,
         sv_retry_strategy := default_retry, sv_escalation_policy := None, sv_guild_knowledge := None,
         sv_peer_suggestions := None, sv_bus_raises := (\<lambda>n e. False)\<rparr>"

definition serve_key_path :: "serve_options \<Rightarrow> string \<Rightarrow> string option" where
  "serve_key_path opts resolved_workdir =
     (if so_api_key_path opts = None \<and> so_tls_cert opts \<noteq> None
      then Some (resolved_workdir @ ''/.conductor/api_keys.json'') else so_api_key_path opts)"

definition serve_cors :: "serve_options \<Rightarrow> string list option" where
  "serve_cors opts =
     (if so_cors_origins opts = None \<and> so_tls_cert opts \<noteq> None then Some [] else so_cors_origins opts)"

text \<open>The address printed, and the TLS files uvicorn gets.\<close>

definition serve_scheme :: "serve_options \<Rightarrow> string" where
  "serve_scheme opts = (if opt_or (so_tls_cert opts) [] \<noteq> [] then ''https'' else ''http'')"

definition serve_tls :: "serve_options \<Rightarrow> (string \<times> string) option" where
  "serve_tls opts =
     (let cert = opt_or (so_tls_cert opts) []; key = opt_or (so_tls_key opts) [] in
      if cert \<noteq> [] \<and> key \<noteq> [] then Some (cert, key) else None)"

section \<open>The application\<close>

record api_app =
  app_supervisor :: supervisor
  app_event_bus :: "sse_bus option"
  app_orchestrator :: "world orchestrator option"
  app_cluster_registry :: engine_registry
  app_trigger_service :: "trigger_adapter list option"
  app_key_store :: key_store
  app_allowed_origins :: "string list"

definition create_api_app ::
  "supervisor \<Rightarrow> sse_bus option \<Rightarrow> world orchestrator option \<Rightarrow> engine_registry option \<Rightarrow>
   trigger_adapter list option \<Rightarrow> key_store option \<Rightarrow> string list option \<Rightarrow> api_app" where
  "create_api_app sv bus orchestrator cluster triggers key_store cors_origins =
     \<lparr>app_supervisor = sv, app_event_bus = bus, app_orchestrator = orchestrator,
      app_cluster_registry = (case cluster of None \<Rightarrow> er_init | Some r \<Rightarrow> r),
      app_trigger_service = triggers,
      app_key_store = (case key_store of None \<Rightarrow> key_store_empty | Some s \<Rightarrow> s),
      app_allowed_origins = (case cors_origins of None \<Rightarrow> [''*''] | Some os \<Rightarrow> os)\<rparr>"

text \<open>The lifespan: the loop is attached at the start; at the end the subscribers are told, and the
  key usage is flushed.\<close>

definition app_startup :: "loop_state \<Rightarrow> api_app \<Rightarrow> api_app" where
  "app_startup running app = app\<lparr>app_event_bus := map_option (attach_loop running) (app_event_bus app)\<rparr>"

definition app_shutdown :: "bool \<Rightarrow> int \<Rightarrow> key_file \<Rightarrow> api_app \<Rightarrow> api_app \<times> key_file" where
  "app_shutdown dead mtime f app =
     (case flush_usage mtime (app_key_store app) f of
        (s, f) \<Rightarrow> (app\<lparr>app_event_bus := map_option (sse_shutdown dead) (app_event_bus app), app_key_store := s\<rparr>, f))"

definition serve ::
  "supervisor \<Rightarrow> loader_env \<Rightarrow> string \<Rightarrow> string \<Rightarrow> (string \<Rightarrow> key_file) \<Rightarrow> serve_options \<Rightarrow> world \<Rightarrow>
   exc + api_app \<times> world" where
  "serve env lenv cwd now key_files opts w =
     (let resolved_workdir = serve_workdir lenv cwd opts in
      case serve_registry lenv opts resolved_workdir of
        Inl e \<Rightarrow> Inl e
      | Inr r \<Rightarrow>
          let sv = served_supervisor env r resolved_workdir (so_policy opts);
              keys = load_api_key_store now (map_option key_files (serve_key_path opts resolved_workdir))
          in Inr (create_api_app sv (Some bus_init) (Some (bundled sv [])) None None (Some keys) (serve_cors opts),
                  w\<lparr>w_queue := serve_queue, w_last_start := [], w_events := []\<rparr>))"

section \<open>Which policy decides\<close>

lemma run_submission_pending:
  assumes "validate_task_submission sub (sv_registry sv) = Inr c" and "\<not> cd_require_approval (cap_descriptor c)"
    and "policy_evaluate (sv_policy sv) (fresh_task sv sub w)
      \<lparr>pc_capability = cap_descriptor c, pc_workdir = sv_workdir sv\<rparr> = Inr d"
  shows "run_submission sv sub w =
    (case apply_policy sv d (fresh_task sv sub w, created_world sv sub w) of
       (t, w) \<Rightarrow> if task_status t \<noteq> PENDING then (Inr t, w) else execute_task sv c (t, w))"
proof -
  have "get_task (created_world sv sub w) (sv_uuid sv (w_uuids w)) = Inr (fresh_task sv sub w)"
    by (simp add: get_task_def created_world_def)
  then show ?thesis
    using assms by (simp add: run_submission_def create_task_record_eq run_task_def executable_status_def
        fresh_submission)
qed

lemma apply_policy_stops:
  assumes "apply_policy sv d (t, w) = (t1, w1)"
  shows "pd_decision d = DENY \<Longrightarrow> task_status t1 = POLICY_DENIED \<and> w_executions w1 = w_executions w"
    and "pd_decision d = REQUIRE_APPROVAL \<Longrightarrow> task_status t1 = AWAITING_APPROVAL \<and> w_executions w1 = w_executions w"
  using arg_cong [OF assms, of "\<lambda>p. task_status (fst p)"] arg_cong [OF assms, of "\<lambda>p. w_executions (snd p)"]
  by (auto simp: apply_policy_def Let_def now_utc_def)

text \<open>
  C35. What a served engine runs: of a valid task whose capability does not itself require approval, an
  engine served with \<^verbatim>\<open>--policy deny-all\<close> runs nothing and denies it; with \<^verbatim>\<open>null\<close> it goes on to execute
  it; with any other value, and by default, it executes it up to risk level HIGH and leaves a CRITICAL
  one awaiting approval.  So under the default policy no task at all is denied.
\<close>

theorem served_policy_decides:
  assumes "sv = served_supervisor env r d mode"
    and "validate_task_submission sub r = Inr c" and "\<not> cd_require_approval (cap_descriptor c)"
  shows "if mode \<in> {Some ''deny-all'', Some ''deny''}
    then \<exists>t w'. run_submission sv sub w = (Inr t, w') \<and> task_status t = POLICY_DENIED \<and> w_executions w' = w_executions w
    else if mode \<notin> {Some ''null'', Some ''default''} \<and> cd_risk_level (cap_descriptor c) = CRITICAL
    then \<exists>t w'. run_submission sv sub w = (Inr t, w') \<and> task_status t = AWAITING_APPROVAL \<and> w_executions w' = w_executions w
    else \<exists>t1 w1. task_status t1 = PENDING \<and> task_id t1 = sv_uuid sv (w_uuids w) \<and> w_executions w1 = w_executions w \<and>
      run_submission sv sub w = execute_task sv c (t1, w1)"
proof -
  have v: "validate_task_submission sub (sv_registry sv) = Inr c" and p: "sv_policy sv = serve_policy mode"
    using assms(1,2) by (simp_all add: served_supervisor_def)
  let ?ctx = "\<lparr>pc_capability = cap_descriptor c, pc_workdir = sv_workdir sv\<rparr>"
  have "\<exists>d. policy_evaluate (sv_policy sv) (fresh_task sv sub w) ?ctx = Inr d"
    by (simp add: p serve_policy_def)
  then obtain d where d: "policy_evaluate (sv_policy sv) (fresh_task sv sub w) ?ctx = Inr d" by blast
  obtain t1 w1 where a: "apply_policy sv d (fresh_task sv sub w, created_world sv sub w) = (t1, w1)" by fastforce
  note run = run_submission_pending [OF v assms(3) d]
  have ex: "w_executions (created_world sv sub w) = w_executions w" by (simp add: created_world_def)
  consider (deny) "mode \<in> {Some ''deny-all'', Some ''deny''}"
    | (ask) "mode \<notin> {Some ''deny-all'', Some ''deny'', Some ''null'', Some ''default''}"
        "cd_risk_level (cap_descriptor c) = CRITICAL"
    | (go) "mode \<notin> {Some ''deny-all'', Some ''deny''}"
        "mode \<in> {Some ''null'', Some ''default''} \<or> cd_risk_level (cap_descriptor c) \<noteq> CRITICAL" by blast
  then show ?thesis
  proof cases
    case deny
    with d have "pd_decision d = DENY" by (auto simp: p serve_policy_def dp_evaluate_def dp_init_def)
    with apply_policy_stops(1) [OF a] run a ex deny show ?thesis by auto
  next
    case ask
    with d have "pd_decision d = REQUIRE_APPROVAL" by (auto simp: p serve_policy_def rp_evaluate_def Let_def)
    with apply_policy_stops(2) [OF a] run a ex ask show ?thesis by auto
  next
    case go
    with d have "pd_decision d = ALLOW"
      by (cases "cd_risk_level (cap_descriptor c)")
        (auto simp: p serve_policy_def rp_evaluate_def Let_def null_evaluate_def split: if_splits)
    from apply_policy_allow [OF this a] run a ex go show ?thesis by auto
  qed
qed

section \<open>Workflows of a served engine\<close>

text \<open>
  A served engine runs no workflow: \<^verbatim>\<open>serve\<close> gives its orchestrator the empty plan, so
  \<^verbatim>\<open>POST /v1/workflows\<close> answers every goal with a trace of no tasks whose status is \<^verbatim>\<open>pending\<close> and
  changes nothing, and asking for the trace of that new workflow afterwards is answered with 404.
\<close>

theorem served_workflow_runs_nothing:
  assumes "serve env lenv cwd now key_files opts w0 = Inr (app, w1)"
    and "ms_ok (w_store w)" and "\<forall>k t. ms_get (w_store w) k = Some t \<longrightarrow> task_workflow_id t \<noteq> Some (wg_workflow_id goal)"
  shows "api_run_workflow (app_orchestrator app) orders goal w =
      (Inr \<lparr>cpw_workflow_id = wg_workflow_id goal, cpw_status = ''pending'', cpw_task_count = 0, cpw_tasks = []\<rparr>, w) \<and>
    api_get_workflow_trace w (wg_workflow_id goal) =
      Inl (http_error 404 ''not_found'' (''No tasks found for workflow '' @ py_repr (wg_workflow_id goal)))"
proof -
  obtain sv where o: "app_orchestrator app = Some (bundled sv [])"
    using assms(1) by (auto simp: serve_def create_api_app_def Let_def split: sum.splits)
  have "filter (\<lambda>t. task_workflow_id t = Some (wg_workflow_id goal)) (list_tasks w None 0 None) = []"
    using listed_iff(1) [OF assms(2)] assms(3) by (auto simp: filter_empty_conv)
  then show ?thesis
    by (simp add: o api_run_workflow_def get_orchestrator_def workflow_run_def bundled_def linear_plan_def
        passthrough_validate_def cp_trace_from_records_def cp_workflow_status_def by_creation_def
        api_get_workflow_trace_def Let_def)
qed

section \<open>Keys of a served engine\<close>

text \<open>
  C36. A key made with \<^verbatim>\<open>cond api-key generate\<close> guards the engine served with its file, and only that
  one: a server started with the file as its key path accepts the key, for its actor and scopes, and
  refuses every request to a non-public path that brings none; a server started with neither a key
  path nor a TLS certificate lets every request through with all scopes, whatever keys were made.
\<close>

theorem generated_key_guards_its_server:
  assumes "key_file_ok f" and "now \<noteq> []" and "py_strip (generate_raw_key hex) = generate_raw_key hex"
    and "api_key_handler h now m hex (Key_Generate actor scopes) f = (res, f')"
    and "\<not> path_is_public path"
    and "serve env lenv cwd now key_files opts w = Inr (app, w')"
    and "so_api_key_path opts = Some kp \<longrightarrow> key_files kp = f'"
  shows "(so_api_key_path opts = Some kp \<longrightarrow>
      fst (auth_dispatch h now path (Some (''Bearer '' @ generate_raw_key hex)) f' (app_key_store app)) =
        Call_Next (auth_context_init actor scopes) \<and>
      auth_dispatch h now path None f' (app_key_store app) = (Unauthorized missing_header, app_key_store app)) \<and>
    (so_api_key_path opts = None \<and> so_tls_cert opts = None \<longrightarrow>
      auth_dispatch h now path auth f' (app_key_store app) = (Call_Next open_context, app_key_store app))"
proof (intro conjI impI)
  assume kp: "so_api_key_path opts = Some kp"
  let ?s = "key_store_init now f'" and ?raw = "generate_raw_key hex"
  have app: "app_key_store app = ?s"
    using assms(6,7) kp by (auto simp: serve_def create_api_app_def serve_key_path_def load_api_key_store_def
        Let_def split: sum.splits)
  obtain e s' where g: "key_generate h now m hex actor (if scopes = Some [] then None else scopes) (key_store_init now f) f
      = ((?raw, e), s', f')"
    using assms(4) by (auto simp: api_key_handler_def Let_def key_generate_def split: prod.splits)
  have ok: "keys_ok (key_store_init now f)" using key_init_ok [OF assms(2,1)] .
  note found = generated_key_found [OF ok init_fields(1) assms(1,2) g]
    and e = generated_entry(2) [OF ok init_fields(1) assms(1,2) g]
  let ?x = "e\<lparr>ke_last_used_at := Some now\<rparr>"
  obtain t where l: "key_lookup h now ?raw f' ?s = (Some ?x, t)" using found(1) by blast
  have ctx: "auth_context_init (ke_actor ?x) (Some (ke_scopes ?x)) = auth_context_init actor scopes"
    by (cases scopes) (auto simp: e entry_init_def wildcard_def auth_context_init_def)
  show "fst (auth_dispatch h now path (Some (''Bearer '' @ ?raw)) f' (app_key_store app)) =
      Call_Next (auth_context_init actor scopes)"
    using l ctx found(2) assms(3,5) by (simp add: app auth_dispatch_def Let_def)
  show "auth_dispatch h now path None f' (app_key_store app) = (Unauthorized missing_header, app_key_store app)"
    using found(2) assms(5) by (simp add: app auth_dispatch_def Let_def)
qed (use assms(6) in \<open>auto simp: serve_def create_api_app_def serve_key_path_def load_api_key_store_def
      auth_dispatch_def auth_enabled_def has_keys_def key_store_empty_def dvalues_def Let_def split: sum.splits\<close>)

section \<open>Witnesses\<close>

definition demo_options :: "string option \<Rightarrow> serve_options" where
  "demo_options key_path =
     \<lparr>so_capabilities_path = Some ''c.yaml'', so_api_key_path = key_path, so_workdir = None, so_cors_origins = None,
      so_tls_cert = None, so_tls_key = None, so_policy = None\<rparr>"

lemma demo_serves: "\<exists>app w'. serve demo_supervisor demo_loader_env ''/w'' now key_files (demo_options kp) w = Inr (app, w')"
proof -
  obtain r where "resolve_registry demo_loader_env (Some ''c.yaml'') ''/w'' = Inr r"
    using demo_registry_loads by blast
  moreover have "serve_workdir demo_loader_env ''/w'' (demo_options kp) = ''/w''"
    by (simp add: serve_workdir_def demo_options_def demo_loader_env_def opt_or_def)
  ultimately show ?thesis
    by (simp add: serve_def serve_registry_def resolve_registry_def demo_options_def opt_or_def Let_def)
qed

theorem served_policy_decides_witness:
  "\<exists>t w'. run_submission (served_supervisor demo_supervisor demo_registry ''/w'' (Some ''deny-all'')) demo_submission demo_init =
     (Inr t, w') \<and> task_status t = POLICY_DENIED \<and> w_executions w' = []"
proof -
  have "\<not> cd_require_approval (cap_descriptor demo_capability)" by (simp add: demo_capability_def)
  from served_policy_decides [where env = demo_supervisor and d = "''/w''" and mode = "Some ''deny-all''" and
      w = demo_init, OF HOL.refl demo_valid this]
  show ?thesis by (auto simp: demo_init_def world_init_def)
qed

theorem served_workflow_runs_nothing_witness:
  "\<exists>app w1. serve demo_supervisor demo_loader_env ''/w'' ''now'' (\<lambda>p. demo_key_file) (demo_options None) demo_init = Inr (app, w1) \<and>
     api_run_workflow (app_orchestrator app) (\<lambda>k. []) demo_goal demo_init =
       (Inr \<lparr>cpw_workflow_id = ''wf'', cpw_status = ''pending'', cpw_task_count = 0, cpw_tasks = []\<rparr>, demo_init)"
proof -
  obtain app w1 where s: "serve demo_supervisor demo_loader_env ''/w'' ''now'' (\<lambda>p. demo_key_file) (demo_options None)
      demo_init = Inr (app, w1)" using demo_serves by blast
  have "ms_ok (w_store demo_init)" "\<forall>k t. ms_get (w_store demo_init) k = Some t \<longrightarrow> task_workflow_id t \<noteq> Some (wg_workflow_id demo_goal)"
    using reachable_ok [OF demo_init_reachable demo_inj]
    by (simp_all add: world_ok_def demo_init_def world_init_def ms_init_def ms_get_def dget_def)
  from served_workflow_runs_nothing [OF s this, of "\<lambda>k. []"] s show ?thesis by (simp add: demo_goal_def)
qed

theorem generated_key_guards_its_server_witness:
  "\<exists>res f' app w1. api_key_handler demo_hash ''now'' 2 ''bb'' (Key_Generate ''ci'' None) demo_key_file = (res, f') \<and>
     serve demo_supervisor demo_loader_env ''/w'' ''now'' (\<lambda>p. f') (demo_options (Some ''k'')) demo_init = Inr (app, w1) \<and>
     auth_dispatch demo_hash ''now'' ''/v1/tasks'' None f' (app_key_store app) = (Unauthorized missing_header, app_key_store app)"
proof -
  obtain res f' where g: "api_key_handler demo_hash ''now'' 2 ''bb'' (Key_Generate ''ci'' None) demo_key_file = (res, f')"
    by fastforce
  obtain app w1 where s: "serve demo_supervisor demo_loader_env ''/w'' ''now'' (\<lambda>p. f') (demo_options (Some ''k''))
      demo_init = Inr (app, w1)" using demo_serves by blast
  have "py_strip (generate_raw_key ''bb'') = generate_raw_key ''bb''"
    by (simp add: generate_raw_key_def py_strip_def is_ws_def)
  from generated_key_guards_its_server [OF demo_key_file_ok(1) _ this g tasks_not_public s, of "''k''"] g s
  show ?thesis by (simp add: demo_options_def)
qed

end
