(* ===== verification/Cli_Parser.thy ===== *)
theory Cli_Parser
  imports Cli_Render Server
begin

text \<open>
  The command line of \<^verbatim>\<open>cond\<close> (\<^verbatim>\<open>cli/cond.py\<close>): the parsers \<^verbatim>\<open>build_parser\<close> sets up, what \<^verbatim>\<open>argparse\<close> makes
  of an argument list with them, and how \<^verbatim>\<open>main\<close> goes on from there.

  Of \<^verbatim>\<open>argparse\<close> the model has what these parsers use: options with one value, flags, repeatable
  options, unique abbreviations, \<^verbatim>\<open>--option=value\<close>, one positional per parser, subcommands (whose
  values replace those of the parser above, defaults included), \<^verbatim>\<open>--\<close>, and the exit codes 0 (help,
  version) and 2 (errors).  What it writes to the terminal before it exits is not modelled.
\<close>

section \<open>Integers\<close>

text \<open>\<^verbatim>\<open>int(s)\<close>: an optional sign and decimal digits, with single underscores between digits.\<close>

fun int_digits :: "string \<Rightarrow> bool" where
  "int_digits [] = False"
| "int_digits [c] = is_digit c"
| "int_digits (c # d # s) =
     (is_digit c \<and> (if d = CHR ''_'' then int_digits s else int_digits (d # s)))"

definition unsigned_int :: "string \<Rightarrow> int option" where
  "unsigned_int s = (if int_digits s then Some (py_int (filter (\<lambda>c. c \<noteq> CHR ''_'') s)) else None)"

definition parse_int :: "string \<Rightarrow> int option" where
  "parse_int s = (case py_strip s of
       [] \<Rightarrow> None
     | c # t \<Rightarrow>
         if c = CHR ''-'' then map_option uminus (unsigned_int t)
         else if c = CHR ''+'' then unsigned_int t
         else unsigned_int (c # t))"

text \<open>The argument types: \<open>None\<close> is the \<^verbatim>\<open>ArgumentTypeError\<close> or \<^verbatim>\<open>ValueError\<close> that \<^verbatim>\<open>argparse\<close> reports.\<close>

definition positive_int :: "string \<Rightarrow> int option" where
  "positive_int v = (case parse_int v of None \<Rightarrow> None | Some n \<Rightarrow> if n \<le> 0 then None else Some n)"

definition non_negative_int :: "string \<Rightarrow> int option" where
  "non_negative_int v = (case parse_int v of None \<Rightarrow> None | Some n \<Rightarrow> if n < 0 then None else Some n)"

definition status_choices :: "string list" where
  "status_choices = map status_value all_statuses"

section \<open>argparse\<close>

datatype arg_value = A_None | A_Str string | A_Int int | A_Bool bool | A_List "string list"

type_synonym namespace = "arg_value dict"

text \<open>The \<^verbatim>\<open>type\<close> of an option, and what it makes of a text.\<close>

datatype value_type = Text_Value | Int_Value | Positive_Int | Non_Negative_Int

fun convert :: "value_type \<Rightarrow> string \<Rightarrow> arg_value option" where
  "convert Text_Value v = Some (A_Str v)"
| "convert Int_Value v = map_option A_Int (parse_int v)"
| "convert Positive_Int v = map_option A_Int (positive_int v)"
| "convert Non_Negative_Int v = map_option A_Int (non_negative_int v)"

datatype option_kind =
    Takes_Value value_type
  | Takes_Choice "string list"
  | Appends_Value
  | Sets_True
  | Exits

record option_spec =
  op_flags :: "string list"
  op_dest :: string
  op_kind :: option_kind
  op_default :: arg_value

datatype cli_parser = Cli_Parser "option_spec list" positional
and positional =
    No_Positional
  | Positional string
  | Optional_Positional string
  | Subcommands string "(string \<times> cli_parser) list"

text \<open>How \<^verbatim>\<open>_parse_optional\<close> reads one argument.\<close>

datatype explicit = No_Explicit | Explicit string | Cluster string

datatype token = Argument | Option option_spec explicit | Unknown_Option | Ambiguous

definition flag_table :: "option_spec list \<Rightarrow> option_spec dict" where
  "flag_table opts = concat (map (\<lambda>o1. map (\<lambda>f. (f, o1)) (op_flags o1)) opts)"

text \<open>\<^verbatim>\<open>-\<close>, perhaps a point, and a digit look like a negative number, which is no option.\<close>

fun negative_number :: "string \<Rightarrow> bool" where
  "negative_number (c # d # s) =
     (c = CHR ''-'' \<and> (is_digit d \<or> (d = CHR ''.'' \<and> (case s of [] \<Rightarrow> False | e # u \<Rightarrow> is_digit e))))"
| "negative_number s = False"

definition before_equals :: "string \<Rightarrow> string" where
  "before_equals s = takeWhile (\<lambda>c. c \<noteq> CHR ''='') s"

definition after_equals :: "string \<Rightarrow> explicit" where
  "after_equals s = (case dropWhile (\<lambda>c. c \<noteq> CHR ''='') s of [] \<Rightarrow> No_Explicit | c # t \<Rightarrow> Explicit t)"

text \<open>The options an argument abbreviates; a single dash and a letter may have text run up to it.\<close>

definition option_tuples :: "option_spec list \<Rightarrow> string \<Rightarrow> (option_spec \<times> explicit) list" where
  "option_tuples opts s =
     (if prefix_of ''--'' s
      then map (\<lambda>(f, o1). (o1, after_equals s)) (filter (\<lambda>(f, o1). prefix_of (before_equals s) f) (flag_table opts))
      else concat (map (\<lambda>(f, o1).
          if f = take 2 s then [(o1, Cluster (drop 2 s))]
          else if prefix_of s f then [(o1, No_Explicit)] else []) (flag_table opts)))"

definition classify :: "option_spec list \<Rightarrow> string \<Rightarrow> token" where
  "classify opts s =
     (if \<not> prefix_of ''-'' s then Argument
      else case dget (flag_table opts) s of
        Some o1 \<Rightarrow> Option o1 No_Explicit
      | None \<Rightarrow>
          if length s = 1 then Argument
          else case (after_equals s, dget (flag_table opts) (before_equals s)) of
            (Explicit v, Some o1) \<Rightarrow> Option o1 (Explicit v)
          | _ \<Rightarrow>
              (case option_tuples opts s of
                 [(o1, x)] \<Rightarrow> Option o1 x
               | _ # _ # _ \<Rightarrow> Ambiguous
               | [] \<Rightarrow> if negative_number s \<or> CHR '' '' \<in> set s then Argument else Unknown_Option))"

text \<open>The value an option is given, and what it does to the namespace; \<open>None\<close> is an error.\<close>

definition store_value :: "option_spec \<Rightarrow> string \<Rightarrow> namespace \<Rightarrow> namespace option" where
  "store_value o1 v ns = (case op_kind o1 of
       Takes_Value t \<Rightarrow> map_option (\<lambda>x. dset (op_dest o1) x ns) (convert t v)
     | Takes_Choice choices \<Rightarrow> if v \<in> set choices then Some (dset (op_dest o1) (A_Str v) ns) else None
     | Appends_Value \<Rightarrow>
         Some (dset (op_dest o1) (A_List ((case dget ns (op_dest o1) of Some (A_List xs) \<Rightarrow> xs | _ \<Rightarrow> []) @ [v])) ns)
     | _ \<Rightarrow> None)"

text \<open>Run-together short flags: \<^verbatim>\<open>-h\<close> is the only one.\<close>

definition cluster_exits :: "string \<Rightarrow> bool" where
  "cluster_exits s = (case dropWhile (\<lambda>c. c = CHR ''h'') s of
       [] \<Rightarrow> True
     | c # t \<Rightarrow> \<not> (c = CHR ''-'' \<or> (c = CHR ''='' \<and> s \<noteq> c # t)))"

definition defaults :: "option_spec list \<Rightarrow> namespace" where
  "defaults opts = foldl (\<lambda>ns o1. case op_kind o1 of Exits \<Rightarrow> ns | _ \<Rightarrow> dset (op_dest o1) (op_default o1) ns) [] opts"

definition positional_default :: "positional \<Rightarrow> namespace \<Rightarrow> namespace" where
  "positional_default p ns = (case p of
       No_Positional \<Rightarrow> ns
     | Positional d \<Rightarrow> dset d A_None ns
     | Optional_Positional d \<Rightarrow> dset d A_None ns
     | Subcommands d subs \<Rightarrow> dset d A_None ns)"

text \<open>What a subcommand found: its values replace those of the parser above.\<close>

definition merge_sub :: "string \<Rightarrow> string \<Rightarrow> namespace \<Rightarrow> bool \<Rightarrow> int + namespace \<times> bool \<Rightarrow> int + namespace \<times> bool" where
  "merge_sub d name ns extra r = (case r of
       Inl code \<Rightarrow> Inl code
     | Inr (sub, e) \<Rightarrow> Inr (dupdate (dset d (A_Str name) ns) sub, extra \<or> e))"

definition is_argument :: "token \<Rightarrow> bool" where
  "is_argument t \<longleftrightarrow> (case t of Argument \<Rightarrow> True | _ \<Rightarrow> False)"

text \<open>
  One parser over its arguments: the namespace and whether something was left over
  (\<^verbatim>\<open>parse_known_args\<close>), or the exit code.  \<open>filled\<close> says whether the positional has its value.
\<close>

function scan :: "option_spec list \<Rightarrow> positional \<Rightarrow> bool \<Rightarrow> namespace \<Rightarrow> bool \<Rightarrow> string list \<Rightarrow> int + namespace \<times> bool" where
  "scan opts pos filled ns extra [] = (case pos of
       Positional d \<Rightarrow> if filled then Inr (ns, extra) else Inl 2
     | Subcommands d subs \<Rightarrow> Inl 2
     | _ \<Rightarrow> Inr (ns, extra))"
| "scan opts pos filled ns extra (s # ss) =
     (if s = ''--'' then (case pos of
          Subcommands d subs \<Rightarrow> (case ss of
              [] \<Rightarrow> Inl 2
            | name # rest \<Rightarrow> (case map_of subs name of
                  None \<Rightarrow> Inl 2
                | Some (Cli_Parser o1 p1) \<Rightarrow>
                    merge_sub d name ns extra (scan o1 p1 False (positional_default p1 (defaults o1)) False rest)))
        | Positional d \<Rightarrow>
            if filled then Inr (ns, True)
            else (case ss of [] \<Rightarrow> Inl 2 | x # xs \<Rightarrow> Inr (dset d (A_Str x) ns, extra \<or> xs \<noteq> []))
        | Optional_Positional d \<Rightarrow>
            if filled then Inr (ns, True)
            else (case ss of [] \<Rightarrow> Inr (ns, extra) | x # xs \<Rightarrow> Inr (dset d (A_Str x) ns, extra \<or> xs \<noteq> []))
        | No_Positional \<Rightarrow> Inr (ns, True))
      else case classify opts s of
        Unknown_Option \<Rightarrow> scan opts pos filled ns True ss
      | Ambiguous \<Rightarrow> Inl 2
      | Argument \<Rightarrow> (case pos of
            Subcommands d subs \<Rightarrow> (case map_of subs s of
                None \<Rightarrow> Inl 2
              | Some (Cli_Parser o1 p1) \<Rightarrow>
                  merge_sub d s ns extra (scan o1 p1 False (positional_default p1 (defaults o1)) False ss))
          | No_Positional \<Rightarrow> scan opts pos filled ns True ss
          | _ \<Rightarrow>
              if filled then scan opts pos filled ns True ss
              else
                let ns = dset (case pos of Positional d \<Rightarrow> d | Optional_Positional d \<Rightarrow> d | _ \<Rightarrow> []) (A_Str s) ns in
                if ss \<noteq> [] \<and> hd ss = ''--'' then Inr (ns, extra \<or> tl ss \<noteq> [])
                else scan opts pos True ns extra ss)
      | Option o1 x \<Rightarrow>
          (case (op_kind o1, x) of
             (Sets_True, No_Explicit) \<Rightarrow> scan opts pos filled (dset (op_dest o1) (A_Bool True) ns) extra ss
           | (Exits, No_Explicit) \<Rightarrow> Inl 0
           | (Exits, Cluster c) \<Rightarrow> if cluster_exits c then Inl 0 else Inl 2
           | (Exits, Explicit v) \<Rightarrow> Inl 2
           | (Sets_True, _) \<Rightarrow> Inl 2
           | (_, Explicit v) \<Rightarrow> (case store_value o1 v ns of
                None \<Rightarrow> Inl 2 | Some ns \<Rightarrow> scan opts pos filled ns extra ss)
           | _ \<Rightarrow> (case ss of
                [] \<Rightarrow> Inl 2
              | v # rest \<Rightarrow>
                  if v \<noteq> ''--'' \<and> is_argument (classify opts v)
                  then (case store_value o1 v ns of
                      None \<Rightarrow> Inl 2 | Some ns \<Rightarrow> scan opts pos filled ns extra rest)
                  else Inl 2)))"
  by pat_completeness auto
termination by (relation "measure (\<lambda>(opts, pos, filled, ns, extra, ss). length ss)") auto

text \<open>\<^verbatim>\<open>parse_args\<close>: arguments left over are an error.\<close>

definition parse_args :: "cli_parser \<Rightarrow> string list \<Rightarrow> int + namespace" where
  "parse_args p argv = (case p of Cli_Parser opts pos \<Rightarrow>
     (case scan opts pos False (positional_default pos (defaults opts)) False argv of
        Inl code \<Rightarrow> Inl code
      | Inr (ns, extra) \<Rightarrow> if extra then Inl 2 else Inr ns))"

section \<open>build_parser\<close>

definition opt :: "string \<Rightarrow> string \<Rightarrow> option_kind \<Rightarrow> arg_value \<Rightarrow> option_spec" where
  "opt flag d kind dflt = \<lparr>op_flags = [flag], op_dest = d, op_kind = kind, op_default = dflt\<rparr>"

definition help_option :: option_spec where
  "help_option = \<lparr>op_flags = [''-h'', ''--help''], op_dest = ''help'', op_kind = Exits, op_default = A_None\<rparr>"

definition leaf :: "option_spec list \<Rightarrow> positional \<Rightarrow> cli_parser" where
  "leaf opts pos = Cli_Parser (help_option # opts) pos"

definition default_store :: string where "default_store = ''.conductor/tasks.json''"
definition default_guild_store :: string where "default_guild_store = ''.conductor/guild.json''"

definition task_commands :: "(string \<times> cli_parser) list" where
  "task_commands =
     [(''list'', leaf
        [opt ''--limit'' ''limit'' (Takes_Value Positive_Int) A_None,
         opt ''--offset'' ''offset'' (Takes_Value Non_Negative_Int) (A_Int 0),
         opt ''--status'' ''status'' (Takes_Choice status_choices) A_None] No_Positional),
      (''show'', leaf [] (Positional ''task_id'')),
      (''approve'', leaf
        [opt ''--actor'' ''actor'' (Takes_Value Text_Value) (A_Str ''cli''),
         opt ''--no-run'' ''no_run'' Sets_True (A_Bool False)] (Positional ''task_id'')),
      (''cancel'', leaf
        [opt ''--actor'' ''actor'' (Takes_Value Text_Value) (A_Str ''cli''),
         opt ''--reason'' ''reason'' (Takes_Value Text_Value) A_None] (Positional ''task_id''))]"

definition task_parser :: cli_parser where
  "task_parser = leaf [] (Subcommands ''task_command'' task_commands)"

definition serve_parser :: cli_parser where
  "serve_parser = leaf
     [opt ''--host'' ''host'' (Takes_Value Text_Value) (A_Str ''127.0.0.1''),
      opt ''--port'' ''port'' (Takes_Value Int_Value) (A_Int 8080),
      opt ''--log-level'' ''log_level'' (Takes_Choice [''debug'', ''info'', ''warning'', ''error'']) (A_Str ''info''),
      opt ''--api-key-path'' ''api_key_path'' (Takes_Value Text_Value) A_None,
      opt ''--tls-cert'' ''tls_cert'' (Takes_Value Text_Value) A_None,
      opt ''--tls-key'' ''tls_key'' (Takes_Value Text_Value) A_None,
      opt ''--policy'' ''policy'' (Takes_Choice [''risk'', ''deny-all'', ''null'']) A_None] No_Positional"

definition guild_commands :: "(string \<times> cli_parser) list" where
  "guild_commands =
     [(''list'', leaf
        [opt ''--capability'' ''capability'' (Takes_Value Text_Value) A_None,
         opt ''--error-type'' ''error_type'' (Takes_Value Text_Value) A_None,
         opt ''--role'' ''role'' (Takes_Value Text_Value) A_None,
         opt ''--limit'' ''limit'' (Takes_Value Positive_Int) A_None,
         opt ''--offset'' ''offset'' (Takes_Value Non_Negative_Int) (A_Int 0)] No_Positional),
      (''show'', leaf [] (Positional ''fingerprint'')),
      (''clear'', leaf [] No_Positional),
      (''meet'', leaf [opt ''--guild-store'' ''guild_store'' (Takes_Value Text_Value) A_None] No_Positional)]"

definition guild_parser :: cli_parser where
  "guild_parser = leaf [] (Subcommands ''guild_command'' guild_commands)"

definition api_key_commands :: "(string \<times> cli_parser) list" where
  "api_key_commands =
     [(''generate'', leaf
        [opt ''--actor'' ''actor'' (Takes_Value Text_Value) (A_Str ''cli''),
         opt ''--scope'' ''scopes'' Appends_Value A_None,
         opt ''--store'' ''store'' (Takes_Value Text_Value) A_None] No_Positional),
      (''list'', leaf [opt ''--store'' ''store'' (Takes_Value Text_Value) A_None] No_Positional),
      (''revoke'', leaf [opt ''--store'' ''store'' (Takes_Value Text_Value) A_None] (Positional ''prefix''))]"

definition api_key_parser :: cli_parser where
  "api_key_parser = leaf [] (Subcommands ''api_key_command'' api_key_commands)"

definition cond_commands :: "(string \<times> cli_parser) list" where
  "cond_commands =
     [(''run'', leaf [] (Positional ''task_file'')),
      (''capability'', leaf [] (Subcommands ''capability_command'' [(''list'', leaf [] No_Positional)])),
      (''task'', task_parser),
      (''workflow'', leaf [] (Subcommands ''workflow_command'' [(''run'', leaf [] (Positional ''workflow_file''))])),
      (''health'', leaf [] No_Positional),
      (''snapshot'', leaf [] No_Positional),
      (''serve'', serve_parser),
      (''guild'', guild_parser),
      (''api-key'', api_key_parser),
      (''help'', leaf [] (Optional_Positional ''topic''))]"

definition cond_options :: "option_spec list" where
  "cond_options =
     [help_option,
      \<lparr>op_flags = [''--version''], op_dest = ''version'', op_kind = Exits, op_default = A_None\<rparr>,
      opt ''--store'' ''store'' (Takes_Value Text_Value) (A_Str default_store),
      opt ''--config'' ''config'' (Takes_Value Text_Value) A_None,
      opt ''--guild-store'' ''guild_store'' (Takes_Value Text_Value) (A_Str default_guild_store)]"

definition cond_parser :: cli_parser where
  "cond_parser = Cli_Parser cond_options (Subcommands ''command'' cond_commands)"

section \<open>Reading the arguments\<close>

definition ns_text :: "namespace \<Rightarrow> string \<Rightarrow> string" where
  "ns_text ns k = (case dget ns k of Some (A_Str s) \<Rightarrow> s | _ \<Rightarrow> [])"

definition ns_option :: "namespace \<Rightarrow> string \<Rightarrow> string option" where
  "ns_option ns k = (case dget ns k of Some (A_Str s) \<Rightarrow> Some s | _ \<Rightarrow> None)"

definition ns_int :: "namespace \<Rightarrow> string \<Rightarrow> int option" where
  "ns_int ns k = (case dget ns k of Some (A_Int n) \<Rightarrow> Some n | _ \<Rightarrow> None)"

definition ns_flag :: "namespace \<Rightarrow> string \<Rightarrow> bool" where
  "ns_flag ns k = (dget ns k = Some (A_Bool True))"

definition ns_texts :: "namespace \<Rightarrow> string \<Rightarrow> string list option" where
  "ns_texts ns k = (case dget ns k of Some (A_List xs) \<Rightarrow> Some xs | _ \<Rightarrow> None)"

text \<open>\<^verbatim>\<open>args.guild_store or str(DEFAULT_GUILD_STORE)\<close>, and the key store of \<^verbatim>\<open>api-key\<close>.\<close>

definition guild_store_path :: "namespace \<Rightarrow> string" where
  "guild_store_path ns = opt_or (ns_option ns ''guild_store'') default_guild_store"

definition api_key_path :: "namespace \<Rightarrow> string" where
  "api_key_path ns = opt_or (ns_option ns ''store'') ''.conductor/api_keys.json''"

section \<open>Reading task and workflow files\<close>

text \<open>Reading a file, decoding JSON and YAML, and pydantic's validation are parameters.\<close>

record input_env =
  ie_read_text :: "string \<Rightarrow> exc + string"
  ie_json :: "string \<Rightarrow> exc + pyval"
  ie_yaml :: "string \<Rightarrow> exc + pyval"
  ie_submission :: "pyval \<Rightarrow> exc + task_submission"
  ie_goal :: "pyval \<Rightarrow> pyval \<Rightarrow> exc + workflow_goal"
  ie_step :: "pyval \<Rightarrow> pyval \<Rightarrow> pyval \<Rightarrow> pyval \<Rightarrow> exc + plan_step"

text \<open>\<^verbatim>\<open>Path(path).suffix == ".json"\<close>: the last component ends so, after something that is not a dot.\<close>

definition json_suffix :: "string \<Rightarrow> bool" where
  "json_suffix path =
     (case rev (filter (\<lambda>c. c \<noteq> [] \<and> c \<noteq> ''.'') (split_on CHR ''/'' path)) of
        [] \<Rightarrow> False
      | name # _ \<Rightarrow> ends_with name ''.json'' \<and>
          list_ex (\<lambda>c. c \<noteq> CHR ''.'') (take (length name - 5) name))"

definition load_yaml_or_json :: "input_env \<Rightarrow> string \<Rightarrow> exc + pyval" where
  "load_yaml_or_json ie path = (case ie_read_text ie path of
       Inl e \<Rightarrow> Inl e
     | Inr raw \<Rightarrow> if json_suffix path then ie_json ie raw else ie_yaml ie raw)"

definition load_submission :: "input_env \<Rightarrow> string \<Rightarrow> exc + task_submission" where
  "load_submission ie path = (case load_yaml_or_json ie path of Inl e \<Rightarrow> Inl e | Inr raw \<Rightarrow> ie_submission ie raw)"

definition item_error :: exc where "item_error = Other_Exception ''TypeError'' ''not subscriptable by a string''"

text \<open>\<^verbatim>\<open>x[k]\<close> of a decoded value, and \<^verbatim>\<open>x.get(k, v)\<close> of a dict.\<close>

definition item :: "pyval \<Rightarrow> string \<Rightarrow> exc + pyval" where
  "item x k = (case x of
       PDict d \<Rightarrow> (case dget d k of None \<Rightarrow> Inl (Key_Error k) | Some v \<Rightarrow> Inr v)
     | _ \<Rightarrow> Inl item_error)"

definition get_default :: "pyval \<Rightarrow> string \<Rightarrow> pyval \<Rightarrow> pyval" where
  "get_default x k v = (case x of PDict d \<Rightarrow> (case dget d k of None \<Rightarrow> v | Some u \<Rightarrow> u) | _ \<Rightarrow> v)"

definition load_step :: "input_env \<Rightarrow> pyval \<Rightarrow> exc + plan_step" where
  "load_step ie step = (case item step ''name'' of
       Inl e \<Rightarrow> Inl e
     | Inr name \<Rightarrow> (case item step ''capability'' of
           Inl e \<Rightarrow> Inl e
         | Inr capability \<Rightarrow>
             ie_step ie name capability (get_default step ''input'' (PDict [])) (get_default step ''parallel_group'' PNone)))"

text \<open>What \<^verbatim>\<open>for step in v\<close> runs over: the items of a list, the keys of a dict, the characters of a text.\<close>

definition iterated :: "pyval \<Rightarrow> exc + pyval list" where
  "iterated v = (case v of
       PList xs \<Rightarrow> Inr xs
     | PDict d \<Rightarrow> Inr (map (\<lambda>(k, x). PStr k) d)
     | PStr s \<Rightarrow> Inr (map (\<lambda>c. PStr [c]) s)
     | _ \<Rightarrow> Inl (Other_Exception ''TypeError'' ''object is not iterable''))"

definition load_workflow :: "input_env \<Rightarrow> string \<Rightarrow> exc + workflow_goal \<times> plan_step list" where
  "load_workflow ie path = (case load_yaml_or_json ie path of
       Inl e \<Rightarrow> Inl e
     | Inr raw \<Rightarrow> (case item raw ''goal'' of
           Inl e \<Rightarrow> Inl e
         | Inr g \<Rightarrow> (case ie_goal ie g (get_default raw ''capabilities'' (PList [])) of
               Inl e \<Rightarrow> Inl e
             | Inr goal \<Rightarrow> (case iterated (get_default raw ''steps'' (PList [])) of
                   Inl e \<Rightarrow> Inl e
                 | Inr steps \<Rightarrow> map_sum id (Pair goal) (sequence (map (load_step ie) steps))))))"

section \<open>Which command it is\<close>

record serve_args =
  sa_host :: string
  sa_port :: int
  sa_store_path :: string
  sa_capabilities_path :: "string option"
  sa_api_key_path :: "string option"
  sa_log_level :: string
  sa_tls_cert :: "string option"
  sa_tls_key :: "string option"
  sa_policy :: "string option"

datatype cond_call =
    Serve_Call serve_args
  | Key_Call key_command
  | Help_Call "string option"
  | Engine_Call command

text \<open>The branches of \<^verbatim>\<open>main\<close>; \<open>None\<close> is \<^verbatim>\<open>parser.error("Unsupported command")\<close>.\<close>

definition call_of :: "input_env \<Rightarrow> health_env \<Rightarrow> (nat \<Rightarrow> nat list) \<Rightarrow> namespace \<Rightarrow> cond_call option" where
  "call_of ie he orders ns =
     (let command = ns_text ns ''command'' in
      if command = ''serve'' then
        Some (Serve_Call
          \<lparr>sa_host = ns_text ns ''host'', sa_port = (case ns_int ns ''port'' of None \<Rightarrow> 0 | Some n \<Rightarrow> n),
           sa_store_path = ns_text ns ''store'', sa_capabilities_path = ns_option ns ''config'',
           sa_api_key_path = ns_option ns ''api_key_path'', sa_log_level = ns_text ns ''log_level'',
           sa_tls_cert = ns_option ns ''tls_cert'', sa_tls_key = ns_option ns ''tls_key'',
           sa_policy = ns_option ns ''policy''\<rparr>)
      else if command = ''api-key'' then
        (let sub = ns_text ns ''api_key_command'' in
         if sub = ''generate'' then Some (Key_Call (Key_Generate (ns_text ns ''actor'') (ns_texts ns ''scopes'')))
         else if sub = ''list'' then Some (Key_Call Key_List)
         else if sub = ''revoke'' then Some (Key_Call (Key_Revoke (ns_text ns ''prefix'')))
         else None)
      else if command = ''run'' then Some (Engine_Call (Cmd_Run (load_submission ie (ns_text ns ''task_file''))))
      else if command = ''capability'' \<and> ns_text ns ''capability_command'' = ''list''
      then Some (Engine_Call Cmd_Capability_List)
      else if command = ''task'' \<and> ns_text ns ''task_command'' = ''list''
      then Some (Engine_Call (Cmd_Task_List (ns_int ns ''limit'') ((case ns_int ns ''offset'' of None \<Rightarrow> 0 | Some n \<Rightarrow> n)) (ns_option ns ''status'')))
      else if command = ''task'' \<and> ns_text ns ''task_command'' = ''show''
      then Some (Engine_Call (Cmd_Task_Show (ns_text ns ''task_id'')))
      else if command = ''task'' \<and> ns_text ns ''task_command'' = ''approve''
      then Some (Engine_Call (Cmd_Task_Approve (ns_text ns ''task_id'') (ns_text ns ''actor'') (ns_flag ns ''no_run'')))
      else if command = ''task'' \<and> ns_text ns ''task_command'' = ''cancel''
      then Some (Engine_Call (Cmd_Task_Cancel (ns_text ns ''task_id'') (ns_text ns ''actor'') (ns_option ns ''reason'')))
      else if command = ''workflow'' \<and> ns_text ns ''workflow_command'' = ''run''
      then Some (Engine_Call (Cmd_Workflow_Run (load_workflow ie (ns_text ns ''workflow_file'')) orders))
      else if command = ''health'' then Some (Engine_Call (Cmd_Health he))
      else if command = ''snapshot'' then Some (Engine_Call (Cmd_Snapshot he))
      else if command = ''help'' then Some (Help_Call (ns_option ns ''topic''))
      else if command = ''guild'' then
        (let sub = ns_text ns ''guild_command'' in
         if sub = ''list'' then Some (Engine_Call (Cmd_Guild_List
             \<lparr>gf_capability = ns_option ns ''capability'', gf_error_type = ns_option ns ''error_type'',
              gf_role = ns_option ns ''role'', gf_limit = ns_int ns ''limit'',
              gf_offset = (case ns_int ns ''offset'' of None \<Rightarrow> 0 | Some n \<Rightarrow> n)\<rparr>))
         else if sub = ''show'' then Some (Engine_Call (Cmd_Guild_Show (ns_text ns ''fingerprint'')))
         else if sub = ''clear'' then Some (Engine_Call Cmd_Guild_Clear)
         else if sub = ''meet'' then Some (Engine_Call Cmd_Guild_Meet)
         else None)
      else None)"

section \<open>main\<close>

record cond_env =
  ce_supervisor :: supervisor
  ce_loader :: loader_env
  ce_iso :: "int \<Rightarrow> string"
  ce_render :: render_env
  ce_docs :: "string \<Rightarrow> capability_doc"
  ce_cwd :: string
  ce_input :: input_env
  ce_health :: health_env
  ce_orders :: "nat \<Rightarrow> nat list"
  ce_hash :: "string \<Rightarrow> string"
  ce_now :: string
  ce_mtime :: int
  ce_token_hex :: string

text \<open>
  How a call ends: with an exit code (or an exception nobody catches), what was printed, the
  world of the task and guild files that were named, and the key files; or as a server.
\<close>

datatype cond_outcome =
    Ended "exc + int" "block list" world "string \<Rightarrow> key_file"
  | Serving api_app world

text \<open>\<^verbatim>\<open>except (...) as exc\<close>: a line on stderr and exit code 2.\<close>

definition main_catches :: "exc \<Rightarrow> block list \<Rightarrow> (exc + int) \<times> block list" where
  "main_catches e blocks =
     (if handled_by_main e then (Inr 2, blocks @ [Err_Line (exc_str e)]) else (Inl e, blocks))"

definition serve_options_of :: "serve_args \<Rightarrow> serve_options" where
  "serve_options_of a =
     \<lparr>so_capabilities_path = sa_capabilities_path a, so_api_key_path = sa_api_key_path a, so_workdir = None,
      so_cors_origins = None, so_tls_cert = sa_tls_cert a, so_tls_key = sa_tls_key a, so_policy = sa_policy a\<rparr>"

definition cond_main :: "cond_env \<Rightarrow> string list \<Rightarrow> world \<Rightarrow> (string \<Rightarrow> key_file) \<Rightarrow> cond_outcome" where
  "cond_main env argv w keys =
     (case parse_args cond_parser argv of
        Inl code \<Rightarrow> Ended (Inr code) [] w keys
      | Inr ns \<Rightarrow> (case call_of (ce_input env) (ce_health env) (ce_orders env) ns of
            None \<Rightarrow> Ended (Inr 2) [] w keys
          | Some (Serve_Call a) \<Rightarrow>
              (case serve (ce_supervisor env) (ce_loader env) (ce_cwd env) (ce_now env) keys (serve_options_of a) w of
                 Inl e \<Rightarrow> (case main_catches e [] of (r, blocks) \<Rightarrow> Ended r blocks w keys)
               | Inr (app, w) \<Rightarrow> Serving app w)
          | Some (Key_Call k) \<Rightarrow>
              let p = api_key_path ns in
              (case api_key_handler (ce_hash env) (ce_now env) (ce_mtime env) (ce_token_hex env) k (keys p) of
                 ((code, x), f) \<Rightarrow> Ended (Inr code) (key_blocks p x) w (keys(p := f)))
          | Some (Help_Call topic) \<Rightarrow>
              (case resolve_registry (ce_loader env) (ns_option ns ''config'') (ce_cwd env) of
                 Inl e \<Rightarrow> (case main_catches e [] of (r, blocks) \<Rightarrow> Ended r blocks w keys)
               | Inr reg \<Rightarrow> (case cond_help (ce_render env) (ce_docs env) topic reg of
                     (r, blocks) \<Rightarrow> Ended r blocks w keys))
          | Some (Engine_Call cmd) \<Rightarrow>
              (case cond_run (ce_supervisor env) (ce_loader env) (ce_iso env) (ce_render env)
                  (ns_option ns ''config'') (ce_cwd env) cmd w of
                 (r, blocks, w) \<Rightarrow> Ended r blocks w keys)))"

section \<open>Integers are read back\<close>

lemma int_digits_all: "list_all is_digit s \<Longrightarrow> s \<noteq> [] \<Longrightarrow> int_digits s"
proof (induction s rule: int_digits.induct)
  case (3 c d s)
  have "\<not> is_digit CHR ''_''" by (simp add: is_digit_def)
  with 3 show ?case by auto
qed simp_all

lemma digits_no_underscore: "list_all is_digit s \<Longrightarrow> filter (\<lambda>c. c \<noteq> CHR ''_'') s = s"
  by (induction s) (auto simp: is_digit_def)

lemma py_strip_digits: "list_all is_digit s \<Longrightarrow> py_strip s = s"
  by (auto intro!: strip_id simp: list_all_iff digit_not_ws)

lemma parse_int_show:
  assumes "0 \<le> n"
  shows "parse_int (show_int n) = Some n"
proof -
  let ?s = "show_nat (nat n)"
  have d: "list_all is_digit ?s" "?s \<noteq> []" using show_nat_digits by simp_all
  obtain c t where ct: "?s = c # t" using d(2) by (cases ?s) auto
  with d(1) have "c \<noteq> CHR ''-''" "c \<noteq> CHR ''+''" by (auto simp: is_digit_def)
  moreover have "unsigned_int ?s = Some n"
    using d assms by (simp add: unsigned_int_def int_digits_all digits_no_underscore py_int_show_nat)
  ultimately show ?thesis
    using assms d(1) ct by (simp add: parse_int_def show_int_def py_strip_digits)
qed

lemma parse_int_zero [simp]: "parse_int ''0'' = Some 0"
  by (simp add: parse_int_def py_strip_def is_ws_def unsigned_int_def is_digit_def py_int_def digit_value_def Let_def)

section \<open>What parsed arguments are like\<close>

text \<open>The values an option can leave in the namespace.\<close>

definition value_ok :: "option_spec \<Rightarrow> arg_value \<Rightarrow> bool" where
  "value_ok o1 v \<longleftrightarrow> v = op_default o1 \<or> (case op_kind o1 of
       Takes_Value t \<Rightarrow> \<exists>s. convert t s = Some v
     | Takes_Choice choices \<Rightarrow> \<exists>s \<in> set choices. v = A_Str s
     | Appends_Value \<Rightarrow> \<exists>xs. v = A_List xs
     | Sets_True \<Rightarrow> v = A_Bool True
     | Exits \<Rightarrow> False)"

definition namespace_ok :: "option_spec list \<Rightarrow> namespace \<Rightarrow> bool" where
  "namespace_ok opts ns \<longleftrightarrow> dict_ok ns \<and>
     (\<forall>o1 \<in> set opts. op_kind o1 \<noteq> Exits \<longrightarrow> (\<exists>v. dget ns (op_dest o1) = Some v \<and> value_ok o1 v))"

fun positional_ok :: "positional \<Rightarrow> namespace \<Rightarrow> bool" where
  "positional_ok (Positional d) ns = (\<exists>s. dget ns d = Some (A_Str s))"
| "positional_ok p ns = True"

fun positional_dest :: "positional \<Rightarrow> string list" where
  "positional_dest No_Positional = []"
| "positional_dest (Positional d) = [d]"
| "positional_dest (Optional_Positional d) = [d]"
| "positional_dest (Subcommands d subs) = [d]"

definition parser_ok :: "option_spec list \<Rightarrow> positional \<Rightarrow> bool" where
  "parser_ok opts pos \<longleftrightarrow> distinct (map op_dest opts @ positional_dest pos)"

lemma flag_table_set: "(f, o1) \<in> set (flag_table opts) \<Longrightarrow> o1 \<in> set opts"
  by (auto simp: flag_table_def)

lemma option_tuples_set: "(o1, x) \<in> set (option_tuples opts s) \<Longrightarrow> o1 \<in> set opts"
  by (auto simp: option_tuples_def dest: flag_table_set split: if_splits)

lemma classify_option: "classify opts s = Option o1 x \<Longrightarrow> o1 \<in> set opts"
proof -
  have d: "dget (flag_table opts) k = Some q \<Longrightarrow> q \<in> set opts" for k q
    using flag_table_set by (metis dget_def map_of_SomeD)
  have t: "option_tuples opts s = [(q, y)] \<Longrightarrow> q \<in> set opts" for q y
    using option_tuples_set [of q y opts s] by simp
  show "classify opts s = Option o1 x \<Longrightarrow> o1 \<in> set opts"
    by (auto simp: classify_def dest: d t split: if_splits option.splits explicit.splits list.splits prod.splits)
qed

lemma namespace_ok_dset:
  assumes "namespace_ok opts ns" and "distinct (map op_dest opts)" and "o1 \<in> set opts" and "value_ok o1 v"
  shows "namespace_ok opts (dset (op_dest o1) v ns)"
proof -
  have "q = o1" if "q \<in> set opts" "op_dest q = op_dest o1" for q
    using assms(2,3) that by (auto simp: distinct_map dest: inj_onD)
  with assms(1,4) show ?thesis by (auto simp: namespace_ok_def)
qed

lemma namespace_ok_dset_other:
  "namespace_ok opts ns \<Longrightarrow> d \<notin> op_dest ` set opts \<Longrightarrow> namespace_ok opts (dset d v ns)"
  by (auto simp: namespace_ok_def)

lemma store_value_namespace:
  assumes "store_value o1 v ns = Some ns'" and "namespace_ok opts ns" and "distinct (map op_dest opts)"
    and "o1 \<in> set opts"
  shows "namespace_ok opts ns' \<and> (\<exists>u. ns' = dset (op_dest o1) u ns)"
proof -
  obtain u where "ns' = dset (op_dest o1) u ns" "value_ok o1 u"
    using assms(1) by (auto simp: store_value_def value_ok_def split: option_kind.splits if_splits)
  with namespace_ok_dset [OF assms(2-4)] show ?thesis by blast
qed

lemma defaults_namespace:
  assumes "distinct (map op_dest opts)"
  shows "namespace_ok opts (defaults opts) \<and> set (dkeys (defaults opts)) \<subseteq> op_dest ` set opts"
proof -
  have "namespace_ok opts (defaults opts) \<and> set (dkeys (defaults opts)) \<subseteq> op_dest ` set opts"
    if "distinct (map op_dest opts)" for opts
    using that
  proof (induction opts rule: rev_induct)
    case Nil
    then show ?case by (simp add: namespace_ok_def defaults_def dkeys_def)
  next
    case (snoc x xs)
    then have IH: "namespace_ok xs (defaults xs)" "set (dkeys (defaults xs)) \<subseteq> op_dest ` set xs"
      and nx: "op_dest x \<notin> op_dest ` set xs" by simp_all
    have new: "\<forall>q \<in> set xs. op_dest q \<noteq> op_dest x" using nx by (metis imageI)
    show ?case
    proof (cases "op_kind x = Exits")
      case True
      then have "defaults (xs @ [x]) = defaults xs" by (simp add: defaults_def)
      with IH True show ?thesis by (auto simp: namespace_ok_def)
    next
      case False
      then have "defaults (xs @ [x]) = dset (op_dest x) (op_default x) (defaults xs)"
        by (cases "op_kind x") (simp_all add: defaults_def)
      with IH new show ?thesis
        by (auto simp: namespace_ok_def value_ok_def dkeys_dset_set)
    qed
  qed
  with assms show ?thesis by blast
qed

lemma start_namespace:
  assumes "parser_ok opts pos"
  shows "namespace_ok opts (positional_default pos (defaults opts))"
  using defaults_namespace [of opts] assms
  by (cases pos) (auto simp: positional_default_def parser_ok_def intro!: namespace_ok_dset_other)

text \<open>What one argument can do to the namespace before the subcommand.\<close>

inductive fills :: "option_spec list \<Rightarrow> positional \<Rightarrow> bool \<times> namespace \<Rightarrow> bool \<times> namespace \<Rightarrow> bool"
  for opts pos where
  opt_step: "o1 \<in> set opts \<Longrightarrow> op_kind o1 \<noteq> Exits \<Longrightarrow> value_ok o1 u \<Longrightarrow>
    fills opts pos (f, ns) (f, dset (op_dest o1) u ns)"
| pos_step: "pos = Positional d \<or> pos = Optional_Positional d \<Longrightarrow>
    fills opts pos (f, ns) (True, dset d (A_Str x) ns)"

abbreviation fills_all :: "option_spec list \<Rightarrow> positional \<Rightarrow> bool \<times> namespace \<Rightarrow> bool \<times> namespace \<Rightarrow> bool" where
  "fills_all opts pos \<equiv> (fills opts pos)\<^sup>*\<^sup>*"

fun chosen :: "positional \<Rightarrow> string \<Rightarrow> option_spec list \<Rightarrow> positional \<Rightarrow> bool" where
  "chosen (Subcommands d subs) name o1 p1 = (map_of subs name = Some (Cli_Parser o1 p1))"
| "chosen pos name o1 p1 = False"

text \<open>How a parser comes to its namespace: by such steps, and perhaps a subcommand at the end.\<close>

definition scanned :: "option_spec list \<Rightarrow> positional \<Rightarrow> bool \<Rightarrow> namespace \<Rightarrow> namespace \<Rightarrow> bool" where
  "scanned opts pos f ns ns' \<longleftrightarrow>
     (case pos of
        Subcommands d subs \<Rightarrow>
          (\<exists>f0 ns0 name o1 p1 sub e rest. fills_all opts pos (f, ns) (f0, ns0) \<and> chosen pos name o1 p1 \<and>
             scan o1 p1 False (positional_default p1 (defaults o1)) False rest = Inr (sub, e) \<and>
             ns' = dupdate (dset d (A_Str name) ns0) sub)
      | Positional d \<Rightarrow> fills_all opts pos (f, ns) (True, ns')
      | _ \<Rightarrow> \<exists>f0. fills_all opts pos (f, ns) (f0, ns'))"

lemma scanned_step:
  assumes "fills opts pos (f, ns) (f1, ns1)" and "scanned opts pos f1 ns1 ns'"
  shows "scanned opts pos f ns ns'"
proof -
  have more: "fills_all opts pos (f1, ns1) c \<Longrightarrow> fills_all opts pos (f, ns) c" for c
    using assms(1) by (rule converse_rtranclp_into_rtranclp)
  show ?thesis
  proof (cases pos)
    case (Subcommands d subs)
    with assms(2) more show ?thesis by (auto simp: scanned_def) blast
  qed (use assms(2) more in \<open>auto simp: scanned_def\<close>)
qed

lemma scanned_stay:
  assumes "\<And>d. pos = Positional d \<Longrightarrow> f" and "\<nexists>d subs. pos = Subcommands d subs"
  shows "scanned opts pos f ns ns"
proof (cases pos)
  case (Positional d)
  with assms(1) have f by blast
  then have "f = True" by simp
  with Positional show ?thesis by (simp add: scanned_def)
qed (use assms(2) in \<open>auto simp: scanned_def\<close>)

lemma scanned_pos:
  "pos = Positional d \<or> pos = Optional_Positional d \<Longrightarrow> scanned opts pos f ns (dset d (A_Str x) ns)"
  by (rule scanned_step [OF pos_step]) (auto intro: scanned_stay)

lemma scanned_sub:
  assumes "pos = Subcommands d subs" and "map_of subs name = Some (Cli_Parser o1 p1)"
    and "merge_sub d name ns extra (scan o1 p1 False (positional_default p1 (defaults o1)) False rest) = Inr (ns', e)"
  shows "scanned opts pos f ns ns'"
proof -
  obtain sub e1 where "scan o1 p1 False (positional_default p1 (defaults o1)) False rest = Inr (sub, e1)"
    and "ns' = dupdate (dset d (A_Str name) ns) sub"
    using assms(3) by (auto simp: merge_sub_def split: sum.splits)
  moreover have "chosen pos name o1 p1" using assms(1,2) by simp
  moreover have "fills_all opts pos (f, ns) (f, ns)" by simp
  ultimately show ?thesis
    unfolding scanned_def assms(1) positional.case by blast
qed

lemma store_value_ok: "store_value o1 v ns = Some ns' \<Longrightarrow>
    \<exists>u. ns' = dset (op_dest o1) u ns \<and> value_ok o1 u \<and> op_kind o1 \<noteq> Exits"
  by (auto simp: store_value_def value_ok_def split: option_kind.splits if_splits)

lemma scan_scanned:
  "scan opts pos filled ns extra ss = Inr (ns', e) \<Longrightarrow> scanned opts pos filled ns ns'"
proof (induction ss arbitrary: filled ns extra rule: length_induct)
  case (1 ss)
  show ?case
  proof (cases ss)
    case Nil
    with 1(2) show ?thesis by (cases pos) (auto intro!: scanned_stay split: if_splits)
  next
    case (Cons s rest)
    have IH: "scanned opts pos f n ns'" if "length r \<le> length rest" "scan opts pos f n x r = Inr (ns', e)" for f n x r
    proof -
      have "length r < length ss" using Cons that(1) by simp
      with 1(1) that(2) show ?thesis by blast
    qed
    note run = 1(2) [unfolded Cons]
    show ?thesis
    proof (cases "s = ''--''")
      case True
      with run show ?thesis
        by (cases pos) (auto intro: scanned_stay scanned_pos scanned_sub split: if_splits list.splits option.splits
            cli_parser.splits)
    next
      case no: False
      show ?thesis
      proof (cases "classify opts s")
        case Argument
        have IH': "scanned opts pos f n ns'" if "scan opts pos f n x rest = Inr (ns', e)" for f n x
          using IH that by blast
        have fill: "scanned opts pos filled ns ns'"
          if "pos = Positional d \<or> pos = Optional_Positional d"
            "scan opts pos True (dset d (A_Str s) ns) x rest = Inr (ns', e)" for d x
          using scanned_step [OF pos_step [OF that(1)]] IH' [OF that(2)] by blast
        show ?thesis
        proof (cases pos)
          case No_Positional
          with run no Argument have "scan opts pos filled ns True rest = Inr (ns', e)" by simp
          then show ?thesis by (rule IH')
        next
          case (Subcommands d subs)
          with run no Argument show ?thesis
            by (auto intro: scanned_sub split: option.splits cli_parser.splits)
        next
          case (Positional d)
          with run no Argument show ?thesis
            using IH' [of filled ns True] fill [of d extra] scanned_pos [of pos d opts filled ns s]
            by (auto simp: Let_def split: if_splits)
        next
          case (Optional_Positional d)
          with run no Argument show ?thesis
            using IH' [of filled ns True] fill [of d extra] scanned_pos [of pos d opts filled ns s]
            by (auto simp: Let_def split: if_splits)
        qed
      next
        case (Option o1 x)
        then have o1: "o1 \<in> set opts" by (rule classify_option)
        have step: "scanned opts pos filled ns ns'"
          if "store_value o1 v ns = Some n1" "scan opts pos filled n1 ex r = Inr (ns', e)" "length r \<le> length rest"
          for v n1 ex r
        proof -
          from store_value_ok [OF that(1)] obtain u where u: "n1 = dset (op_dest o1) u ns" "value_ok o1 u" "op_kind o1 \<noteq> Exits" by blast
          show ?thesis
            by (rule scanned_step [OF opt_step [OF o1 u(3,2)]]) (use IH that u(1) in auto)
        qed
        have flag: "scanned opts pos filled ns ns'"
          if "op_kind o1 = Sets_True" "scan opts pos filled (dset (op_dest o1) (A_Bool True) ns) extra rest = Inr (ns', e)"
          by (rule scanned_step [OF opt_step [OF o1, of "A_Bool True"]]) (use IH that in \<open>auto simp: value_ok_def\<close>)
        have taken: "scanned opts pos filled ns ns'" if "op_kind o1 \<noteq> Sets_True" "op_kind o1 \<noteq> Exits"
        proof (cases x)
          case (Explicit v)
          with run no Option that obtain n1 where "store_value o1 v ns = Some n1"
            "scan opts pos filled n1 extra rest = Inr (ns', e)"
            by (cases "op_kind o1") (auto split: option.splits)
          then show ?thesis by (rule step) simp
        next
          case No_Explicit
          show ?thesis
          proof (cases rest)
            case Nil
            with run no Option that No_Explicit show ?thesis by (cases "op_kind o1") auto
          next
            case (Cons v r)
            with run no Option that No_Explicit obtain n1 where "store_value o1 v ns = Some n1"
              "scan opts pos filled n1 extra r = Inr (ns', e)"
              by (cases "op_kind o1") (auto split: option.splits if_splits)
            then show ?thesis by (rule step) (simp add: Cons)
          qed
        next
          case (Cluster v)
          show ?thesis
          proof (cases rest)
            case Nil
            with run no Option that Cluster show ?thesis by (cases "op_kind o1") auto
          next
            case (Cons w r)
            with run no Option that Cluster obtain n1 where "store_value o1 w ns = Some n1"
              "scan opts pos filled n1 extra r = Inr (ns', e)"
              by (cases "op_kind o1") (auto split: option.splits if_splits)
            then show ?thesis by (rule step) (simp add: Cons)
          qed
        qed
        show ?thesis
        proof (cases "op_kind o1")
          case Sets_True
          with run no Option flag show ?thesis by (cases x) auto
        next
          case Exits
          with run no Option show ?thesis by (cases x) (auto split: if_splits)
        next
          case (Takes_Value t)
          with taken show ?thesis by simp
        next
          case (Takes_Choice cs)
          with taken show ?thesis by simp
        next
          case Appends_Value
          with taken show ?thesis by simp
        qed
      next
        case Unknown_Option
        with run no have "scan opts pos filled ns True rest = Inr (ns', e)" by simp
        with IH show ?thesis by blast
      next
        case Ambiguous
        with run no show ?thesis by simp
      qed
    qed
  qed
qed

text \<open>What the steps keep: the options' values, the keys, and the value of a positional once it is there.\<close>

definition keys_in :: "option_spec list \<Rightarrow> positional \<Rightarrow> namespace \<Rightarrow> bool" where
  "keys_in opts pos ns \<longleftrightarrow> set (dkeys ns) \<subseteq> op_dest ` set opts \<union> set (positional_dest pos)"

definition filled_ok :: "option_spec list \<Rightarrow> positional \<Rightarrow> bool \<times> namespace \<Rightarrow> bool" where
  "filled_ok opts pos st \<longleftrightarrow> namespace_ok opts (snd st) \<and> keys_in opts pos (snd st) \<and>
     (fst st \<longrightarrow> positional_ok pos (snd st))"

lemma fills_keeps:
  assumes "parser_ok opts pos" and "fills opts pos st st'" and "filled_ok opts pos st"
  shows "filled_ok opts pos st'"
  using assms(2,3)
proof cases
  case (opt_step o1 u f ns)
  have d: "distinct (map op_dest opts)" "op_dest o1 \<notin> set (positional_dest pos)"
    using assms(1) opt_step(3) by (auto simp: parser_ok_def)
  then have "positional_ok pos (dset (op_dest o1) u ns) = positional_ok pos ns" by (cases pos) auto
  with assms(3) opt_step namespace_ok_dset [OF _ d(1) opt_step(3) opt_step(5)] show ?thesis
    by (auto simp: filled_ok_def keys_in_def dkeys_dset_set)
next
  case (pos_step d f ns x)
  then have "d \<notin> op_dest ` set opts" "d \<in> set (positional_dest pos)" "positional_ok pos (dset d (A_Str x) ns)"
    using assms(1) by (auto simp: parser_ok_def)
  with assms(3) pos_step show ?thesis
    by (auto simp: filled_ok_def keys_in_def dkeys_dset_set intro: namespace_ok_dset_other)
qed

lemma fills_all_keeps:
  "fills_all opts pos st st' \<Longrightarrow> parser_ok opts pos \<Longrightarrow> filled_ok opts pos st \<Longrightarrow> filled_ok opts pos st'"
  by (induction rule: rtranclp_induct) (auto intro: fills_keeps)

lemma start_ok:
  assumes "parser_ok opts pos"
  shows "filled_ok opts pos (False, positional_default pos (defaults opts))"
  using start_namespace [OF assms] defaults_namespace [of opts] assms
  by (cases pos) (auto simp: filled_ok_def keys_in_def positional_default_def parser_ok_def dkeys_dset_set)

abbreviation start :: "option_spec list \<Rightarrow> positional \<Rightarrow> string list \<Rightarrow> int + namespace \<times> bool" where
  "start opts pos ss \<equiv> scan opts pos False (positional_default pos (defaults opts)) False ss"

lemma scan_leaf:
  assumes "start opts pos ss = Inr (ns, e)" and "parser_ok opts pos" and "\<nexists>d subs. pos = Subcommands d subs"
  shows "namespace_ok opts ns \<and> keys_in opts pos ns \<and> positional_ok pos ns"
proof -
  let ?st = "(False, positional_default pos (defaults opts))"
  have "\<exists>f. fills_all opts pos ?st (f, ns) \<and> (f \<or> (\<forall>d. pos \<noteq> Positional d))"
    using scan_scanned [OF assms(1)] assms(3) by (cases pos) (auto simp: scanned_def)
  then obtain f where f: "fills_all opts pos ?st (f, ns)" "f \<or> (\<forall>d. pos \<noteq> Positional d)" by blast
  have "filled_ok opts pos (f, ns)" using fills_all_keeps [OF f(1) assms(2) start_ok [OF assms(2)]] .
  with f(2) show ?thesis by (cases pos) (auto simp: filled_ok_def)
qed

lemma scan_sub:
  assumes "start opts (Subcommands d subs) ss = Inr (ns, e)" and "parser_ok opts (Subcommands d subs)"
  obtains ns0 name o1 p1 sub e1 rest where
    "namespace_ok opts ns0" and "keys_in opts (Subcommands d subs) ns0"
    and "map_of subs name = Some (Cli_Parser o1 p1)"
    and "start o1 p1 rest = Inr (sub, e1)"
    and "ns = dupdate (dset d (A_Str name) ns0) sub"
proof -
  let ?p = "Subcommands d subs"
  from scan_scanned [OF assms(1)] obtain f0 ns0 name o1 p1 sub e1 rest where r:
    "fills_all opts ?p (False, positional_default ?p (defaults opts)) (f0, ns0)"
    "map_of subs name = Some (Cli_Parser o1 p1)" "start o1 p1 rest = Inr (sub, e1)"
    "ns = dupdate (dset d (A_Str name) ns0) sub"
    unfolding scanned_def positional.case chosen.simps by blast
  have "filled_ok opts ?p (f0, ns0)" using fills_all_keeps [OF r(1) assms(2) start_ok [OF assms(2)]] .
  with r that show ?thesis by (auto simp: filled_ok_def)
qed

section \<open>The command line is one of the commands\<close>

text \<open>What \<^verbatim>\<open>main\<close> may rely on when it dispatches: limits, offsets and choices are in range.\<close>

definition page_ok :: "int option \<Rightarrow> int \<Rightarrow> bool" where
  "page_ok limit offset \<longleftrightarrow> (case limit of None \<Rightarrow> True | Some n \<Rightarrow> 0 < n) \<and> 0 \<le> offset"

fun command_ok :: "command \<Rightarrow> bool" where
  "command_ok (Cmd_Task_List limit offset status) =
     (page_ok limit offset \<and> (case status of None \<Rightarrow> True | Some s \<Rightarrow> s \<in> set status_choices))"
| "command_ok (Cmd_Guild_List f) = page_ok (gf_limit f) (gf_offset f)"
| "command_ok c = True"

fun call_ok :: "cond_call \<Rightarrow> bool" where
  "call_ok (Serve_Call a) =
     (sa_log_level a \<in> {''debug'', ''info'', ''warning'', ''error''} \<and>
      sa_policy a \<in> {None, Some ''risk'', Some ''deny-all'', Some ''null''})"
| "call_ok (Engine_Call c) = command_ok c"
| "call_ok i = True"

lemma opt_parts [simp]:
  "op_dest (opt f d k v) = d" "op_kind (opt f d k v) = k" "op_default (opt f d k v) = v"
  by (simp_all add: opt_def)

lemma namespace_okD:
  "namespace_ok opts ns \<Longrightarrow> o1 \<in> set opts \<Longrightarrow> op_kind o1 \<noteq> Exits \<Longrightarrow>
    \<exists>v. dget ns (op_dest o1) = Some v \<and> value_ok o1 v"
  by (simp add: namespace_ok_def)

lemma positive_value: "value_ok (opt f d (Takes_Value Positive_Int) A_None) v \<Longrightarrow> v = A_None \<or> (\<exists>n>0. v = A_Int n)"
  by (auto simp: value_ok_def opt_def positive_int_def split: option.splits if_splits)

lemma non_negative_value:
  "value_ok (opt f d (Takes_Value Non_Negative_Int) (A_Int 0)) v \<Longrightarrow> \<exists>n\<ge>0. v = A_Int n"
  by (auto simp: value_ok_def opt_def non_negative_int_def split: option.splits if_splits)

lemma choice_value:
  "value_ok (opt f d (Takes_Choice cs) dflt) v \<Longrightarrow> v = dflt \<or> (\<exists>s \<in> set cs. v = A_Str s)"
  by (auto simp: value_ok_def opt_def)

text \<open>A parser without subcommands below one with: its values are what is found there.\<close>

lemma dget_below:
  "dict_ok sub \<Longrightarrow> dget sub k = Some v \<Longrightarrow> dget (dupdate ns sub) k = Some v"
  "dict_ok sub \<Longrightarrow> k \<notin> set (dkeys sub) \<Longrightarrow> dget (dupdate ns sub) k = dget ns k"
  by (simp_all add: dget_dupdate dget_None_iff [symmetric])

text \<open>The namespace holds a page, or a status filter, as \<^verbatim>\<open>_positive_int\<close> and the others leave them.\<close>

definition page_found :: "namespace \<Rightarrow> bool" where
  "page_found ns \<longleftrightarrow> (\<exists>l m. dget ns ''limit'' = Some l \<and> dget ns ''offset'' = Some (A_Int m) \<and> 0 \<le> m \<and>
     (l = A_None \<or> (\<exists>n>0. l = A_Int n)))"

definition status_found :: "namespace \<Rightarrow> bool" where
  "status_found ns \<longleftrightarrow> (\<exists>s. dget ns ''status'' = Some s \<and> (s = A_None \<or> (\<exists>t \<in> set status_choices. s = A_Str t)))"

lemma page_values:
  assumes "namespace_ok opts ns"
    and "opt f1 ''limit'' (Takes_Value Positive_Int) A_None \<in> set opts"
    and "opt f2 ''offset'' (Takes_Value Non_Negative_Int) (A_Int 0) \<in> set opts"
  shows "page_found ns"
proof -
  obtain l where l: "dget ns ''limit'' = Some l" "value_ok (opt f1 ''limit'' (Takes_Value Positive_Int) A_None) l"
    using namespace_okD [OF assms(1,2)] by auto
  obtain v where v: "dget ns ''offset'' = Some v"
    "value_ok (opt f2 ''offset'' (Takes_Value Non_Negative_Int) (A_Int 0)) v"
    using namespace_okD [OF assms(1,3)] by auto
  from positive_value [OF l(2)] non_negative_value [OF v(2)] l(1) v(1) show ?thesis
    unfolding page_found_def by blast
qed

text \<open>A subcommand without subcommands of its own: what stays of the values above, what is its own.\<close>

lemma leaf_below:
  assumes "start o2 p2 rest = Inr (sub, e)" and "parser_ok o2 p2" and "\<nexists>d subs. p2 = Subcommands d subs"
  shows "dict_ok sub \<and> namespace_ok o2 sub \<and>
    (\<forall>k ns. k \<notin> op_dest ` set o2 \<union> set (positional_dest p2) \<longrightarrow>
      k \<notin> set (dkeys sub) \<and> dget (dupdate ns sub) k = dget ns k) \<and>
    (\<forall>k v ns. dget sub k = Some v \<longrightarrow> dget (dupdate ns sub) k = Some v)"
proof -
  have l: "namespace_ok o2 sub" "keys_in o2 p2 sub" using scan_leaf [OF assms] by simp_all
  then have d: "dict_ok sub" by (simp add: namespace_ok_def)
  have k: "k \<notin> set (dkeys sub)" if "k \<notin> op_dest ` set o2 \<union> set (positional_dest p2)" for k
    using l(2) that by (auto simp: keys_in_def)
  show ?thesis using d l(1) k dget_below(1) [OF d] dget_below(2) [OF d k] by blast
qed

text \<open>A parser with subcommands that are all leaves.\<close>

fun leaf_command :: "string \<Rightarrow> cli_parser \<Rightarrow> bool" where
  "leaf_command d (Cli_Parser opts pos) =
     (parser_ok opts pos \<and> (case pos of Subcommands d subs \<Rightarrow> False | _ \<Rightarrow> True) \<and>
      d \<notin> set (map op_dest opts @ positional_dest pos))"

lemma branch_below:
  assumes "start [help_option] (Subcommands d subs) rest = Inr (sub, e)" and "d \<noteq> ''help''"
    and "list_all (leaf_command d \<circ> snd) subs"
  obtains name o2 p2 ns0 sub2 where "map_of subs name = Some (Cli_Parser o2 p2)" and "dict_ok ns0"
    and "set (dkeys ns0) \<subseteq> {''help'', d}" and "namespace_ok o2 sub2" and "keys_in o2 p2 sub2"
    and "dget sub d = Some (A_Str name)" and "sub = dupdate (dset d (A_Str name) ns0) sub2"
proof -
  have p: "parser_ok [help_option] (Subcommands d subs)"
    using assms(2) by (simp add: parser_ok_def help_option_def)
  obtain ns0 name o1 p1 sub2 e1 r where r:
    "namespace_ok [help_option] ns0" "keys_in [help_option] (Subcommands d subs) ns0"
    "map_of subs name = Some (Cli_Parser o1 p1)" "start o1 p1 r = Inr (sub2, e1)"
    "sub = dupdate (dset d (A_Str name) ns0) sub2"
    by (rule scan_sub [OF assms(1) p]) (rule that)
  have "leaf_command d (Cli_Parser o1 p1)"
    using assms(3) map_of_SomeD [OF r(3)] by (fastforce simp: list_all_iff)
  then have ok: "parser_ok o1 p1" "\<nexists>d subs. p1 = Subcommands d subs"
    "d \<notin> op_dest ` set o1 \<union> set (positional_dest p1)" by (auto split: positional.splits)
  have l: "namespace_ok o1 sub2" "keys_in o1 p1 sub2" using scan_leaf [OF r(4) ok(1,2)] by simp_all
  have "dget sub d = dget (dset d (A_Str name) ns0) d"
    using leaf_below [OF r(4) ok(1,2)] ok(3) unfolding r(5) by blast
  then have "dget sub d = Some (A_Str name)" by simp
  moreover have "dict_ok ns0" using r(1) by (simp add: namespace_ok_def)
  moreover have "set (dkeys ns0) \<subseteq> {''help'', d}"
    using r(2) by (auto simp: keys_in_def help_option_def)
  ultimately show ?thesis using r(3,5) l by (intro that) simp_all
qed

text \<open>What the parsers below \<^verbatim>\<open>task\<close> and \<^verbatim>\<open>guild\<close> find.\<close>

lemma page_below:
  assumes "namespace_ok opts sub"
    and "opt f1 ''limit'' (Takes_Value Positive_Int) A_None \<in> set opts"
    and "opt f2 ''offset'' (Takes_Value Non_Negative_Int) (A_Int 0) \<in> set opts"
  shows "page_found (dupdate ns sub)"
proof -
  have "dict_ok sub" using assms(1) by (simp add: namespace_ok_def)
  then have "dget sub k = Some v \<Longrightarrow> dget (dupdate ns sub) k = Some v" for k v by (rule dget_below)
  with page_values [OF assms] show ?thesis unfolding page_found_def by blast
qed

lemma task_arguments:
  assumes "start [help_option] (Subcommands ''task_command'' task_commands) rest = Inr (sub, e)"
  shows "\<exists>name. dget sub ''task_command'' = Some (A_Str name) \<and> dict_ok sub \<and> ''command'' \<notin> set (dkeys sub) \<and>
    (name \<in> {''show'', ''approve'', ''cancel''} \<or> name = ''list'' \<and>
     page_found sub \<and> status_found sub)"
proof -
  have ok: "list_all (leaf_command ''task_command'' \<circ> snd) task_commands"
    by (simp add: task_commands_def leaf_def parser_ok_def opt_def help_option_def)
  obtain name o2 p2 ns0 sub2 where r: "map_of task_commands name = Some (Cli_Parser o2 p2)" "dict_ok ns0"
    "set (dkeys ns0) \<subseteq> {''help'', ''task_command''}" "namespace_ok o2 sub2" "keys_in o2 p2 sub2"
    "dget sub ''task_command'' = Some (A_Str name)" "sub = dupdate (dset ''task_command'' (A_Str name) ns0) sub2"
    by (rule branch_below [OF assms _ ok]) simp_all
  have "''command'' \<notin> set (dkeys sub2)"
    using r(1,5) by (auto simp: task_commands_def leaf_def keys_in_def opt_def help_option_def split: if_splits)
  with r(2,3,7) have "dict_ok sub" "''command'' \<notin> set (dkeys sub)"
    by (auto simp: dkeys_dupdate dkeys_dset_set)
  moreover have "page_found sub \<and> status_found sub"
    if "name = ''list''"
  proof -
    let ?s = "opt ''--status'' ''status'' (Takes_Choice status_choices) A_None"
    have o2: "o2 = [help_option, opt ''--limit'' ''limit'' (Takes_Value Positive_Int) A_None,
         opt ''--offset'' ''offset'' (Takes_Value Non_Negative_Int) (A_Int 0), ?s]"
      using r(1) that by (simp add: task_commands_def leaf_def)
    then obtain v where v: "dget sub2 ''status'' = Some v" "value_ok ?s v"
      using namespace_okD [OF r(4), of ?s] by auto
    have "dict_ok sub2" using r(4) by (simp add: namespace_ok_def)
    then have "dget sub ''status'' = Some v" unfolding r(7) by (rule dget_below(1)) (rule v(1))
    moreover have "page_found sub"
      unfolding r(7) by (rule page_below [OF r(4), of "''--limit''" "''--offset''"]) (simp_all add: o2)
    moreover have "status_found sub"
      unfolding status_found_def using \<open>dget sub ''status'' = Some v\<close> choice_value [OF v(2)] by blast
    ultimately show ?thesis by blast
  qed
  moreover have "name \<in> {''show'', ''approve'', ''cancel'', ''list''}"
    using r(1) by (auto simp: task_commands_def split: if_splits)
  ultimately show ?thesis using r(6) by blast
qed

lemma guild_arguments:
  assumes "start [help_option] (Subcommands ''guild_command'' guild_commands) rest = Inr (sub, e)"
  shows "\<exists>name. dget sub ''guild_command'' = Some (A_Str name) \<and> dict_ok sub \<and> ''command'' \<notin> set (dkeys sub) \<and>
    (name \<in> {''show'', ''clear'', ''meet''} \<or> name = ''list'' \<and>
     page_found sub)"
proof -
  have ok: "list_all (leaf_command ''guild_command'' \<circ> snd) guild_commands"
    by (simp add: guild_commands_def leaf_def parser_ok_def opt_def help_option_def)
  obtain name o2 p2 ns0 sub2 where r: "map_of guild_commands name = Some (Cli_Parser o2 p2)" "dict_ok ns0"
    "set (dkeys ns0) \<subseteq> {''help'', ''guild_command''}" "namespace_ok o2 sub2" "keys_in o2 p2 sub2"
    "dget sub ''guild_command'' = Some (A_Str name)" "sub = dupdate (dset ''guild_command'' (A_Str name) ns0) sub2"
    by (rule branch_below [OF assms _ ok]) simp_all
  have "''command'' \<notin> set (dkeys sub2)"
    using r(1,5) by (auto simp: guild_commands_def leaf_def keys_in_def opt_def help_option_def split: if_splits)
  with r(2,3,7) have "dict_ok sub" "''command'' \<notin> set (dkeys sub)"
    by (auto simp: dkeys_dupdate dkeys_dset_set)
  moreover have "page_found sub"
    if "name = ''list''"
  proof -
    have "opt ''--limit'' ''limit'' (Takes_Value Positive_Int) A_None \<in> set o2"
      "opt ''--offset'' ''offset'' (Takes_Value Non_Negative_Int) (A_Int 0) \<in> set o2"
      using r(1) that by (auto simp: guild_commands_def leaf_def)
    then show ?thesis unfolding r(7) by (rule page_below [OF r(4)])
  qed
  moreover have "name \<in> {''show'', ''clear'', ''meet'', ''list''}"
    using r(1) by (auto simp: guild_commands_def split: if_splits)
  ultimately show ?thesis using r(6) by blast
qed

lemma api_key_arguments:
  assumes "start [help_option] (Subcommands ''api_key_command'' api_key_commands) rest = Inr (sub, e)"
  shows "\<exists>name. dget sub ''api_key_command'' = Some (A_Str name) \<and> dict_ok sub \<and> ''command'' \<notin> set (dkeys sub) \<and>
    name \<in> {''generate'', ''list'', ''revoke''}"
proof -
  have ok: "list_all (leaf_command ''api_key_command'' \<circ> snd) api_key_commands"
    by (simp add: api_key_commands_def leaf_def parser_ok_def opt_def help_option_def)
  obtain name o2 p2 ns0 sub2 where r: "map_of api_key_commands name = Some (Cli_Parser o2 p2)" "dict_ok ns0"
    "set (dkeys ns0) \<subseteq> {''help'', ''api_key_command''}" "namespace_ok o2 sub2" "keys_in o2 p2 sub2"
    "dget sub ''api_key_command'' = Some (A_Str name)" "sub = dupdate (dset ''api_key_command'' (A_Str name) ns0) sub2"
    by (rule branch_below [OF assms _ ok]) simp_all
  have "''command'' \<notin> set (dkeys sub2)"
    using r(1,5) by (auto simp: api_key_commands_def leaf_def keys_in_def opt_def help_option_def split: if_splits)
  with r(2,3,7) have "dict_ok sub" "''command'' \<notin> set (dkeys sub)"
    by (auto simp: dkeys_dupdate dkeys_dset_set)
  moreover have "name \<in> {''generate'', ''list'', ''revoke''}"
    using r(1) by (auto simp: api_key_commands_def split: if_splits)
  ultimately show ?thesis using r(6) by blast
qed

text \<open>The subcommands with one subcommand of their own.\<close>

lemma single_arguments:
  assumes "start [help_option] (Subcommands d [(c, leaf [] pos)]) rest = Inr (sub, e)"
    and "d \<notin> {''help'', ''command''}" and "positional_dest pos = [] \<or> (\<exists>k. positional_dest pos = [k] \<and> k \<notin> {''help'', ''command'', d})"
    and "case pos of Subcommands d subs \<Rightarrow> False | _ \<Rightarrow> True"
  shows "dget sub d = Some (A_Str c) \<and> dict_ok sub \<and> ''command'' \<notin> set (dkeys sub)"
proof -
  have ok: "list_all (leaf_command d \<circ> snd) [(c, leaf [] pos)]"
    using assms(2-4) by (auto simp: leaf_def parser_ok_def help_option_def split: positional.splits)
  obtain name o2 p2 ns0 sub2 where r: "map_of [(c, leaf [] pos)] name = Some (Cli_Parser o2 p2)" "dict_ok ns0"
    "set (dkeys ns0) \<subseteq> {''help'', d}" "namespace_ok o2 sub2" "keys_in o2 p2 sub2"
    "dget sub d = Some (A_Str name)" "sub = dupdate (dset d (A_Str name) ns0) sub2"
    by (rule branch_below [OF assms(1) _ ok]) (use assms(2) in simp_all)
  have c: "name = c" "o2 = [help_option]" "p2 = pos" using r(1) by (auto simp: leaf_def split: if_splits)
  have "''command'' \<notin> set (dkeys sub2)"
    using r(5) assms(3) by (auto simp: c keys_in_def help_option_def)
  with r assms(2) c show ?thesis by (auto simp: dkeys_dupdate dkeys_dset_set)
qed

lemma serve_arguments:
  assumes "serve_parser = Cli_Parser o1 p1" and "start o1 p1 rest = Inr (sub, e)"
  shows "dict_ok sub \<and> ''command'' \<notin> set (dkeys sub) \<and>
    (\<exists>v \<in> {''debug'', ''info'', ''warning'', ''error''}. dget sub ''log_level'' = Some (A_Str v)) \<and>
    (\<exists>v. dget sub ''policy'' = Some v \<and> (v = A_None \<or> (\<exists>p \<in> {''risk'', ''deny-all'', ''null''}. v = A_Str p)))"
proof -
  let ?l = "opt ''--log-level'' ''log_level'' (Takes_Choice [''debug'', ''info'', ''warning'', ''error'']) (A_Str ''info'')"
  let ?p = "opt ''--policy'' ''policy'' (Takes_Choice [''risk'', ''deny-all'', ''null'']) A_None"
  have p1: "p1 = No_Positional" using assms(1) by (simp add: serve_parser_def leaf_def)
  have mem: "?l \<in> set o1" "?p \<in> set o1" using assms(1) by (auto simp: serve_parser_def leaf_def)
  have ok: "parser_ok o1 p1" "''command'' \<notin> op_dest ` set o1 \<union> set (positional_dest p1)"
    using assms(1) by (auto simp: serve_parser_def leaf_def parser_ok_def help_option_def)
  note b = leaf_below [OF assms(2) ok(1)]
  have sub: "dict_ok sub" "namespace_ok o1 sub" "''command'' \<notin> set (dkeys sub)" using b ok(2) p1 by auto
  obtain v where v: "dget sub ''log_level'' = Some v" "value_ok ?l v"
    using namespace_okD [OF sub(2) mem(1)] by auto
  obtain u where u: "dget sub ''policy'' = Some u" "value_ok ?p u"
    using namespace_okD [OF sub(2) mem(2)] by auto
  have "\<exists>w \<in> {''debug'', ''info'', ''warning'', ''error''}. v = A_Str w" using choice_value [OF v(2)] by auto
  moreover have "u = A_None \<or> (\<exists>p \<in> {''risk'', ''deny-all'', ''null''}. u = A_Str p)" using choice_value [OF u(2)] by auto
  ultimately show ?thesis using sub v(1) u(1) by blast
qed

lemma plain_arguments:
  assumes "start [help_option] pos rest = Inr (sub, e)"
    and "case pos of Subcommands d subs \<Rightarrow> False | _ \<Rightarrow> True" and "distinct (''help'' # positional_dest pos)"
    and "''command'' \<notin> set (positional_dest pos)"
  shows "dict_ok sub \<and> ''command'' \<notin> set (dkeys sub)"
proof -
  have ok: "parser_ok [help_option] pos" "\<nexists>d subs. pos = Subcommands d subs"
    "''command'' \<notin> op_dest ` set [help_option] \<union> set (positional_dest pos)"
    using assms(2-4) by (auto simp: parser_ok_def help_option_def split: positional.splits)
  show ?thesis using leaf_below [OF assms(1) ok(1,2)] ok(3) by blast
qed

lemma found_below:
  assumes "dict_ok sub"
  shows "page_found sub \<Longrightarrow> page_found (dupdate ns sub)" and "status_found sub \<Longrightarrow> status_found (dupdate ns sub)"
proof -
  note d = dget_below(1) [OF assms, of _ _ ns]
  show "page_found sub \<Longrightarrow> page_found (dupdate ns sub)" unfolding page_found_def using d by blast
  show "status_found sub \<Longrightarrow> status_found (dupdate ns sub)" unfolding status_found_def using d by blast
qed

text \<open>What the whole parser finds, per command.\<close>

inductive found :: "namespace \<Rightarrow> bool" where
  plain: "dget ns ''command'' = Some (A_Str c) \<Longrightarrow> c \<in> {''run'', ''health'', ''snapshot'', ''help''} \<Longrightarrow> found ns"
| capability: "dget ns ''command'' = Some (A_Str ''capability'') \<Longrightarrow>
    dget ns ''capability_command'' = Some (A_Str ''list'') \<Longrightarrow> found ns"
| workflow: "dget ns ''command'' = Some (A_Str ''workflow'') \<Longrightarrow>
    dget ns ''workflow_command'' = Some (A_Str ''run'') \<Longrightarrow> found ns"
| serve: "dget ns ''command'' = Some (A_Str ''serve'') \<Longrightarrow> dget ns ''log_level'' = Some (A_Str l) \<Longrightarrow>
    l \<in> {''debug'', ''info'', ''warning'', ''error''} \<Longrightarrow> dget ns ''policy'' = Some v \<Longrightarrow>
    v = A_None \<or> (\<exists>p \<in> {''risk'', ''deny-all'', ''null''}. v = A_Str p) \<Longrightarrow> found ns"
| api_key: "dget ns ''command'' = Some (A_Str ''api-key'') \<Longrightarrow> dget ns ''api_key_command'' = Some (A_Str k) \<Longrightarrow>
    k \<in> {''generate'', ''list'', ''revoke''} \<Longrightarrow> found ns"
| task: "dget ns ''command'' = Some (A_Str ''task'') \<Longrightarrow> dget ns ''task_command'' = Some (A_Str k) \<Longrightarrow>
    k \<in> {''show'', ''approve'', ''cancel''} \<or> k = ''list'' \<and> page_found ns \<and> status_found ns \<Longrightarrow> found ns"
| guild: "dget ns ''command'' = Some (A_Str ''guild'') \<Longrightarrow> dget ns ''guild_command'' = Some (A_Str k) \<Longrightarrow>
    k \<in> {''show'', ''clear'', ''meet''} \<or> k = ''list'' \<and> page_found ns \<Longrightarrow> found ns"

lemma disj_conj_mono: "P \<or> Q \<and> a \<and> b \<Longrightarrow> (a \<Longrightarrow> c) \<Longrightarrow> (b \<Longrightarrow> d) \<Longrightarrow> P \<or> Q \<and> c \<and> d"
  by blast

lemma map_of_cond_commands:
  assumes "map_of cond_commands name = Some p"
  shows "name \<in> {''run'', ''health'', ''snapshot'', ''help''} \<or> name = ''capability'' \<or> name = ''workflow'' \<or> name = ''serve'' \<or> name = ''api-key'' \<or> name = ''task'' \<or> name = ''guild''"
  using assms by (auto simp: cond_commands_def split: if_splits)

lemma cond_arguments:
  assumes "parse_args cond_parser argv = Inr ns"
  shows "found ns"
proof -
  have "start cond_options (Subcommands ''command'' cond_commands) argv = Inr (ns, False)"
    using assms by (auto simp: parse_args_def cond_parser_def split: sum.splits if_splits)
  moreover have "parser_ok cond_options (Subcommands ''command'' cond_commands)"
    by (simp add: parser_ok_def cond_options_def help_option_def)
  ultimately obtain ns0 name o1 p1 sub e1 rest where r:
    "map_of cond_commands name = Some (Cli_Parser o1 p1)" "start o1 p1 rest = Inr (sub, e1)"
    "ns = dupdate (dset ''command'' (A_Str name) ns0) sub"
    by (rule scan_sub) (rule that)
  have ns: "dget ns ''command'' = Some (A_Str name)" if "dict_ok sub" "''command'' \<notin> set (dkeys sub)"
    unfolding r(3) dget_below(2) [OF that] by simp
  have keep: "dict_ok sub \<Longrightarrow> dget sub k = Some v \<Longrightarrow> dget ns k = Some v" for k v
    unfolding r(3) by (rule dget_below(1))
  have pages: "page_found sub \<Longrightarrow> page_found ns" "status_found sub \<Longrightarrow> status_found ns" if "dict_ok sub"
    unfolding r(3) by (rule found_below [OF that]; assumption)+
  from map_of_cond_commands [OF r(1)] show ?thesis
  proof (elim disjE)
    assume 1: "name \<in> {''run'', ''health'', ''snapshot'', ''help''}"
    then have "o1 = [help_option]" "p1 \<in> {No_Positional, Positional ''task_file'', Optional_Positional ''topic''}"
      using r(1) by (auto simp: cond_commands_def leaf_def)
    then have "dict_ok sub \<and> ''command'' \<notin> set (dkeys sub)"
      using plain_arguments [of p1 rest sub e1] r(2) by auto
    with ns 1 show ?thesis by (intro found.plain) auto
  next
    assume 2: "name = ''capability''"
    then have "o1 = [help_option]" "p1 = Subcommands ''capability_command'' [(''list'', leaf [] No_Positional)]"
      using r(1) by (auto simp: cond_commands_def leaf_def)
    with single_arguments [of "''capability_command''" "''list''" No_Positional rest sub e1] r(2)
    have "dget sub ''capability_command'' = Some (A_Str ''list'') \<and> dict_ok sub \<and> ''command'' \<notin> set (dkeys sub)" by simp
    with ns keep 2 show ?thesis by (intro found.capability) auto
  next
    assume 3: "name = ''workflow''"
    then have "o1 = [help_option]" "p1 = Subcommands ''workflow_command'' [(''run'', leaf [] (Positional ''workflow_file''))]"
      using r(1) by (auto simp: cond_commands_def leaf_def)
    with single_arguments [of "''workflow_command''" "''run''" "Positional ''workflow_file''" rest sub e1] r(2)
    have "dget sub ''workflow_command'' = Some (A_Str ''run'') \<and> dict_ok sub \<and> ''command'' \<notin> set (dkeys sub)" by simp
    with ns keep 3 show ?thesis by (intro found.workflow) auto
  next
    assume 4: "name = ''serve''"
    then have "serve_parser = Cli_Parser o1 p1" using r(1) by (simp add: cond_commands_def)
    from serve_arguments [OF this r(2)] obtain l v where a: "dict_ok sub" "''command'' \<notin> set (dkeys sub)"
      "l \<in> {''debug'', ''info'', ''warning'', ''error''}" "dget sub ''log_level'' = Some (A_Str l)"
      "dget sub ''policy'' = Some v" "v = A_None \<or> (\<exists>p \<in> {''risk'', ''deny-all'', ''null''}. v = A_Str p)" by metis
    show ?thesis
      by (rule found.serve [OF ns [OF a(1,2), unfolded 4] keep [OF a(1,4)] a(3) keep [OF a(1,5)] a(6)])
  next
    assume 5: "name = ''api-key''"
    then have "o1 = [help_option]" "p1 = Subcommands ''api_key_command'' api_key_commands"
      using r(1) by (auto simp: cond_commands_def leaf_def api_key_parser_def)
    with r(2) have "start [help_option] (Subcommands ''api_key_command'' api_key_commands) rest = Inr (sub, e1)" by simp
    from api_key_arguments [OF this] obtain k where a: "dget sub ''api_key_command'' = Some (A_Str k)"
      "dict_ok sub" "''command'' \<notin> set (dkeys sub)" "k \<in> {''generate'', ''list'', ''revoke''}" by metis
    show ?thesis by (rule found.api_key [OF ns [OF a(2,3), unfolded 5] keep [OF a(2,1)] a(4)])
  next
    assume 6: "name = ''task''"
    then have "o1 = [help_option]" "p1 = Subcommands ''task_command'' task_commands"
      using r(1) by (auto simp: cond_commands_def leaf_def task_parser_def)
    with r(2) have "start [help_option] (Subcommands ''task_command'' task_commands) rest = Inr (sub, e1)" by simp
    from task_arguments [OF this] obtain k where a: "dget sub ''task_command'' = Some (A_Str k)"
      "dict_ok sub" "''command'' \<notin> set (dkeys sub)"
      "k \<in> {''show'', ''approve'', ''cancel''} \<or> k = ''list'' \<and> page_found sub \<and> status_found sub" by metis
    have "k \<in> {''show'', ''approve'', ''cancel''} \<or> k = ''list'' \<and> page_found ns \<and> status_found ns"
      using a(4) pages [OF a(2)] by (rule disj_conj_mono)
    with ns [OF a(2,3), unfolded 6] keep [OF a(2,1)] show ?thesis by (rule found.task)
  next
    assume 7: "name = ''guild''"
    then have "o1 = [help_option]" "p1 = Subcommands ''guild_command'' guild_commands"
      using r(1) by (auto simp: cond_commands_def leaf_def guild_parser_def)
    with r(2) have "start [help_option] (Subcommands ''guild_command'' guild_commands) rest = Inr (sub, e1)" by simp
    from guild_arguments [OF this] obtain k where a: "dget sub ''guild_command'' = Some (A_Str k)"
      "dict_ok sub" "''command'' \<notin> set (dkeys sub)"
      "k \<in> {''show'', ''clear'', ''meet''} \<or> k = ''list'' \<and> page_found sub" by metis
    have "k \<in> {''show'', ''clear'', ''meet''} \<or> k = ''list'' \<and> page_found ns"
      by (rule disj_forward [OF a(4)], assumption, erule conj_forward, assumption, rule pages(1) [OF a(2)])
    with ns [OF a(2,3), unfolded 7] keep [OF a(2,1)] show ?thesis by (rule found.guild)
  qed
qed

lemma page_foundE:
  assumes "page_found ns"
  shows "page_ok (ns_int ns ''limit'') (case ns_int ns ''offset'' of None \<Rightarrow> 0 | Some n \<Rightarrow> n)"
  using assms by (auto simp: page_found_def page_ok_def ns_int_def)

lemma status_foundE:
  assumes "status_found ns"
  shows "case ns_option ns ''status'' of None \<Rightarrow> True | Some s \<Rightarrow> s \<in> set status_choices"
  using assms by (auto simp: status_found_def ns_option_def)

text \<open>
  C37. Every argument list that the parser accepts is one of the commands of \<^verbatim>\<open>main\<close>: the final
  \<^verbatim>\<open>parser.error("Unsupported command")\<close> is never reached, whatever order, abbreviation or
  \<^verbatim>\<open>--option=value\<close> form the options have.  The limits it passes on are positive, the offsets not negative,
  the status filter a status of the program, log level and policy among their choices.
\<close>

theorem accepted_arguments_are_a_command:
  assumes "parse_args cond_parser argv = Inr ns"
  shows "\<exists>inv. call_of ie he orders ns = Some inv \<and> call_ok inv"
  using cond_arguments [OF assms]
proof cases
  case (plain c)
  then show ?thesis by (auto simp: call_of_def ns_text_def Let_def)
next
  case capability
  then show ?thesis by (simp add: call_of_def ns_text_def)
next
  case workflow
  then show ?thesis by (simp add: call_of_def ns_text_def)
next
  case (serve l v)
  then show ?thesis by (auto simp: call_of_def ns_text_def ns_option_def)
next
  case (api_key k)
  then show ?thesis by (auto simp: call_of_def ns_text_def)
next
  case (task k)
  from task(3) show ?thesis
  proof
    assume "k \<in> {''show'', ''approve'', ''cancel''}"
    with task(1,2) show ?thesis by (auto simp: call_of_def ns_text_def)
  next
    assume l: "k = ''list'' \<and> page_found ns \<and> status_found ns"
    with task(1,2) page_foundE [of ns] status_foundE [of ns] show ?thesis
      by (simp add: call_of_def ns_text_def)
  qed
next
  case (guild k)
  from guild(3) show ?thesis
  proof
    assume "k \<in> {''show'', ''clear'', ''meet''}"
    with guild(1,2) show ?thesis by (auto simp: call_of_def ns_text_def)
  next
    assume l: "k = ''list'' \<and> page_found ns"
    with guild(1,2) page_foundE [of ns] show ?thesis
      by (simp add: call_of_def ns_text_def)
  qed
qed

text \<open>
  Witness: the first argument list of a session, with an abbreviated option and a value behind \<^verbatim>\<open>=\<close>.
\<close>

lemma accepted_arguments_are_a_command_witness:
  "(\<exists>ns. parse_args cond_parser [''task'', ''list'', ''--lim'', ''5'', ''--offset=2''] = Inr ns) \<and>
   (\<forall>ie he orders. \<exists>inv. call_of ie he orders
      (case parse_args cond_parser [''task'', ''list'', ''--lim'', ''5'', ''--offset=2''] of Inr ns \<Rightarrow> ns | Inl c \<Rightarrow> []) = Some inv \<and>
      call_ok inv)"
proof -
  have "\<not> isl (parse_args cond_parser [''task'', ''list'', ''--lim'', ''5'', ''--offset=2''])"
    by code_simp
  then have run: "\<exists>ns. parse_args cond_parser [''task'', ''list'', ''--lim'', ''5'', ''--offset=2''] = Inr ns"
    by (simp add: isl_def sum.disc_eq_case) (metis sum.exhaust)
  then obtain ns where "parse_args cond_parser [''task'', ''list'', ''--lim'', ''5'', ''--offset=2''] = Inr ns" by blast
  from accepted_arguments_are_a_command [OF this] run this show ?thesis by simp
qed

text \<open>
  The store of \<^verbatim>\<open>--guild-store\<close> before the subcommand is forgotten by \<^verbatim>\<open>guild meet\<close>, whose own option of the
  same name has the default \<^verbatim>\<open>None\<close> that replaces it; \<^verbatim>\<open>guild list\<close> uses it.
\<close>

lemma argument_text:
  assumes "\<not> prefix_of ''-'' v"
  shows "classify opts v = Argument" and "v \<noteq> ''--''"
  using assms by (auto simp: classify_def)

text \<open>Reading an option with its value, and the name of a subcommand.\<close>

lemma scan_option_value:
  assumes "classify opts s = Option o1 No_Explicit" and "s \<noteq> ''--''" and "\<not> prefix_of ''-'' v"
    and "store_value o1 v ns = Some ns'"
  shows "scan opts pos f ns x (s # v # rest) = scan opts pos f ns' x rest"
  using assms(1,2) argument_text [OF assms(3)] assms(4)
  by (cases "op_kind o1") (auto simp: is_argument_def store_value_def)

lemma scan_subcommand:
  assumes "\<not> prefix_of ''-'' s" and "map_of subs s = Some (Cli_Parser o1 p1)" and "start o1 p1 rest = Inr (sub, e)"
  shows "scan opts (Subcommands d subs) f ns x (s # rest) = Inr (dupdate (dset d (A_Str s) ns) sub, x \<or> e)"
  using assms(2,3) argument_text [OF assms(1)] by (simp add: merge_sub_def)

lemma guild_store_flag:
  "classify cond_options ''--guild-store'' =
     Option (opt ''--guild-store'' ''guild_store'' (Takes_Value Text_Value) (A_Str default_guild_store)) No_Explicit"
  by code_simp

lemma cond_defaults:
  "positional_default (Subcommands ''command'' subs) (defaults cond_options) =
     [(''store'', A_Str default_store), (''config'', A_None), (''guild_store'', A_Str default_guild_store), (''command'', A_None)]"
  by (simp add: positional_default_def defaults_def cond_options_def help_option_def dset_def)

lemma guild_command:
  "map_of cond_commands ''guild'' = Some (Cli_Parser [help_option] (Subcommands ''guild_command'' guild_commands))"
  by (simp add: cond_commands_def guild_parser_def leaf_def)

lemma guild_runs:
  "start [help_option] (Subcommands ''guild_command'' guild_commands) [''meet''] =
     Inr ([(''guild_command'', A_Str ''meet''), (''guild_store'', A_None)], False)"
  "start [help_option] (Subcommands ''guild_command'' guild_commands) [''list''] =
     Inr ([(''guild_command'', A_Str ''list''), (''capability'', A_None), (''error_type'', A_None), (''role'', A_None),
           (''limit'', A_None), (''offset'', A_Int 0)], False)"
  by code_simp+

lemma guild_meet_forgets_the_store:
  assumes "\<not> prefix_of ''-'' path" and "path \<noteq> []"
  shows "map_sum id guild_store_path (parse_args cond_parser [''--guild-store'', path, ''guild'', ''meet'']) = Inr default_guild_store \<and>
    map_sum id guild_store_path (parse_args cond_parser [''--guild-store'', path, ''guild'', ''list'']) = Inr path"
proof -
  let ?ns = "[(''store'', A_Str default_store), (''config'', A_None), (''guild_store'', A_Str default_guild_store), (''command'', A_None)]"
  let ?o = "opt ''--guild-store'' ''guild_store'' (Takes_Value Text_Value) (A_Str default_guild_store)"
  have st: "store_value ?o path ?ns = Some (dset ''guild_store'' (A_Str path) ?ns)" by (simp add: store_value_def)
  have g: "\<not> prefix_of ''-'' ''guild''" by simp
  note steps = scan_option_value [OF guild_store_flag _ assms(1) st] scan_subcommand [OF g guild_command]
  show ?thesis
    using assms(2)
    by (simp del: scan.simps
        add: parse_args_def cond_parser_def cond_defaults steps guild_runs guild_store_path_def ns_option_def opt_or_def)
qed

section \<open>A page can be asked for\<close>

text \<open>The arguments that ask for a page of the tasks.\<close>

definition option_arguments :: "string \<Rightarrow> string option \<Rightarrow> string list" where
  "option_arguments flag v = (case v of None \<Rightarrow> [] | Some x \<Rightarrow> [flag, x])"

definition task_list_arguments :: "int option \<Rightarrow> int \<Rightarrow> string option \<Rightarrow> string list" where
  "task_list_arguments limit offset status =
     [''task'', ''list''] @ option_arguments ''--limit'' (map_option show_int limit) @
     [''--offset'', show_int offset] @ option_arguments ''--status'' status"

abbreviation list_options :: "option_spec list" where
  "list_options \<equiv> [help_option, opt ''--limit'' ''limit'' (Takes_Value Positive_Int) A_None,
     opt ''--offset'' ''offset'' (Takes_Value Non_Negative_Int) (A_Int 0),
     opt ''--status'' ''status'' (Takes_Choice status_choices) A_None]"

lemma task_list_flags:
  "classify list_options ''--limit'' = Option (opt ''--limit'' ''limit'' (Takes_Value Positive_Int) A_None) No_Explicit"
  "classify list_options ''--offset'' = Option (opt ''--offset'' ''offset'' (Takes_Value Non_Negative_Int) (A_Int 0)) No_Explicit"
  "classify list_options ''--status'' = Option (opt ''--status'' ''status'' (Takes_Choice status_choices) A_None) No_Explicit"
  by (code_simp | simp)+

lemma task_list_command:
  "map_of cond_commands ''task'' = Some (Cli_Parser [help_option] (Subcommands ''task_command'' task_commands))"
  "map_of task_commands ''list'' = Some (Cli_Parser list_options No_Positional)"
  "classify [help_option] ''list'' = Argument" "classify cond_options ''task'' = Argument"
  "positional_default No_Positional (defaults list_options) =
     [(''limit'', A_None), (''offset'', A_Int 0), (''status'', A_None)]"
  "positional_default (Subcommands ''task_command'' task_commands) (defaults [help_option]) = [(''task_command'', A_None)]"
  by (simp_all add: cond_commands_def task_parser_def task_commands_def leaf_def argument_text positional_default_def
      defaults_def help_option_def dset_def)

lemma shown_argument:
  assumes "0 \<le> n"
  shows "\<not> prefix_of ''-'' (show_int n)"
proof -
  obtain c t where "show_nat (nat n) = c # t" "is_digit c"
    using show_nat_digits [of "nat n"] by (cases "show_nat (nat n)") auto
  with assms show ?thesis by (auto simp: show_int_def is_digit_def)
qed

lemma status_argument: "s \<in> set status_choices \<Longrightarrow> \<not> prefix_of ''-'' s"
  by (auto simp: status_choices_def all_statuses_def)

lemma scan_list_limit:
  assumes "case limit of None \<Rightarrow> True | Some n \<Rightarrow> 0 < n"
  shows "scan list_options No_Positional False ns False (option_arguments ''--limit'' (map_option show_int limit) @ rest) =
    scan list_options No_Positional False
      (case limit of None \<Rightarrow> ns | Some n \<Rightarrow> dset ''limit'' (A_Int n) ns) False rest"
proof (cases limit)
  case (Some n)
  with assms have n: "0 < n" by simp
  then have "store_value (opt ''--limit'' ''limit'' (Takes_Value Positive_Int) A_None) (show_int n) ns =
      Some (dset ''limit'' (A_Int n) ns)"
    by (simp add: store_value_def positive_int_def parse_int_show)
  from scan_option_value [OF task_list_flags(1) _ shown_argument this] n Some show ?thesis
    by (simp del: scan.simps add: option_arguments_def)
qed (simp del: scan.simps add: option_arguments_def)

lemma scan_list_offset:
  assumes "0 \<le> m"
  shows "scan list_options No_Positional False ns False (''--offset'' # show_int m # rest) =
    scan list_options No_Positional False (dset ''offset'' (A_Int m) ns) False rest"
proof -
  have "store_value (opt ''--offset'' ''offset'' (Takes_Value Non_Negative_Int) (A_Int 0)) (show_int m) ns =
      Some (dset ''offset'' (A_Int m) ns)"
    using assms by (simp add: store_value_def non_negative_int_def parse_int_show)
  from scan_option_value [OF task_list_flags(2) _ shown_argument this] assms show ?thesis by simp
qed

lemma scan_list_status:
  assumes "case status of None \<Rightarrow> True | Some s \<Rightarrow> s \<in> set status_choices"
  shows "scan list_options No_Positional False ns False (option_arguments ''--status'' status) =
    Inr (case status of None \<Rightarrow> ns | Some s \<Rightarrow> dset ''status'' (A_Str s) ns, False)"
proof (cases status)
  case (Some s)
  with assms have s: "s \<in> set status_choices" by simp
  then have "store_value (opt ''--status'' ''status'' (Takes_Choice status_choices) A_None) s ns =
      Some (dset ''status'' (A_Str s) ns)"
    by (simp add: store_value_def)
  from scan_option_value [OF task_list_flags(3) _ status_argument [OF s] this, of No_Positional False False "[]"] Some show ?thesis
    by (simp add: option_arguments_def)
qed (simp add: option_arguments_def)

text \<open>
  C38. Whatever page of the tasks is in range can be asked for: the arguments \<^verbatim>\<open>task list\<close> with a positive
  limit (or none), an offset that is not negative and a status (or none), the numbers written in
  decimal, are parsed back to exactly that limit, offset and status.
\<close>

theorem task_list_arguments_round_trip:
  assumes "page_ok limit offset" and "case status of None \<Rightarrow> True | Some s \<Rightarrow> s \<in> set status_choices"
  shows "\<exists>ns. parse_args cond_parser (task_list_arguments limit offset status) = Inr ns \<and>
    call_of ie he orders ns = Some (Engine_Call (Cmd_Task_List limit offset status))"
proof -
  let ?n0 = "[(''limit'', A_None), (''offset'', A_Int 0), (''status'', A_None)]"
  define n1 where "n1 = (case limit of None \<Rightarrow> ?n0 | Some n \<Rightarrow> dset ''limit'' (A_Int n) ?n0)"
  define sub where "sub = (case status of None \<Rightarrow> dset ''offset'' (A_Int offset) n1
      | Some s \<Rightarrow> dset ''status'' (A_Str s) (dset ''offset'' (A_Int offset) n1))"
  let ?tail = "option_arguments ''--limit'' (map_option show_int limit) @
      ''--offset'' # show_int offset # option_arguments ''--status'' status"
  have p: "case limit of None \<Rightarrow> True | Some n \<Rightarrow> 0 < n" "0 \<le> offset" using assms(1) by (simp_all add: page_ok_def)
  have "start list_options No_Positional ?tail = Inr (sub, False)"
    unfolding task_list_command(5) scan_list_limit [OF p(1)] scan_list_offset [OF p(2)] scan_list_status [OF assms(2)]
      sub_def n1_def by (rule HOL.refl)
  note inner = scan_subcommand [OF _ task_list_command(2) this, of "[help_option]" "''task_command''" False "[(''task_command'', A_None)]" False]
  let ?task = "dupdate (dset ''task_command'' (A_Str ''list'') [(''task_command'', A_None)]) sub"
  have "start [help_option] (Subcommands ''task_command'' task_commands) (''list'' # ?tail) = Inr (?task, False)"
    unfolding task_list_command(6) using inner by simp
  note outer = scan_subcommand [OF _ task_list_command(1) this, of cond_options "''command''" False _ False]
  obtain ns where ns: "parse_args cond_parser (task_list_arguments limit offset status) = Inr ns"
    "ns = dupdate (dset ''command'' (A_Str ''task'') (positional_default (Subcommands ''command'' cond_commands) (defaults cond_options))) ?task"
    by (simp del: scan.simps add: parse_args_def cond_parser_def task_list_arguments_def outer)
  have sub: "dict_ok sub" "dget sub ''limit'' = Some (case limit of None \<Rightarrow> A_None | Some n \<Rightarrow> A_Int n)"
    "dget sub ''offset'' = Some (A_Int offset)" "dget sub ''status'' = Some (case status of None \<Rightarrow> A_None | Some s \<Rightarrow> A_Str s)"
    "dget sub ''command'' = None" "dget sub ''task_command'' = None"
    unfolding sub_def n1_def by (cases limit; cases status; simp add: dset_def dget_def dict_ok_def)+
  have t: "dict_ok ?task" by (intro dict_ok_dupdate dict_ok_dset) (simp add: dict_ok_def)
  from sub have task: "dget ?task k = dget sub k" if "k \<noteq> ''task_command''" for k
    using that sub(1) by (simp add: dget_dupdate split: option.split) (simp add: dget_def)
  have below: "dget ns k = dget ?task k" if "dget ?task k \<noteq> None" for k
    using that unfolding ns(2) dget_dupdate [OF t] by auto
  have "dget ?task ''command'' = None" using task sub(5) by simp
  then have "dget ns ''command'' = Some (A_Str ''task'')" unfolding ns(2) dget_dupdate [OF t] by simp
  moreover have "dget ?task ''task_command'' = Some (A_Str ''list'')" by (simp add: dget_dupdate sub)
  moreover have "dget ns k = dget sub k" if "k \<in> {''limit'', ''offset'', ''status''}" for k
    using that below [of k] task [of k] sub(2-4) by auto
  ultimately show ?thesis
    using ns(1) below [of "''task_command''"] sub(2-4)
    by (cases limit; cases status) (simp_all add: call_of_def ns_text_def ns_int_def ns_option_def)
qed

text \<open>Witness: the second page of ten failed tasks.\<close>

lemma task_list_arguments_round_trip_witness:
  "\<forall>ie he orders. \<exists>ns. parse_args cond_parser (task_list_arguments (Some 10) 10 (Some ''failed'')) = Inr ns \<and>
    call_of ie he orders ns = Some (Engine_Call (Cmd_Task_List (Some 10) 10 (Some ''failed'')))"
  by (intro allI, rule task_list_arguments_round_trip) (simp_all add: page_ok_def status_choices_def all_statuses_def)

end
