(* ===== verification/Supervisor_Results.thy ===== *)
theory Supervisor_Results
  imports Supervisor_Properties
begin

text \<open>
  What a status says about the rest of the record.  \<^verbatim>\<open>TaskRecord\<close> has an optional result and a
  counter of attempts beside its status; the invariant of every reachable world is that they fit:
  each status has one shape of result, as a tagged union would have.
\<close>

section \<open>The shape of a record\<close>

definition failure_result :: "task_result option \<Rightarrow> bool" where
  "failure_result r \<longleftrightarrow> (case r of None \<Rightarrow> False
     | Some x \<Rightarrow> \<not> res_success x \<and> res_output x = PNone \<and> res_error x \<noteq> None \<and> res_completed_at x \<noteq> None)"

definition started_result :: "task_result option \<Rightarrow> bool" where
  "started_result r \<longleftrightarrow> (case r of None \<Rightarrow> False | Some x \<Rightarrow> res_started_at x \<noteq> None)"

definition success_shape :: "task_result option \<Rightarrow> bool" where
  "success_shape r \<longleftrightarrow> (case r of None \<Rightarrow> False
     | Some x \<Rightarrow> res_success x \<and> res_error x = None \<and> res_started_at x \<noteq> None \<and> res_completed_at x \<noteq> None)"

fun result_fits :: "task_status \<Rightarrow> task_result option \<Rightarrow> bool" where
  "result_fits COMPLETED r = success_shape r"
| "result_fits FAILED r = (failure_result r \<and> started_result r)"
| "result_fits ESCALATED r = (failure_result r \<and> started_result r)"
| "result_fits POLICY_DENIED r = (failure_result r \<and> \<not> started_result r)"
| "result_fits CANCELLED r = (failure_result r \<and> \<not> started_result r)"
| "result_fits s r = (r = None)"

definition attempts_fit :: "task_record \<Rightarrow> bool" where
  "attempts_fit t \<longleftrightarrow>
     (if ran (Some (task_status t)) then 1 \<le> task_attempt t \<and> task_attempt t \<le> max 0 (task_max_retries t) + 1
      else task_attempt t = 0)"

definition record_fits :: "task_record \<Rightarrow> bool" where
  "record_fits t \<longleftrightarrow> result_fits (task_status t) (task_result t) \<and> attempts_fit t"

definition results_ok :: "world \<Rightarrow> bool" where
  "results_ok w \<longleftrightarrow> (\<forall>k t. ms_get (w_store w) k = Some t \<longrightarrow> record_fits t)"

definition fits :: "tw \<Rightarrow> bool" where
  "fits tw \<longleftrightarrow> record_fits (fst tw) \<and> results_ok (snd tw)"

lemma results_okD: "results_ok w \<Longrightarrow> get_task w tid = Inr t \<Longrightarrow> fits (t, w)"
  by (simp add: fits_def results_ok_def get_task_Inr)

lemma results_ok_store: "w_store w' = w_store w \<Longrightarrow> results_ok w' = results_ok w"
  by (simp add: results_ok_def)

lemma record_fits_cong:
  "task_status t' = task_status t \<Longrightarrow> task_result t' = task_result t \<Longrightarrow> task_attempt t' = task_attempt t \<Longrightarrow>
   task_max_retries t' = task_max_retries t \<Longrightarrow> record_fits t' = record_fits t"
  by (simp add: record_fits_def attempts_fit_def)

section \<open>The helpers\<close>

lemma append_audit_fits [simp]: "fits (append_audit sv a b f s m ts tw) = fits tw"
  by (auto simp: append_audit_def or_now_def now_utc_def Let_def fits_def results_ok_def record_fits_def
      attempts_fit_def split: prod.splits option.splits)

lemma save_task_fits: "fits tw \<Longrightarrow> fits (save_task sv ts tw)"
  by (auto simp: save_task_def or_now_def now_utc_def Let_def fits_def results_ok_def record_fits_def
      attempts_fit_def split: prod.splits option.splits)

lemma emit_event_fits [simp]: "fits (emit_event sv et err m tw) = fits tw"
  by (auto simp: emit_event_def now_utc_def Let_def fits_def results_ok_def split: prod.splits)

lemma transition_fits:
  assumes "record_fits (t\<lparr>task_status := s\<rparr>)" and "results_ok w"
  shows "fits (transition_status sv s a b et m err ts (t, w))"
proof -
  obtain x w1 where o: "or_now sv ts w = (x, w1)" by fastforce
  have "w_store w1 = w_store w" using o by (auto simp: or_now_def now_utc_def split: option.splits)
  with assms have "fits (t\<lparr>task_status := s\<rparr>, w1)" by (simp add: fits_def results_ok_def)
  then show ?thesis
    by (simp add: transition_status_def Let_def o save_task_fits)
qed

lemma now_utc_fits: "now_utc sv w = (x, w') \<Longrightarrow> results_ok w' = results_ok w"
  by (auto simp: now_utc_def results_ok_def)

lemma guild_publish_fits: "guild_publish sv c h hint w = (r, w') \<Longrightarrow> results_ok w' = results_ok w"
  by (auto simp: guild_publish_def results_ok_def split: option.splits if_splits prod.splits)

lemma guild_publish_success_fits: "guild_publish_success sv c i w = (r, w') \<Longrightarrow> results_ok w' = results_ok w"
  by (auto simp: guild_publish_success_def results_ok_def split: option.splits if_splits prod.splits)

lemma execute_fits: "execute_with_timeout c p ctx ts w = (r, w') \<Longrightarrow> results_ok w' = results_ok w"
  by (auto simp: execute_with_timeout_def Let_def results_ok_def split: prod.splits option.splits if_splits)

lemma monotonic_store: "monotonic sv w = (x, w') \<Longrightarrow> w_store w' = w_store w"
  by (auto simp: monotonic_def Let_def)

lemma wait_window_fits: "wait_for_execution_window sv n w = (r, w') \<Longrightarrow> results_ok w' = results_ok w"
  by (rule results_ok_store)
    (auto simp: wait_for_execution_window_def Let_def time_sleep_def dest!: monotonic_store
      split: sum.splits option.splits prod.splits if_splits)

section \<open>A run\<close>

text \<open>During a run the task held has been started.\<close>

definition running :: "tw \<Rightarrow> bool" where
  "running tw \<longleftrightarrow> fits tw \<and> ran (Some (task_status (fst tw)))"

lemma ran_simps [simp]:
  "ran (Some RUNNING)" "ran (Some COMPLETED)" "ran (Some FAILED)" "ran (Some ESCALATED)"
  "\<not> ran (Some PENDING)" "\<not> ran (Some APPROVED)" "\<not> ran (Some AWAITING_APPROVAL)"
  "\<not> ran (Some POLICY_DENIED)" "\<not> ran (Some CANCELLED)"
  by (simp_all add: ran_def)

lemma append_audit_status [simp]: "task_status (fst (append_audit sv a b f s m ts tw)) = task_status (fst tw)"
  by (auto simp: append_audit_def or_now_def now_utc_def Let_def split: prod.splits option.splits)

lemma save_task_status [simp]: "task_status (fst (save_task sv ts tw)) = task_status (fst tw)"
  by (auto simp: save_task_def or_now_def now_utc_def Let_def split: prod.splits option.splits)

lemma transition_status_status [simp]: "task_status (fst (transition_status sv s a b et m err ts tw)) = s"
  by (auto simp: transition_status_def Let_def split: prod.splits)

lemma running_attempts:
  "running tw \<Longrightarrow> 1 \<le> task_attempt (fst tw) \<and> task_attempt (fst tw) \<le> max 0 (task_max_retries (fst tw)) + 1"
  by (simp add: running_def fits_def record_fits_def attempts_fit_def)

text \<open>A started task that is given the result of its next status moves there.\<close>

lemma transition_running:
  assumes "ran (Some s)" and "result_fits s res" and "results_ok w"
    and "1 \<le> task_attempt t" and "task_attempt t \<le> max 0 (task_max_retries t) + 1"
  shows "running (transition_status sv s a b et m err ts (t\<lparr>task_result := res\<rparr>, w))"
  using assms transition_fits [where t = "t\<lparr>task_result := res\<rparr>" and s = s and w = w]
  by (simp add: running_def record_fits_def attempts_fit_def)

lemma do_escalate_fits:
  assumes "do_escalate sv h st e rs (t, w) = (r, tw')" and "results_ok w"
    and "1 \<le> task_attempt t" and "task_attempt t \<le> max 0 (task_max_retries t) + 1"
  shows "running tw'"
  using assms(1)
proof (cases rule: do_escalate_stages)
  case (1 res md x w2 t3 w3 w4)
  obtain m where "res = Some \<lparr>res_success = False, res_output = PNone, res_error = Some (exc_str e),
      res_metadata = m, res_started_at = Some st, res_completed_at = Some x\<rparr>"
    using 1(9) by blast
  then have "result_fits ESCALATED res" by (simp add: failure_result_def started_result_def)
  moreover have "results_ok w2" using assms(2) 1(2) results_ok_store by blast
  ultimately have "running (t3, w3)"
    using transition_running [OF _ _ _ assms(3,4), of ESCALATED res w2] 1(6) by (metis ran_simps(4))
  then show ?thesis
    using guild_publish_fits [OF 1(7)] by (simp add: 1(8) running_def fits_def)
qed

lemma run_attempt_fits:
  assumes "running (t, w)" and "run_attempt sv c ec st (t, w) = (r, tw')"
  shows "running tw'"
  using assms(2)
proof (cases rule: run_attempt_stages)
  case (failed p e w1)
  with assms(1) execute_fits [OF failed(2)] show ?thesis by (simp add: running_def fits_def)
next
  case (completed p out w1 x w2 t3 w3 g w4)
  have "results_ok w2"
    using assms(1) execute_fits [OF completed(2)] now_utc_fits [OF completed(3)]
    by (simp add: running_def fits_def)
  moreover have "result_fits COMPLETED (Some (success_result out st x))"
    by (simp add: success_shape_def success_result_def)
  ultimately have "running (t3, w3)"
    using transition_running [of COMPLETED "Some (success_result out st x)" w2 t] running_attempts [OF assms(1)]
      completed(4) by (metis fst_conv ran_simps(2))
  then show ?thesis
    using guild_publish_success_fits [OF completed(5)] by (simp add: completed(6) running_def fits_def)
qed (use assms(1) in simp)

lemma retry_or_escalate_fits:
  assumes run: "running (t, w)" and ex: "retry_or_escalate sv st h e d (t, w) = (n, tw')"
    and more: "rd_should_retry d \<Longrightarrow> task_attempt t \<le> task_max_retries t"
  shows "running tw'"
proof -
  note a = running_attempts [OF run, simplified]
  have ok: "results_ok w" using run by (simp add: running_def fits_def)
  show ?thesis
  proof (cases "rd_should_retry d")
    case False
    with ex run show ?thesis
      using do_escalate_fits [OF _ ok] a
      by (auto simp: retry_or_escalate_cases split: if_splits prod.splits sum.splits)
  next
    case True
    let ?t = "retry_task d t"
    have same: "task_status ?t = task_status t" "task_result ?t = task_result t"
        "task_attempt ?t = task_attempt t + 1" "task_max_retries ?t = task_max_retries t"
      by (simp_all add: retry_task_def Let_def split: option.splits)
    have b: "1 \<le> task_attempt ?t" "task_attempt ?t \<le> max 0 (task_max_retries ?t) + 1"
      using a more [OF True] by (simp_all add: same)
    have t: "running (?t, w)"
      using run b by (simp add: running_def fits_def record_fits_def attempts_fit_def same)
    show ?thesis
    proof (cases "should_escalate sv h")
      case esc: True
      with ex True show ?thesis
        using do_escalate_fits [OF _ ok b] by (auto simp: retry_or_escalate_cases split: prod.splits sum.splits)
    next
      case False
      obtain t2 w2 where r: "retry_announced sv e d (?t, w) = (t2, w2)" by fastforce
      have "running (retry_announced sv e d (?t, w))"
        using t by (simp add: running_def retry_announced_def save_task_fits)
      with r have "running (t2, retry_sleep d w2)"
        by (auto simp: running_def fits_def retry_sleep_def time_sleep_def results_ok_def split: option.splits)
      with ex True False r show ?thesis by (simp add: retry_or_escalate_cases)
    qed
  qed
qed

lemma handle_failure_fits:
  assumes "running (t, w)" and "handle_failure sv st h e (t, w) = (n, h', tw')"
  shows "running tw'"
  using assms(2)
proof (cases rule: handle_failure_stages)
  case (decided fp t1 w1)
  have "running (save_task sv None (append_audit sv ''supervisor'' ''failure_recorded'' None None
         (failure_dump (failure_of t e fp)) None (t, w)))"
    using assms(1) by (simp add: running_def save_task_fits)
  then have r1: "running (t1, w1\<lparr>w_decides := Suc (w_decides w1)\<rparr>)"
    unfolding decided(3) by (simp add: running_def fits_def results_ok_def)
  have same: "task_attempt t1 = task_attempt t" "task_max_retries t1 = task_max_retries t"
    using arg_cong [OF decided(3), of fst]
    by (simp_all flip: save_task_task append_audit_task) (metis append_audit_task fst_conv save_task_task)+
  from decided(4) show ?thesis
  proof (elim disjE exE conjE)
    fix d assume d: "retry_decide (sv_retry_strategy sv) (w_decides w1) (failure_of t e fp) = Inr d"
      and ex: "retry_or_escalate sv st h' e d (t1, w1\<lparr>w_decides := Suc (w_decides w1)\<rparr>) = (n, tw')"
    have "rd_should_retry d \<Longrightarrow> task_attempt t1 \<le> task_max_retries t1"
      using retry_decide_retry_iff [OF d] by (simp add: same failure_of_def)
    from retry_or_escalate_fits [OF r1 ex this] show ?thesis .
  qed (use r1 in simp)
qed (use assms(1) in simp)

lemma run_loop_fits:
  "run_loop sv c ec st h tw = (r, h', tw') \<Longrightarrow> running tw \<Longrightarrow> running tw'"
proof (induction sv c ec st h tw arbitrary: r h' tw' rule: run_loop.induct)
  case (1 sv c ec st h tw)
  obtain x tw1 where a: "run_attempt sv c ec st tw = (x, tw1)" by (meson surj_pair)
  have fa: "running tw1" using run_attempt_fits a 1(3) by (metis prod.collapse)
  show ?case
  proof (cases x)
    case None
    with 1(2) a fa show ?thesis by (simp add: run_loop.simps [of sv c ec st h tw])
  next
    case (Some e)
    show ?thesis
    proof (cases "is_exception e")
      case False
      with 1(2) a fa Some show ?thesis by (simp add: run_loop.simps [of sv c ec st h tw])
    next
      case True
      obtain n h2 tw2 where f: "handle_failure sv st h e tw1 = (n, h2, tw2)" by (metis prod_cases3)
      have ff: "running tw2" using handle_failure_fits f fa by (metis prod.collapse)
      show ?thesis
      proof (cases n)
        case Again
        have "run_loop sv c ec st h2 tw2 = (r, h', tw')"
          using 1(2) a Some True f Again by (simp add: run_loop.simps [of sv c ec st h tw])
        from 1(1) [OF a [symmetric] Some _ f [symmetric] Again HOL.refl this ff] True show ?thesis by simp
      qed (use 1(2) a Some True f ff in \<open>simp_all add: run_loop.simps [of sv c ec st h tw]\<close>)
    qed
  qed
qed

section \<open>Every operation\<close>

lemma finish_run_fits:
  assumes "running (t, w)" and "finish_run sv st lx h (t, w) = (r, w')"
  shows "results_ok w'" and "r = Inr t' \<Longrightarrow> record_fits t'"
proof -
  have "results_ok w' \<and> (\<forall>t'. r = Inr t' \<longrightarrow> record_fits t')"
    using assms(2)
  proof (cases rule: finish_run_stages)
    case (guild e e')
    with assms(1) guild_publish_fits [OF guild(2)] show ?thesis by (simp add: running_def fits_def)
  next
    case (failed e w1 x w2 t3)
    have "results_ok w2"
      using assms(1) guild_publish_fits [OF failed(2)] now_utc_fits [OF failed(3)]
      by (simp add: running_def fits_def)
    then have "running (t3, w')"
      unfolding failed(4) [symmetric]
      by (intro transition_running)
        (use running_attempts [OF assms(1)] in \<open>simp_all add: failure_result_def started_result_def\<close>)
    with failed(5) show ?thesis by (simp add: running_def fits_def)
  qed (use assms(1) in \<open>simp_all add: running_def fits_def\<close>)
  then show "results_ok w'" and "r = Inr t' \<Longrightarrow> record_fits t'" by simp_all
qed

lemma apply_suggestion_fits:
  assumes "fits (t, w)" and "apply_suggestion sv (t, w) = (r, tw')"
  shows "fits tw' \<and> task_status (fst tw') = task_status t"
proof -
  have "fits (t\<lparr>task_input := i\<rparr>, w)" for i
    using assms(1) by (simp add: fits_def record_fits_def attempts_fit_def)
  with apply_suggestion_cases [OF assms(2)] assms(1) show ?thesis by (auto intro: save_task_fits)
qed

lemma execute_task_fits:
  assumes f: "fits (t, w)" and st: "executable_status (task_status t)"
    and ex: "execute_task sv c (t, w) = (r, w')"
  shows "results_ok w' \<and> (\<forall>t'. r = Inr t' \<longrightarrow> record_fits t')"
  using ex
proof (cases rule: execute_task_stages)
  case (suggestion e tw1)
  with apply_suggestion_fits [OF f] show ?thesis by (auto simp: fits_def)
next
  case (controls t1 w1 e)
  with apply_suggestion_fits [OF f] show ?thesis by (auto simp: fits_def)
next
  case (window t1 w1 e)
  with apply_suggestion_fits [OF f window(1)] wait_window_fits [OF window(2)] show ?thesis
    by (auto simp: fits_def)
next
  case (ran t1 w1 ec w2 x w3 t4 w4 lr h t5 w5)
  note s = apply_suggestion_fits [OF f ran(1)]
  have "results_ok w3"
    using s wait_window_fits [OF ran(3)] now_utc_fits [OF ran(4)] by (simp add: fits_def)
  moreover have "task_attempt t1 = 0 \<and> task_result t1 = None"
    using s st by (auto simp: fits_def record_fits_def attempts_fit_def executable_status_def)
  ultimately have "fits (t4, w4)"
    unfolding ran(5) [symmetric] by (intro transition_fits) (simp_all add: record_fits_def attempts_fit_def)
  moreover have "task_status t4 = RUNNING" using arg_cong [OF ran(5), of "\<lambda>p. task_status (fst p)"] by simp
  ultimately have t5: "running (t5, w5)" using run_loop_fits [OF ran(6)] by (simp add: running_def)
  from ran(7) show ?thesis
  proof
    assume "\<exists>e. lr = Inl e \<and> r = Inl e \<and> w' = w5"
    with t5 show ?thesis by (auto simp: running_def fits_def)
  next
    assume "\<exists>lx. lr = Inr lx \<and> finish_run sv x lx h (t5, w5) = (r, w')"
    then obtain lx where "finish_run sv x lx h (t5, w5) = (r, w')" by blast
    from finish_run_fits [OF t5 this] show ?thesis by blast
  qed
qed

lemma apply_policy_fits:
  assumes "fits (t, w)" and "task_status t = PENDING"
  shows "fits (apply_policy sv d (t, w))"
proof -
  have a: "task_attempt t = 0" "task_result t = None" "results_ok w"
    using assms by (simp_all add: fits_def record_fits_def attempts_fit_def)
  show ?thesis
  proof (cases "pd_decision d")
    case ALLOW
    with assms(1) show ?thesis by (simp add: apply_policy_def save_task_fits Let_def)
  next
    case DENY
    with a show ?thesis
      by (simp add: apply_policy_def Let_def now_utc_def)
        (intro transition_fits; simp add: record_fits_def attempts_fit_def failure_result_def started_result_def
          results_ok_def)
  next
    case REQUIRE_APPROVAL
    with a show ?thesis
      by (simp add: apply_policy_def Let_def) (intro transition_fits; simp add: record_fits_def attempts_fit_def)
  qed
qed

lemma run_task_fits:
  assumes ok: "results_ok w" and ex: "run_task sv tid w = (r, w')"
  shows "results_ok w' \<and> (\<forall>t'. r = Inr t' \<longrightarrow> record_fits t')"
  using ex
proof (cases rule: run_task_stages)
  case (idle t)
  with ok results_okD [OF ok] show ?thesis by (auto simp: fits_def)
next
  case (gated t c t1)
  have "fits (t1, w')"
    unfolding gated(5) [symmetric] approval_gate_def
    using results_okD [OF ok gated(1)] gated(2)
    by (intro transition_fits) (simp_all add: fits_def record_fits_def attempts_fit_def)
  with gated(6) show ?thesis by (simp add: fits_def)
next
  case (stopped t c d t1)
  from apply_policy_fits [OF results_okD [OF ok stopped(1)] stopped(2), of sv d] stopped(6,8) show ?thesis
    by (simp add: fits_def)
next
  case (allowed t c d t1 w1)
  from apply_policy_fits [OF results_okD [OF ok allowed(1)] allowed(2), of sv d] allowed(6)
  have "fits (t1, w1)" by simp
  from execute_task_fits [OF this _ allowed(8)] allowed(7) show ?thesis by (simp add: executable_status_def)
next
  case (approved t c)
  from execute_task_fits [OF results_okD [OF ok approved(1)] _ approved(4)] approved(2) show ?thesis
    by (simp add: executable_status_def)
qed (use ok in auto)

lemma create_task_record_fits:
  assumes ok: "results_ok w" and ex: "create_task_record sv sub enqueue w = (r, w')"
  shows "results_ok w'" and "r = Inr t' \<Longrightarrow> record_fits t'"
proof -
  have f: "record_fits (fresh_task sv sub w)"
    by (simp add: fresh_task_def new_task_record_def record_fits_def attempts_fit_def)
  then have c: "results_ok (created_world sv sub w)"
    using ok by (simp add: results_ok_def created_world_def)
  have q: "results_ok ((created_world sv sub w)\<lparr>w_queue := q\<rparr>)" for q
    using c by (simp add: results_ok_def)
  show "results_ok w'" and "r = Inr t' \<Longrightarrow> record_fits t'"
    using ex ok f c q by (auto simp: create_task_record_eq split: sum.splits if_splits)
qed

lemma sup_exec_fits:
  assumes ok: "results_ok w" and ex: "sup_exec sv op w = (r, w')"
  shows "results_ok w' \<and> (\<forall>t'. r = Inr t' \<longrightarrow> record_fits t')"
proof (cases op)
  case (Submit sub)
  with ex create_task_record_fits [OF ok] show ?thesis by (auto simp: submit_def)
next
  case (Run_Submission sub)
  obtain s w1 where c: "create_task_record sv sub False w = (s, w1)" by fastforce
  note cf = create_task_record_fits(1) [OF ok c]
  show ?thesis
  proof (cases s)
    case (Inl e)
    with ex Run_Submission c cf show ?thesis by (auto simp: run_submission_def)
  next
    case (Inr t)
    with ex Run_Submission c have "run_task sv (task_id t) w1 = (r, w')" by (simp add: run_submission_def)
    from run_task_fits [OF cf this] show ?thesis .
  qed
next
  case Run_Next
  have q: "results_ok (w\<lparr>w_queue := q\<rparr>)" for q using ok by (simp add: results_ok_def)
  from ex Run_Next run_task_fits [OF q] q show ?thesis
    by (auto simp: run_next_def split: prod.splits option.splits)
next
  case (Run_Task tid)
  with ex run_task_fits [OF ok] show ?thesis by simp
next
  case (Approve tid actor md run)
  with ex have "approve_task sv tid actor md run w = (r, w')" by simp
  then show ?thesis
  proof (cases rule: approve_task_stages)
    case (approved t t1 w1)
    have "fits (t1, w1)"
      unfolding approved(3) [symmetric] using results_okD [OF ok approved(1)] approved(2)
      by (intro transition_fits) (simp_all add: fits_def record_fits_def attempts_fit_def)
    then have f: "results_ok w1" "record_fits t1" by (simp_all add: fits_def)
    have "results_ok (w1\<lparr>w_queue := q\<rparr>)" for q using f(1) by (simp add: results_ok_def)
    with approved(4) f run_task_fits [OF f(1)] show ?thesis by auto
  qed (use ok in simp)
next
  case (Cancel tid actor reason md)
  with ex have "cancel_task sv tid actor reason md w = (r, w')" by simp
  then show ?thesis
  proof (cases "get_task w tid")
    case (Inl e)
    with ex Cancel ok show ?thesis by (auto simp: cancel_task_def)
  next
    case (Inr t)
    note f = results_okD [OF ok Inr]
    have "fits (transition_status sv CANCELLED a b et m err ts
        (t\<lparr>task_result := Some \<lparr>res_success = False, res_output = PNone, res_error = Some e, res_metadata = md,
           res_started_at = None, res_completed_at = Some x\<rparr>\<rparr>, w\<lparr>w_tick := n\<rparr>))"
      if "task_status t = AWAITING_APPROVAL" for a b et m err ts e md x n
      using f that ok
      by (intro transition_fits)
        (simp_all add: fits_def record_fits_def attempts_fit_def failure_result_def started_result_def results_ok_def)
    with Inr ex Cancel ok show ?thesis
      by (auto simp: cancel_task_def Let_def now_utc_def fits_def split: if_splits prod.splits)
        (metis fst_conv snd_conv)+
  qed
qed

lemma reachable_results_ok: "reachable sv w \<Longrightarrow> results_ok w"
proof (induction rule: reachable.induct)
  case (init g q)
  then show ?case by (simp add: results_ok_def world_init_def ms_get_def ms_init_def)
next
  case (step w op r w')
  with sup_exec_fits [OF step.IH step.hyps(2)] show ?case by blast
qed



end
