(* ===== verification/Http_App.thy ===== *)
theory Http_App
  imports Server Api_Properties Cluster_Properties Supervisor_Results
begin

text \<open>
  The HTTP application as a whole (\<^verbatim>\<open>engine/api/app.py\<close> over \<^verbatim>\<open>engine/api/routes\<close> and
  \<^verbatim>\<open>engine/api/cluster/routes.py\<close>): the routing table that the decorators build, the parameters each
  endpoint takes from the request, and what becomes of one request on its way through the
  authentication middleware, the router, the endpoint and the exception handlers.

  The framework is a parameter with the behaviour it documents: the router finds a route whose method
  and path template match the request, when there is one (\<open>router_ok\<close>); a body or query that does not
  fit its model is answered with 422; an \<^verbatim>\<open>HTTPException\<close> with its status and its detail.
\<close>

section \<open>The routing table\<close>

datatype http_method = GET | POST | DELETE

datatype segment = Fixed string | Path_Param string

datatype endpoint =
    Tasks_List | Tasks_Submit | Tasks_Run | Tasks_Get | Tasks_Run_Queued | Tasks_Approve | Tasks_Cancel
  | Workflows_Run | Workflows_Trace
  | Capabilities_List | Capabilities_Get
  | Health | Snapshot
  | Events_Stream
  | Triggers_Ingest | Triggers_List
  | Engines_List | Engines_Register | Engines_Get | Engines_Deregister | Engines_Heartbeat
  | Engines_Health | Engines_Snapshot | Engines_Run | Engines_Auto_Route
  | Root

text \<open>A decorated endpoint: method, path, status of a plain return, and the statuses it documents.\<close>

record route =
  rt_method :: http_method
  rt_path :: "segment list"
  rt_endpoint :: endpoint
  rt_status :: int
  rt_responses :: "int list"

definition get_route :: "segment list \<Rightarrow> endpoint \<Rightarrow> int list \<Rightarrow> route" where
  "get_route path ep responses =
     \<lparr>rt_method = GET, rt_path = path, rt_endpoint = ep, rt_status = 200, rt_responses = responses\<rparr>"

definition post_route :: "segment list \<Rightarrow> endpoint \<Rightarrow> int \<Rightarrow> int list \<Rightarrow> route" where
  "post_route path ep status responses =
     \<lparr>rt_method = POST, rt_path = path, rt_endpoint = ep, rt_status = status, rt_responses = responses\<rparr>"

text \<open>\<^verbatim>\<open>APIRouter(prefix=...)\<close> and \<^verbatim>\<open>include_router(..., prefix=...)\<close>.\<close>

definition with_prefix :: "string \<Rightarrow> route list \<Rightarrow> route list" where
  "with_prefix p rs = map (\<lambda>r. r\<lparr>rt_path := Fixed p # rt_path r\<rparr>) rs"

subsection \<open>routes/tasks.py\<close>

definition list_tasks_route :: route where
  "list_tasks_route = get_route [] Tasks_List [200]"

definition submit_task_route :: route where
  "submit_task_route = post_route [] Tasks_Submit 202 [202, 400]"

definition run_task_inline_route :: route where
  "run_task_inline_route = post_route [Fixed ''run''] Tasks_Run 200 [200, 400]"

definition get_task_route :: route where
  "get_task_route = get_route [Path_Param ''task_id''] Tasks_Get [200, 404]"

definition run_queued_task_route :: route where
  "run_queued_task_route = post_route [Path_Param ''task_id'', Fixed ''run''] Tasks_Run_Queued 200 [200, 404]"

definition approve_task_route :: route where
  "approve_task_route = post_route [Path_Param ''task_id'', Fixed ''approve''] Tasks_Approve 200 [200, 400, 404]"

definition cancel_task_route :: route where
  "cancel_task_route = post_route [Path_Param ''task_id'', Fixed ''cancel''] Tasks_Cancel 200 [200, 400, 404]"

definition tasks_router :: "route list" where
  "tasks_router = with_prefix ''tasks''
     [list_tasks_route, submit_task_route, run_task_inline_route, get_task_route, run_queued_task_route,
      approve_task_route, cancel_task_route]"

subsection \<open>routes/workflows.py, capabilities.py, health.py, events.py, triggers.py\<close>

definition run_workflow_route :: route where
  "run_workflow_route = post_route [] Workflows_Run 200 [200, 400, 501]"

definition get_workflow_trace_route :: route where
  "get_workflow_trace_route = get_route [Path_Param ''workflow_id''] Workflows_Trace [200, 404]"

definition workflows_router :: "route list" where
  "workflows_router = with_prefix ''workflows'' [run_workflow_route, get_workflow_trace_route]"

definition list_capabilities_route :: route where
  "list_capabilities_route = get_route [] Capabilities_List [200]"

definition get_capability_route :: route where
  "get_capability_route = get_route [Path_Param ''name''] Capabilities_Get [200, 404]"

definition capabilities_router :: "route list" where
  "capabilities_router = with_prefix ''capabilities'' [list_capabilities_route, get_capability_route]"

definition health_check_route :: route where
  "health_check_route = get_route [Fixed ''health''] Health [200, 503]"

definition get_snapshot_route :: route where
  "get_snapshot_route = get_route [Fixed ''snapshot''] Snapshot [200]"

definition stream_events_route :: route where
  "stream_events_route = get_route [Fixed ''events''] Events_Stream [200, 503]"

definition ingest_webhook_route :: route where
  "ingest_webhook_route = post_route [Path_Param ''trigger_name''] Triggers_Ingest 202 [202, 404, 503]"

definition list_triggers_route :: route where
  "list_triggers_route = get_route [] Triggers_List [200, 503]"

definition triggers_router :: "route list" where
  "triggers_router = with_prefix ''triggers'' [ingest_webhook_route, list_triggers_route]"

subsection \<open>cluster/routes.py\<close>

definition list_engines_route :: route where
  "list_engines_route = get_route [] Engines_List [200]"

definition register_engine_route :: route where
  "register_engine_route = post_route [] Engines_Register 201 [201]"

definition get_engine_route :: route where
  "get_engine_route = get_route [Path_Param ''engine_id''] Engines_Get [200, 404]"

definition deregister_engine_route :: route where
  "deregister_engine_route =
     \<lparr>rt_method = DELETE, rt_path = [Path_Param ''engine_id''], rt_endpoint = Engines_Deregister,
      rt_status = 204, rt_responses = [204, 404]\<rparr>"

definition engine_heartbeat_route :: route where
  "engine_heartbeat_route =
     post_route [Path_Param ''engine_id'', Fixed ''heartbeat''] Engines_Heartbeat 200 [200, 404]"

definition get_engine_health_route :: route where
  "get_engine_health_route = get_route [Path_Param ''engine_id'', Fixed ''health''] Engines_Health [200, 404, 502]"

definition get_engine_snapshot_route :: route where
  "get_engine_snapshot_route =
     get_route [Path_Param ''engine_id'', Fixed ''snapshot''] Engines_Snapshot [200, 404, 502]"

definition run_task_on_engine_route :: route where
  "run_task_on_engine_route =
     post_route [Path_Param ''engine_id'', Fixed ''tasks'', Fixed ''run''] Engines_Run 200 [200, 404, 502]"

definition run_task_auto_route_route :: route where
  "run_task_auto_route_route = post_route [Fixed ''tasks'', Fixed ''run''] Engines_Auto_Route 200 [200, 400, 502]"

definition cluster_router :: "route list" where
  "cluster_router = with_prefix ''engines''
     [list_engines_route, register_engine_route, get_engine_route, deregister_engine_route,
      engine_heartbeat_route, get_engine_health_route, get_engine_snapshot_route, run_task_on_engine_route,
      run_task_auto_route_route]"

text \<open>The path \<^verbatim>\<open>/\<close> is one empty segment.\<close>

definition root_route :: route where
  "root_route = get_route [Fixed []] Root []"

definition app_routes :: "route list" where
  "app_routes =
     with_prefix ''v1'' (tasks_router @ workflows_router @ capabilities_router @
       [health_check_route, get_snapshot_route] @ [stream_events_route] @ triggers_router @ cluster_router) @
     [root_route]"

section \<open>Matching a path\<close>

text \<open>A path is its segments; a path parameter is one segment, not empty.\<close>

definition segments :: "string \<Rightarrow> string list" where
  "segments path = tl (split_on CHR ''/'' path)"

fun match_path :: "segment list \<Rightarrow> string list \<Rightarrow> string dict option" where
  "match_path [] [] = Some []"
| "match_path (Fixed l # ts) (s # ss) = (if s = l then match_path ts ss else None)"
| "match_path (Path_Param p # ts) (s # ss) = (if s = [] then None else map_option (Cons (p, s)) (match_path ts ss))"
| "match_path ts ss = None"

definition matches :: "route \<Rightarrow> http_method \<Rightarrow> string \<Rightarrow> string dict option" where
  "matches r m path = (if rt_method r = m \<and> prefix_of ''/'' path then match_path (rt_path r) (segments path) else None)"

type_synonym router = "route list \<Rightarrow> http_method \<Rightarrow> string \<Rightarrow> (route \<times> string dict) option"

text \<open>What the framework documents of its router: it finds a matching route when there is one.\<close>

definition router_ok :: "router \<Rightarrow> bool" where
  "router_ok pick \<longleftrightarrow> (\<forall>rs m path.
     (case pick rs m path of
        None \<Rightarrow> \<forall>r \<in> set rs. matches r m path = None
      | Some (r, ps) \<Rightarrow> r \<in> set rs \<and> matches r m path = Some ps))"

text \<open>One that does: the first route that matches.\<close>

fun first_match :: router where
  "first_match [] m path = None"
| "first_match (r # rs) m path = (case matches r m path of Some ps \<Rightarrow> Some (r, ps) | None \<Rightarrow> first_match rs m path)"

lemma first_match_router_ok: "router_ok first_match"
proof -
  have "case first_match rs m path of
        None \<Rightarrow> \<forall>r \<in> set rs. matches r m path = None
      | Some (r, ps) \<Rightarrow> r \<in> set rs \<and> matches r m path = Some ps" for rs m path
    by (induction rs) (auto split: option.splits)
  then show ?thesis by (simp add: router_ok_def)
qed

section \<open>Every endpoint at its path\<close>

text \<open>The path of a template with values for its parameters.\<close>

fun fill :: "segment list \<Rightarrow> string list \<Rightarrow> string list" where
  "fill [] vs = []"
| "fill (Fixed l # ts) vs = l # fill ts vs"
| "fill (Path_Param p # ts) (v # vs) = v # fill ts vs"
| "fill (Path_Param p # ts) [] = [] # fill ts []"

fun param_names :: "segment list \<Rightarrow> string list" where
  "param_names [] = []"
| "param_names (Fixed l # ts) = param_names ts"
| "param_names (Path_Param p # ts) = p # param_names ts"

definition path_of :: "string list \<Rightarrow> string" where
  "path_of ss = concat (map (\<lambda>s. CHR ''/'' # s) ss)"

definition url_for :: "route \<Rightarrow> string list \<Rightarrow> string" where
  "url_for r vs = path_of (fill (rt_path r) vs)"

lemma split_on_path:
  "\<forall>s \<in> set (t # ts). CHR ''/'' \<notin> set s \<Longrightarrow> split_on CHR ''/'' (t @ path_of ts) = t # ts"
proof (induction ts arbitrary: t)
  case Nil
  then show ?case by (simp add: path_of_def split_on_none)
next
  case (Cons u us)
  from Cons.IH [of u] Cons.prems have "split_on CHR ''/'' (u @ path_of us) = u # us" by simp
  moreover have "t @ path_of (u # us) = t @ CHR ''/'' # u @ path_of us" by (simp add: path_of_def)
  ultimately show ?case using Cons.prems split_on_append [of "CHR ''/''" t "u @ path_of us"] by simp
qed

lemma segments_path_of:
  assumes "ss \<noteq> []" and "\<forall>s \<in> set ss. CHR ''/'' \<notin> set s"
  shows "prefix_of ''/'' (path_of ss)" and "segments (path_of ss) = ss"
proof -
  obtain t ts where ss: "ss = t # ts" using assms(1) by (cases ss) auto
  show "prefix_of ''/'' (path_of ss)" by (simp add: ss path_of_def)
  have "path_of ss = CHR ''/'' # t @ path_of ts" by (simp add: ss path_of_def)
  moreover have "split_on CHR ''/'' (t @ path_of ts) = t # ts" using assms(2) unfolding ss by (rule split_on_path)
  ultimately show "segments (path_of ss) = ss" by (simp add: segments_def ss)
qed

lemma match_fill:
  "length vs = length (param_names ts) \<Longrightarrow> \<forall>v \<in> set vs. v \<noteq> [] \<Longrightarrow>
    match_path ts (fill ts vs) = Some (zip (param_names ts) vs)"
  by (induction ts vs rule: fill.induct) auto

lemma fill_no_slash:
  "length vs = length (param_names ts) \<Longrightarrow> \<forall>v \<in> set vs. CHR ''/'' \<notin> set v \<Longrightarrow>
    \<forall>l. Fixed l \<in> set ts \<longrightarrow> CHR ''/'' \<notin> set l \<Longrightarrow> \<forall>s \<in> set (fill ts vs). CHR ''/'' \<notin> set s"
  by (induction ts vs rule: fill.induct) auto

text \<open>Two templates that some path matches both.\<close>

fun overlaps :: "segment list \<Rightarrow> segment list \<Rightarrow> bool" where
  "overlaps [] [] = True"
| "overlaps (Fixed a # ts) (Fixed b # us) = (a = b \<and> overlaps ts us)"
| "overlaps (Fixed a # ts) (Path_Param p # us) = (a \<noteq> [] \<and> overlaps ts us)"
| "overlaps (Path_Param p # ts) (Fixed b # us) = (b \<noteq> [] \<and> overlaps ts us)"
| "overlaps (Path_Param p # ts) (Path_Param q # us) = overlaps ts us"
| "overlaps ts us = False"

lemma both_match:
  "match_path ts ss = Some ps \<Longrightarrow> match_path us ss = Some qs \<Longrightarrow> overlaps ts us"
  by (induction ts us arbitrary: ss ps qs rule: overlaps.induct)
    (case_tac ss; auto split: if_splits)+

lemma no_overlaps:
  "\<forall>r \<in> set app_routes. \<forall>q \<in> set app_routes.
     rt_method r = rt_method q \<and> overlaps (rt_path r) (rt_path q) \<longrightarrow> r = q"
  by code_simp

lemmas route_defs = list_tasks_route_def submit_task_route_def run_task_inline_route_def get_task_route_def
  run_queued_task_route_def approve_task_route_def cancel_task_route_def tasks_router_def run_workflow_route_def
  get_workflow_trace_route_def workflows_router_def list_capabilities_route_def get_capability_route_def
  capabilities_router_def health_check_route_def get_snapshot_route_def stream_events_route_def
  ingest_webhook_route_def list_triggers_route_def triggers_router_def list_engines_route_def
  register_engine_route_def get_engine_route_def deregister_engine_route_def engine_heartbeat_route_def
  get_engine_health_route_def get_engine_snapshot_route_def run_task_on_engine_route_def
  run_task_auto_route_route_def cluster_router_def root_route_def get_route_def post_route_def with_prefix_def

lemma route_paths:
  "\<forall>r \<in> set app_routes. rt_path r \<noteq> [] \<and> list_all (\<lambda>t. case t of Fixed l \<Rightarrow> CHR ''/'' \<notin> set l | _ \<Rightarrow> True) (rt_path r)"
  by code_simp

lemma matching_route_is_picked:
  assumes "router_ok pick" and "r \<in> set app_routes" and "matches r m path = Some ps"
  shows "pick app_routes m path = Some (r, ps)"
proof -
  have c: "case pick app_routes m path of
        None \<Rightarrow> \<forall>r \<in> set app_routes. matches r m path = None
      | Some (q, qs) \<Rightarrow> q \<in> set app_routes \<and> matches q m path = Some qs"
    using assms(1) unfolding router_ok_def by blast
  then obtain q qs where q: "pick app_routes m path = Some (q, qs)" "q \<in> set app_routes" "matches q m path = Some qs"
    using assms(2,3) by (cases "pick app_routes m path") auto
  have "rt_method r = m" "match_path (rt_path r) (segments path) = Some ps"
    "rt_method q = m" "match_path (rt_path q) (segments path) = Some qs"
    using assms(3) q(3) by (auto simp: matches_def split: if_splits)
  with no_overlaps both_match assms(2) q(2) have "r = q" by metis
  with q assms(3) show ?thesis by simp
qed

text \<open>
  C22. Every endpoint is served at its own path, whatever the order of the routes: for a router that
  picks some matching route, and any values of the path parameters that are not empty and have no
  slash, the path of a route with these values is routed to that route with these parameters.  So no
  route hides another, not even \<^verbatim>\<open>/tasks/run\<close> and \<^verbatim>\<open>/engines/tasks/run\<close> beside the routes with ids.
\<close>

theorem every_endpoint_at_its_path:
  assumes "router_ok pick" and "r \<in> set app_routes" and "length vs = length (param_names (rt_path r))"
    and "\<forall>v \<in> set vs. v \<noteq> [] \<and> CHR ''/'' \<notin> set v"
  shows "pick app_routes (rt_method r) (url_for r vs) = Some (r, zip (param_names (rt_path r)) vs)"
proof -
  from route_paths assms(2) have p: "rt_path r \<noteq> []" "\<forall>l. Fixed l \<in> set (rt_path r) \<longrightarrow> CHR ''/'' \<notin> set l"
    by (auto simp: list_all_iff split: segment.splits)
  from p(1) have "fill (rt_path r) vs \<noteq> []" by (cases "(rt_path r, vs)" rule: fill.cases) auto
  note seg = segments_path_of [OF this fill_no_slash [OF assms(3) _ p(2)]]
  have "matches r (rt_method r) (url_for r vs) = Some (zip (param_names (rt_path r)) vs)"
    using seg assms(4) match_fill [OF assms(3)] by (simp add: matches_def url_for_def)
  then show ?thesis by (rule matching_route_is_picked [OF assms(1,2)])
qed

text \<open>Witness: the first-match router, at the path that runs a queued task.\<close>

theorem every_endpoint_at_its_path_witness:
  "first_match app_routes POST ''/v1/tasks/t1/run'' =
     Some (run_queued_task_route\<lparr>rt_path := [Fixed ''v1'', Fixed ''tasks'', Path_Param ''task_id'', Fixed ''run'']\<rparr>,
       [(''task_id'', ''t1'')])"
proof -
  let ?r = "run_queued_task_route\<lparr>rt_path := [Fixed ''v1'', Fixed ''tasks'', Path_Param ''task_id'', Fixed ''run'']\<rparr>"
  have "?r \<in> set app_routes" by code_simp
  from every_endpoint_at_its_path [OF first_match_router_ok this, of "[''t1'']"] show ?thesis
    by (simp add: url_for_def path_of_def run_queued_task_route_def post_route_def)
qed

section \<open>Requests and replies\<close>

text \<open>
  A request with its body still undecoded, and the moment it arrives (the clocks the server reads).
  The query gives the values of a name in the order of the URL.
\<close>

record 'b http_request =
  rq_method :: http_method
  rq_path :: string
  rq_authorization :: "string option"
  rq_query :: "string \<Rightarrow> string list"
  rq_body :: 'b
  rq_now :: string
  rq_clock :: py_datetime

text \<open>
  The framework's part: reading a number or a flag of the query, checking a body against its model
  (\<open>None\<close>: it does not fit), the raw JSON of a webhook, and whether the dependencies of an endpoint are
  resolved before a body that does not fit is refused.
\<close>

record 'b framework =
  fw_route :: router
  fw_unrouted :: "http_method \<Rightarrow> string \<Rightarrow> int"
  fw_int :: "string \<Rightarrow> int option"
  fw_bool :: "string \<Rightarrow> bool option"
  fw_submit :: "'b \<Rightarrow> submit_request option"
  fw_approve :: "'b \<Rightarrow> approve_request option"
  fw_cancel :: "'b \<Rightarrow> cancel_request option"
  fw_goal :: "'b \<Rightarrow> workflow_goal option"
  fw_register :: "'b \<Rightarrow> register_request option"
  fw_engine_task :: "'b \<Rightarrow> engine_task_request option"
  fw_json :: "'b \<Rightarrow> pydict option"
  fw_dependencies_first :: "'b \<Rightarrow> bool"

datatype reply =
    R_Task cp_task
  | R_Tasks "cp_task list" page_meta
  | R_Trace cp_trace
  | R_Capabilities "cp_capability list"
  | R_Capability cp_capability
  | R_Health bool "cp_health list"
  | R_Snapshot cp_snapshot
  | R_Stream "string list option"
  | R_Node node_response
  | R_Nodes "node_response list" nat
  | R_Json pyval
  | R_Empty
  | R_Challenge string
  | R_Detail pydict
  | R_Error pydict
  | R_Invalid
  | R_Unrouted
  | R_Crash exc

text \<open>How an endpoint ends: refused by the framework, with an exception, or with a value that gets the
  route's status, or with a response of its own.\<close>

datatype handled = Invalid | Raised api_exc | Returned reply | Responded int reply

record http_state =
  hs_keys :: key_store
  hs_key_file :: key_file
  hs_world :: world
  hs_cluster :: coordinator
  hs_triggers :: "trigger_adapter list option"

record http_env =
  ht_supervisor :: supervisor
  ht_orchestrator :: "world orchestrator option"
  ht_orders :: "nat \<Rightarrow> nat list"
  ht_cluster :: cluster_env
  ht_health :: health_env
  ht_event_bus :: bool
  ht_hash :: "string \<Rightarrow> string"

section \<open>Parameters of the endpoints\<close>

text \<open>A scalar of the query is the last value of its name; \<open>None\<close> is a request that does not fit.\<close>

definition query_text :: "'b http_request \<Rightarrow> string \<Rightarrow> string option" where
  "query_text rq k = (case rq_query rq k of [] \<Rightarrow> None | vs \<Rightarrow> Some (List.last vs))"

definition query_int ::
  "'b framework \<Rightarrow> 'b http_request \<Rightarrow> string \<Rightarrow> int \<Rightarrow> int option \<Rightarrow> int \<Rightarrow> int option" where
  "query_int fw rq k lo hi dflt = (case query_text rq k of
       None \<Rightarrow> Some dflt
     | Some v \<Rightarrow> (case fw_int fw v of
           None \<Rightarrow> None
         | Some n \<Rightarrow> if lo \<le> n \<and> (case hi of None \<Rightarrow> True | Some h \<Rightarrow> n \<le> h) then Some n else None))"

text \<open>\<^verbatim>\<open>limit: Query(ge=1, le=1000) = 50\<close> and \<^verbatim>\<open>offset: Query(ge=0) = 0\<close> of \<^verbatim>\<open>list_tasks\<close>.\<close>

definition page_query :: "'b framework \<Rightarrow> 'b http_request \<Rightarrow> (int \<times> int) option" where
  "page_query fw rq =
     (case (query_int fw rq ''limit'' 1 (Some 1000) 50, query_int fw rq ''offset'' 0 None 0) of
        (Some limit, Some offset) \<Rightarrow> Some (limit, offset)
      | _ \<Rightarrow> None)"

text \<open>\<^verbatim>\<open>healthy: bool = True\<close> of \<^verbatim>\<open>engine_heartbeat\<close>, and the repeatable \<^verbatim>\<open>tag\<close> of \<^verbatim>\<open>list_engines\<close>.\<close>

definition healthy_query :: "'b framework \<Rightarrow> 'b http_request \<Rightarrow> bool option" where
  "healthy_query fw rq = (case query_text rq ''healthy'' of None \<Rightarrow> Some True | Some v \<Rightarrow> fw_bool fw v)"

definition tag_query :: "'b http_request \<Rightarrow> string list option" where
  "tag_query rq = (case rq_query rq ''tag'' of [] \<Rightarrow> None | vs \<Rightarrow> Some vs)"

definition path_param :: "string dict \<Rightarrow> string \<Rightarrow> string" where
  "path_param ps k = (case dget ps k of None \<Rightarrow> [] | Some v \<Rightarrow> v)"

definition sse_unavailable :: api_exc where
  "sse_unavailable = http_error 503 ''sse_unavailable'' ''Event streaming is not configured on this server''"

definition require_event_bus :: "bool \<Rightarrow> api_exc + unit" where
  "require_event_bus configured = (if configured then Inr () else Inl sse_unavailable)"

section \<open>The endpoints\<close>

definition returned :: "('a \<Rightarrow> reply) \<Rightarrow> api_exc + 'a \<Rightarrow> handled" where
  "returned f x = (case x of Inl e \<Rightarrow> Raised e | Inr v \<Rightarrow> Returned (f v))"

text \<open>\<^verbatim>\<open>response_model=dict\<close> over what a remote engine sent: anything else fails the check of the response.\<close>

definition returned_dict :: "api_exc + pyval \<Rightarrow> handled" where
  "returned_dict x = (case x of
       Inl e \<Rightarrow> Raised e
     | Inr (PDict d) \<Rightarrow> Returned (R_Json (PDict d))
     | Inr v \<Rightarrow> Raised (Uncaught (Other_Exception ''ResponseValidationError'' ''Input should be a valid dictionary'')))"

definition in_world :: "('a \<Rightarrow> reply) \<Rightarrow> (api_exc + 'a) \<times> world \<Rightarrow> http_state \<Rightarrow> handled \<times> http_state" where
  "in_world f x s = (case x of (r, w) \<Rightarrow> (returned f r, s\<lparr>hs_world := w\<rparr>))"

definition in_cluster :: "('a \<Rightarrow> reply) \<Rightarrow> (api_exc + 'a) \<times> coordinator \<Rightarrow> http_state \<Rightarrow> handled \<times> http_state" where
  "in_cluster f x s = (case x of (r, c) \<Rightarrow> (returned f r, s\<lparr>hs_cluster := c\<rparr>))"

definition with_body :: "'a option \<Rightarrow> ('a \<Rightarrow> handled \<times> http_state) \<Rightarrow> http_state \<Rightarrow> handled \<times> http_state" where
  "with_body x f s = (case x of None \<Rightarrow> (Invalid, s) | Some b \<Rightarrow> f b)"

definition handle_workflow ::
  "'b framework \<Rightarrow> http_env \<Rightarrow> 'b http_request \<Rightarrow> http_state \<Rightarrow> handled \<times> http_state" where
  "handle_workflow fw env rq s =
     (case fw_goal fw (rq_body rq) of
        Some body \<Rightarrow> in_world R_Trace (api_run_workflow (ht_orchestrator env) (ht_orders env) body (hs_world s)) s
      | None \<Rightarrow>
          (case get_orchestrator (ht_orchestrator env) of
             Inl e \<Rightarrow> if fw_dependencies_first fw (rq_body rq) then (Raised e, s) else (Invalid, s)
           | Inr x \<Rightarrow> (Invalid, s)))"

definition handle_webhook ::
  "'b framework \<Rightarrow> 'b http_request \<Rightarrow> string dict \<Rightarrow> http_state \<Rightarrow> handled \<times> http_state" where
  "handle_webhook fw rq ps s =
     (case ingest_webhook (rq_clock rq) (path_param ps ''trigger_name'') (fw_json fw (rq_body rq)) (hs_triggers s) of
        ((status, content), triggers) \<Rightarrow> (Responded status (R_Json (PDict content)), s\<lparr>hs_triggers := triggers\<rparr>))"

fun handle ::
  "'b framework \<Rightarrow> http_env \<Rightarrow> endpoint \<Rightarrow> string dict \<Rightarrow> 'b http_request \<Rightarrow> auth_context \<Rightarrow> http_state \<Rightarrow>
   handled \<times> http_state" where
  "handle fw env Tasks_List ps rq ctx s =
     (case page_query fw rq of
        None \<Rightarrow> (Invalid, s)
      | Some (limit, offset) \<Rightarrow>
          (returned (\<lambda>(items, meta). R_Tasks items meta)
             (api_list_tasks (hs_world s) (query_text rq ''status'') (Some limit) offset), s))"
| "handle fw env Tasks_Submit ps rq ctx s =
     with_body (fw_submit fw (rq_body rq))
       (\<lambda>body. in_world R_Task (api_submit_task (ht_supervisor env) body ctx (hs_world s)) s) s"
| "handle fw env Tasks_Run ps rq ctx s =
     with_body (fw_submit fw (rq_body rq))
       (\<lambda>body. in_world R_Task (api_run_task_inline (ht_supervisor env) body ctx (hs_world s)) s) s"
| "handle fw env Tasks_Get ps rq ctx s =
     (returned R_Task (api_get_task (hs_world s) (path_param ps ''task_id'')), s)"
| "handle fw env Tasks_Run_Queued ps rq ctx s =
     in_world R_Task (api_run_queued_task (ht_supervisor env) (path_param ps ''task_id'') (hs_world s)) s"
| "handle fw env Tasks_Approve ps rq ctx s =
     with_body (fw_approve fw (rq_body rq))
       (\<lambda>body. in_world R_Task
          (api_approve_task (ht_supervisor env) (path_param ps ''task_id'') body ctx (hs_world s)) s) s"
| "handle fw env Tasks_Cancel ps rq ctx s =
     with_body (fw_cancel fw (rq_body rq))
       (\<lambda>body. in_world R_Task
          (api_cancel_task (ht_supervisor env) (path_param ps ''task_id'') body ctx (hs_world s)) s) s"
| "handle fw env Workflows_Run ps rq ctx s = handle_workflow fw env rq s"
| "handle fw env Workflows_Trace ps rq ctx s =
     (returned R_Trace (api_get_workflow_trace (hs_world s) (path_param ps ''workflow_id'')), s)"
| "handle fw env Capabilities_List ps rq ctx s =
     (returned R_Capabilities (api_list_capabilities (sv_registry (ht_supervisor env))), s)"
| "handle fw env Capabilities_Get ps rq ctx s =
     (returned R_Capability (api_get_capability (sv_registry (ht_supervisor env)) (path_param ps ''name'')), s)"
| "handle fw env Health ps rq ctx s =
     (case api_health_check (ht_health env) (ht_supervisor env) (hs_world s) of
        (status, healthy, components) \<Rightarrow> (Responded status (R_Health healthy components), s))"
| "handle fw env Snapshot ps rq ctx s =
     in_world R_Snapshot (api_get_snapshot (ht_health env) (ht_supervisor env) (hs_world s)) s"
| "handle fw env Events_Stream ps rq ctx s =
     (returned (\<lambda>u. R_Stream (parse_types (query_text rq ''types''))) (require_event_bus (ht_event_bus env)), s)"
| "handle fw env Triggers_Ingest ps rq ctx s = handle_webhook fw rq ps s"
| "handle fw env Triggers_List ps rq ctx s =
     (case list_triggers (hs_triggers s) of (status, content) \<Rightarrow> (Responded status (R_Json content), s))"
| "handle fw env Engines_List ps rq ctx s =
     (returned (\<lambda>(items, n). R_Nodes items n) (list_engines (ht_cluster env) (tag_query rq) (hs_cluster s)), s)"
| "handle fw env Engines_Register ps rq ctx s =
     with_body (fw_register fw (rq_body rq))
       (\<lambda>body. case register_engine (ht_cluster env) body (hs_cluster s) of
          (n, c) \<Rightarrow> (Returned (R_Node n), s\<lparr>hs_cluster := c\<rparr>)) s"
| "handle fw env Engines_Get ps rq ctx s =
     (returned R_Node (get_engine (ht_cluster env) (path_param ps ''engine_id'') (hs_cluster s)), s)"
| "handle fw env Engines_Deregister ps rq ctx s =
     in_cluster (\<lambda>u. R_Empty) (deregister_engine (path_param ps ''engine_id'') (hs_cluster s)) s"
| "handle fw env Engines_Heartbeat ps rq ctx s =
     (case healthy_query fw rq of
        None \<Rightarrow> (Invalid, s)
      | Some healthy \<Rightarrow>
          in_cluster R_Node
            (engine_heartbeat (ht_cluster env) (path_param ps ''engine_id'') healthy (hs_cluster s)) s)"
| "handle fw env Engines_Health ps rq ctx s =
     (returned_dict (get_engine_health (ht_cluster env) (path_param ps ''engine_id'') (hs_cluster s)), s)"
| "handle fw env Engines_Snapshot ps rq ctx s =
     (returned_dict (get_engine_snapshot (ht_cluster env) (path_param ps ''engine_id'') (hs_cluster s)), s)"
| "handle fw env Engines_Run ps rq ctx s =
     with_body (fw_engine_task fw (rq_body rq))
       (\<lambda>body. (returned_dict
          (run_task_on_engine (ht_cluster env) (path_param ps ''engine_id'') body (hs_cluster s)), s)) s"
| "handle fw env Engines_Auto_Route ps rq ctx s =
     with_body (fw_engine_task fw (rq_body rq))
       (\<lambda>body. (returned_dict (run_task_auto_route (ht_cluster env) body (hs_cluster s)), s)) s"
| "handle fw env Root ps rq ctx s =
     (Returned (R_Json (PDict [(''service'', PStr ''conductor-engine''), (''docs'', PStr ''/docs''),
        (''api_version'', PStr ''v1'')])), s)"

section \<open>One request\<close>

text \<open>What the exception handlers make of an exception; the framework's own takes \<^verbatim>\<open>HTTPException\<close>.\<close>

definition exception_response :: "api_exc \<Rightarrow> int \<times> reply" where
  "exception_response e = (case e of
       HTTP_Exception status detail \<Rightarrow> (status, R_Detail detail)
     | Uncaught x \<Rightarrow>
         if is_value_error x then map_prod id R_Error (value_error_handler x)
         else if is_key_error x then map_prod id R_Error (key_error_handler x)
         else (500, R_Crash x))"

definition response_of :: "int \<Rightarrow> handled \<Rightarrow> int \<times> reply" where
  "response_of status h = (case h of
       Invalid \<Rightarrow> (422, R_Invalid)
     | Raised e \<Rightarrow> exception_response e
     | Returned v \<Rightarrow> (status, v)
     | Responded st v \<Rightarrow> (st, v))"

definition routed ::
  "'b framework \<Rightarrow> http_env \<Rightarrow> 'b http_request \<Rightarrow> auth_context \<Rightarrow> http_state \<Rightarrow> (int \<times> reply) \<times> http_state" where
  "routed fw env rq ctx s =
     (case fw_route fw app_routes (rq_method rq) (rq_path rq) of
        None \<Rightarrow> ((fw_unrouted fw (rq_method rq) (rq_path rq), R_Unrouted), s)
      | Some (r, ps) \<Rightarrow>
          (case handle fw env (rt_endpoint r) ps rq ctx s of (h, s) \<Rightarrow> (response_of (rt_status r) h, s)))"

definition respond ::
  "'b framework \<Rightarrow> http_env \<Rightarrow> 'b http_request \<Rightarrow> http_state \<Rightarrow> (int \<times> reply) \<times> http_state" where
  "respond fw env rq s =
     (case auth_dispatch (ht_hash env) (rq_now rq) (rq_path rq) (rq_authorization rq) (hs_key_file s) (hs_keys s) of
        (Unauthorized message, k) \<Rightarrow> ((401, R_Challenge message), s\<lparr>hs_keys := k\<rparr>)
      | (Call_Next ctx, k) \<Rightarrow> routed fw env rq ctx (s\<lparr>hs_keys := k\<rparr>))"

section \<open>Who gets through\<close>

lemma split_on_head: "hd (split_on sep s) = takeWhile (\<lambda>c. c \<noteq> sep) s"
  by (induction s) (auto split: list.splits)

lemma v1_path:
  assumes "prefix_of ''/'' path" and "match_path (Fixed ''v1'' # ts) (segments path) = Some ps"
  shows "\<exists>u. path = ''/v1'' @ u"
proof -
  obtain t where t: "path = CHR ''/'' # t" using assms(1) by (cases path) auto
  have seg: "segments path = split_on CHR ''/'' t" by (simp add: segments_def t)
  obtain x xs where x: "split_on CHR ''/'' t = x # xs" by (cases "split_on CHR ''/'' t") auto
  have "x = ''v1''" using assms(2) by (auto simp: seg x split: if_splits)
  then have "takeWhile (\<lambda>c. c \<noteq> CHR ''/'') t = ''v1''" using split_on_head [of "CHR ''/''" t] by (simp add: x)
  then obtain d where "t = ''v1'' @ d" by (metis takeWhile_dropWhile_id)
  with t show ?thesis by simp
qed

lemma v1_public: "path = ''/v1'' @ u \<Longrightarrow> path_is_public path \<longleftrightarrow> path = ''/v1/health''"
  by (auto simp: path_is_public_def public_paths_def)

lemma v1_routes:
  "\<forall>r \<in> set app_routes. rt_endpoint r \<noteq> Root \<longrightarrow> hd (rt_path r) = Fixed ''v1'' \<and>
    (match_path (rt_path r) [''v1'', ''health''] \<noteq> None \<longrightarrow> rt_endpoint r = Health)"
  by code_simp

lemma endpoint_paths_not_public:
  assumes "r \<in> set app_routes" and "matches r m path = Some ps" and "rt_endpoint r \<notin> {Health, Root}"
  shows "\<not> path_is_public path"
proof
  assume pub: "path_is_public path"
  have hd: "hd (rt_path r) = Fixed ''v1''"
    and h: "match_path (rt_path r) [''v1'', ''health''] \<noteq> None \<longrightarrow> rt_endpoint r = Health"
    using v1_routes assms(1,3) by auto
  have "rt_path r \<noteq> []" using route_paths assms(1) by auto
  with hd obtain ts where ts: "rt_path r = Fixed ''v1'' # ts" by (cases "rt_path r") auto
  have m: "prefix_of ''/'' path" "match_path (rt_path r) (segments path) = Some ps"
    using assms(2) by (auto simp: matches_def split: if_splits)
  from v1_path [OF m(1)] m(2) ts obtain u where "path = ''/v1'' @ u" by auto
  with pub v1_public have "path = ''/v1/health''" by blast
  then have "segments path = [''v1'', ''health'']" by (simp add: segments_def)
  with m(2) h assms(3) show False by simp
qed

text \<open>The request carries no key that the store accepts.\<close>

definition no_valid_key :: "http_env \<Rightarrow> 'b http_request \<Rightarrow> http_state \<Rightarrow> bool" where
  "no_valid_key env rq s \<longleftrightarrow> (case rq_authorization rq of
       None \<Rightarrow> True
     | Some v \<Rightarrow> prefix_of ''Bearer '' v \<longrightarrow>
         fst (key_lookup (ht_hash env) (rq_now rq) (py_strip (drop 7 v)) (hs_key_file s) (hs_keys s)) = None)"

lemma dispatch_without_key:
  assumes "auth_enabled (hs_keys s)" and "\<not> path_is_public (rq_path rq)" and "no_valid_key env rq s"
  shows "\<exists>m k. respond fw env rq s = ((401, R_Challenge m), s\<lparr>hs_keys := k\<rparr>)"
proof -
  have "\<exists>m k. auth_dispatch (ht_hash env) (rq_now rq) (rq_path rq) (rq_authorization rq) (hs_key_file s) (hs_keys s) =
      (Unauthorized m, k)"
    using assms by (auto simp: auth_dispatch_def no_valid_key_def Let_def split: option.splits prod.splits)
  then show ?thesis by (auto simp: respond_def)
qed

text \<open>
  C20. Only the health check is open: while the server has keys, a request that matches any endpoint of
  the table but \<^verbatim>\<open>GET /v1/health\<close> and the root page, and carries no key the store accepts, is answered
  with 401, whatever its path parameters, query and body are; the endpoint is not called, so neither
  tasks nor engines nor triggers change.
\<close>

theorem only_health_is_open:
  assumes "auth_enabled (hs_keys s)" and "r \<in> set app_routes" and "matches r (rq_method rq) (rq_path rq) = Some ps"
    and "rt_endpoint r \<notin> {Health, Root}" and "no_valid_key env rq s"
  shows "\<exists>m k. respond fw env rq s = ((401, R_Challenge m), s\<lparr>hs_keys := k\<rparr>)"
  using dispatch_without_key [OF assms(1) endpoint_paths_not_public [OF assms(2-4)] assms(5)] .

section \<open>Reading changes nothing\<close>

definition reading :: "endpoint list" where
  "reading = [Tasks_List, Tasks_Get, Workflows_Trace, Capabilities_List, Capabilities_Get, Health, Snapshot,
     Events_Stream, Triggers_List, Engines_List, Engines_Get, Engines_Health, Engines_Snapshot, Root]"

lemma get_routes: "\<forall>r \<in> set app_routes. rt_method r = GET \<longrightarrow> rt_endpoint r \<in> set reading"
  by code_simp

lemma reading_keeps:
  assumes "ep \<in> set reading" and "handle fw env ep ps rq ctx s = (h, s')"
  shows "\<exists>n. s' = s\<lparr>hs_world := (hs_world s)\<lparr>w_tick := n\<rparr>\<rparr>"
proof -
  have s: "\<exists>n. s = s\<lparr>hs_world := (hs_world s)\<lparr>w_tick := n\<rparr>\<rparr>" by (rule exI [of _ "w_tick (hs_world s)"]) simp
  have snap: "\<exists>n. snd (api_get_snapshot e sv w) = w\<lparr>w_tick := n\<rparr>" for e sv w
    by (auto simp: api_get_snapshot_def now_utc_def Let_def split: sum.splits)
  show ?thesis
  proof (cases "ep = Snapshot")
    case True
    with assms(2) snap [of "ht_health env" "ht_supervisor env" "hs_world s"] show ?thesis
      by (auto simp: in_world_def split: prod.splits)
  next
    case False
    with assms have "s' = s" by (auto simp: reading_def split: option.splits prod.splits)
    with s show ?thesis by blast
  qed
qed

text \<open>
  C21. A \<^verbatim>\<open>GET\<close> request reads: whatever it asks for and whoever asks, the tasks, the queue, the guild, the
  events, the executions and all else of the supervisor's world stay as they are (only its clock may
  have been read), and so do the registered engines, the trigger adapters and the key file.
\<close>

theorem get_requests_change_nothing:
  assumes "router_ok (fw_route fw)" and "rq_method rq = GET" and "respond fw env rq s = (resp, s')"
  shows "\<exists>n k. s' = s\<lparr>hs_keys := k, hs_world := (hs_world s)\<lparr>w_tick := n\<rparr>\<rparr>"
proof (cases "auth_dispatch (ht_hash env) (rq_now rq) (rq_path rq) (rq_authorization rq) (hs_key_file s) (hs_keys s)")
  case (Pair out k)
  have same: "\<exists>n. s\<lparr>hs_keys := k\<rparr> = s\<lparr>hs_keys := k, hs_world := (hs_world s)\<lparr>w_tick := n\<rparr>\<rparr>"
    by (rule exI [of _ "w_tick (hs_world s)"]) simp
  show ?thesis
  proof (cases out)
    case (Unauthorized m)
    with Pair assms(3) same show ?thesis by (auto simp: respond_def)
  next
    case (Call_Next ctx)
    then have r: "routed fw env rq ctx (s\<lparr>hs_keys := k\<rparr>) = (resp, s')" using Pair assms(3) by (simp add: respond_def)
    show ?thesis
    proof (cases "fw_route fw app_routes (rq_method rq) (rq_path rq)")
      case None
      with r same show ?thesis by (auto simp: routed_def)
    next
      case (Some p)
      obtain q ps where p: "p = (q, ps)" by fastforce
      have "case fw_route fw app_routes (rq_method rq) (rq_path rq) of
          None \<Rightarrow> \<forall>r \<in> set app_routes. matches r (rq_method rq) (rq_path rq) = None
        | Some (r, ps) \<Rightarrow> r \<in> set app_routes \<and> matches r (rq_method rq) (rq_path rq) = Some ps"
        using assms(1) unfolding router_ok_def by blast
      with Some p assms(2) have "q \<in> set app_routes" "rt_method q = GET"
        by (auto simp: matches_def split: if_splits)
      with get_routes have q: "rt_endpoint q \<in> set reading" by blast
      obtain h s1 where h: "handle fw env (rt_endpoint q) ps rq ctx (s\<lparr>hs_keys := k\<rparr>) = (h, s1)" by fastforce
      with r Some p have "s' = s1" by (auto simp: routed_def)
      with reading_keeps [OF q h] show ?thesis by auto
    qed
  qed
qed

section \<open>Which statuses come back\<close>

text \<open>Statuses an endpoint's own code answers with that its decorator does not list.\<close>

definition undocumented :: "endpoint \<Rightarrow> int list" where
  "undocumented ep =
     (if ep = Tasks_Submit then [429] else if ep \<in> {Tasks_List, Engines_List} then [400]
      else if ep = Root then [200] else [])"

text \<open>An exception a handler let through, or one with a status of the list.\<close>

definition raises_in :: "int list \<Rightarrow> api_exc + 'a \<Rightarrow> bool" where
  "raises_in sts x \<longleftrightarrow> (case x of Inl (HTTP_Exception st d) \<Rightarrow> st \<in> set sts | _ \<Rightarrow> True)"

lemma raises_in_simps [simp]:
  "raises_in sts (Inr v)" "raises_in sts (Inl (Uncaught e))"
  "raises_in sts (Inl (http_error st c m)) \<longleftrightarrow> st \<in> set sts"
  by (simp_all add: raises_in_def http_error_def)

lemma task_routes_raise:
  "raises_in [400] (api_list_tasks w st l m)"
  "raises_in [400, 429] (fst (api_submit_task sv body ctx w))"
  "raises_in [400] (fst (api_run_task_inline sv body ctx w))"
  "raises_in [404] (api_get_task w tid)"
  "raises_in [404] (fst (api_run_queued_task sv tid w))"
  "raises_in [400, 404] (fst (api_approve_task sv tid abody ctx w))"
  "raises_in [400, 404] (fst (api_cancel_task sv tid cbody ctx w))"
proof -
  have sub: "raises_in [400, 429] (Inl (submit_error e) :: api_exc + cp_task)" for e
    by (cases e) auto
  have dec: "raises_in [400, 404] (Inl (decision_error c e) :: api_exc + cp_task)" for c e
    by (simp add: decision_error_def)
  show "raises_in [400] (api_list_tasks w st l m)" by (simp add: api_list_tasks_def Let_def)
  show "raises_in [400, 429] (fst (api_submit_task sv body ctx w))"
    using sub by (simp add: api_submit_task_def split: prod.split sum.split)
  show "raises_in [400] (fst (api_run_task_inline sv body ctx w))"
    by (simp add: api_run_task_inline_def split: prod.split sum.split)
  show "raises_in [404] (api_get_task w tid)" by (simp add: api_get_task_def split: sum.split)
  show "raises_in [404] (fst (api_run_queued_task sv tid w))"
    by (simp add: api_run_queued_task_def split: prod.split sum.split)
  show "raises_in [400, 404] (fst (api_approve_task sv tid abody ctx w))"
    using dec by (simp add: api_approve_task_def split: prod.split sum.split)
  show "raises_in [400, 404] (fst (api_cancel_task sv tid cbody ctx w))"
    using dec by (simp add: api_cancel_task_def split: prod.split sum.split)
qed

lemma other_routes_raise:
  "raises_in [400, 501] (fst (api_run_workflow o1 ords goal w))"
  "raises_in [404] (api_get_workflow_trace w wid)"
  "raises_in [404] (api_list_capabilities r)"
  "raises_in [404] (api_get_capability r name)"
  "raises_in [] (fst (api_get_snapshot he sv w))"
  "raises_in [503] (require_event_bus b)"
  by (auto simp: api_run_workflow_def get_orchestrator_def api_get_workflow_trace_def api_list_capabilities_def
      api_get_capability_def api_get_snapshot_def require_event_bus_def sse_unavailable_def Let_def
      split: prod.split sum.split option.split)

lemma parse_tags_raises: "raises_in [400] (parse_tags ts d)"
  by (induction ts d rule: parse_tags.induct) (auto split: prod.split)

lemma proxied_raises: "raises_in [502] (proxied f x)"
  by (auto simp: proxied_def split: sum.split http_failure.split)

lemma node_raises: "raises_in [404] (get_node_or_404 r i)"
  by (simp add: get_node_or_404_def not_registered_def split: option.split)

lemma raises_in_mono: "raises_in sts x \<Longrightarrow> set sts \<subseteq> set sts' \<Longrightarrow> raises_in sts' x"
  by (auto simp: raises_in_def split: sum.splits api_exc.splits)

lemma raises_in_Inl: "raises_in sts (Inl e :: api_exc + 'a) \<Longrightarrow> raises_in sts (Inl e :: api_exc + 'b)"
  by (simp add: raises_in_def)

lemma raises_in_case:
  assumes "raises_in sts x" and "\<And>v. x = Inr v \<Longrightarrow> raises_in sts (f v)"
  shows "raises_in sts (case x of Inl e \<Rightarrow> Inl e | Inr v \<Rightarrow> f v)"
  using assms by (auto simp: raises_in_def split: sum.splits api_exc.splits)

lemma cluster_routes_raise:
  "raises_in [400] (list_engines env tag co)"
  "raises_in [404] (get_engine env i co)"
  "raises_in [404] (fst (deregister_engine i co))"
  "raises_in [404] (fst (engine_heartbeat env i h co))"
  "raises_in [404, 502] (get_engine_health env i co)"
  "raises_in [404, 502] (get_engine_snapshot env i co)"
  "raises_in [404, 502] (run_task_on_engine env i body co)"
  "raises_in [400, 502] (run_task_auto_route env body co)"
proof -
  have node: "raises_in [404, 502] (get_node_or_404 r i)" for r i by (rule raises_in_mono [OF node_raises]) simp
  have prox: "raises_in [404, 502] (proxied f x)" "raises_in [400, 502] (proxied f x)" for f x
    by (rule raises_in_mono [OF proxied_raises], simp)+
  show "raises_in [400] (list_engines env tag co)"
    unfolding list_engines_def by (rule raises_in_case) (simp_all add: parse_tags_raises Let_def)
  show "raises_in [404] (get_engine env i co)"
    using node_raises [of "co_nodes co" i] by (cases "get_node_or_404 (co_nodes co) i")
      (simp_all add: get_engine_def raises_in_def split: api_exc.splits)
  show "raises_in [404] (fst (deregister_engine i co))"
    using node_raises [of "co_nodes co" i] by (cases "get_node_or_404 (co_nodes co) i")
      (simp_all add: deregister_engine_def raises_in_def split: api_exc.splits)
  show "raises_in [404] (fst (engine_heartbeat env i h co))"
    by (simp add: engine_heartbeat_def not_registered_def split: prod.split option.split)
  show "raises_in [404, 502] (get_engine_health env i co)"
    unfolding get_engine_health_def by (rule raises_in_case [OF node prox(1)])
  show "raises_in [404, 502] (get_engine_snapshot env i co)"
    unfolding get_engine_snapshot_def by (rule raises_in_case [OF node prox(1)])
  show "raises_in [404, 502] (run_task_on_engine env i body co)"
    unfolding run_task_on_engine_def by (rule raises_in_case [OF node prox(1)])
  show "raises_in [400, 502] (run_task_auto_route env body co)"
    using prox(2) by (simp add: run_task_auto_route_def no_engines_def Let_def split: list.split)
qed

text \<open>The statuses an endpoint gives by itself, other than with the plain return.\<close>

fun own_statuses :: "endpoint \<Rightarrow> int list" where
  "own_statuses Tasks_List = [400]"
| "own_statuses Tasks_Submit = [400, 429]"
| "own_statuses Tasks_Run = [400]"
| "own_statuses Tasks_Get = [404]"
| "own_statuses Tasks_Run_Queued = [404]"
| "own_statuses Tasks_Approve = [400, 404]"
| "own_statuses Tasks_Cancel = [400, 404]"
| "own_statuses Workflows_Run = [400, 501]"
| "own_statuses Workflows_Trace = [404]"
| "own_statuses Capabilities_Get = [404]"
| "own_statuses Health = [200, 503]"
| "own_statuses Events_Stream = [503]"
| "own_statuses Triggers_Ingest = [202, 404, 503]"
| "own_statuses Triggers_List = [200, 503]"
| "own_statuses Engines_List = [400]"
| "own_statuses Engines_Get = [404]"
| "own_statuses Engines_Deregister = [404]"
| "own_statuses Engines_Heartbeat = [404]"
| "own_statuses Engines_Health = [404, 502]"
| "own_statuses Engines_Snapshot = [404, 502]"
| "own_statuses Engines_Run = [404, 502]"
| "own_statuses Engines_Auto_Route = [400, 502]"
| "own_statuses ep = []"

lemma statuses_are_listed:
  "\<forall>r \<in> set app_routes. set (rt_status r # own_statuses (rt_endpoint r)) \<subseteq>
     set (rt_responses r @ undocumented (rt_endpoint r))"
  by code_simp

definition handled_in :: "int list \<Rightarrow> handled \<Rightarrow> bool" where
  "handled_in sts h \<longleftrightarrow> (case h of
       Raised e \<Rightarrow> raises_in sts (Inl e :: api_exc + unit)
     | Responded st v \<Rightarrow> st \<in> set sts
     | _ \<Rightarrow> True)"

lemma handled_in_simps [simp]:
  "handled_in sts Invalid" "handled_in sts (Returned v)" "handled_in sts (Responded st v) \<longleftrightarrow> st \<in> set sts"
  by (simp_all add: handled_in_def)

lemma handled_in_returned: "raises_in sts x \<Longrightarrow> handled_in sts (returned f x)"
  by (auto simp: returned_def handled_in_def raises_in_def split: sum.splits)

lemma handled_in_returned_dict: "raises_in sts x \<Longrightarrow> handled_in sts (returned_dict x)"
  by (auto simp: returned_dict_def handled_in_def raises_in_def split: sum.splits pyval.splits)

lemma handled_in_world: "raises_in sts (fst x) \<Longrightarrow> handled_in sts (fst (in_world f x s))"
  by (cases x) (simp add: in_world_def handled_in_returned)

lemma handled_in_cluster: "raises_in sts (fst x) \<Longrightarrow> handled_in sts (fst (in_cluster f x s))"
  by (cases x) (simp add: in_cluster_def handled_in_returned)

lemma handled_in_body:
  "(\<And>b. handled_in sts (fst (f b))) \<Longrightarrow> handled_in sts (fst (with_body x f s))"
  by (simp add: with_body_def split: option.split)

lemmas handled_intros = handled_in_returned handled_in_returned_dict handled_in_world handled_in_cluster
  handled_in_body task_routes_raise other_routes_raise cluster_routes_raise

lemma webhook_statuses: "fst (fst (ingest_webhook clock n body service)) \<in> {202, 404, 503}"
  by (auto simp: ingest_webhook_def service_unavailable_def Let_def split: option.splits sum.splits)

lemma handle_statuses: "handled_in (own_statuses ep) (fst (handle fw env ep ps rq ctx s))"
proof (cases ep)
  case Workflows_Run
  have "handled_in [400, 501] (fst (handle_workflow fw env rq s))"
    using handled_in_world [OF other_routes_raise(1)]
    by (auto simp: handle_workflow_def get_orchestrator_def handled_in_def split: option.split)
  with Workflows_Run show ?thesis by simp
next
  case Snapshot
  then show ?thesis by (simp add: handled_intros)
next
  case Triggers_Ingest
  show ?thesis
    using webhook_statuses [of "rq_clock rq" "path_param ps ''trigger_name''" "fw_json fw (rq_body rq)" "hs_triggers s"]
    by (auto simp: Triggers_Ingest handle_webhook_def split: prod.splits)
next
  case Triggers_List
  then show ?thesis by (auto simp: list_triggers_def service_unavailable_def split: option.splits prod.splits)
next
  case Health
  then show ?thesis by (auto simp: api_health_check_def Let_def split: prod.splits)
next
  case Engines_Register
  then show ?thesis by (auto intro!: handled_in_body split: prod.split)
next
  case Capabilities_List
  have "raises_in [] (api_list_capabilities (sv_registry (ht_supervisor env)))"
    by (simp add: api_list_capabilities_def split: sum.split)
  with Capabilities_List show ?thesis by (simp add: handled_in_returned)
qed (simp_all add: handled_intros split: option.split)

text \<open>
  C23. A response has a status the endpoint documents, with these exceptions and no other: 401 from
  the middleware, 422 for a request that does not fit, 429 of \<^verbatim>\<open>POST /tasks\<close> and 400 of the two
  filtered listings \<^verbatim>\<open>GET /tasks\<close> and \<^verbatim>\<open>GET /engines\<close>, which their decorators do not list, and the
  exceptions an endpoint lets through: 400 or 404 with the flat envelope of the two handlers, or 500.
\<close>

theorem response_statuses:
  assumes "router_ok (fw_route fw)" and "fw_route fw app_routes (rq_method rq) (rq_path rq) = Some (r, ps)"
    and "respond fw env rq s = ((status, v), s')"
  shows "status \<in> set (rt_responses r @ undocumented (rt_endpoint r)) \<or>
    status = 401 \<and> (\<exists>m. v = R_Challenge m) \<or> status = 422 \<and> v = R_Invalid \<or>
    status \<in> {400, 404} \<and> (\<exists>d. v = R_Error d) \<or> status = 500 \<and> (\<exists>e. v = R_Crash e)"
proof (cases "auth_dispatch (ht_hash env) (rq_now rq) (rq_path rq) (rq_authorization rq) (hs_key_file s) (hs_keys s)")
  case (Pair out k)
  show ?thesis
  proof (cases out)
    case (Unauthorized m)
    with Pair assms(3) show ?thesis by (auto simp: respond_def)
  next
    case (Call_Next ctx)
    obtain h s1 where h: "handle fw env (rt_endpoint r) ps rq ctx (s\<lparr>hs_keys := k\<rparr>) = (h, s1)" by fastforce
    then have own: "handled_in (own_statuses (rt_endpoint r)) h" using handle_statuses by (metis fst_conv)
    have "case fw_route fw app_routes (rq_method rq) (rq_path rq) of
        None \<Rightarrow> \<forall>r \<in> set app_routes. matches r (rq_method rq) (rq_path rq) = None
      | Some (r, ps) \<Rightarrow> r \<in> set app_routes \<and> matches r (rq_method rq) (rq_path rq) = Some ps"
      using assms(1) unfolding router_ok_def by blast
    with assms(2) have "r \<in> set app_routes" by simp
    with statuses_are_listed have sub: "set (rt_status r # own_statuses (rt_endpoint r)) \<subseteq>
        set (rt_responses r @ undocumented (rt_endpoint r))" by blast
    have res: "(status, v) = response_of (rt_status r) h"
      using assms(2,3) Pair Call_Next h by (auto simp: respond_def routed_def)
    show ?thesis
    proof (cases h)
      case Invalid
      with res show ?thesis by (simp add: response_of_def)
    next
      case (Returned x)
      with res sub show ?thesis by (simp add: response_of_def)
    next
      case (Responded st x)
      with res sub own show ?thesis by (auto simp: response_of_def)
    next
      case (Raised e)
      show ?thesis
      proof (cases e)
        case (HTTP_Exception st d)
        with Raised res sub own show ?thesis
          by (auto simp: response_of_def exception_response_def handled_in_def raises_in_def)
      next
        case (Uncaught x)
        with Raised res show ?thesis
          by (auto simp: response_of_def exception_response_def value_error_handler_def key_error_handler_def Let_def
              split: if_splits)
      qed
    qed
  qed
qed

section \<open>Scopes\<close>

text \<open>
  No endpoint asks for a scope: what it does depends on the caller's name only, so a key that was
  generated with the scope \<^verbatim>\<open>task:read\<close> approves and cancels like one with all of them.
\<close>

lemma scopes_are_never_asked_for:
  assumes "ac_actor c1 = ac_actor c2"
  shows "handle fw env ep ps rq c1 s = handle fw env ep ps rq c2 s"
proof -
  have "request_submission body c1 = request_submission body c2" "body_or_caller a c1 = body_or_caller a c2" for body a
    using assms by (simp_all add: request_submission_def body_or_caller_def)
  then show ?thesis
    by (cases ep) (simp_all add: api_submit_task_def api_run_task_inline_def api_approve_task_def api_cancel_task_def)
qed

section \<open>A history of requests\<close>

text \<open>The requests a server answers one after the other.\<close>

fun answer_all ::
  "'b framework \<Rightarrow> http_env \<Rightarrow> 'b http_request list \<Rightarrow> http_state \<Rightarrow> (int \<times> reply) list \<times> http_state" where
  "answer_all fw env [] s = ([], s)"
| "answer_all fw env (rq # rqs) s =
     (case respond fw env rq s of (resp, s) \<Rightarrow>
        (case answer_all fw env rqs s of (resps, s) \<Rightarrow> (resp # resps, s)))"

text \<open>What every supervisor operation and the clock keep, every request keeps.\<close>

locale kept_by_supervisor =
  fixes sv :: supervisor and P :: "world \<Rightarrow> bool"
  assumes operation: "\<And>op w r w'. P w \<Longrightarrow> sup_exec sv op w = (r, w') \<Longrightarrow> P w'"
    and clock: "\<And>w n. P w \<Longrightarrow> P (w\<lparr>w_tick := n\<rparr>)"
begin

lemma task_routes:
  assumes "P w"
  shows "P (snd (api_submit_task sv body ctx w))" and "P (snd (api_run_task_inline sv body ctx w))"
    and "P (snd (api_run_queued_task sv tid w))" and "P (snd (api_approve_task sv tid abody ctx w))"
    and "P (snd (api_cancel_task sv tid cbody ctx w))"
  using operation [OF assms, of "Submit (request_submission body ctx)"]
    operation [OF assms, of "Run_Submission (request_submission body ctx)"]
    operation [OF assms, of "Run_Task tid"]
    operation [OF assms, of "Approve tid (body_or_caller (ar_actor abody) ctx) (Some (ar_metadata abody)) (ar_run abody)"]
    operation [OF assms, of "Cancel tid (body_or_caller (cr_actor cbody) ctx) (cr_reason cbody) (Some (cr_cancel_metadata cbody))"]
  by (auto simp: api_submit_task_def api_run_task_inline_def api_run_queued_task_def api_approve_task_def
      api_cancel_task_def split: prod.split sum.split)

lemma workflow_route:
  assumes "P w" and "o1 \<in> {None, Some (bundled sv steps)}"
  shows "P (snd (api_run_workflow o1 orders goal w))"
proof (cases o1)
  case None
  with assms(1) show ?thesis by (simp add: api_run_workflow_def get_orchestrator_def)
next
  case (Some b)
  with assms(2) have b: "b = bundled sv steps" by simp
  have sub: "P u \<Longrightarrow> run_submission sv s u = (r, u') \<Longrightarrow> P u'" for s u r u'
    using operation [of u "Run_Submission s"] by simp
  have "P (snd (workflow_run b orders goal w))"
    using bundled_workflow_keeps [where P = P, OF sub assms(1)] b
    by (cases "workflow_run b orders goal w") auto
  with Some show ?thesis
    by (auto simp: api_run_workflow_def get_orchestrator_def split: prod.split sum.split)
qed

lemma handler:
  assumes "P (hs_world s)" and "ht_supervisor env = sv" and "ht_orchestrator env \<in> {None, Some (bundled sv steps)}"
  shows "P (hs_world (snd (handle fw env ep ps rq ctx s)))"
proof (cases "ep \<in> set reading")
  case True
  obtain h s' where h: "handle fw env ep ps rq ctx s = (h, s')" by fastforce
  from reading_keeps [OF True h] obtain n where "s' = s\<lparr>hs_world := (hs_world s)\<lparr>w_tick := n\<rparr>\<rparr>" by blast
  with clock [OF assms(1)] h show ?thesis by simp
next
  case False
  have w: "P (snd x) \<Longrightarrow> P (hs_world (snd (in_world f x s)))" for x :: "(api_exc + 'c) \<times> world" and f
    by (cases x) (simp add: in_world_def)
  have c: "hs_world (snd (in_cluster f x s)) = hs_world s" for x :: "(api_exc + 'c) \<times> coordinator" and f
    by (cases x) (simp add: in_cluster_def)
  have b: "(\<And>y. P (hs_world (snd (f y)))) \<Longrightarrow> P (hs_world (snd (with_body x f s)))" for x :: "'d option" and f
    using assms(1) by (simp add: with_body_def split: option.split)
  show ?thesis
  proof (cases ep)
    case Workflows_Run
    with assms(1) w [OF workflow_route [OF assms(1,3)]] show ?thesis
      by (auto simp: handle_workflow_def split: option.split sum.split)
  next
    case Triggers_Ingest
    with assms(1) show ?thesis by (simp add: handle_webhook_def split: prod.split)
  next
    case Engines_Heartbeat
    with assms(1) show ?thesis by (simp add: c split: option.split)
  next
    case Engines_Register
    with assms(1) show ?thesis by (auto intro!: b split: prod.split)
  qed (use assms(1) False in \<open>auto simp: reading_def c intro!: b w task_routes [folded assms(2)]\<close>)
qed

lemma request:
  assumes "P (hs_world s)" and "ht_supervisor env = sv" and "ht_orchestrator env \<in> {None, Some (bundled sv steps)}"
  shows "P (hs_world (snd (respond fw env rq s)))"
proof -
  have through: "P (hs_world (snd (routed fw env rq ctx t)))" if "P (hs_world t)" for ctx t
  proof (cases "fw_route fw app_routes (rq_method rq) (rq_path rq)")
    case None
    with that show ?thesis by (simp add: routed_def)
  next
    case (Some p)
    then show ?thesis
      using handler [OF that assms(2,3), of fw "rt_endpoint (fst p)" "snd p" rq ctx]
      by (cases p; cases "handle fw env (rt_endpoint (fst p)) (snd p) rq ctx t") (simp add: routed_def)
  qed
  show ?thesis
    using assms(1) through by (simp add: respond_def split: prod.split auth_outcome.split)
qed

lemma history:
  assumes "P (hs_world s)" and "ht_supervisor env = sv" and "ht_orchestrator env \<in> {None, Some (bundled sv steps)}"
  shows "P (hs_world (snd (answer_all fw env rqs s)))"
  using assms(1)
proof (induction rqs arbitrary: s)
  case (Cons rq rqs)
  obtain resp s1 where r: "respond fw env rq s = (resp, s1)" by fastforce
  with request [OF Cons.prems assms(2,3), of fw rq] have "P (hs_world s1)" by simp
  from Cons.IH [OF this] r show ?case by (cases "answer_all fw env rqs s1") simp
qed simp

end

text \<open>The invariant of the audit trails with the growth of the records, and the shape of the results.\<close>

definition audited_since :: "supervisor \<Rightarrow> world \<Rightarrow> world \<Rightarrow> bool" where
  "audited_since sv w0 w \<longleftrightarrow> (inj (sv_uuid sv) \<longrightarrow> world_ok sv w \<and> grows w0 w)"

interpretation audited: kept_by_supervisor sv "audited_since sv w0" for sv w0
proof
  fix op w r w' assume P: "audited_since sv w0 w" and ex: "sup_exec sv op w = (r, w')"
  show "audited_since sv w0 w'"
    unfolding audited_since_def
  proof
    assume inj: "inj (sv_uuid sv)"
    with P have ok: "world_ok sv w" "grows w0 w" by (simp_all add: audited_since_def)
    from sup_exec_ok [OF ok(1) inj ex] sup_exec_grows [OF ok(1) inj ex] ok(2)
    show "world_ok sv w' \<and> grows w0 w'" by (auto simp: run_ok_def intro: grows_trans)
  qed
next
  fix w n assume "audited_since sv w0 w"
  then show "audited_since sv w0 (w\<lparr>w_tick := n\<rparr>)" by (simp add: audited_since_def world_ok_def grows_def)
qed

interpretation fitting: kept_by_supervisor sv results_ok for sv
  by unfold_locales (auto simp: results_ok_def dest: sup_exec_fits [unfolded results_ok_def])


section \<open>A small server\<close>

text \<open>A framework with the first-match router and bodies that always fit, and a server over the world
  of one submitted task.\<close>

definition demo_framework :: "unit framework" where
  "demo_framework =
     \<lparr>fw_route = first_match, fw_unrouted = (\<lambda>m path. 404), fw_int = (\<lambda>v. Some (int (length v))),
      fw_bool = (\<lambda>v. Some (v = ''true'')), fw_submit = (\<lambda>b. Some demo_request),
      fw_approve = (\<lambda>b. Some approve_request_default), fw_cancel = (\<lambda>b. None), fw_goal = (\<lambda>b. None),
      fw_register = (\<lambda>b. None), fw_engine_task = (\<lambda>b. None), fw_json = (\<lambda>b. None),
      fw_dependencies_first = (\<lambda>b. False)\<rparr>"

definition demo_http_env :: http_env where
  "demo_http_env =
     \<lparr>ht_supervisor = demo_supervisor, ht_orchestrator = None, ht_orders = (\<lambda>n. []), ht_cluster = demo_fleet_env,
      ht_health = \<lparr>he_workdir_exists = True, he_workdir_is_dir = True, he_opa_status = (\<lambda>u. Inr 200),
        he_bus_name = ''NullEventBus'', he_store_detail = ''InMemoryTaskStore'', he_store_issues = []\<rparr>,
      ht_event_bus = False, ht_hash = demo_hash\<rparr>"

definition demo_http_state :: "world \<Rightarrow> http_state" where
  "demo_http_state w =
     \<lparr>hs_keys = demo_key_store, hs_key_file = demo_key_file, hs_world = w,
      hs_cluster = \<lparr>co_nodes = er_init, co_ticks = 0, co_ids = 0\<rparr>, hs_triggers = None\<rparr>"

definition demo_http_request :: "http_method \<Rightarrow> string \<Rightarrow> string option \<Rightarrow> (string \<Rightarrow> string list) \<Rightarrow> unit http_request" where
  "demo_http_request m path authorization query =
     \<lparr>rq_method = m, rq_path = path, rq_authorization = authorization, rq_query = query, rq_body = (),
      rq_now = ''now'', rq_clock = \<lparr>dt_year = 2026, dt_month = 1, dt_day = 1, dt_hour = 0, dt_minute = 0, dt_second = 0,
        dt_microsecond = 0, dt_aware = True\<rparr>\<rparr>"

lemma demo_state_simps [simp]:
  "hs_keys (demo_http_state w) = demo_key_store" "hs_world (demo_http_state w) = w"
  "hs_key_file (demo_http_state w) = demo_key_file"
  by (simp_all add: demo_http_state_def)

lemma demo_request_simps [simp]:
  "rq_method (demo_http_request m path a q) = m" "rq_path (demo_http_request m path a q) = path"
  "rq_authorization (demo_http_request m path a q) = a" "rq_query (demo_http_request m path a q) = q"
  by (simp_all add: demo_http_request_def)

lemma demo_framework_route [simp]: "fw_route demo_framework = first_match"
  by (simp add: demo_framework_def)

theorem only_health_is_open_witness:
  "\<exists>m k. respond demo_framework demo_http_env (demo_http_request GET ''/v1/tasks/t1'' None (\<lambda>n. [])) (demo_http_state demo_world) =
     ((401, R_Challenge m), (demo_http_state demo_world)\<lparr>hs_keys := k\<rparr>)"
proof -
  let ?r = "get_task_route\<lparr>rt_path := [Fixed ''v1'', Fixed ''tasks'', Path_Param ''task_id'']\<rparr>"
  let ?rq = "demo_http_request GET ''/v1/tasks/t1'' None (\<lambda>n. [])"
  have r: "?r \<in> set app_routes" by code_simp
  have "matches ?r GET ''/v1/tasks/t1'' = Some [(''task_id'', ''t1'')]" by code_simp
  then have m: "matches ?r (rq_method ?rq) (rq_path ?rq) = Some [(''task_id'', ''t1'')]" by simp
  have "rt_endpoint ?r \<notin> {Health, Root}" by (simp add: get_task_route_def get_route_def)
  with only_health_is_open [OF _ r m, of "demo_http_state demo_world"] demo_enabled show ?thesis
    by (simp add: no_valid_key_def)
qed

theorem get_requests_change_nothing_witness:
  "\<exists>n k. snd (respond demo_framework demo_http_env (demo_http_request GET ''/v1/snapshot'' None (\<lambda>n. [])) (demo_http_state demo_world)) =
     (demo_http_state demo_world)\<lparr>hs_keys := k, hs_world := demo_world\<lparr>w_tick := n\<rparr>\<rparr>"
  using get_requests_change_nothing [OF _ _ surjective_pairing, of demo_framework
      "demo_http_request GET ''/v1/snapshot'' None (\<lambda>n. [])" demo_http_env "demo_http_state demo_world"]
    first_match_router_ok by simp

text \<open>A status filter that is no status: 400, which the decorator of the listing does not document.\<close>

theorem response_statuses_witness:
  "\<exists>d s'. respond demo_framework demo_http_env (demo_http_request GET ''/v1/tasks'' None (\<lambda>n. if n = ''status'' then [''done''] else []))
     ((demo_http_state demo_world)\<lparr>hs_keys := key_store_empty\<rparr>) = ((400, R_Detail d), s') \<and>
     400 \<in> set (rt_responses list_tasks_route @ undocumented Tasks_List)"
proof -
  let ?q = "\<lambda>n. if n = ''status'' then [''done''] else []"
  let ?rq = "demo_http_request GET ''/v1/tasks'' None ?q"
  let ?s = "(demo_http_state demo_world)\<lparr>hs_keys := key_store_empty\<rparr>"
  let ?r = "list_tasks_route\<lparr>rt_path := [Fixed ''v1'', Fixed ''tasks'']\<rparr>"
  have "first_match app_routes GET ''/v1/tasks'' = Some (?r, [])" by code_simp
  then have p: "fw_route demo_framework app_routes (rq_method ?rq) (rq_path ?rq) = Some (?r, [])" by simp
  have "\<not> auth_enabled key_store_empty" by (simp add: auth_enabled_def has_keys_def key_store_empty_def dvalues_def)
  then have a: "auth_dispatch (ht_hash demo_http_env) (rq_now ?rq) (rq_path ?rq) (rq_authorization ?rq) (hs_key_file ?s) (hs_keys ?s) =
      (Call_Next open_context, key_store_empty)"
    by (simp add: auth_dispatch_def)
  have "\<exists>d. api_list_tasks demo_world (Some ''done'') (Some 50) 0 = Inl (HTTP_Exception 400 d)"
    by (simp add: api_list_tasks_def all_statuses_def http_error_def)
  moreover have "page_query demo_framework ?rq = Some (50, 0)"
    by (simp add: page_query_def query_int_def query_text_def)
  moreover have "query_text ?rq ''status'' = Some ''done''" by (simp add: query_text_def)
  ultimately obtain d s' where r: "respond demo_framework demo_http_env ?rq ?s = ((400, R_Detail d), s')"
    using p a by (auto simp: respond_def routed_def returned_def response_of_def exception_response_def
        list_tasks_route_def get_route_def)
  from response_statuses [OF _ p r] first_match_router_ok
  have "400 \<in> set (rt_responses ?r @ undocumented (rt_endpoint ?r))" by simp
  with r show ?thesis by (simp add: list_tasks_route_def get_route_def)
qed


end
