(* ===== verification/Sandbox.thy ===== *)
theory Sandbox
  imports Loader Guild
begin

text \<open>
  \<^verbatim>\<open>engine/runtime/sandbox.py\<close> and \<^verbatim>\<open>engine/runtime/_sandbox_worker.py\<close>: a capability run in a child
  process, with the JSON protocol between the two, and what of a direct call survives it.

  The class to import, what it prints, how long the child takes and how an interpreter exits on an
  exception nobody catches are parameters.  \<^verbatim>\<open>json.loads\<close> reads back what \<^verbatim>\<open>json.dumps\<close> wrote, and does
  not parse it when other text than blanks stands before it.
\<close>

section \<open>The child\<close>

text \<open>An instance of the imported class.\<close>

record sandboxed =
  sd_validate_input :: "pyval \<Rightarrow> exc + pyval"
  sd_execute :: "pyval \<Rightarrow> cap_context \<Rightarrow> exc + cap_result"

record sandbox_env =
  sx_instance :: "string \<Rightarrow> string \<Rightarrow> exc + sandboxed"
  sx_printed :: "pyval \<Rightarrow> string"
  sx_stderr :: "pyval \<Rightarrow> string"
  sx_seconds :: "pyval \<Rightarrow> rat"
  sx_exit_code :: "exc \<Rightarrow> int"
  sx_traceback :: "exc \<Rightarrow> string"
  sx_json_loads :: "string \<Rightarrow> exc + pyval"
  sx_str :: "pyval \<Rightarrow> string"
  sx_pydantic_error :: "pyval \<Rightarrow> string"

text \<open>A finished process.  Its output is what the capability printed, then the JSON text the worker
  wrote, if it did.\<close>

record finished_process =
  fp_returncode :: int
  fp_printed :: string
  fp_written :: "pyval option"

definition get_or :: "pydict \<Rightarrow> string \<Rightarrow> pyval \<Rightarrow> pyval" where
  "get_or d k v = (case dget d k of None \<Rightarrow> v | Some x \<Rightarrow> x)"

definition load_capability_class :: "sandbox_env \<Rightarrow> pyval \<Rightarrow> exc + sandboxed" where
  "load_capability_class env import_path =
     (case import_path of
        PStr s \<Rightarrow>
          let (module_name, class_name) = partition_colon s in
          if module_name = [] \<or> class_name = [] then Inl (Value_Error (''Invalid import_path: '' @ py_repr s))
          else sx_instance env module_name class_name
      | _ \<Rightarrow> Inl (attribute_error ''partition''))"

definition context_validate :: "sandbox_env \<Rightarrow> pyval \<Rightarrow> exc + cap_context" where
  "context_validate env v =
     (case v of
        PDict d \<Rightarrow>
          (case (dget d ''task_id'', dget d ''task_name'', dget d ''workdir'') of
             (Some (PStr i), Some (PStr n), Some (PStr dir)) \<Rightarrow> Inr \<lparr>cc_task_id = i, cc_task_name = n, cc_workdir = dir\<rparr>
           | _ \<Rightarrow> Inl (Validation_Error (sx_pydantic_error env v)))
      | _ \<Rightarrow> Inl (Validation_Error (sx_pydantic_error env v)))"

definition not_serializable :: exc where
  "not_serializable = type_error ''Object of type datetime is not JSON serializable''"

definition json_dumps :: "pyval \<Rightarrow> exc + pyval" where
  "json_dumps v = (if json_able v then Inr v else Inl not_serializable)"

text \<open>The last \<^verbatim>\<open>try\<close> block, up to what it writes.\<close>

definition worker_reply :: "sandbox_env \<Rightarrow> sandboxed \<Rightarrow> pyval \<Rightarrow> pyval \<Rightarrow> exc + pyval" where
  "worker_reply env capability payload context_data =
     (case context_validate env context_data of
        Inl e \<Rightarrow> Inl e
      | Inr context \<Rightarrow>
          (case sd_validate_input capability payload of
             Inl e \<Rightarrow> Inl e
           | Inr validated \<Rightarrow>
               (case sd_execute capability validated context of
                  Inl e \<Rightarrow> Inl e
                | Inr result \<Rightarrow>
                    json_dumps (PDict [(''output'', cr_output result), (''metadata'', PDict (cr_metadata result))]))))"

definition worker_main :: "sandbox_env \<Rightarrow> pyval \<Rightarrow> exc + pyval \<Rightarrow> finished_process" where
  "worker_main env sent stdin =
     (let exits = (\<lambda>code v. \<lparr>fp_returncode = code, fp_printed = sx_printed env sent, fp_written = v\<rparr>);
          error_exit = (\<lambda>e fields. if is_exception e then exits 1 (Some (PDict fields)) else exits (sx_exit_code env e) None)
      in case stdin of
        Inl e \<Rightarrow> error_exit e [(''error'', PStr (''stdin parse error: '' @ exc_str e))]
      | Inr (PDict data) \<Rightarrow>
          (case load_capability_class env (get_or data ''import_path'' (PStr [])) of
             Inl e \<Rightarrow> error_exit e [(''error'', PStr (''capability load error: '' @ exc_str e))]
           | Inr capability \<Rightarrow>
               (case worker_reply env capability (get_or data ''payload'' (PDict [])) (get_or data ''context'' (PDict [])) of
                  Inl e \<Rightarrow> error_exit e [(''error'', PStr (exc_type e @ '': '' @ exc_str e)),
                    (''traceback'', PStr (sx_traceback env e))]
                | Inr reply \<Rightarrow> exits 0 (Some reply)))
      | Inr v \<Rightarrow> exits 1 None)"

section \<open>The runner\<close>

record subprocess_runner =
  sr_timeout_seconds :: "rat option"
  sr_capture_stderr :: bool

definition runner_defaults :: subprocess_runner where
  "runner_defaults = \<lparr>sr_timeout_seconds = Some 30, sr_capture_stderr = False\<rparr>"

definition subprocess_error :: "string \<Rightarrow> exc" where
  "subprocess_error m = Other_Exception ''SubprocessCapabilityError'' m"

definition stdout_json :: "sandbox_env \<Rightarrow> finished_process \<Rightarrow> exc + pyval" where
  "stdout_json env p =
     (case fp_written p of
        None \<Rightarrow> sx_json_loads env (fp_printed p)
      | Some v \<Rightarrow> if py_strip (fp_printed p) = [] then Inr v else Inl (JSON_Decode_Error ''Expecting value''))"

definition text_of :: "sandbox_env \<Rightarrow> pyval \<Rightarrow> string" where
  "text_of env v = (case v of PStr s \<Rightarrow> s | _ \<Rightarrow> sx_str env v)"

text \<open>What \<^verbatim>\<open>"error" in result_data\<close> and the lines after it raise for a value that is no dict.\<close>

definition foreign_result :: "pyval \<Rightarrow> exc" where
  "foreign_result v =
     (case v of
        PList xs \<Rightarrow> if PStr ''error'' \<in> set xs then type_error ''list indices must be integers or slices''
                    else attribute_error ''get''
      | PStr s \<Rightarrow> if contains ''error'' s then type_error ''string indices must be integers''
                  else attribute_error ''get''
      | _ \<Rightarrow> type_error ''argument is not iterable'')"

definition read_result :: "sandbox_env \<Rightarrow> string \<Rightarrow> string \<Rightarrow> finished_process \<Rightarrow> exc + cap_result" where
  "read_result env import_path stderr_detail proc =
     (let named = (\<lambda>what. ''Sandboxed capability '' @ quote1 @ import_path @ quote1 @ what @ stderr_detail) in
      if fp_returncode proc \<noteq> 0
      then let exit_text = ''exit code '' @ show_int (fp_returncode proc);
               error_msg = (case stdout_json env proc of
                   Inr (PDict d) \<Rightarrow> text_of env (get_or d ''error'' (PStr exit_text))
                 | _ \<Rightarrow> exit_text)
           in Inl (subprocess_error (named ('' failed: '' @ error_msg)))
      else case stdout_json env proc of
        Inl e \<Rightarrow> Inl (subprocess_error (named '' returned invalid JSON''))
      | Inr (PDict d) \<Rightarrow>
          (case dget d ''error'' of
             Some v \<Rightarrow> Inl (subprocess_error (named ('' raised: '' @ text_of env v)))
           | None \<Rightarrow>
               (case get_or d ''metadata'' (PDict []) of
                  PDict m \<Rightarrow> Inr \<lparr>cr_output = get_or d ''output'' PNone, cr_metadata = m\<rparr>
                | v \<Rightarrow> Inl (Validation_Error (sx_pydantic_error env v))))
      | Inr v \<Rightarrow> Inl (foreign_result v))"

definition stdin_data :: "string \<Rightarrow> pydict \<Rightarrow> cap_context \<Rightarrow> pyval" where
  "stdin_data import_path payload context =
     PDict [(''import_path'', PStr import_path), (''payload'', PDict payload),
       (''context'', PDict [(''task_id'', PStr (cc_task_id context)), (''task_name'', PStr (cc_task_name context)),
          (''workdir'', PStr (cc_workdir context))])]"

definition sandbox_run ::
  "sandbox_env \<Rightarrow> (rat \<Rightarrow> string) \<Rightarrow> subprocess_runner \<Rightarrow> string \<Rightarrow> pydict \<Rightarrow> cap_context \<Rightarrow> exc + cap_result" where
  "sandbox_run env float_str runner import_path payload context =
     (case json_dumps (stdin_data import_path payload context) of
        Inl e \<Rightarrow> Inl e
      | Inr stdin \<Rightarrow>
          let stderr = py_strip (sx_stderr env stdin);
              stderr_detail = (if sr_capture_stderr runner \<and> stderr \<noteq> [] then [CHR 0x0A] @ ''stderr: '' @ stderr else []);
              in_time = read_result env import_path stderr_detail (worker_main env stdin (Inr stdin))
          in case sr_timeout_seconds runner of
            None \<Rightarrow> in_time
          | Some t \<Rightarrow>
              if sx_seconds env stdin > t
              then Inl (subprocess_error (''Capability '' @ quote1 @ import_path @ quote1 @ '' exceeded '' @ float_str t @
                     ''s sandbox timeout''))
              else in_time)"

section \<open>What survives the process boundary\<close>

text \<open>The reference: validate and execute in the same process.\<close>

definition direct_call :: "sandboxed \<Rightarrow> pydict \<Rightarrow> cap_context \<Rightarrow> exc + cap_result" where
  "direct_call c payload context =
     (case sd_validate_input c (PDict payload) of Inl e \<Rightarrow> Inl e | Inr v \<Rightarrow> sd_execute c v context)"

definition sandboxed_error :: "string \<Rightarrow> exc \<Rightarrow> exc" where
  "sandboxed_error import_path e = subprocess_error (''Sandboxed capability '' @ quote1 @ import_path @ quote1 @
     '' failed: '' @ exc_type e @ '': '' @ exc_str e)"

lemma json_able_dict: "json_able (PDict d) \<longleftrightarrow> list_all (\<lambda>(k, v). json_able v) d"
  by (auto simp: list_all_iff)

lemma stdin_json_able: "json_dumps (stdin_data path payload ctx) =
    (if json_able (PDict payload) then Inr (stdin_data path payload ctx) else Inl not_serializable)"
  by (simp add: json_dumps_def stdin_data_def)

lemma stdin_context:
  "stdin_data path payload ctx = PDict d \<Longrightarrow> context_validate env (get_or d ''context'' v) = Inr ctx \<and>
     get_or d ''payload'' v = PDict payload \<and> get_or d ''import_path'' v = PStr path"
  by (auto simp: stdin_data_def get_or_def dget_def context_validate_def)

lemma worker_of_stdin:
  assumes "partition_colon path = (m, c)" and "m \<noteq> []" and "c \<noteq> []" and "sx_instance env m c = Inr capability"
  shows "worker_main env (stdin_data path payload ctx) (Inr (stdin_data path payload ctx)) =
    (case (case direct_call capability payload ctx of
             Inl e \<Rightarrow> Inl e
           | Inr r \<Rightarrow> json_dumps (PDict [(''output'', cr_output r), (''metadata'', PDict (cr_metadata r))])) of
       Inl e \<Rightarrow>
         if is_exception e
         then \<lparr>fp_returncode = 1, fp_printed = sx_printed env (stdin_data path payload ctx),
               fp_written = Some (PDict [(''error'', PStr (exc_type e @ '': '' @ exc_str e)),
                 (''traceback'', PStr (sx_traceback env e))])\<rparr>
         else \<lparr>fp_returncode = sx_exit_code env e, fp_printed = sx_printed env (stdin_data path payload ctx),
               fp_written = None\<rparr>
     | Inr v \<Rightarrow> \<lparr>fp_returncode = 0, fp_printed = sx_printed env (stdin_data path payload ctx), fp_written = Some v\<rparr>)"
proof -
  obtain d where d: "stdin_data path payload ctx = PDict d" by (simp add: stdin_data_def)
  note c = stdin_context [OF d]
  show ?thesis
    using assms c
    by (auto simp: d worker_main_def Let_def load_capability_class_def worker_reply_def direct_call_def
        split: sum.splits)
qed

text \<open>
  C39. A sandboxed run is a direct call: for a capability class that imports, on a payload that is JSON,
  in time and with nothing printed, the sandbox returns what validating and executing the capability
  in the same process returns, whenever that result is JSON; and an exception there, or a result that
  is not JSON, becomes a \<^verbatim>\<open>SubprocessCapabilityError\<close> with its type and its text.
\<close>

theorem sandboxed_run_is_direct_call:
  assumes "partition_colon path = (m, c)" and "m \<noteq> []" and "c \<noteq> []" and "sx_instance env m c = Inr capability"
    and "json_able (PDict payload)" and "py_strip (sx_printed env (stdin_data path payload ctx)) = []"
    and "\<forall>t. sr_timeout_seconds runner = Some t \<longrightarrow> sx_seconds env (stdin_data path payload ctx) \<le> t"
    and "\<forall>e. direct_call capability payload ctx = Inl e \<longrightarrow> is_exception e" and "\<not> sr_capture_stderr runner"
  shows "sandbox_run env float_str runner path payload ctx =
    (case direct_call capability payload ctx of
       Inl e \<Rightarrow> Inl (sandboxed_error path e)
     | Inr r \<Rightarrow>
         if json_able (cr_output r) \<and> json_able (PDict (cr_metadata r)) then Inr r
         else Inl (sandboxed_error path not_serializable))"
proof -
  let ?stdin = "stdin_data path payload ctx"
  have run: "sandbox_run env float_str runner path payload ctx =
      read_result env path [] (worker_main env ?stdin (Inr ?stdin))"
    using assms(5,7,9) by (auto simp: sandbox_run_def stdin_json_able Let_def not_less split: option.splits)
  have ne: "is_exception not_serializable" by (simp add: not_serializable_def type_error_def)
  show ?thesis
  proof (cases "direct_call capability payload ctx")
    case (Inl e)
    with assms(8) have "is_exception e" by blast
    with Inl assms(6) show ?thesis
      by (simp add: run worker_of_stdin [OF assms(1-4)] read_result_def stdout_json_def get_or_def dget_def text_of_def
          sandboxed_error_def)
  next
    case (Inr r)
    have j: "json_able (PDict [(''output'', cr_output r), (''metadata'', PDict (cr_metadata r))]) \<longleftrightarrow>
        json_able (cr_output r) \<and> json_able (PDict (cr_metadata r))" by simp
    show ?thesis
    proof (cases "json_able (cr_output r) \<and> json_able (PDict (cr_metadata r))")
      case True
      with Inr assms(6) j show ?thesis
        by (simp add: run worker_of_stdin [OF assms(1-4)] json_dumps_def read_result_def stdout_json_def get_or_def
            dget_def del: json_able.simps)
    next
      case False
      with Inr assms(6) j ne show ?thesis
        by (simp add: run worker_of_stdin [OF assms(1-4)] json_dumps_def read_result_def stdout_json_def get_or_def
            dget_def text_of_def sandboxed_error_def del: json_able.simps)
    qed
  qed
qed

text \<open>
  A capability that prints loses its result: if it prints anything but blanks, a run that executed
  it successfully is reported as a \<^verbatim>\<open>SubprocessCapabilityError\<close> about invalid JSON, and an exception it
  raised is reported by the exit code alone.
\<close>

theorem printing_capability_loses_its_result:
  assumes "partition_colon path = (m, c)" and "m \<noteq> []" and "c \<noteq> []" and "sx_instance env m c = Inr capability"
    and "json_able (PDict payload)" and "py_strip (sx_printed env (stdin_data path payload ctx)) \<noteq> []"
    and "sr_timeout_seconds runner = None" and "\<not> sr_capture_stderr runner"
  shows "(direct_call capability payload ctx = Inr r \<and> json_able (cr_output r) \<and> json_able (PDict (cr_metadata r)) \<longrightarrow>
      sandbox_run env float_str runner path payload ctx =
        Inl (subprocess_error (''Sandboxed capability '' @ quote1 @ path @ quote1 @ '' returned invalid JSON''))) \<and>
    (direct_call capability payload ctx = Inl e \<and> is_exception e \<longrightarrow>
      sandbox_run env float_str runner path payload ctx =
        Inl (subprocess_error (''Sandboxed capability '' @ quote1 @ path @ quote1 @ '' failed: exit code 1'')))"
proof -
  let ?stdin = "stdin_data path payload ctx"
  have run: "sandbox_run env float_str runner path payload ctx =
      read_result env path [] (worker_main env ?stdin (Inr ?stdin))"
    using assms(5,7,8) by (simp add: sandbox_run_def stdin_json_able Let_def)
  have one: "show_int 1 = ''1''" by code_simp
  show ?thesis
    using assms(6)
    by (auto simp: run worker_of_stdin [OF assms(1-4)] json_dumps_def read_result_def stdout_json_def one
        simp del: json_able.simps) (simp_all add: json_able_dict)
qed

definition demo_sandboxed :: sandboxed where
  "demo_sandboxed = \<lparr>sd_validate_input = Inr,
     sd_execute = \<lambda>v ctx. Inr \<lparr>cr_output = v, cr_metadata = [(''task_id'', PStr (cc_task_id ctx))]\<rparr>\<rparr>"

definition demo_sandbox :: "string \<Rightarrow> sandbox_env" where
  "demo_sandbox printed =
     \<lparr>sx_instance = \<lambda>m c. Inr demo_sandboxed, sx_printed = \<lambda>v. printed, sx_stderr = \<lambda>v. [], sx_seconds = \<lambda>v. 1,
      sx_exit_code = \<lambda>e. 1, sx_traceback = \<lambda>e. [], sx_json_loads = \<lambda>s. Inl (JSON_Decode_Error ''Expecting value''),
      sx_str = \<lambda>v. [], sx_pydantic_error = \<lambda>v. []\<rparr>"

theorem sandboxed_run_is_direct_call_witness:
  "sandbox_run (demo_sandbox [CHR 0x0A]) (\<lambda>t. ''30.0'') runner_defaults ''m:C'' [(''a'', PInt 1)] demo_ctx =
     Inr \<lparr>cr_output = PDict [(''a'', PInt 1)], cr_metadata = [(''task_id'', PStr ''1'')]\<rparr>"
proof -
  have p: "partition_colon ''m:C'' = (''m'', ''C'')" by code_simp
  have "sx_instance (demo_sandbox [CHR 0x0A]) ''m'' ''C'' = Inr demo_sandboxed" by (simp add: demo_sandbox_def)
  from sandboxed_run_is_direct_call [OF p _ _ this, of "[(''a'', PInt 1)]" demo_ctx runner_defaults "\<lambda>t. ''30.0''"]
  show ?thesis
    by (simp add: demo_sandbox_def runner_defaults_def direct_call_def demo_sandboxed_def demo_ctx_def py_strip_def is_ws_def)
qed

theorem printing_capability_loses_its_result_witness:
  "sandbox_run (demo_sandbox ''hi'') (\<lambda>t. []) \<lparr>sr_timeout_seconds = None, sr_capture_stderr = False\<rparr> ''m:C'' [] demo_ctx =
     Inl (subprocess_error (''Sandboxed capability '' @ quote1 @ ''m:C'' @ quote1 @ '' returned invalid JSON''))"
proof -
  have p: "partition_colon ''m:C'' = (''m'', ''C'')" by code_simp
  have i: "sx_instance (demo_sandbox ''hi'') ''m'' ''C'' = Inr demo_sandboxed" by (simp add: demo_sandbox_def)
  have s: "py_strip (sx_printed (demo_sandbox ''hi'') (stdin_data ''m:C'' [] demo_ctx)) \<noteq> []"
    by (simp add: demo_sandbox_def py_strip_def is_ws_def)
  from printing_capability_loses_its_result [OF p _ _ i _ s, of "\<lparr>sr_timeout_seconds = None, sr_capture_stderr = False\<rparr>"
      "\<lparr>cr_output = PDict [], cr_metadata = [(''task_id'', PStr ''1'')]\<rparr>" "\<lambda>t. []"]
  show ?thesis by (simp add: direct_call_def demo_sandboxed_def demo_ctx_def)
qed

end
