(* ===== verification/Async.thy ===== *)
theory Async
  imports Prelude
begin

text \<open>
  \<^verbatim>\<open>runtime/async_utils.py\<close>: how synchronous code runs a coroutine, in a thread whose event loop is
  running or not.  A coroutine is what running it to its end does to the state and gives or raises.
\<close>

type_synonym ('a, 's) coroutine = "'s \<Rightarrow> (exc + 'a) \<times> 's"

definition no_running_loop :: exc where
  "no_running_loop = Other_Exception ''RuntimeError'' ''no running event loop''"

definition loop_is_running :: exc where
  "loop_is_running = Other_Exception ''RuntimeError'' ''asyncio.run() cannot be called from a running event loop''"

definition get_running_loop :: "bool \<Rightarrow> exc + unit" where
  "get_running_loop running = (if running then Inr () else Inl no_running_loop)"

text \<open>\<^verbatim>\<open>asyncio.run\<close> refuses in a thread whose loop is running, before the coroutine starts.\<close>

definition asyncio_run :: "bool \<Rightarrow> ('a, 's) coroutine \<Rightarrow> ('a, 's) coroutine" where
  "asyncio_run running coro s = (if running then (Inl loop_is_running, s) else coro s)"

text \<open>The new thread has no loop; it puts one item into the queue, the outcome (the success flag and the
  value are a sum here), which the waiting thread takes and returns or raises again.\<close>

definition thread_runner :: "('a, 's) coroutine \<Rightarrow> 's \<Rightarrow> (exc + 'a) list \<times> 's" where
  "thread_runner coro s = (case asyncio_run False coro s of
       (Inr v, s) \<Rightarrow> ([Inr v], s)
     | (Inl e, s) \<Rightarrow> ([Inl e], s))"

definition run_coro_in_thread :: "('a, 's) coroutine \<Rightarrow> ('a, 's) coroutine" where
  "run_coro_in_thread coro s = (case thread_runner coro s of (queue, s) \<Rightarrow> (hd queue, s))"

definition run_coro :: "bool \<Rightarrow> ('a, 's) coroutine \<Rightarrow> ('a, 's) coroutine" where
  "run_coro running coro s =
     (case get_running_loop running of
        Inl e \<Rightarrow> asyncio_run running coro s
      | Inr u \<Rightarrow> run_coro_in_thread coro s)"

text \<open>Both hosts see the coroutine's own outcome; \<^verbatim>\<open>asyncio.run\<close> alone would fail in one of them.\<close>

lemma run_coro_outcome: "run_coro running coro = coro"
  by (rule ext) (simp add: run_coro_def get_running_loop_def asyncio_run_def run_coro_in_thread_def thread_runner_def
      split: prod.split sum.split)

lemma asyncio_run_needs_the_thread: "asyncio_run True coro s = (Inl loop_is_running, s)"
  by (simp add: asyncio_run_def)

end
