(* ===== verification/Memory.thy ===== *)
theory Memory
  imports Loader "HOL-Library.Sublist" Async
begin

text \<open>
  \<^verbatim>\<open>engine/interfaces/memory.py\<close>, \<^verbatim>\<open>engine/memory/providers/memu.py\<close> and
  \<^verbatim>\<open>engine/capabilities/memory.py\<close>: the memory contract, its adapter to the memU service and the
  memory capability on top of it.

  The service is a parameter: what its \<open>n\<close>-th call answers or raises.  So are \<^verbatim>\<open>str\<close> and \<^verbatim>\<open>json.dumps\<close>
  of values that are no text, and the names of temporary files.
\<close>

section \<open>interfaces/memory.py\<close>

record memory_document =
  doc_external_id :: string
  doc_namespace :: string
  doc_content :: string
  doc_metadata :: pydict
  doc_tags :: "string list"

record memory_query =
  qu_query :: string
  qu_namespaces :: "string list"
  qu_limit :: int
  qu_metadata_filters :: pydict

record memory_hit =
  hit_external_id :: string
  hit_content :: string
  hit_metadata :: pydict
  hit_score :: "rat option"

section \<open>The service and the provider\<close>

record memu_service =
  ms_memorize :: "nat \<Rightarrow> string \<Rightarrow> string \<Rightarrow> pydict option \<Rightarrow> exc + pyval"
  ms_retrieve :: "nat \<Rightarrow> string \<Rightarrow> pydict option \<Rightarrow> exc + pyval"

text \<open>\<^verbatim>\<open>import memu\<close> finds no package, or one without the class, or the class.\<close>

datatype memu_module = No_Package | No_Service | Service_Class "pydict \<Rightarrow> exc + memu_service"

record memory_env =
  me_module :: memu_module
  me_str :: "pyval \<Rightarrow> string"
  me_json :: "pyval \<Rightarrow> exc + string"
  me_temp_name :: "nat \<Rightarrow> string"

record memu_provider =
  mu_service :: "memu_service option"
  mu_service_config :: pydict
  mu_scope :: pydict

text \<open>What the adapter acts on: the calls made to the service, and the temporary files.\<close>

record memory_state =
  mst_calls :: nat
  mst_temp_files :: "(string \<times> string) list"
  mst_temp_made :: nat

definition memu_init :: "memu_service option \<Rightarrow> pydict \<Rightarrow> pydict \<Rightarrow> memu_provider" where
  "memu_init service service_config scope = \<lparr>mu_service = service, mu_service_config = service_config, mu_scope = scope\<rparr>"

definition load_memu_service :: "memory_env \<Rightarrow> exc + (pydict \<Rightarrow> exc + memu_service)" where
  "load_memu_service env =
     (case me_module env of
        No_Package \<Rightarrow> Inl (Runtime_Error
          ''memU Python SDK is not installed. Install the self-hosted memU package to enable memory support.'')
      | No_Service \<Rightarrow> Inl (Runtime_Error ''memU Python SDK does not export MemUService'')
      | Service_Class c \<Rightarrow> Inr c)"

definition get_service :: "memory_env \<Rightarrow> memu_provider \<Rightarrow> (exc + memu_service) \<times> memu_provider" where
  "get_service env p =
     (case mu_service p of
        Some s \<Rightarrow> (Inr s, p)
      | None \<Rightarrow>
          (case load_memu_service env of
             Inl e \<Rightarrow> (Inl e, p)
           | Inr service_class \<Rightarrow>
               (case service_class (mu_service_config p) of
                  Inl e \<Rightarrow> (Inl e, p)
                | Inr s \<Rightarrow> (Inr s, p\<lparr>mu_service := Some s\<rparr>))))"

definition str_of :: "memory_env \<Rightarrow> pyval \<Rightarrow> string" where
  "str_of env v = (case v of PStr s \<Rightarrow> s | _ \<Rightarrow> me_str env v)"

section \<open>memorize\<close>

text \<open>\<open>{**scope, "namespace": ns}\<close>, updated with the scope of the document's metadata.\<close>

definition user_scope_of :: "pydict \<Rightarrow> memory_document \<Rightarrow> pydict" where
  "user_scope_of scope document =
     (let user_scope = dset ''namespace'' (PStr (doc_namespace document)) (dupdate [] scope) in
      case dget (doc_metadata document) ''scope'' of
        Some (PDict d) \<Rightarrow> dupdate user_scope d
      | _ \<Rightarrow> user_scope)"

definition none_if_empty :: "pydict \<Rightarrow> pydict option" where
  "none_if_empty d = (if d = [] then None else Some d)"

definition unlink :: "string \<Rightarrow> memory_state \<Rightarrow> memory_state" where
  "unlink p s = s\<lparr>mst_temp_files := filter (\<lambda>f. fst f \<noteq> p) (mst_temp_files s)\<rparr>"

definition memorize_one ::
  "memory_env \<Rightarrow> memu_service \<Rightarrow> pydict \<Rightarrow> memory_document \<Rightarrow> memory_state \<Rightarrow> (exc + pydict) \<times> memory_state" where
  "memorize_one env service scope document s =
     (let source_path = dget (doc_metadata document) ''source_path'';
          modality = (case dget (doc_metadata document) ''modality'' of None \<Rightarrow> ''document'' | Some v \<Rightarrow> str_of env v);
          user_scope = user_scope_of scope document;
          resource_url = (case source_path of None \<Rightarrow> [] | Some v \<Rightarrow> if truthy v then str_of env v else []);
          (resource_url, cleanup_path, s) =
            (if resource_url = []
             then let tmp = me_temp_name env (mst_temp_made s) in
               (tmp, Some tmp, s\<lparr>mst_temp_files := (tmp, doc_content document) # mst_temp_files s,
                                  mst_temp_made := Suc (mst_temp_made s)\<rparr>)
             else (resource_url, None, s));
          outcome = ms_memorize service (mst_calls s) resource_url modality (none_if_empty user_scope);
          s = s\<lparr>mst_calls := Suc (mst_calls s)\<rparr>;
          s = (case cleanup_path of None \<Rightarrow> s | Some p \<Rightarrow> unlink p s)
      in (map_sum id (\<lambda>raw. [(''external_id'', PStr (doc_external_id document)),
            (''namespace'', PStr (doc_namespace document)), (''raw'', raw)]) outcome, s))"

fun memorize_all ::
  "memory_env \<Rightarrow> memu_service \<Rightarrow> pydict \<Rightarrow> memory_document list \<Rightarrow> memory_state \<Rightarrow> (exc + pydict list) \<times> memory_state" where
  "memorize_all env service scope [] s = (Inr [], s)"
| "memorize_all env service scope (d # ds) s =
     (case memorize_one env service scope d s of
        (Inl e, s) \<Rightarrow> (Inl e, s)
      | (Inr r, s) \<Rightarrow>
          (case memorize_all env service scope ds s of
             (Inl e, s) \<Rightarrow> (Inl e, s)
           | (Inr rs, s) \<Rightarrow> (Inr (r # rs), s)))"

definition memu_memorize ::
  "memory_env \<Rightarrow> memory_document list \<Rightarrow> memu_provider \<times> memory_state \<Rightarrow> (exc + pydict list) \<times> memu_provider \<times> memory_state" where
  "memu_memorize env documents ps =
     (case ps of (p, s) \<Rightarrow>
       (case get_service env p of
          (Inl e, p) \<Rightarrow> (Inl e, p, s)
        | (Inr service, p) \<Rightarrow>
            (case memorize_all env service (mu_scope p) documents s of (r, s) \<Rightarrow> (r, p, s))))"

section \<open>Normalising what the service returns\<close>

definition first_some :: "('a \<Rightarrow> 'b option) \<Rightarrow> 'a list \<Rightarrow> 'b option" where
  "first_some f xs = fold (\<lambda>x acc. case acc of None \<Rightarrow> f x | Some b \<Rightarrow> Some b) xs None"

definition extract_external_id :: "memory_env \<Rightarrow> pydict \<Rightarrow> string \<Rightarrow> nat \<Rightarrow> string" where
  "extract_external_id env entry bucket_name index =
     (case first_some (\<lambda>key. case dget entry key of None \<Rightarrow> None | Some v \<Rightarrow> if truthy v then Some (str_of env v) else None)
         [''external_id'', ''id'', ''item_id'', ''category_id'', ''resource_id''] of
        Some s \<Rightarrow> s
      | None \<Rightarrow> bucket_name @ '':'' @ show_nat index)"

definition extract_content :: "memory_env \<Rightarrow> pydict \<Rightarrow> exc + string" where
  "extract_content env entry =
     (case first_some (\<lambda>key. case dget entry key of
             Some (PStr s) \<Rightarrow> if py_strip s \<noteq> [] then Some s else None | _ \<Rightarrow> None)
         [''content'', ''text'', ''summary'', ''description'', ''title''] of
        Some s \<Rightarrow> Inr s
      | None \<Rightarrow> me_json env (PDict entry))"

text \<open>A \<^verbatim>\<open>bool\<close> is an \<^verbatim>\<open>int\<close>.\<close>

definition number_of :: "pyval option \<Rightarrow> rat option" where
  "number_of v = (case v of
       Some (PInt i) \<Rightarrow> Some (of_int i)
     | Some (PFloat x) \<Rightarrow> Some x
     | Some (PBool b) \<Rightarrow> Some (if b then 1 else 0)
     | _ \<Rightarrow> None)"

definition extract_score :: "pydict \<Rightarrow> rat option" where
  "extract_score entry = first_some (\<lambda>key. number_of (dget entry key)) [''score'', ''similarity'']"

definition extract_metadata :: "pydict \<Rightarrow> pydict" where
  "extract_metadata entry =
     (let metadata = fold (\<lambda>key m. case dget entry key of
              Some (PDict d) \<Rightarrow> if key = ''metadata'' then dupdate m d else dset key (PDict d) m
            | _ \<Rightarrow> m) [''metadata'', ''user'', ''scope'', ''resource''] [];
          metadata = (case dget entry ''namespace'' of
              Some v \<Rightarrow> if dget metadata ''namespace'' = None then dset ''namespace'' v metadata else metadata
            | None \<Rightarrow> metadata)
      in case dget metadata ''user'' of
           Some (PDict user) \<Rightarrow>
             (case dget user ''namespace'' of
                Some v \<Rightarrow> if dget metadata ''namespace'' = None then dset ''namespace'' v metadata else metadata
              | None \<Rightarrow> metadata)
         | _ \<Rightarrow> metadata)"

fun normalize_entries :: "memory_env \<Rightarrow> string \<Rightarrow> nat \<Rightarrow> pyval list \<Rightarrow> exc + memory_hit list" where
  "normalize_entries env bucket_name index [] = Inr []"
| "normalize_entries env bucket_name index (v # vs) =
     (case v of
        PDict entry \<Rightarrow>
          (case extract_content env entry of
             Inl e \<Rightarrow> Inl e
           | Inr content \<Rightarrow>
               map_sum id (\<lambda>hits. \<lparr>hit_external_id = extract_external_id env entry bucket_name index, hit_content = content,
                   hit_metadata = extract_metadata entry, hit_score = extract_score entry\<rparr> # hits)
                 (normalize_entries env bucket_name (Suc index) vs))
      | _ \<Rightarrow> normalize_entries env bucket_name (Suc index) vs)"

fun normalize_buckets :: "memory_env \<Rightarrow> pydict \<Rightarrow> string list \<Rightarrow> exc + memory_hit list" where
  "normalize_buckets env raw [] = Inr []"
| "normalize_buckets env raw (b # bs) =
     (case (case dget raw b of Some (PList entries) \<Rightarrow> normalize_entries env b 0 entries | _ \<Rightarrow> Inr []) of
        Inl e \<Rightarrow> Inl e
      | Inr hits \<Rightarrow> map_sum id (\<lambda>more. hits @ more) (normalize_buckets env raw bs))"

definition normalize_hits :: "memory_env \<Rightarrow> pyval \<Rightarrow> exc + memory_hit list" where
  "normalize_hits env raw =
     (case raw of
        PDict d \<Rightarrow> normalize_buckets env d [''items'', ''categories'', ''resources'']
      | _ \<Rightarrow> Inl (attribute_error ''get''))"

section \<open>retrieve\<close>

definition where_of :: "pydict \<Rightarrow> memory_query \<Rightarrow> pydict" where
  "where_of scope query =
     (let w = dupdate (dupdate [] scope) (qu_metadata_filters query) in
      if qu_namespaces query \<noteq> [] then dset ''namespace__in'' (PList (map PStr (qu_namespaces query))) w else w)"

definition in_namespaces :: "string list \<Rightarrow> pyval option \<Rightarrow> bool" where
  "in_namespaces namespaces v = (case v of Some (PStr s) \<Rightarrow> s \<in> set namespaces | _ \<Rightarrow> False)"

text \<open>The condition of the filter; the \<^verbatim>\<open>user\<close> is looked at only when the namespace does not do.\<close>

definition hit_wanted :: "string list \<Rightarrow> memory_hit \<Rightarrow> exc + bool" where
  "hit_wanted namespaces hit =
     (if in_namespaces namespaces (dget (hit_metadata hit) ''namespace'') then Inr True
      else case dget (hit_metadata hit) ''user'' of
        None \<Rightarrow> Inr False
      | Some (PDict user) \<Rightarrow> Inr (in_namespaces namespaces (dget user ''namespace''))
      | Some v \<Rightarrow> Inl (attribute_error ''get''))"

fun filter_hits :: "string list \<Rightarrow> memory_hit list \<Rightarrow> exc + memory_hit list" where
  "filter_hits namespaces [] = Inr []"
| "filter_hits namespaces (h # hs) =
     (case hit_wanted namespaces h of
        Inl e \<Rightarrow> Inl e
      | Inr b \<Rightarrow> map_sum id (\<lambda>rest. if b then h # rest else rest) (filter_hits namespaces hs))"

definition memu_retrieve ::
  "memory_env \<Rightarrow> memory_query \<Rightarrow> memu_provider \<times> memory_state \<Rightarrow> (exc + memory_hit list) \<times> memu_provider \<times> memory_state" where
  "memu_retrieve env query ps =
     (case ps of (p, s) \<Rightarrow>
       (case get_service env p of
          (Inl e, p) \<Rightarrow> (Inl e, p, s)
        | (Inr service, p) \<Rightarrow>
            let raw = ms_retrieve service (mst_calls s) (qu_query query) (none_if_empty (where_of (mu_scope p) query));
                s = s\<lparr>mst_calls := Suc (mst_calls s)\<rparr>
            in (case raw of
                  Inl e \<Rightarrow> Inl e
                | Inr raw \<Rightarrow>
                    (case normalize_hits env raw of
                       Inl e \<Rightarrow> Inl e
                     | Inr hits \<Rightarrow>
                         (case (if qu_namespaces query \<noteq> [] then filter_hits (qu_namespaces query) hits else Inr hits) of
                            Inl e \<Rightarrow> Inl e
                          | Inr hits \<Rightarrow> Inr (py_upto (qu_limit query) hits))), p, s)))"

section \<open>The memory capability\<close>

datatype memory_action = Memorize | Retrieve

record memory_request =
  req_action :: memory_action
  req_documents :: "memory_document list"
  req_query :: "memory_query option"

definition action_value :: "memory_action \<Rightarrow> string" where
  "action_value a = (case a of Memorize \<Rightarrow> ''memorize'' | Retrieve \<Rightarrow> ''retrieve'')"

text \<open>Validation of the fields; \<open>lax_int\<close> is what pydantic takes as an \<^verbatim>\<open>int\<close>.\<close>

definition dict_or_default :: "pyval option \<Rightarrow> pydict option" where
  "dict_or_default v = (case v of None \<Rightarrow> Some [] | Some (PDict d) \<Rightarrow> Some d | _ \<Rightarrow> None)"

fun all_some :: "'a option list \<Rightarrow> 'a list option" where
  "all_some [] = Some []"
| "all_some (x # xs) = (case (x, all_some xs) of (Some y, Some ys) \<Rightarrow> Some (y # ys) | _ \<Rightarrow> None)"

definition texts_or_default :: "pyval option \<Rightarrow> string list option" where
  "texts_or_default v =
     (case v of
        None \<Rightarrow> Some []
      | Some (PList vs) \<Rightarrow> all_some (map (\<lambda>v. case v of PStr s \<Rightarrow> Some s | _ \<Rightarrow> None) vs)
      | _ \<Rightarrow> None)"

definition document_validate :: "pyval \<Rightarrow> memory_document option" where
  "document_validate v =
     (case v of
        PDict d \<Rightarrow>
          (case (dget d ''external_id'', dget d ''namespace'', dget d ''content'', dict_or_default (dget d ''metadata''),
                 texts_or_default (dget d ''tags'')) of
             (Some (PStr i), Some (PStr n), Some (PStr c), Some m, Some ts) \<Rightarrow>
               Some \<lparr>doc_external_id = i, doc_namespace = n, doc_content = c, doc_metadata = m, doc_tags = ts\<rparr>
           | _ \<Rightarrow> None)
      | _ \<Rightarrow> None)"

definition query_validate :: "(pyval \<Rightarrow> int option) \<Rightarrow> pyval \<Rightarrow> memory_query option" where
  "query_validate lax_int v =
     (case v of
        PDict d \<Rightarrow>
          (case (dget d ''query'', texts_or_default (dget d ''namespaces''),
                 (case dget d ''limit'' of None \<Rightarrow> Some 5 | Some n \<Rightarrow> lax_int n), dict_or_default (dget d ''metadata_filters'')) of
             (Some (PStr q), Some ns, Some n, Some m) \<Rightarrow>
               Some \<lparr>qu_query = q, qu_namespaces = ns, qu_limit = n, qu_metadata_filters = m\<rparr>
           | _ \<Rightarrow> None)
      | _ \<Rightarrow> None)"

definition validate_action_payload :: "memory_request \<Rightarrow> exc + memory_request" where
  "validate_action_payload r =
     (if req_action r = Memorize \<and> req_documents r = [] then Inl (Value_Error ''documents is required for memorize actions'')
      else if req_action r = Retrieve \<and> req_query r = None then Inl (Value_Error ''query is required for retrieve actions'')
      else Inr r)"

definition memory_request_validate ::
  "(pyval \<Rightarrow> int option) \<Rightarrow> (pydict \<Rightarrow> string) \<Rightarrow> pydict \<Rightarrow> exc + memory_request" where
  "memory_request_validate lax_int pydantic_error d =
     (let action = (if dget d ''action'' = Some (PStr ''memorize'') then Some Memorize
                    else if dget d ''action'' = Some (PStr ''retrieve'') then Some Retrieve else None);
          documents = (case dget d ''documents'' of
              None \<Rightarrow> Some [] | Some (PList vs) \<Rightarrow> all_some (map document_validate vs) | _ \<Rightarrow> None);
          query = (case dget d ''query'' of
              None \<Rightarrow> Some None | Some PNone \<Rightarrow> Some None | Some v \<Rightarrow> map_option Some (query_validate lax_int v))
      in case (action, documents, query) of
           (Some a, Some docs, Some q) \<Rightarrow>
             (case validate_action_payload \<lparr>req_action = a, req_documents = docs, req_query = q\<rparr> of
                Inl e \<Rightarrow> Inl (Validation_Error (pydantic_error d))
              | Inr r \<Rightarrow> Inr r)
         | _ \<Rightarrow> Inl (Validation_Error (pydantic_error d)))"

definition memory_descriptor :: cap_descriptor where
  "memory_descriptor = \<lparr>cd_name = ''memory'', cd_description = ''Persist and retrieve long-term memory documents.'',
     cd_risk_level = MEDIUM, cd_tags = [''memory'', ''knowledge''], cd_require_approval = False\<rparr>"

text \<open>The provider the constructor chooses.\<close>

definition memory_provider_init ::
  "memu_provider option \<Rightarrow> string \<Rightarrow> pydict option \<Rightarrow> pydict option \<Rightarrow> exc + memu_provider" where
  "memory_provider_init provider provider_type service_config scope =
     (let merged_service_config = (case service_config of None \<Rightarrow> [] | Some d \<Rightarrow> d);
          merged_scope = (case scope of None \<Rightarrow> [] | Some d \<Rightarrow> d)
      in case provider of
           Some p \<Rightarrow> Inr p
         | None \<Rightarrow>
             if provider_type = ''memu'' then Inr (memu_init None merged_service_config merged_scope)
             else Inl (Value_Error (''Unsupported memory provider type: '' @ provider_type)))"

definition dump_hit :: "memory_hit \<Rightarrow> pyval" where
  "dump_hit h = PDict [(''external_id'', PStr (hit_external_id h)), (''content'', PStr (hit_content h)),
     (''metadata'', PDict (hit_metadata h)),
     (''score'', case hit_score h of None \<Rightarrow> PNone | Some x \<Rightarrow> PFloat x)]"

text \<open>\<^verbatim>\<open>execute\<close> over any provider: its two operations, on its state.\<close>

definition memory_execute ::
  "(memory_document list \<Rightarrow> 's \<Rightarrow> (exc + pydict list) \<times> 's) \<Rightarrow> (memory_query \<Rightarrow> 's \<Rightarrow> (exc + memory_hit list) \<times> 's) \<Rightarrow>
   memory_request \<Rightarrow> cap_context \<Rightarrow> 's \<Rightarrow> (exc + cap_result) \<times> 's" where
  "memory_execute memorize retrieve request ctx s =
     (let result = (\<lambda>out. \<lparr>cr_output = PList out,
            cr_metadata = [(''task_id'', PStr (cc_task_id ctx)), (''action'', PStr (action_value (req_action request)))]\<rparr>)
      in case req_action request of
        Memorize \<Rightarrow>
          (case memorize (req_documents request) s of (r, s) \<Rightarrow> (map_sum id (\<lambda>rs. result (map PDict rs)) r, s))
      | Retrieve \<Rightarrow>
          (case req_query request of
             None \<Rightarrow> (Inl (attribute_error ''query''), s)
           | Some q \<Rightarrow> (case retrieve q s of (r, s) \<Rightarrow> (map_sum id (\<lambda>hits. result (map dump_hit hits)) r, s))))"

text \<open>The provider's coroutines run through \<^verbatim>\<open>run_coro\<close>, which makes no difference in either host.\<close>

lemma memory_execute_any_host:
  "memory_execute (\<lambda>d. run_coro running (memorize d)) (\<lambda>q. run_coro running (retrieve q)) =
   memory_execute memorize retrieve"
  by (simp add: run_coro_outcome)

section \<open>What a provider promises, and what the capability makes of it\<close>

definition hit_in_namespaces :: "string list \<Rightarrow> memory_hit \<Rightarrow> bool" where
  "hit_in_namespaces namespaces h \<longleftrightarrow>
     (\<exists>n \<in> set namespaces. dget (hit_metadata h) ''namespace'' = Some (PStr n) \<or>
        (\<exists>user. dget (hit_metadata h) ''user'' = Some (PDict user) \<and> dget user ''namespace'' = Some (PStr n)))"

definition answers_query :: "memory_query \<Rightarrow> memory_hit list \<Rightarrow> bool" where
  "answers_query q hits \<longleftrightarrow> (0 \<le> qu_limit q \<longrightarrow> length hits \<le> nat (qu_limit q)) \<and>
     (qu_namespaces q \<noteq> [] \<longrightarrow> list_all (hit_in_namespaces (qu_namespaces q)) hits)"

definition stored_as :: "memory_document list \<Rightarrow> pydict list \<Rightarrow> bool" where
  "stored_as documents summaries \<longleftrightarrow>
     list_all2 (\<lambda>d r. dget r ''external_id'' = Some (PStr (doc_external_id d)) \<and>
       dget r ''namespace'' = Some (PStr (doc_namespace d))) documents summaries"

locale memory_provider =
  fixes memorize :: "memory_document list \<Rightarrow> 's \<Rightarrow> (exc + pydict list) \<times> 's"
    and retrieve :: "memory_query \<Rightarrow> 's \<Rightarrow> (exc + memory_hit list) \<times> 's"
  assumes memorize_stores: "memorize documents s = (Inr summaries, s') \<Longrightarrow> stored_as documents summaries"
    and retrieve_answers: "retrieve q s = (Inr hits, s') \<Longrightarrow> answers_query q hits"
begin

lemma execute_retrieve:
  assumes "memory_execute memorize retrieve request ctx s = (Inr res, s')" and "req_action request = Retrieve"
  shows "\<exists>q hits. req_query request = Some q \<and> retrieve q s = (Inr hits, s') \<and> cr_output res = PList (map dump_hit hits) \<and>
    answers_query q hits"
  using assms retrieve_answers
  by (auto simp: memory_execute_def Let_def split: option.splits prod.splits)

lemma execute_memorize:
  assumes "memory_execute memorize retrieve request ctx s = (Inr res, s')" and "req_action request = Memorize"
  shows "\<exists>summaries. memorize (req_documents request) s = (Inr summaries, s') \<and>
    cr_output res = PList (map PDict summaries) \<and> stored_as (req_documents request) summaries"
  using assms memorize_stores
  by (auto simp: memory_execute_def Let_def split: option.splits prod.splits)

end

lemma hit_wanted_True: "hit_wanted ns h = Inr True \<Longrightarrow> hit_in_namespaces ns h"
  by (auto simp: hit_wanted_def in_namespaces_def hit_in_namespaces_def split: if_splits option.splits pyval.splits)

lemma filter_hits_Inr:
  "filter_hits ns hs = Inr xs \<Longrightarrow> subseq xs hs \<and> list_all (hit_in_namespaces ns) xs"
proof (induction hs arbitrary: xs)
  case (Cons h hs)
  then obtain b rest where b: "hit_wanted ns h = Inr b" "filter_hits ns hs = Inr rest" "xs = (if b then h # rest else rest)"
    by (auto split: sum.splits)
  with Cons.IH [OF b(2)] hit_wanted_True [of ns h] show ?case by (cases b) auto
qed simp

lemma py_upto_prefix: "prefix (py_upto j xs) xs"
  by (simp add: py_upto_def take_is_prefix)

lemma memu_retrieve_Inr:
  assumes "memu_retrieve env q (p, s) = (Inr hits, p', s')"
  shows "answers_query q hits \<and>
    (\<exists>service raw found. get_service env p = (Inr service, p') \<and>
       ms_retrieve service (mst_calls s) (qu_query q) (none_if_empty (where_of (mu_scope p') q)) = Inr raw \<and>
       normalize_hits env raw = Inr found \<and> subseq hits found)"
proof -
  obtain service where g: "get_service env p = (Inr service, p')"
    using assms by (auto simp: memu_retrieve_def Let_def split: prod.splits sum.splits)
  then obtain raw found kept where r:
      "ms_retrieve service (mst_calls s) (qu_query q) (none_if_empty (where_of (mu_scope p') q)) = Inr raw"
      "normalize_hits env raw = Inr found"
      "(if qu_namespaces q \<noteq> [] then filter_hits (qu_namespaces q) found else Inr found) = Inr kept"
      "hits = py_upto (qu_limit q) kept"
    using assms by (auto simp: memu_retrieve_def Let_def split: sum.splits)
  have pre: "prefix hits kept" by (simp add: r(4) py_upto_prefix)
  have kept: "subseq kept found \<and> (qu_namespaces q \<noteq> [] \<longrightarrow> list_all (hit_in_namespaces (qu_namespaces q)) kept)"
    using r(3) filter_hits_Inr by (auto split: if_splits)
  have "list_all P kept \<Longrightarrow> list_all P hits" for P
    using pre by (auto simp: prefix_def)
  moreover have "0 \<le> qu_limit q \<Longrightarrow> length hits \<le> nat (qu_limit q)" by (simp add: r(4) py_upto_length)
  moreover have "subseq hits found"
    using subseq_order.order_trans [OF prefix_imp_subseq [OF pre]] kept by blast
  ultimately show ?thesis using g r kept by (auto simp: answers_query_def)
qed

lemma memorize_one_fields:
  "memorize_one env service scope d s = (r, s') \<Longrightarrow>
     mst_calls s' = Suc (mst_calls s) \<and>
     (\<forall>x. r = Inr x \<longrightarrow> dget x ''external_id'' = Some (PStr (doc_external_id d)) \<and>
        dget x ''namespace'' = Some (PStr (doc_namespace d)))"
  by (auto simp: memorize_one_def Let_def dget_def unlink_def split: if_splits)

lemma memorize_all_stored:
  "memorize_all env service scope ds s = (r, s') \<Longrightarrow>
     (\<forall>xs. r = Inr xs \<longrightarrow> stored_as ds xs \<and> mst_calls s' = mst_calls s + length ds)"
proof (induction ds arbitrary: s r s')
  case (Cons d ds)
  obtain r1 s1 where one: "memorize_one env service scope d s = (r1, s1)" by fastforce
  obtain r2 s2 where rest: "memorize_all env service scope ds s1 = (r2, s2)" by fastforce
  from Cons.prems one rest Cons.IH [OF rest] memorize_one_fields [OF one] show ?case
    by (auto simp: stored_as_def split: sum.splits)
qed (simp add: stored_as_def)

interpretation memu: memory_provider "memu_memorize env" "memu_retrieve env"
proof
  fix documents s summaries s'
  assume a: "memu_memorize env documents s = (Inr summaries, s')"
  obtain p st where s: "s = (p, st)" by fastforce
  obtain g p1 where g: "get_service env p = (g, p1)" by fastforce
  from a obtain service st1 where "memorize_all env service (mu_scope p1) documents st = (Inr summaries, st1)"
    by (auto simp: memu_memorize_def s g split: sum.splits prod.splits)
  with memorize_all_stored show "stored_as documents summaries" by blast
next
  fix q s hits s'
  assume "memu_retrieve env q s = (Inr hits, s')"
  then show "answers_query q hits" using memu_retrieve_Inr by (metis surj_pair)
qed

section \<open>Properties\<close>


text \<open>
  The configured scope does not confine: whatever key of the scope a query's metadata filters or a
  document's own scope name, their value is the one the service gets, so a query may leave the scope
  the provider was configured with; only \<^verbatim>\<open>namespace__in\<close> is fixed by the query's namespaces.
\<close>

theorem configured_scope_does_not_confine:
  assumes "dict_ok scope" and "dict_ok (qu_metadata_filters q)" and "dict_ok own"
    and "dget (doc_metadata doc) ''scope'' = Some (PDict own)"
  shows "dget (where_of scope q) k =
      (if k = ''namespace__in'' \<and> qu_namespaces q \<noteq> [] then Some (PList (map PStr (qu_namespaces q)))
       else case dget (qu_metadata_filters q) k of Some v \<Rightarrow> Some v | None \<Rightarrow> dget scope k) \<and>
    dget (user_scope_of scope doc) k =
      (case dget own k of Some v \<Rightarrow> Some v
       | None \<Rightarrow> if k = ''namespace'' then Some (PStr (doc_namespace doc)) else dget scope k)"
  using assms by (simp add: where_of_def user_scope_of_def Let_def dget_dupdate split: option.split)

lemma memorize_one_temp_files:
  assumes "memorize_one env service scope d s = (r, s')" and "\<forall>n. me_temp_name env n \<notin> fst ` set (mst_temp_files s)"
  shows "mst_temp_files s' = mst_temp_files s"
proof -
  have "filter (\<lambda>f. fst f \<noteq> me_temp_name env n) (mst_temp_files s) = mst_temp_files s" for n
    using assms(2) by (force intro!: filter_True)
  with assms(1) show ?thesis by (auto simp: memorize_one_def Let_def unlink_def split: if_splits)
qed

lemma memorize_all_temp_files:
  "memorize_all env service scope ds s = (r, s') \<Longrightarrow> \<forall>n. me_temp_name env n \<notin> fst ` set (mst_temp_files s) \<Longrightarrow>
     mst_temp_files s' = mst_temp_files s"
proof (induction ds arbitrary: s r s')
  case (Cons d ds)
  obtain r1 s1 where one: "memorize_one env service scope d s = (r1, s1)" by fastforce
  have same: "mst_temp_files s1 = mst_temp_files s" using memorize_one_temp_files [OF one Cons.prems(2)] .
  obtain r2 s2 where rest: "memorize_all env service scope ds s1 = (r2, s2)" by fastforce
  have "mst_temp_files s2 = mst_temp_files s1" by (rule Cons.IH [OF rest]) (use same Cons.prems(2) in simp)
  with same Cons.prems(1) one rest show ?case by (auto split: sum.splits)
qed simp

text \<open>
  Memorizing leaves no temporary file: whether the documents are stored or the service raises at
  any of them, the temporary files are the ones there were before, as long as the names for new ones
  are free; and when it returns, it returns one summary per document, in order, after one call each.
\<close>

theorem memorize_leaves_no_temporary_file:
  assumes "memory_execute (memu_memorize env) (memu_retrieve env) request ctx (p, s) = (r, p', s')"
    and "req_action request = Memorize" and "\<forall>n. me_temp_name env n \<notin> fst ` set (mst_temp_files s)"
  shows "mst_temp_files s' = mst_temp_files s \<and>
    (case r of
       Inl e \<Rightarrow> True
     | Inr res \<Rightarrow> \<exists>summaries. cr_output res = PList (map PDict summaries) \<and> stored_as (req_documents request) summaries \<and>
         mst_calls s' = mst_calls s + length (req_documents request))"
proof -
  obtain r1 where m: "memu_memorize env (req_documents request) (p, s) = (r1, p', s')"
    using assms(1,2) by (auto simp: memory_execute_def Let_def split: prod.splits)
  have "mst_temp_files s' = mst_temp_files s \<and>
      (\<forall>xs. r1 = Inr xs \<longrightarrow> mst_calls s' = mst_calls s + length (req_documents request))"
  proof (cases "fst (get_service env p)")
    case (Inl e)
    with m show ?thesis by (auto simp: memu_memorize_def split: prod.splits)
  next
    case (Inr service)
    with m have "memorize_all env service (mu_scope p') (req_documents request) s = (r1, s')"
      by (auto simp: memu_memorize_def split: prod.splits)
    from memorize_all_temp_files [OF this assms(3)] memorize_all_stored [OF this] show ?thesis by blast
  qed
  moreover have "\<exists>summaries. r1 = Inr summaries \<and> cr_output res = PList (map PDict summaries) \<and>
      stored_as (req_documents request) summaries" if "r = Inr res" for res
    using memu.execute_memorize [of env request ctx "(p, s)" res "(p', s')"] assms(1,2) m that by auto
  ultimately show ?thesis by (cases r) auto
qed

section \<open>Witnesses\<close>

text \<open>A service that has two items, of which one is in the namespace \<^verbatim>\<open>a\<close>.\<close>

definition demo_service :: memu_service where
  "demo_service = \<lparr>ms_memorize = \<lambda>n url modality user. Inr (PInt (int n)),
     ms_retrieve = \<lambda>n q w. Inr (PDict [(''items'', PList [
       PDict [(''id'', PInt 7), (''text'', PStr ''x''), (''namespace'', PStr ''a'')],
       PDict [(''id'', PStr ''8''), (''text'', PStr ''y''), (''namespace'', PStr ''b'')]])])\<rparr>"

definition demo_memory_env :: memory_env where
  "demo_memory_env = \<lparr>me_module = No_Package, me_str = \<lambda>v. ''7'', me_json = \<lambda>v. Inr [], me_temp_name = \<lambda>n. ''/tmp/'' @ show_nat n\<rparr>"

definition demo_provider :: memu_provider where
  "demo_provider = memu_init (Some demo_service) [] [(''user_id'', PStr ''u1'')]"

definition demo_memory_state :: memory_state where
  "demo_memory_state = \<lparr>mst_calls = 0, mst_temp_files = [(''/data/x'', ''keep'')], mst_temp_made = 0\<rparr>"

definition demo_query :: memory_query where
  "demo_query = \<lparr>qu_query = ''q'', qu_namespaces = [''a''], qu_limit = 5, qu_metadata_filters = [(''user_id'', PStr ''u2'')]\<rparr>"

definition demo_document :: memory_document where
  "demo_document = \<lparr>doc_external_id = ''e1'', doc_namespace = ''a'', doc_content = ''text'',
     doc_metadata = [(''scope'', PDict [(''user_id'', PStr ''u2'')])], doc_tags = []\<rparr>"

definition demo_context :: cap_context where
  "demo_context = \<lparr>cc_task_id = ''1'', cc_task_name = ''t'', cc_workdir = ''/w''\<rparr>"


theorem configured_scope_does_not_confine_witness:
  "dget (where_of (mu_scope demo_provider) demo_query) ''user_id'' = Some (PStr ''u2'')"
proof -
  have "dict_ok (mu_scope demo_provider)" "dict_ok (qu_metadata_filters demo_query)" "dict_ok [(''user_id'', PStr ''u2'')]"
    "dget (doc_metadata demo_document) ''scope'' = Some (PDict [(''user_id'', PStr ''u2'')])"
    by (simp_all add: demo_provider_def memu_init_def demo_query_def demo_document_def dict_ok_def dget_def)
  from configured_scope_does_not_confine [OF this, of "''user_id''"] show ?thesis
    by (simp add: demo_query_def dget_def)
qed

theorem memorize_leaves_no_temporary_file_witness:
  "mst_temp_files (snd (snd (memory_execute (memu_memorize demo_memory_env) (memu_retrieve demo_memory_env)
       \<lparr>req_action = Memorize, req_documents = [demo_document], req_query = None\<rparr> demo_context
       (demo_provider, demo_memory_state)))) = [(''/data/x'', ''keep'')]"
proof -
  let ?r = "\<lparr>req_action = Memorize, req_documents = [demo_document], req_query = None\<rparr>"
  obtain r p' s' where x: "memory_execute (memu_memorize demo_memory_env) (memu_retrieve demo_memory_env) ?r
      demo_context (demo_provider, demo_memory_state) = (r, p', s')" using prod_cases3 by blast
  have "\<forall>n. me_temp_name demo_memory_env n \<notin> fst ` set (mst_temp_files demo_memory_state)"
    by (simp add: demo_memory_env_def demo_memory_state_def)
  from memorize_leaves_no_temporary_file [OF x _ this] x show ?thesis by (simp add: demo_memory_state_def)
qed

end
