(* ===== verification/Locking.thy ===== *)
theory Locking
  imports Stores Guild
begin

text \<open>
  Several callers on one store file: \<^verbatim>\<open>LocalTaskStore._locked\<close> with the temporary file of
  \<^verbatim>\<open>_write_unlocked\<close> (\<^verbatim>\<open>engine/runtime/store.py\<close>), as steps that interleave.  \<open>Stores\<close> and \<open>Guild\<close>
  take an operation as atomic; here a caller (a thread or a process, since \<^verbatim>\<open>flock\<close> belongs to the
  open file) can be overtaken between any two of its steps, may see the disk fail, or may be killed.
  With the lock, what has happened is a sequence of whole operations in the order in which they took
  effect, the operations being those of \<open>Stores\<close>.  The guild store writes its file in the same way
  and takes no lock: there a save can get lost.
\<close>

section \<open>Operations on the file\<close>

text \<open>
  As far as the file is concerned, \<^verbatim>\<open>save\<close> puts an entry under a key, and \<^verbatim>\<open>get\<close>, \<^verbatim>\<open>list\<close> and
  \<^verbatim>\<open>health_check\<close> read the payload.
\<close>

datatype 'j file_call = File_Save string 'j | File_Read

text \<open>What the operation does when nobody interferes: its result, the payload it read or wrote, and
  the file.\<close>

fun file_alone :: "'j file_call \<Rightarrow> 'j jfile \<Rightarrow> (exc + 'j dict) \<times> 'j jfile" where
  "file_alone File_Read f = (jread f, f)"
| "file_alone (File_Save k v) f = (case jread f of
       Inl e \<Rightarrow> (Inl e, f)
     | Inr payload \<Rightarrow> (Inr (dset k v payload), jwrite (dset k v payload)))"

section \<open>The directory, the lock and the callers\<close>

text \<open>The modules the platform has: \<^verbatim>\<open>fcntl\<close>, else \<^verbatim>\<open>msvcrt\<close>, else none, when nothing is locked.\<close>

datatype lock_module = Fcntl | Msvcrt | No_Lock

text \<open>
  Where a caller is in its operation: \<^verbatim>\<open>_acquire_lock\<close> not yet returned; inside the block of
  \<^verbatim>\<open>_locked\<close>; the new payload built; \<^verbatim>\<open>mkstemp\<close> returned a name; the temporary file written and
  synced; the block left, with its result, before \<^verbatim>\<open>_release_lock\<close>.
\<close>

datatype 'j place =
    Idle
  | Waiting "'j file_call"
  | Inside "'j file_call"
  | Built "'j file_call" "'j dict"
  | Temp_Made "'j file_call" "'j dict" string
  | Temp_Synced "'j file_call" "'j dict" string
  | Leaving "exc + 'j dict"

text \<open>What has taken effect, in order: an operation with its result, or one that raised without
  doing anything.  It is kept for the properties only.\<close>

datatype 'j effect = Took nat "'j file_call" "exc + 'j dict" | Raised nat "'j file_call" exc

record 'j directory =
  dir_file :: "'j jfile"
  dir_temps :: "string \<rightharpoonup> 'j jfile"
  dir_lock :: "nat option"
  dir_place :: "nat \<Rightarrow> 'j place"
  dir_history :: "'j effect list"

definition directory_start :: "'j jfile \<Rightarrow> 'j directory" where
  "directory_start f = \<lparr>dir_file = f, dir_temps = Map.empty, dir_lock = None,
     dir_place = (\<lambda>_. Idle), dir_history = []\<rparr>"

definition moved :: "nat \<Rightarrow> 'j place \<Rightarrow> 'j directory \<Rightarrow> 'j directory" where
  "moved p x d = d\<lparr>dir_place := (dir_place d)(p := x)\<rparr>"

definition noted :: "'j effect \<Rightarrow> 'j directory \<Rightarrow> 'j directory" where
  "noted x d = d\<lparr>dir_history := dir_history d @ [x]\<rparr>"

text \<open>\<^verbatim>\<open>_acquire_lock\<close> returns (\<open>Some\<close>) when nobody has the lock, and at once where there is no
  locking module.\<close>

definition acquire_lock :: "lock_module \<Rightarrow> nat \<Rightarrow> 'j directory \<Rightarrow> 'j directory option" where
  "acquire_lock m p d = (case m of
       No_Lock \<Rightarrow> Some d
     | _ \<Rightarrow> if dir_lock d = None then Some (d\<lparr>dir_lock := Some p\<rparr>) else None)"

definition release_lock :: "lock_module \<Rightarrow> nat \<Rightarrow> 'j directory \<Rightarrow> 'j directory" where
  "release_lock m p d =
     (if m \<noteq> No_Lock \<and> dir_lock d = Some p then d\<lparr>dir_lock := None\<rparr> else d)"

text \<open>\<^verbatim>\<open>_write_unlocked\<close>: \<^verbatim>\<open>mkstemp\<close>, the dump into the temporary file, \<^verbatim>\<open>os.replace\<close>, and the
  \<^verbatim>\<open>finally\<close> that removes a temporary file that is still there.\<close>

definition make_temp :: "string \<Rightarrow> 'j directory \<Rightarrow> 'j directory option" where
  "make_temp name d = (if name \<in> dom (dir_temps d) then None
     else Some (d\<lparr>dir_temps := (dir_temps d)(name \<mapsto> Blank)\<rparr>))"

definition fill_temp :: "string \<Rightarrow> 'j jfile \<Rightarrow> 'j directory \<Rightarrow> 'j directory" where
  "fill_temp name contents d = d\<lparr>dir_temps := (dir_temps d)(name \<mapsto> contents)\<rparr>"

definition replace_file :: "string \<Rightarrow> 'j directory \<Rightarrow> 'j directory" where
  "replace_file name d = (case dir_temps d name of
       None \<Rightarrow> d
     | Some contents \<Rightarrow> d\<lparr>dir_file := contents, dir_temps := (dir_temps d)(name := None)\<rparr>)"

definition unlink_temp :: "string \<Rightarrow> 'j directory \<Rightarrow> 'j directory" where
  "unlink_temp name d = d\<lparr>dir_temps := (dir_temps d)(name := None)\<rparr>"

text \<open>The temporary file of a caller, and the operation it has not finished.\<close>

fun temp_of :: "'j place \<Rightarrow> string option" where
  "temp_of (Temp_Made c payload name) = Some name"
| "temp_of (Temp_Synced c payload name) = Some name"
| "temp_of _ = None"

fun unfinished :: "'j place \<Rightarrow> 'j file_call option" where
  "unfinished (Inside c) = Some c"
| "unfinished (Built c payload) = Some c"
| "unfinished (Temp_Made c payload name) = Some c"
| "unfinished (Temp_Synced c payload name) = Some c"
| "unfinished _ = None"

section \<open>Steps\<close>

text \<open>
  One step of one caller.  \<open>enter_fails\<close> is an exception of the \<^verbatim>\<open>mkdir\<close>, \<^verbatim>\<open>open\<close> or lock call that
  comes before the block, \<open>raise\<close> an \<^verbatim>\<open>OSError\<close> of any call inside the block, after which the
  \<^verbatim>\<open>finally\<close> clauses run; \<open>kill\<close> ends the caller where it is: the operating system frees its lock,
  a temporary file stays behind.  A partly written temporary file holds some text (\<open>Corrupt\<close>).
\<close>

inductive file_step :: "lock_module \<Rightarrow> 'j directory \<Rightarrow> 'j directory \<Rightarrow> bool" for m where
  call: "dir_place d p = Idle \<Longrightarrow> file_step m d (moved p (Waiting c) d)"
| acquire: "\<lbrakk>dir_place d p = Waiting c; acquire_lock m p d = Some d'\<rbrakk> \<Longrightarrow>
    file_step m d (moved p (Inside c) d')"
| enter_fails: "dir_place d p = Waiting c \<Longrightarrow>
    file_step m d (moved p Idle (noted (Raised p c e) d))"
| read: "\<lbrakk>dir_place d p = Inside File_Read\<rbrakk> \<Longrightarrow>
    file_step m d (moved p (Leaving (jread (dir_file d)))
      (noted (Took p File_Read (jread (dir_file d))) d))"
| build: "\<lbrakk>dir_place d p = Inside (File_Save k v); jread (dir_file d) = Inr payload\<rbrakk> \<Longrightarrow>
    file_step m d (moved p (Built (File_Save k v) (dset k v payload)) d)"
| build_fails: "\<lbrakk>dir_place d p = Inside (File_Save k v); jread (dir_file d) = Inl e\<rbrakk> \<Longrightarrow>
    file_step m d (moved p (Leaving (Inl e)) (noted (Took p (File_Save k v) (Inl e)) d))"
| mkstemp: "\<lbrakk>dir_place d p = Built c payload; make_temp name d = Some d'\<rbrakk> \<Longrightarrow>
    file_step m d (moved p (Temp_Made c payload name) d')"
| write_part: "dir_place d p = Temp_Made c payload name \<Longrightarrow>
    file_step m d (fill_temp name (Corrupt text) d)"
| write_all: "dir_place d p = Temp_Made c payload name \<Longrightarrow>
    file_step m d (moved p (Temp_Synced c payload name) (fill_temp name (jwrite payload) d))"
| replace: "dir_place d p = Temp_Synced c payload name \<Longrightarrow>
    file_step m d (moved p (Leaving (Inr payload))
      (noted (Took p c (Inr payload)) (replace_file name d)))"
| raise: "unfinished (dir_place d p) = Some c \<Longrightarrow>
    file_step m d (moved p (Leaving (Inl e)) (noted (Raised p c e)
      (case temp_of (dir_place d p) of None \<Rightarrow> d | Some name \<Rightarrow> unlink_temp name d)))"
| release: "dir_place d p = Leaving r \<Longrightarrow>
    file_step m d (moved p Idle (release_lock m p d))"
| kill: "file_step m d (moved p Idle (release_lock m p d))"

inductive file_steps :: "lock_module \<Rightarrow> 'j directory \<Rightarrow> 'j directory \<Rightarrow> bool" for m d where
  file_steps_none: "file_steps m d d"
| file_steps_more: "\<lbrakk>file_steps m d d'; file_step m d' d''\<rbrakk> \<Longrightarrow> file_steps m d d''"

inductive_cases file_stepE: "file_step m d d'"

section \<open>With the lock: one operation after the other\<close>

text \<open>A history is followed from a file to the file it ends with, when every operation in it has the
  result it has alone.\<close>

fun follows :: "'j effect list \<Rightarrow> 'j jfile \<Rightarrow> 'j jfile option" where
  "follows [] f = Some f"
| "follows (Took p c r # xs) f =
     (if fst (file_alone c f) = r then follows xs (snd (file_alone c f)) else None)"
| "follows (Raised p c e # xs) f = follows xs f"

lemma follows_append: "follows (xs @ ys) f = Option.bind (follows xs f) (follows ys)"
  by (induction xs f rule: follows.induct) auto

text \<open>A caller inside the block has the lock, and what it is about to write is what its operation
  makes of the file as it is now.\<close>

fun inside_block :: "'j place \<Rightarrow> bool" where
  "inside_block Idle = False"
| "inside_block (Waiting c) = False"
| "inside_block _ = True"

fun place_ok :: "'j directory \<Rightarrow> 'j place \<Rightarrow> bool" where
  "place_ok d (Built c payload) = (file_alone c (dir_file d) = (Inr payload, jwrite payload))"
| "place_ok d (Temp_Made c payload name) = (file_alone c (dir_file d) = (Inr payload, jwrite payload))"
| "place_ok d (Temp_Synced c payload name) =
     (file_alone c (dir_file d) = (Inr payload, jwrite payload) \<and>
      dir_temps d name = Some (jwrite payload))"
| "place_ok d _ = True"

definition block_ok :: "'j directory \<Rightarrow> bool" where
  "block_ok d \<longleftrightarrow> (\<forall>p. inside_block (dir_place d p) \<longrightarrow> dir_lock d = Some p \<and> place_ok d (dir_place d p))"

lemmas directory_ops = moved_def noted_def acquire_lock_def release_lock_def make_temp_def
  fill_temp_def replace_file_def unlink_temp_def

lemma block_ok_start: "block_ok (directory_start f)"
  by (simp add: block_ok_def directory_start_def)

lemma unfinished_inside: "unfinished x = Some c \<Longrightarrow> inside_block x"
  by (cases x) auto

lemma block_okD:
  "\<lbrakk>block_ok d; inside_block (dir_place d p)\<rbrakk> \<Longrightarrow> dir_lock d = Some p \<and> place_ok d (dir_place d p)"
  by (simp add: block_ok_def)

text \<open>A step of a caller that has the lock concerns nobody else in the block, and a caller without
  it changes neither the file nor a temporary file.\<close>

lemma block_ok_mine:
  assumes "block_ok d" "inside_block (dir_place d p)"
    and "dir_place d' = (dir_place d)(p := x)"
    and "inside_block x \<Longrightarrow> dir_lock d' = Some p \<and> place_ok d' x"
  shows "block_ok d'"
  using assms unfolding block_ok_def by (metis fun_upd_apply option.inject)

lemma place_ok_cong:
  "\<lbrakk>dir_file d' = dir_file d; dir_temps d' = dir_temps d\<rbrakk> \<Longrightarrow> place_ok d' x = place_ok d x"
  by (cases x) auto

lemma block_ok_other:
  assumes "block_ok d" "\<not> inside_block x" "dir_place d' = (dir_place d)(p := x)"
    and "dir_file d' = dir_file d" "dir_temps d' = dir_temps d"
    and "dir_lock d' = dir_lock d \<or> dir_lock d = Some p"
  shows "block_ok d'"
  using assms place_ok_cong [OF assms(4,5)] unfolding block_ok_def
  by (metis fun_upd_apply option.inject)

lemma block_ok_step:
  assumes "file_step m d d'" "m \<noteq> No_Lock" "block_ok d"
  shows "block_ok d'"
  using assms(1)
proof cases
  case (call p c)
  then show ?thesis by (intro block_ok_other [OF assms(3), of "Waiting c" _ p]) (simp_all add: directory_ops)
next
  case (acquire p c d1)
  have free: "dir_lock d = None" "d1 = d\<lparr>dir_lock := Some p\<rparr>"
    using acquire(3) assms(2) by (auto simp: acquire_lock_def split: lock_module.splits if_splits)
  then show ?thesis using assms(3) acquire(1)
    by (auto simp: block_ok_def directory_ops)
next
  case (enter_fails p c e)
  then show ?thesis by (intro block_ok_other [OF assms(3), of Idle _ p]) (simp_all add: directory_ops)
next
  case (read p)
  have "dir_lock d = Some p" using read(2) block_okD [OF assms(3), of p] by simp
  then show ?thesis using read
    by (intro block_ok_mine [OF assms(3), of p _ "Leaving (jread (dir_file d))"]) (simp_all add: directory_ops)
next
  case (build p k v payload)
  have "dir_lock d = Some p" using build(2) block_okD [OF assms(3), of p] by simp
  then show ?thesis using build
    by (intro block_ok_mine [OF assms(3), of p _ "Built (File_Save k v) (dset k v payload)"]) (simp_all add: directory_ops)
next
  case (build_fails p k v e)
  have "dir_lock d = Some p" using build_fails(2) block_okD [OF assms(3), of p] by simp
  then show ?thesis using build_fails
    by (intro block_ok_mine [OF assms(3), of p _ "Leaving (Inl e)"]) (simp_all add: directory_ops)
next
  case (mkstemp p c payload name d1)
  have "dir_lock d = Some p" "place_ok d (Built c payload)"
    using mkstemp(2) block_okD [OF assms(3), of p] by simp_all
  then show ?thesis using mkstemp
    by (intro block_ok_mine [OF assms(3), of p _ "Temp_Made c payload name"]) (auto simp: directory_ops split: if_splits)
next
  case (write_part p c payload name written)
  have "dir_lock d = Some p" "place_ok d (Temp_Made c payload name)"
    using write_part(2) block_okD [OF assms(3), of p] by simp_all
  then show ?thesis using write_part
    by (intro block_ok_mine [OF assms(3), of p _ "Temp_Made c payload name"]) (auto simp: directory_ops)
next
  case (write_all p c payload name)
  have "dir_lock d = Some p" "place_ok d (Temp_Made c payload name)"
    using write_all(2) block_okD [OF assms(3), of p] by simp_all
  then show ?thesis using write_all
    by (intro block_ok_mine [OF assms(3), of p _ "Temp_Synced c payload name"]) (auto simp: directory_ops)
next
  case (replace p c payload name)
  have "dir_lock d = Some p" using replace(2) block_okD [OF assms(3), of p] by simp
  then show ?thesis using replace
    by (intro block_ok_mine [OF assms(3), of p _ "Leaving (Inr payload)"]) (simp_all add: directory_ops split: option.splits)
next
  case (raise p c e)
  have "dir_lock d = Some p" using unfinished_inside [OF raise(2)] block_okD [OF assms(3), of p] by simp
  then show ?thesis using raise unfinished_inside [OF raise(2)]
    by (intro block_ok_mine [OF assms(3), of p _ "Leaving (Inl e)"]) (simp_all add: directory_ops split: option.splits)
next
  case (release p r)
  then show ?thesis
    by (intro block_ok_other [OF assms(3), of Idle _ p]) (auto simp: directory_ops)
next
  case (kill p)
  then show ?thesis
    by (intro block_ok_other [OF assms(3), of Idle _ p]) (auto simp: directory_ops)
qed

lemma follows_note:
  "follows xs f0 = Some f \<Longrightarrow> follows (xs @ [Took p c r]) f0 =
     (if fst (file_alone c f) = r then Some (snd (file_alone c f)) else None)"
  "follows xs f0 = Some f \<Longrightarrow> follows (xs @ [Raised p c e]) f0 = Some f"
  by (simp_all add: follows_append)

lemma follows_step:
  assumes "file_step m d d'" "m \<noteq> No_Lock" "block_ok d" "follows (dir_history d) f0 = Some (dir_file d)"
  shows "follows (dir_history d') f0 = Some (dir_file d')"
  using assms(1)
proof cases
  case (replace p c payload name)
  have "place_ok d (Temp_Synced c payload name)"
    using replace(2) block_okD [OF assms(3), of p] by simp
  then show ?thesis using replace(1) assms(4) by (simp add: directory_ops follows_note)
next
  case (acquire p c d1)
  then show ?thesis using assms(4)
    by (auto simp: directory_ops split: lock_module.splits if_splits)
qed (use assms(4) in \<open>auto simp: directory_ops follows_note split: option.splits if_splits\<close>)

lemma directory_invariant:
  assumes "file_steps m (directory_start f) d" "m \<noteq> No_Lock"
  shows "block_ok d \<and> follows (dir_history d) f = Some (dir_file d)"
  using assms(1)
proof induction
  case file_steps_none
  then show ?case using block_ok_start by (simp add: directory_start_def)
next
  case (file_steps_more d' d'')
  then show ?case using block_ok_step follows_step assms(2) by blast
qed

text \<open>What a history saved last under a key.\<close>

fun last_saved :: "'j effect list \<Rightarrow> string \<Rightarrow> 'j option \<Rightarrow> 'j option" where
  "last_saved [] key found = found"
| "last_saved (Took p (File_Save k v) (Inr r) # xs) key found =
     last_saved xs key (if k = key then Some v else found)"
| "last_saved (x # xs) key found = last_saved xs key found"

lemma followed_file:
  assumes "follows xs f = Some f'" "jread f = Inr payload" "dict_ok payload"
  shows "\<exists>payload'. jread f' = Inr payload' \<and> dict_ok payload' \<and>
    (\<forall>k. dget payload' k = last_saved xs k (dget payload k))"
  using assms
proof (induction xs arbitrary: f payload)
  case Nil
  then show ?case by auto
next
  case (Cons x xs)
  show ?case
  proof (cases x)
    case (Raised p c e)
    then show ?thesis using Cons.IH [of f payload] Cons.prems by simp
  next
    case x: (Took p c r)
    show ?thesis
    proof (cases c)
      case File_Read
      then show ?thesis using Cons.IH [of f payload] Cons.prems x
        by (cases r) (auto split: if_splits)
    next
      case (File_Save k v)
      have "follows xs (jwrite (dset k v payload)) = Some f'" "r = Inr (dset k v payload)"
        using Cons.prems x File_Save by (auto split: if_splits)
      then show ?thesis
        using Cons.IH [of "jwrite (dset k v payload)" "sort_key fst (dset k v payload)"] Cons.prems(3) x File_Save
        by (auto split: if_splits)
    qed
  qed
qed

section \<open>The task store under its lock\<close>

text \<open>The operations of \<open>Stores\<close>, which are atomic there, are those of this file run alone.\<close>

definition task_save_call :: "'j codec \<Rightarrow> task_record \<Rightarrow> 'j file_call" where
  "task_save_call c task = File_Save (task_id task) (model_dump c task)"

lemma ls_save_alone:
  "ls_save c task s =
     map_sum id (\<lambda>_. s\<lparr>ls_file := snd (file_alone (task_save_call c task) (ls_file s))\<rparr>)
       (fst (file_alone (task_save_call c task) (ls_file s)))"
  by (simp add: ls_save_def ls_read_unlocked_def ls_write_unlocked_def task_save_call_def split: sum.splits)

lemma ls_read_alone: "ls_read_unlocked s = fst (file_alone File_Read (ls_file s))"
  by (simp add: ls_read_unlocked_def)

text \<open>A save that nobody overtakes.\<close>

lemma file_steps_trans: "\<lbrakk>file_steps m d' d''; file_steps m d d'\<rbrakk> \<Longrightarrow> file_steps m d d''"
  by (induction rule: file_steps.induct) (auto intro: file_steps_more)

lemma moved_twice [simp]: "moved p y (moved p x d) = moved p y d"
  by (simp add: moved_def)

lemma moved_at [simp]: "dir_place (moved p x d) p = x"
  by (simp add: moved_def)

lemma release_lock_moved [simp]: "release_lock m p (moved q x d) = moved q x (release_lock m p d)"
  by (simp add: release_lock_def moved_def)

lemma save_builds:
  assumes "dir_place d p = Idle" "acquire_lock m p d = Some d'" "jread (dir_file d) = Inr payload"
  shows "file_steps m d (moved p (Built (File_Save k v) (dset k v payload)) d')"
proof -
  let ?c = "File_Save k v"
  have "acquire_lock m p (moved p (Waiting ?c) d) = Some (moved p (Waiting ?c) d')"
    using assms(2) by (auto simp: acquire_lock_def moved_def split: lock_module.splits if_splits)
  then have "file_step m (moved p (Waiting ?c) d) (moved p (Inside ?c) (moved p (Waiting ?c) d'))"
    by (intro acquire) (simp add: moved_def)
  moreover have "dir_file d' = dir_file d"
    using assms(2) by (auto simp: acquire_lock_def split: lock_module.splits if_splits)
  then have "file_step m (moved p (Inside ?c) d') (moved p (Built ?c (dset k v payload)) (moved p (Inside ?c) d'))"
    using assms(3) by (intro build) (simp_all add: moved_def)
  ultimately show ?thesis
    using file_steps_more [OF file_steps_more [OF file_steps_more [OF file_steps_none
        call [where d = d and p = p and c = ?c and m = m, OF assms(1)]]]] by simp
qed

lemma save_writes:
  assumes "dir_place d p = Built c payload" "dir_temps d name = None"
  shows "file_steps m d
    (moved p Idle (release_lock m p (noted (Took p c (Inr payload)) (d\<lparr>dir_file := jwrite payload\<rparr>))))"
proof -
  let ?d1 = "d\<lparr>dir_temps := (dir_temps d)(name \<mapsto> Blank)\<rparr>"
  let ?d2 = "d\<lparr>dir_temps := (dir_temps d)(name \<mapsto> jwrite payload)\<rparr>"
  let ?d3 = "noted (Took p c (Inr payload)) (d\<lparr>dir_file := jwrite payload\<rparr>)"
  have a: "file_step m d (moved p (Temp_Made c payload name) ?d1)"
    using assms by (intro mkstemp) (auto simp: make_temp_def)
  have b: "file_step m (moved p (Temp_Made c payload name) ?d1) (moved p (Temp_Synced c payload name) ?d2)"
    using write_all [where d = "moved p (Temp_Made c payload name) ?d1" and p = p and c = c
        and payload = payload and name = name and m = m]
    by (simp add: moved_def fill_temp_def)
  have "(dir_temps d)(name := None) = dir_temps d"
    using assms(2) by auto
  then have c: "file_step m (moved p (Temp_Synced c payload name) ?d2) (moved p (Leaving (Inr payload)) ?d3)"
    using replace [where d = "moved p (Temp_Synced c payload name) ?d2" and p = p and c = c
        and payload = payload and name = name and m = m]
    by (simp add: moved_def replace_file_def noted_def)
  have "file_step m (moved p (Leaving (Inr payload)) ?d3) (moved p Idle (release_lock m p ?d3))"
    using release [where d = "moved p (Leaving (Inr payload)) ?d3" and p = p and r = "Inr payload" and m = m]
    by simp
  then show ?thesis
    by (rule file_steps_more [OF file_steps_more [OF file_steps_more [OF file_steps_more [OF file_steps_none a] b] c]])
qed

text \<open>
  C10. Whatever number of callers use the file of a \<^verbatim>\<open>LocalTaskStore\<close>, however their steps
  interleave, and whoever is killed or meets a failing disk: on a platform with a locking module the
  file is at every moment the one that the finished operations leave when they are run one after
  another, every one of them with the result it has alone; so a task reads back as it was saved
  last, and the file always decodes.\<close>
theorem no_save_is_lost:
  assumes "m \<noteq> No_Lock" "file_steps m (directory_start f) d"
    and "jread f = Inr payload" "dict_ok payload"
  shows "follows (dir_history d) f = Some (dir_file d) \<and>
    ls_get c \<lparr>ls_path = path, ls_file = dir_file d\<rparr> tid =
      (case last_saved (dir_history d) tid (dget payload tid) of
         None \<Rightarrow> Inr None
       | Some j \<Rightarrow> map_sum id Some (model_validate c j))"
proof -
  have h: "follows (dir_history d) f = Some (dir_file d)"
    using directory_invariant [OF assms(2,1)] by simp
  show ?thesis using followed_file [OF h assms(3,4)] h
    by (auto simp: ls_get_def ls_read_unlocked_def split: option.splits)
qed

lemma one_save_runs:
  assumes "dir_place d p = Idle" "dir_lock d = None" "dir_temps d = Map.empty"
    and "jread (dir_file d) = Inr payload"
  shows "file_steps Fcntl d
    (moved p Idle (noted (Took p (File_Save k v) (Inr (dset k v payload)))
       (d\<lparr>dir_file := jwrite (dset k v payload)\<rparr>)))"
proof -
  have "acquire_lock Fcntl p d = Some (d\<lparr>dir_lock := Some p\<rparr>)"
    using assms(2) by (simp add: acquire_lock_def)
  note b = save_builds [where k = k and v = v, OF assms(1) this assms(4)]
  let ?d = "moved p (Built (File_Save k v) (dset k v payload)) (d\<lparr>dir_lock := Some p\<rparr>)"
  have "dir_place ?d p = Built (File_Save k v) (dset k v payload)" "dir_temps ?d [] = None"
    by (simp_all add: moved_def assms(3))
  note w = file_steps_trans [OF save_writes [where m = Fcntl, OF this] b]
  have "d\<lparr>dir_lock := None\<rparr> = d" using assms(2) by (cases d) simp
  then have "moved p Idle (release_lock Fcntl p (noted x (?d\<lparr>dir_file := f\<rparr>))) =
      moved p Idle (noted x (d\<lparr>dir_file := f\<rparr>))" for x f
    by (cases d) (simp add: moved_def noted_def release_lock_def)
  with w show ?thesis by (simp only:)
qed

lemma no_save_is_lost_witness:
  "\<exists>d. file_steps Fcntl (directory_start Absent) d \<and> length (dir_history d) = 2 \<and>
     ls_get record_codec \<lparr>ls_path = ''t.json'', ls_file = dir_file d\<rparr> ''a'' =
       Inr (Some (new_task_record ''a'' ''second'' ''echo'' 1))"
proof -
  let ?t = "\<lambda>n. new_task_record ''a'' n ''echo'' 1"
  let ?d1 = "moved 0 Idle (noted (Took 0 (task_save_call record_codec (?t ''first''))
      (Inr (dset ''a'' (?t ''first'') []))) ((directory_start Absent)\<lparr>dir_file := jwrite (dset ''a'' (?t ''first'') [])\<rparr>))"
  have a: "file_steps Fcntl (directory_start Absent) ?d1"
    using one_save_runs [where d = "directory_start Absent" and p = 0 and k = "''a''" and v = "?t ''first''" and payload = "[]"]
    by (simp add: directory_start_def task_save_call_def record_codec_def new_task_record_def)
  obtain payload where "jread (dir_file ?d1) = Inr payload" by (simp add: moved_def noted_def)
  then have "file_steps Fcntl ?d1 (moved 1 Idle (noted (Took 1 (task_save_call record_codec (?t ''second''))
      (Inr (dset ''a'' (?t ''second'') payload))) (?d1\<lparr>dir_file := jwrite (dset ''a'' (?t ''second'') payload)\<rparr>)))"
      (is "file_steps _ _ ?d2")
    using one_save_runs [where d = ?d1 and p = 1 and k = "''a''" and v = "?t ''second''" and payload = payload]
    by (simp add: directory_start_def moved_def noted_def task_save_call_def record_codec_def new_task_record_def)
  then have r: "file_steps Fcntl (directory_start Absent) ?d2" using a by (rule file_steps_trans)
  have "jread Absent = Inr []" "dict_ok []" by simp_all
  note n = no_save_is_lost [OF _ r this, of record_codec "''t.json''" "''a''"]
  have "length (dir_history ?d2) = 2" by (simp add: moved_def noted_def directory_start_def)
  moreover have "last_saved (dir_history ?d2) ''a'' None = Some (?t ''second'')"
    by (simp add: moved_def noted_def directory_start_def task_save_call_def record_codec_def new_task_record_def)
  ultimately show ?thesis using r n by (auto simp: record_codec_def intro!: exI [of _ ?d2])
qed

section \<open>The guild store without a lock\<close>

definition guild_save_call :: "guild_record \<Rightarrow> (exc + guild_record) file_call" where
  "guild_save_call record = File_Save (gr_key record) (Inr record)"

lemma lg_save_alone:
  "lg_save record s =
     map_sum id (\<lambda>_. s\<lparr>lg_file := snd (file_alone (guild_save_call record) (lg_file s))\<rparr>)
       (fst (file_alone (guild_save_call record) (lg_file s)))"
  by (simp add: lg_save_def lg_read_all_def lg_write_all_def guild_save_call_def split: sum.splits)

text \<open>Two saves of different records overlap: both return, and the first record is gone.\<close>

lemma guild_save_can_be_lost:
  assumes "gr_key r \<noteq> gr_key r'"
  shows "\<exists>d payload payload'. file_steps No_Lock (directory_start Absent) d \<and>
    (\<forall>p. dir_place d p = Idle) \<and>
    dir_history d = [Took 0 (guild_save_call r) (Inr payload), Took 1 (guild_save_call r') (Inr payload')] \<and>
    lg_get \<lparr>lg_path = path, lg_file = dir_file d\<rparr> (gr_fingerprint r) = Inr None"
proof -
  let ?c = "guild_save_call r" and ?c' = "guild_save_call r'"
  let ?x = "dset (gr_key r) (Inr r) []" and ?y = "dset (gr_key r') (Inr r') []"
  let ?s = "directory_start Absent :: (exc + guild_record) directory"
  let ?d1 = "moved 0 (Built ?c ?x) ?s"
  let ?d2 = "moved 1 (Built ?c' ?y) ?d1"
  let ?d3 = "moved 0 Idle (noted (Took 0 ?c (Inr ?x)) (?d2\<lparr>dir_file := jwrite ?x\<rparr>))"
  let ?d4 = "moved 1 Idle (noted (Took 1 ?c' (Inr ?y)) (?d3\<lparr>dir_file := jwrite ?y\<rparr>))"
  note defs = directory_start_def moved_def noted_def acquire_lock_def release_lock_def guild_save_call_def
  have "file_steps No_Lock ?s ?d1"
    using save_builds [where d = ?s and d' = ?s and payload = "[]" and p = 0 and m = No_Lock and k = "gr_key r" and v = "Inr r"] by (simp add: defs)
  moreover have "file_steps No_Lock ?d1 ?d2"
    using save_builds [where d = ?d1 and d' = ?d1 and payload = "[]" and p = 1 and m = No_Lock and k = "gr_key r'" and v = "Inr r'"] by (simp add: defs)
  moreover have "file_steps No_Lock ?d2 ?d3"
    using save_writes [where d = ?d2 and p = 0 and m = No_Lock and name = "[]" and c = ?c and payload = ?x]
    by (simp add: defs)
  moreover have "file_steps No_Lock ?d3 ?d4"
    using save_writes [where d = ?d3 and p = 1 and m = No_Lock and name = "[]" and c = ?c' and payload = ?y]
    by (simp add: defs)
  ultimately have r: "file_steps No_Lock ?s ?d4" by (blast intro: file_steps_trans)
  have "lg_get \<lparr>lg_path = path, lg_file = dir_file ?d4\<rparr> (gr_fingerprint r) = Inr None"
    using assms by (simp add: defs lg_get_def lg_read_all_def)
  moreover have "\<forall>p. dir_place ?d4 p = Idle" by (simp add: defs)
  moreover have "dir_history ?d4 = [Took 0 ?c (Inr ?x), Took 1 ?c' (Inr ?y)]" by (simp add: defs)
  ultimately show ?thesis using r by blast
qed

end
