(* ===== verification/Races.thy ===== *)
theory Races
  imports Supervisor_Properties
begin

text \<open>
  Two requests on one task (\<^verbatim>\<open>supervisor/service.py\<close>).  \<open>Supervisor\<close> runs every operation to its end
  before the next; the endpoints that call them are plain functions, which FastAPI runs in a pool of
  threads, and several processes may share a task store.  The supervisor reads the record first,
  decides on it and saves it later, and no lock spans the two.  Here the operations are cut after the
  read, so that another operation can come between.
\<close>

section \<open>The operations after their read\<close>

definition approve_loaded ::
  "supervisor \<Rightarrow> string \<Rightarrow> string \<Rightarrow> pydict option \<Rightarrow> bool \<Rightarrow> task_record \<Rightarrow> world \<Rightarrow> (exc + task_record) \<times> world" where
  "approve_loaded sv tid actor metadata run task w =
     (if task_status task \<noteq> AWAITING_APPROVAL
      then (Inl (Value_Error (''Task '' @ quote1 @ tid @ quote1 @ '' is not awaiting approval'')), w)
      else
        let (approved, w) = transition_status sv APPROVED actor ''approved'' TASK_APPROVED
              (empty_if_none metadata) None None (task, w)
        in if \<not> run
           then (case tq_enqueue tid (w_queue w) of
                   Inl e \<Rightarrow> (Inl e, w) | Inr q \<Rightarrow> (Inr approved, w\<lparr>w_queue := q\<rparr>))
           else run_task sv tid w)"

definition run_loaded :: "supervisor \<Rightarrow> task_record \<Rightarrow> world \<Rightarrow> (exc + task_record) \<times> world" where
  "run_loaded sv task w =
     (if \<not> executable_status (task_status task) then (Inr task, w)
      else case validate_task_submission (build_submission task) (sv_registry sv) of
        Inl e \<Rightarrow> (Inl e, w)
      | Inr capability \<Rightarrow>
          if task_status task = PENDING
          then
            if cd_require_approval (cap_descriptor capability)
            then (let (task, w) = transition_status sv AWAITING_APPROVAL ''supervisor'' ''awaiting_approval''
                    TASK_AWAITING_APPROVAL
                    [(''reason'', PStr ''capability requires approval''),
                     (''capability'', PStr (task_capability task))] None None (task, w)
                  in (Inr task, w))
            else case policy_evaluate (sv_policy sv) task
                \<lparr>pc_capability = cap_descriptor capability, pc_workdir = sv_workdir sv\<rparr> of
              Inl e \<Rightarrow> (Inl e, w)
            | Inr decision \<Rightarrow>
                (let (task, w) = apply_policy sv decision (task, w) in
                 if task_status task \<noteq> PENDING then (Inr task, w)
                 else execute_task sv capability (task, w))
          else execute_task sv capability (task, w))"

text \<open>Read and rest make the operation of \<open>Supervisor\<close>.\<close>

lemma approve_task_read_then_rest:
  "approve_task sv tid actor metadata run w = (case get_task w tid of
     Inl e \<Rightarrow> (Inl e, w) | Inr task \<Rightarrow> approve_loaded sv tid actor metadata run task w)"
  by (simp add: approve_task_def approve_loaded_def split: sum.split)

lemma run_task_read_then_rest:
  "run_task sv tid w = (case get_task w tid of
     Inl e \<Rightarrow> (Inl e, w) | Inr task \<Rightarrow> run_loaded sv task w)"
  by (simp add: run_task_def run_loaded_def split: sum.split)

section \<open>What a transition leaves in the store\<close>

lemma transition_stores:
  assumes "transition_status sv st a b et md err ts (t, w) = (t', w')"
  shows "get_task w' (task_id t) = Inr t'" "task_status t' = st" "task_id t' = task_id t"
    and "\<exists>x. task_audit_trail t' = task_audit_trail t @ [x] \<and> au_action x = b \<and> au_to x = Some st"
  using assms
  by (auto simp: transition_status_def append_audit_def save_task_def emit_event_def or_now_def now_utc_def
      get_task_def Let_def split: prod.splits option.splits if_splits)

section \<open>An approval that overtakes a cancellation\<close>

text \<open>
  A task awaits approval.  An approval has read the record when the task is cancelled: the caller of
  \<^verbatim>\<open>cancel_task\<close> gets the cancelled record, and the store has it.  Then the approval goes on: the
  stored task is approved, its trail does not mention the cancellation, and with \<^verbatim>\<open>run=True\<close> the task
  is run from that state.
\<close>

theorem approval_overwrites_cancellation:
  assumes "get_task w tid = Inr t" "task_status t = AWAITING_APPROVAL" "ms_ok (w_store w)"
  shows "\<exists>x w1 t2 w2. cancel_task sv tid canceller reason md w = (Inr x, w1) \<and>
      task_status x = CANCELLED \<and> get_task w1 tid = Inr x \<and>
      get_task w2 tid = Inr t2 \<and> task_status t2 = APPROVED \<and>
      (\<exists>e. task_audit_trail t2 = task_audit_trail t @ [e] \<and> au_action e = ''approved'') \<and>
      approve_loaded sv tid actor md' True t w1 = run_task sv tid w2"
proof -
  have id: "task_id t = tid" using get_task_id assms(1,3) by blast
  let ?md = "case reason of None \<Rightarrow> empty_if_none md | Some r \<Rightarrow> dsetdefault ''reason'' (PStr r) (empty_if_none md)"
  obtain n w0 where n: "now_utc sv w = (n, w0)" by fastforce
  let ?t = "t\<lparr>task_result := Some
       \<lparr>res_success = False, res_output = PNone, res_error = Some (opt_or reason ''Task cancelled''),
        res_metadata = ?md, res_started_at = None, res_completed_at = Some n\<rparr>\<rparr>"
  obtain x w1 where x: "transition_status sv CANCELLED canceller ''cancelled'' TASK_CANCELLED ?md
      (Some (opt_or reason ''Task cancelled'')) (Some n) (?t, w0) = (x, w1)" by fastforce
  have "cancel_task sv tid canceller reason md w = (Inr x, w1)"
    using assms(1,2) n x by (simp add: cancel_task_def Let_def)
  moreover have "get_task w1 tid = Inr x" "task_status x = CANCELLED"
    using transition_stores(1,2) [OF x] id by simp_all
  moreover obtain t2 w2 where t2: "transition_status sv APPROVED actor ''approved'' TASK_APPROVED
      (empty_if_none md') None None (t, w1) = (t2, w2)" by fastforce
  then have "get_task w2 tid = Inr t2" "task_status t2 = APPROVED"
    "\<exists>e. task_audit_trail t2 = task_audit_trail t @ [e] \<and> au_action e = ''approved''"
    using transition_stores [OF t2] id by auto
  moreover have "approve_loaded sv tid actor md' True t w1 = run_task sv tid w2"
    using assms(2) t2 by (simp add: approve_loaded_def)
  ultimately show ?thesis by blast
qed

text \<open>
  Two runs of one approved task: whatever the first one did to the store, the second, which had read
  the record before, executes the capability again.
\<close>

theorem second_run_executes_again:
  assumes "get_task w tid = Inr t" "task_status t = APPROVED"
    and "validate_task_submission (build_submission t) (sv_registry sv) = Inr c"
  shows "run_task sv tid w = execute_task sv c (t, w) \<and>
    (\<forall>w1. run_loaded sv t w1 = execute_task sv c (t, w1))"
  using assms by (simp add: run_task_read_then_rest run_loaded_def executable_status_def)

end
